(* ===== verification/Prelude.thy ===== *)
theory Prelude
  imports
    Main
    "HOL-Library.Multiset"
    "HOL-Library.Char_ord"
    "HOL-Library.List_Lexorder"
    "HOL-Library.Product_Lexorder"
    "HOL-Library.Monad_Syntax"
begin

text \<open>
  What every component of the development shares.

  \<^item> The value of a Rust expression that may panic (an index out of range, an
    \<open>unwrap\<close> of \<open>None\<close>) has type \<open>'a panics\<close>: \<^term>\<open>None\<close> is the panic.
  \<^item> A Rust \<open>String\<close> is its sequence of UTF-8 bytes, a \<^typ>\<open>string\<close>; the order of
    \<open>List_Lexorder\<close> over \<open>Char_ord\<close> is Rust's byte order \<open>Ord for str\<close>.
  \<^item> Vec and HashMap idioms of the code: \<open>sort\<close> followed by \<open>dedup\<close>, grouping with
    \<open>entry(k).or_default().push(x)\<close>, counting with \<open>entry(k).or_insert(0) += 1\<close>, and
    first-seen deduplication with a \<open>HashSet\<close>.
  \<^item> The lemmas about them that the component proofs share.
\<close>

section \<open>Names and collections\<close>

type_synonym 'a panics = "'a option"

named_theorems agg_simps \<open>selector equations of the mergeable records\<close>

section \<open>Panics\<close>

text \<open>Indexing \<open>xs[i]\<close>: a panic when \<open>i\<close> is out of range.\<close>

definition index_at :: "'a list \<Rightarrow> nat \<Rightarrow> 'a panics" where
  "index_at xs i = (if i < length xs then Some (xs ! i) else None)"

text \<open>A loop body that may panic, mapped over a sequence.\<close>

definition map_panics :: "('a \<Rightarrow> 'b panics) \<Rightarrow> 'a list \<Rightarrow> 'b list panics" where
  "map_panics f xs = those (map f xs)"

lemma map_panics_simps [simp]:
  "map_panics f [] = Some []"
  "map_panics f (x # xs) = (case f x of None \<Rightarrow> None | Some y \<Rightarrow> map_option (Cons y) (map_panics f xs))"
  by (simp_all add: map_panics_def split: option.split)

lemma map_panics_Some_iff:
  "map_panics f xs = Some ys \<longleftrightarrow> (\<forall>x \<in> set xs. f x \<noteq> None) \<and> ys = map (\<lambda>x. the (f x)) xs"
  by (induction xs arbitrary: ys) (auto split: option.splits)

lemma map_panics_None_iff: "map_panics f xs = None \<longleftrightarrow> (\<exists>x \<in> set xs. f x = None)"
  by (induction xs) (auto split: option.splits)

lemma map_panics_cong [fundef_cong]:
  "xs = ys \<Longrightarrow> (\<And>x. x \<in> set ys \<Longrightarrow> f x = g x) \<Longrightarrow> map_panics f xs = map_panics g ys"
  by (auto simp: map_panics_def intro!: arg_cong [where f = those])

lemma map_panics_index_at:
  "(\<forall>i \<in> set is. i < length xs) \<Longrightarrow> map_panics (index_at xs) is = Some (map ((!) xs) is)"
  by (induction "is") (auto simp: index_at_def)

lemma map_panics_index_at_None:
  "\<exists>i \<in> set is. length xs \<le> i \<Longrightarrow> map_panics (index_at xs) is = None"
  unfolding map_panics_None_iff index_at_def by (auto simp: not_less)

section \<open>Integer casts\<close>

text \<open>\<open>n as i32\<close> and \<open>n as u32\<close> of a \<open>usize\<close>: the low 32 bits, read as signed or unsigned.\<close>

definition as_i32 :: "nat \<Rightarrow> int" where
  "as_i32 n = (int n + 2 ^ 31) mod 2 ^ 32 - 2 ^ 31"

definition as_u32 :: "nat \<Rightarrow> nat" where
  "as_u32 n = nat (int n mod 2 ^ 32)"

lemma as_i32_small: "n < 2 ^ 31 \<Longrightarrow> as_i32 n = int n"
  by (simp add: as_i32_def)

lemma as_u32_small: "n < 2 ^ 32 \<Longrightarrow> as_u32 n = n"
  by (simp add: as_u32_def)

section \<open>sort followed by dedup\<close>

text \<open>\<open>v.sort(); v.dedup();\<close>\<close>

definition sort_dedup :: "'a::linorder list \<Rightarrow> 'a list" where
  "sort_dedup xs = remdups_adj (sort xs)"

lemma set_sort_dedup [simp]: "set (sort_dedup xs) = set xs"
  by (simp add: sort_dedup_def)

lemma sorted_remdups_adj_distinct:
  fixes xs :: "'a::linorder list"
  shows "sorted xs \<Longrightarrow> sorted (remdups_adj xs) \<and> distinct (remdups_adj xs)"
  by (induction xs rule: remdups_adj.induct) auto

lemma sorted_sort_dedup [simp]: "sorted (sort_dedup xs)"
  by (simp add: sort_dedup_def sorted_remdups_adj_distinct)

lemma distinct_sort_dedup [simp]: "distinct (sort_dedup xs)"
  by (simp add: sort_dedup_def sorted_remdups_adj_distinct)

lemma sort_dedup_cong: "set xs = set ys \<Longrightarrow> sort_dedup xs = sort_dedup ys"
  by (rule sorted_distinct_set_unique) auto

lemma length_sort_dedup: "length (sort_dedup xs) = card (set xs)"
  using distinct_card [of "sort_dedup xs"] by simp

lemma sort_dedup_Nil_iff [simp]: "sort_dedup xs = [] \<longleftrightarrow> xs = []"
  by (metis set_empty set_sort_dedup)

section \<open>Stable sorting\<close>

text \<open>
  \<open>sort_by_key\<close> and \<open>sort_by\<close> are stable; \<^const>\<open>sort_key\<close> is the stable sort. Its result
  does not depend on the order of the input as far as the runs of equal keys agree.
\<close>

lemma sort_key_runs_eq:
  assumes "mset xs = mset ys"
    and "\<And>k. filter (\<lambda>x. f x = k) xs = filter (\<lambda>x. f x = k) ys"
  shows "sort_key f xs = sort_key f ys"
proof (rule properties_for_sort_key)
  show "mset (sort_key f ys) = mset xs" using assms(1) by simp
  show "\<And>k. k \<in> set (sort_key f ys) \<Longrightarrow>
      filter (\<lambda>x. f k = f x) (sort_key f ys) = filter (\<lambda>x. f k = f x) xs"
    using sort_key_stable [of f] assms(2) by (metis (mono_tags, lifting) filter_cong)
  show "sorted (map f (sort_key f ys))" by simp
qed

lemma sort_key_inj_eq:
  assumes "mset xs = mset ys" and "inj_on f (set xs)"
  shows "sort_key f xs = sort_key f ys"
proof (rule sort_key_runs_eq [OF assms(1)])
  fix k
  have runs: "filter (\<lambda>x. f x = k) zs = replicate (count (mset zs) v) v"
    if "inj_on f (set zs)" "v \<in> set zs" "f v = k" for zs v
    using that
  proof (induction zs)
    case (Cons a zs)
    show ?case
    proof (cases "v \<in> set zs")
      case True
      with Cons show ?thesis by (auto simp: inj_on_def)
    next
      case False
      with Cons.prems have "a = v" by simp
      moreover have "filter (\<lambda>x. f x = k) zs = []"
        using Cons.prems False \<open>a = v\<close> by (auto simp: filter_empty_conv inj_on_def)
      moreover have "count (mset zs) v = 0" using False by (simp add: count_mset)
      ultimately show ?thesis using Cons.prems by simp
    qed
  qed simp
  have sets: "set xs = set ys" using assms(1) by (rule mset_eq_setD)
  show "filter (\<lambda>x. f x = k) xs = filter (\<lambda>x. f x = k) ys"
  proof (cases "\<exists>v \<in> set xs. f v = k")
    case True
    then obtain v where v: "v \<in> set xs" "f v = k" by blast
    then show ?thesis
      using runs [of xs v] runs [of ys v] assms sets by (metis)
  next
    case False
    then show ?thesis using sets by (simp add: filter_empty_conv)
  qed
qed

lemma sort_key_const: "(\<And>x. x \<in> set xs \<Longrightarrow> f x = k) \<Longrightarrow> sort_key f xs = xs"
  by (rule properties_for_sort_key) (auto intro: filter_cong simp: map_idI sorted_iff_nth_mono)

lemma sort_key_hd_min:
  assumes "x \<in> set xs"
  shows "f (hd (sort_key f xs)) \<le> f x"
proof -
  have "x \<in> set (sort_key f xs)" using assms by simp
  moreover have "sorted (map f (sort_key f xs))" by simp
  ultimately show ?thesis by (cases "sort_key f xs") auto
qed

lemma hd_sort_key_in: "xs \<noteq> [] \<Longrightarrow> hd (sort_key f xs) \<in> set xs"
  by (metis hd_in_set set_empty set_sort)

section \<open>Grouping into a HashMap\<close>

text \<open>
  \<open>map.entry(k).or_default().push(x)\<close>. A \<open>HashMap\<close> built by a loop is an association
  list whose keys stand in the order of their first insertion; the order in which the
  code iterates over it is a separate parameter (\<open>hm_values\<close> below).
\<close>

fun group_push :: "'k \<Rightarrow> 'a \<Rightarrow> ('k \<times> 'a list) list \<Rightarrow> ('k \<times> 'a list) list" where
  "group_push k x [] = [(k, [x])]"
| "group_push k x ((k', xs) # gs) =
     (if k' = k then (k', xs @ [x]) # gs else (k', xs) # group_push k x gs)"

definition group_by :: "('a \<Rightarrow> 'k) \<Rightarrow> 'a list \<Rightarrow> ('k \<times> 'a list) list" where
  "group_by f xs = foldl (\<lambda>gs x. group_push (f x) x gs) [] xs"

text \<open>\<open>*map.entry(k).or_insert(0) += 1\<close>\<close>

fun count_bump :: "'k \<Rightarrow> ('k \<times> nat) list \<Rightarrow> ('k \<times> nat) list" where
  "count_bump k [] = [(k, 1)]"
| "count_bump k ((k', n) # cs) =
     (if k' = k then (k', Suc n) # cs else (k', n) # count_bump k cs)"

definition count_by :: "('a \<Rightarrow> 'k) \<Rightarrow> 'a list \<Rightarrow> ('k \<times> nat) list" where
  "count_by f xs = foldl (\<lambda>cs x. count_bump (f x) cs) [] xs"

text \<open>Keys in the order of their first occurrence.\<close>

fun first_seen :: "'a list \<Rightarrow> 'a list" where
  "first_seen [] = []"
| "first_seen (x # xs) = x # filter (\<lambda>y. y \<noteq> x) (first_seen xs)"

lemma set_first_seen [simp]: "set (first_seen xs) = set xs"
  by (induction xs) auto

lemma distinct_first_seen [simp]: "distinct (first_seen xs)"
  by (induction xs) auto

lemma first_seen_snoc:
  "first_seen (xs @ [x]) = (if x \<in> set xs then first_seen xs else first_seen xs @ [x])"
  by (induction xs) (auto simp: filter_id_conv)

lemma first_seen_id: "distinct xs \<Longrightarrow> first_seen xs = xs"
  by (induction xs) (auto simp: filter_id_conv)

lemma first_seen_Nil_iff [simp]: "first_seen xs = [] \<longleftrightarrow> xs = []"
  by (cases xs) auto

lemma group_push_map:
  assumes "distinct ks"
  shows "group_push k x (map (\<lambda>k'. (k', g k')) ks) =
    (if k \<in> set ks then map (\<lambda>k'. (k', if k' = k then g k' @ [x] else g k')) ks
     else map (\<lambda>k'. (k', g k')) ks @ [(k, [x])])"
  using assms by (induction ks) auto

text \<open>The loop's result in closed form.\<close>

lemma group_by_eq:
  "group_by f xs = map (\<lambda>k. (k, filter (\<lambda>x. f x = k) xs)) (first_seen (map f xs))"
proof (induction xs rule: rev_induct)
  case Nil
  then show ?case by (simp add: group_by_def)
next
  case (snoc x xs)
  have "group_by f (xs @ [x]) = group_push (f x) x (group_by f xs)"
    by (simp add: group_by_def)
  also have "\<dots> = group_push (f x) x (map (\<lambda>k. (k, filter (\<lambda>x. f x = k) xs)) (first_seen (map f xs)))"
    by (simp only: snoc.IH)
  also have "\<dots> = map (\<lambda>k. (k, filter (\<lambda>y. f y = k) (xs @ [x]))) (first_seen (map f (xs @ [x])))"
  proof (cases "f x \<in> f ` set xs")
    case True
    then show ?thesis
      by (subst group_push_map) (auto simp: first_seen_snoc)
  next
    case False
    then have "filter (\<lambda>y. f y = f x) xs = []"
      unfolding filter_empty_conv by (metis imageI)
    with False show ?thesis
      by (subst group_push_map) (auto simp: first_seen_snoc)
  qed
  finally show ?case .
qed

lemma map_fst_group_by: "map fst (group_by f xs) = first_seen (map f xs)"
  by (simp add: group_by_eq comp_def)

lemma map_of_group_by:
  "map_of (group_by f xs) k = (if k \<in> f ` set xs then Some (filter (\<lambda>x. f x = k) xs) else None)"
  by (simp add: group_by_eq map_of_map_restrict restrict_map_def)

lemma group_by_nonempty: "(k, g) \<in> set (group_by f xs) \<Longrightarrow> g \<noteq> []"
  by (auto simp: group_by_eq filter_empty_conv)

lemma count_bump_map:
  assumes "distinct ks"
  shows "count_bump k (map (\<lambda>k'. (k', g k')) ks) =
    (if k \<in> set ks then map (\<lambda>k'. (k', if k' = k then Suc (g k') else g k')) ks
     else map (\<lambda>k'. (k', g k')) ks @ [(k, 1)])"
  using assms by (induction ks) auto

lemma count_by_eq:
  "count_by f xs = map (\<lambda>k. (k, count_list (map f xs) k)) (first_seen (map f xs))"
proof (induction xs rule: rev_induct)
  case Nil
  then show ?case by (simp add: count_by_def)
next
  case (snoc x xs)
  have "count_by f (xs @ [x]) = count_bump (f x) (count_by f xs)"
    by (simp add: count_by_def)
  also have "\<dots> = count_bump (f x) (map (\<lambda>k. (k, count_list (map f xs) k)) (first_seen (map f xs)))"
    by (simp only: snoc.IH)
  also have "\<dots> = map (\<lambda>k. (k, count_list (map f (xs @ [x])) k)) (first_seen (map f (xs @ [x])))"
    by (subst count_bump_map) (auto simp: first_seen_snoc count_list_0_iff)
  finally show ?case .
qed

lemma map_fst_count_by: "map fst (count_by f xs) = first_seen (map f xs)"
  by (simp add: count_by_eq comp_def)

lemma distinct_fst_count_by [simp]: "distinct (map fst (count_by f xs))"
  by (simp add: map_fst_count_by)

lemma count_by_mem:
  "(k, n) \<in> set (count_by f xs) \<longleftrightarrow> k \<in> f ` set xs \<and> n = count_list (map f xs) k"
  by (auto simp: count_by_eq)

section \<open>Iterating over a HashMap\<close>

text \<open>
  \<open>std::collections::HashMap\<close> iterates in an unspecified order. The order is a parameter
  \<open>ord\<close> of the model: it rearranges the keys of the map into the sequence the iterator
  yields. A legal \<open>ord\<close> yields every key exactly once.
\<close>

type_synonym hash_order = "string list \<Rightarrow> string list"

definition legal_order :: "hash_order \<Rightarrow> bool" where
  "legal_order ord \<longleftrightarrow> (\<forall>ks. mset (ord ks) = mset ks)"

definition hm_iter :: "hash_order \<Rightarrow> (string \<times> 'v) list \<Rightarrow> (string \<times> 'v) list" where
  "hm_iter ord m = map (\<lambda>k. (k, the (map_of m k))) (ord (map fst m))"

lemma legal_order_id [simp]: "legal_order (\<lambda>ks. ks)"
  by (simp add: legal_order_def)

lemma legal_order_rev [simp]: "legal_order rev"
  by (simp add: legal_order_def)

lemma legal_order_set: "legal_order ord \<Longrightarrow> set (ord ks) = set ks"
  unfolding legal_order_def by (metis set_mset_mset)

lemma legal_order_distinct: "legal_order ord \<Longrightarrow> distinct (ord ks) = distinct ks"
  unfolding legal_order_def by (metis mset_eq_imp_distinct_iff)

lemma hm_iter_mset:
  assumes "legal_order ord" and "distinct (map fst m)"
  shows "mset (hm_iter ord m) = mset m"
proof -
  have "mset (hm_iter ord m) = image_mset (\<lambda>k. (k, the (map_of m k))) (mset (map fst m))"
    using assms(1) by (simp add: hm_iter_def legal_order_def)
  also have "\<dots> = mset (map (\<lambda>k. (k, the (map_of m k))) (map fst m))"
    by (simp only: mset_map)
  also have "map (\<lambda>k. (k, the (map_of m k))) (map fst m) = m"
    using assms(2) by (auto intro!: map_idI)
  finally show ?thesis .
qed

lemma hm_iter_set:
  "legal_order ord \<Longrightarrow> distinct (map fst m) \<Longrightarrow> set (hm_iter ord m) = set m"
  by (metis hm_iter_mset set_mset_mset)

lemma hm_iter_length: "legal_order ord \<Longrightarrow> length (hm_iter ord m) = length m"
  unfolding hm_iter_def legal_order_def by (metis length_map mset_eq_length)

section \<open>First-seen deduplication by key\<close>

text \<open>\<open>for x in xs { if seen.insert(key(x)) { result.push(x) } }\<close>\<close>

fun dedup_loop :: "('a \<Rightarrow> 'k) \<Rightarrow> 'k set \<Rightarrow> 'a list \<Rightarrow> 'a list" where
  "dedup_loop f seen [] = []"
| "dedup_loop f seen (x # xs) =
     (if f x \<in> seen then dedup_loop f seen xs else x # dedup_loop f (insert (f x) seen) xs)"

definition dedup_by :: "('a \<Rightarrow> 'k) \<Rightarrow> 'a list \<Rightarrow> 'a list" where
  "dedup_by f xs = dedup_loop f {} xs"

lemma dedup_loop_keys:
  "distinct (map f (dedup_loop f seen xs)) \<and> f ` set (dedup_loop f seen xs) = f ` set xs - seen"
  by (induction xs arbitrary: seen) auto

lemma dedup_loop_subset: "set (dedup_loop f seen xs) \<subseteq> set xs"
  by (induction xs arbitrary: seen) (auto split: if_splits)

lemma dedup_loop_first:
  "x \<in> set (dedup_loop f seen xs) \<Longrightarrow> List.find (\<lambda>y. f y = f x) xs = Some x"
  by (induction xs arbitrary: seen) (auto split: if_splits, (metis DiffE dedup_loop_keys imageI insertI1)+)

lemma dedup_by_distinct [simp]: "distinct (map f (dedup_by f xs))"
  by (simp add: dedup_by_def dedup_loop_keys)

lemma dedup_by_keys [simp]: "f ` set (dedup_by f xs) = f ` set xs"
  by (simp add: dedup_by_def dedup_loop_keys)

lemma dedup_by_subset: "set (dedup_by f xs) \<subseteq> set xs"
  by (simp add: dedup_by_def dedup_loop_subset)

lemma dedup_by_first: "x \<in> set (dedup_by f xs) \<Longrightarrow> List.find (\<lambda>y. f y = f x) xs = Some x"
  unfolding dedup_by_def by (rule dedup_loop_first)

end
