(* ===== verification/Repo.thy ===== *)
theory Repo
  imports RustStr
begin

text \<open>
  Repository identities (\<open>crates/core/src/types/repo.rs\<close>): the tier of a repository id,
  the case-insensitive \<open>RepoId\<close>, the attribution of a package to a repository, and the
  parser of \<open>.repo\<close> files.
\<close>

section \<open>Tiers\<close>

definition DISTRO_REPOS :: "string list" where
  "DISTRO_REPOS = [''baseos'', ''appstream'', ''fedora'', ''updates'', ''updates-testing'',
     ''extras'', ''anaconda'']"

definition OFFICIAL_OPTIONAL_REPOS :: "string list" where
  "OFFICIAL_OPTIONAL_REPOS = [''crb'', ''codeready-builder'', ''rhel-extensions'']"

definition DISTRO_REPO_KEYWORDS :: "string list" where
  "DISTRO_REPO_KEYWORDS = [''baseos'', ''appstream'']"

definition OFFICIAL_OPTIONAL_KEYWORDS :: "string list" where
  "OFFICIAL_OPTIONAL_KEYWORDS = [''codeready-builder'', ''crb'']"

datatype repo_tier = TierDistro | TierOfficialOptional | TierThirdParty | TierNone

definition contains_keyword_segment :: "string \<Rightarrow> string \<Rightarrow> bool" where
  "contains_keyword_segment sid keyword =
     (case str_find keyword sid of
        None \<Rightarrow> False
      | Some pos \<Rightarrow>
          let before_ok = (pos = 0 \<or> sid ! (pos - 1) = CHR ''-'');
              after = pos + length keyword;
              after_ok = (after = length sid \<or> sid ! after = CHR ''-'')
          in before_ok \<and> after_ok)"

definition repo_tier_of :: "string \<Rightarrow> repo_tier" where
  "repo_tier_of section_id =
     (if section_id = [] then TierNone
      else let sid = to_lowercase section_id in
        if sid = ''@commandline'' then TierNone
        else if sid \<in> set DISTRO_REPOS then TierDistro
        else if sid \<in> set OFFICIAL_OPTIONAL_REPOS then TierOfficialOptional
        else if \<exists>kw \<in> set DISTRO_REPO_KEYWORDS. contains_keyword_segment sid kw then TierDistro
        else if \<exists>kw \<in> set OFFICIAL_OPTIONAL_KEYWORDS. contains_keyword_segment sid kw
          then TierOfficialOptional
        else TierThirdParty)"

section \<open>RepoId\<close>

datatype repo_id = RepoId (repo_id_str: string)

definition repo_id_eq :: "repo_id \<Rightarrow> repo_id \<Rightarrow> bool" where
  "repo_id_eq a b = (to_ascii_lowercase (repo_id_str a) = to_ascii_lowercase (repo_id_str b))"

text \<open>What the \<open>Hash\<close> implementation feeds to the hasher.\<close>

definition repo_id_hash_input :: "repo_id \<Rightarrow> string" where
  "repo_id_hash_input a = to_ascii_lowercase (repo_id_str a)"

datatype ordering = Less | Equal | Greater

definition cmp_of :: "'a::linorder \<Rightarrow> 'a \<Rightarrow> ordering" where
  "cmp_of x y = (if x < y then Less else if x = y then Equal else Greater)"

definition repo_id_cmp :: "repo_id \<Rightarrow> repo_id \<Rightarrow> ordering" where
  "repo_id_cmp a b = cmp_of (to_ascii_lowercase (repo_id_str a)) (to_ascii_lowercase (repo_id_str b))"

section \<open>Attribution\<close>

datatype pseudo_repo = PseudoCommandline | PseudoAnaconda | PseudoSystem

datatype repo_attribution =
  Exact repo_id
| Resolved string repo_id
| Ambiguous string "repo_id list"
| Stale string
| Pseudo pseudo_repo string
| Unrecorded

fun attribution_recorded :: "repo_attribution \<Rightarrow> string" where
  "attribution_recorded (Exact i) = repo_id_str i"
| "attribution_recorded (Resolved recorded _) = recorded"
| "attribution_recorded (Ambiguous recorded _) = recorded"
| "attribution_recorded (Stale recorded) = recorded"
| "attribution_recorded (Pseudo _ recorded) = recorded"
| "attribution_recorded Unrecorded = []"

section \<open>.repo files\<close>

record repo_section_def =
  rs_id :: repo_id
  rs_enabled :: bool
  rs_has_source :: bool
  rs_gpg_key_paths :: "string list"

definition strip_trailing_comment :: "string \<Rightarrow> string" where
  "strip_trailing_comment value = takeWhile (\<lambda>c. c \<noteq> CHR ''#'' \<and> c \<noteq> CHR '';'') value"

definition is_enabled_value :: "string \<Rightarrow> bool" where
  "is_enabled_value value \<longleftrightarrow>
     to_ascii_lowercase value \<in> {''1'', ''true'', ''yes'', ''on''}"

text \<open>One \<open>gpgkey\<close> value: the non-empty paths of its \<open>file://\<close> parts.\<close>

definition gpg_key_paths_of :: "string \<Rightarrow> string list" where
  "gpg_key_paths_of value =
     concat (map (\<lambda>part. case strip_prefix ''file://'' part of
         Some path \<Rightarrow> if path \<noteq> [] then [path] else []
       | None \<Rightarrow> [])
       (split_on (\<lambda>c. c = CHR '','' \<or> is_ascii_whitespace c) value))"

definition is_section_header :: "string \<Rightarrow> bool" where
  "is_section_header trimmed \<longleftrightarrow> starts_with trimmed ''['' \<and> ends_with trimmed '']''"

definition new_section :: "string \<Rightarrow> repo_section_def" where
  "new_section trimmed =
     \<lparr> rs_id = RepoId (take (length trimmed - 2) (drop 1 trimmed)),
       rs_enabled = True, rs_has_source = False, rs_gpg_key_paths = [] \<rparr>"

definition apply_key :: "string \<Rightarrow> string \<Rightarrow> repo_section_def \<Rightarrow> repo_section_def" where
  "apply_key key value s =
     (if key = ''enabled'' then s\<lparr>rs_enabled := is_enabled_value value\<rparr>
      else if key = ''baseurl'' \<or> key = ''metalink'' \<or> key = ''mirrorlist''
        then s\<lparr>rs_has_source := True\<rparr>
      else if key = ''gpgkey''
        then s\<lparr>rs_gpg_key_paths := rs_gpg_key_paths s @ gpg_key_paths_of value\<rparr>
      else s)"

definition section_line :: "string \<Rightarrow> repo_section_def \<Rightarrow> repo_section_def" where
  "section_line trimmed s =
     (case split_once (CHR ''='') trimmed of
        None \<Rightarrow> s
      | Some (key, value) \<Rightarrow>
          apply_key (str_trim key) (str_trim (strip_trailing_comment value)) s)"

text \<open>The loop over the lines: the finished sections and the current one.\<close>

fun parse_repo_line ::
  "repo_section_def list \<times> repo_section_def option \<Rightarrow> string \<Rightarrow>
   repo_section_def list \<times> repo_section_def option" where
  "parse_repo_line (sections, current) line =
     (let trimmed = str_trim line in
      if is_section_header trimmed
      then (case current of None \<Rightarrow> sections | Some s \<Rightarrow> sections @ [s], Some (new_section trimmed))
      else (sections, map_option (section_line trimmed) current))"

definition parse_repo_sections :: "string \<Rightarrow> repo_section_def list" where
  "parse_repo_sections content =
     (case foldl parse_repo_line ([], None) (str_lines content) of
        (sections, None) \<Rightarrow> sections
      | (sections, Some s) \<Rightarrow> sections @ [s])"

section \<open>Facts about tiers\<close>

text \<open>A keyword match is a match at segment boundaries.\<close>

lemma contains_keyword_segment_sound:
  assumes "contains_keyword_segment i kw"
  shows "\<exists>a b. i = a @ kw @ b \<and> (a = [] \<or> last a = CHR ''-'') \<and> (b = [] \<or> hd b = CHR ''-'')"
proof -
  from assms obtain pos where find: "str_find kw i = Some pos"
    and before: "pos = 0 \<or> i ! (pos - 1) = CHR ''-''"
    and aft: "pos + length kw = length i \<or> i ! (pos + length kw) = CHR ''-''"
    by (auto simp: contains_keyword_segment_def Let_def split: option.splits)
  have split: "i = take pos i @ kw @ drop (pos + length kw) i" and len: "pos + length kw \<le> length i"
    using str_find_Some [OF find] by auto
  have "take pos i = [] \<or> last (take pos i) = CHR ''-''"
    using before len by (cases pos) (auto simp: take_Suc_conv_app_nth)
  moreover have "drop (pos + length kw) i = [] \<or> hd (drop (pos + length kw) i) = CHR ''-''"
    using aft len by (metis drop_all hd_drop_conv_nth le_neq_implies_less order_refl)
  ultimately show ?thesis using split by blast
qed

lemma repo_tier_of_case_insensitive: "repo_tier_of (to_lowercase s) = repo_tier_of s"
  by (simp add: repo_tier_of_def)

lemma repo_tier_of_None_iff:
  "repo_tier_of s = TierNone \<longleftrightarrow> s = [] \<or> to_lowercase s = ''@commandline''"
  by (simp add: repo_tier_of_def Let_def)

section \<open>Facts about RepoId\<close>

lemma repo_id_eq_equivalence:
  "repo_id_eq a a" "repo_id_eq a b \<Longrightarrow> repo_id_eq b a"
  "repo_id_eq a b \<Longrightarrow> repo_id_eq b c \<Longrightarrow> repo_id_eq a c"
  by (auto simp: repo_id_eq_def)

lemma cmp_of_Equal [simp]: "cmp_of x y = Equal \<longleftrightarrow> x = y"
  by (auto simp: cmp_of_def)

lemma repo_id_cmp_Equal: "repo_id_cmp a b = Equal \<longleftrightarrow> repo_id_eq a b"
  by (simp add: repo_id_cmp_def repo_id_eq_def)

section \<open>Facts about the parser\<close>

lemma rs_id_section_line [simp]: "rs_id (section_line t s) = rs_id s"
  by (auto simp: section_line_def apply_key_def split: option.splits)

lemma rs_id_after_lines:
  "snd (foldl parse_repo_line (ss, Some s) ls) \<noteq> None"
  by (induction ls arbitrary: ss s) (auto simp: Let_def split: option.splits)

definition flush_sections :: "repo_section_def list \<times> repo_section_def option \<Rightarrow> repo_section_def list" where
  "flush_sections st = (case st of (sections, None) \<Rightarrow> sections | (sections, Some s) \<Rightarrow> sections @ [s])"

lemma parse_repo_sections_flush:
  "parse_repo_sections content = flush_sections (foldl parse_repo_line ([], None) (str_lines content))"
  by (simp add: parse_repo_sections_def flush_sections_def)

lemma parse_repo_line_shift:
  "foldl parse_repo_line (pre @ ss, cur) ls =
     (pre @ fst (foldl parse_repo_line (ss, cur) ls), snd (foldl parse_repo_line (ss, cur) ls))"
proof (induction ls arbitrary: ss cur)
  case (Cons l ls)
  show ?case
  proof (cases "is_section_header (str_trim l)")
    case True
    then show ?thesis
      using Cons.IH [of "case cur of None \<Rightarrow> ss | Some s \<Rightarrow> ss @ [s]" "Some (new_section (str_trim l))"]
      by (cases cur) (auto simp: Let_def)
  next
    case False
    then show ?thesis using Cons.IH by (simp add: Let_def)
  qed
qed simp

text \<open>The ids of the sections are the headers, in order.\<close>

lemma parse_repo_lines_ids:
  "map rs_id (flush_sections (foldl parse_repo_line (ss, cur) ls)) =
     map rs_id (flush_sections (ss, cur)) @
     map (\<lambda>l. rs_id (new_section (str_trim l))) (filter (\<lambda>l. is_section_header (str_trim l)) ls)"
proof (induction ls arbitrary: ss cur)
  case (Cons l ls)
  then show ?case
    by (cases cur) (auto simp: Let_def flush_sections_def)
qed simp

text \<open>
  A header closes what came before it: the sections from a header line on do not depend on
  the earlier lines, and the earlier sections do not depend on the later lines.
\<close>

lemma parse_repo_header_splits:
  assumes "is_section_header (str_trim h)"
  shows "flush_sections (foldl parse_repo_line (ss, cur) (h # ls)) =
     flush_sections (ss, cur) @ flush_sections (foldl parse_repo_line ([], None) (h # ls))"
proof -
  let ?new = "Some (new_section (str_trim h))"
  have "foldl parse_repo_line (ss, cur) (h # ls) =
      foldl parse_repo_line (flush_sections (ss, cur) @ [], ?new) ls"
    using assms by (cases cur) (auto simp: flush_sections_def)
  also have "\<dots> = (flush_sections (ss, cur) @ fst (foldl parse_repo_line ([], ?new) ls),
      snd (foldl parse_repo_line ([], ?new) ls))"
    by (rule parse_repo_line_shift)
  finally show ?thesis using assms
    by (cases "foldl parse_repo_line ([], ?new) ls") (auto simp: flush_sections_def split: option.splits)
qed

end
