(* ===== verification/Findings.thy ===== *)
theory Findings
  imports Prelude
begin

text \<open>
  The decision attached to every finding of a scan (\<open>crates/core/src/types/finding.rs\<close>)
  and the aggregate metadata of an item seen on several hosts
  (\<open>crates/core/src/types/aggregate.rs\<close>), with the prevalence zones of
  \<open>crates/core/src/aggregate/mod.rs\<close>.
\<close>

section \<open>FindingKind\<close>

datatype advisory_type = UnbackedVarDir | CrossTreeSymlink | Modernization

datatype shadow_type = ShadowDropIn | FullShadow

datatype finding_kind =
  Actionable bool
| Advisory advisory_type string
| Inventory

definition fk_included :: finding_kind where
  "fk_included = Actionable True"

definition fk_excluded :: finding_kind where
  "fk_excluded = Actionable False"

definition fk_from_bool :: "bool \<Rightarrow> finding_kind" where
  "fk_from_bool include = (if include then fk_included else fk_excluded)"

fun with_include :: "finding_kind \<Rightarrow> bool \<Rightarrow> finding_kind" where
  "with_include (Advisory t r) val = Advisory t r"
| "with_include Inventory val = Inventory"
| "with_include (Actionable _) val = fk_from_bool val"

fun is_included :: "finding_kind \<Rightarrow> bool" where
  "is_included (Actionable True) = True"
| "is_included _ = False"

fun is_advisory :: "finding_kind \<Rightarrow> bool" where
  "is_advisory (Advisory t r) = True"
| "is_advisory _ = False"

fun is_inventory :: "finding_kind \<Rightarrow> bool" where
  "is_inventory Inventory = True"
| "is_inventory _ = False"

fun is_actionable :: "finding_kind \<Rightarrow> bool" where
  "is_actionable (Actionable b) = True"
| "is_actionable _ = False"

lemmas finding_defs = fk_included_def fk_excluded_def fk_from_bool_def

lemma with_include_twice [simp]: "with_include (with_include d a) b = with_include d b"
  by (cases d) (auto simp: finding_defs)

lemma is_included_with_include [simp]:
  "is_included (with_include d b) \<longleftrightarrow> is_actionable d \<and> b"
  by (cases d) (auto simp: finding_defs)

lemma is_actionable_with_include [simp]: "is_actionable (with_include d b) = is_actionable d"
  by (cases d) (auto simp: finding_defs)

lemma with_include_actionable: "is_actionable d \<Longrightarrow> with_include d b = fk_from_bool b"
  by (cases d) auto

lemma is_actionable_iff: "is_actionable d \<longleftrightarrow> \<not> is_advisory d \<and> \<not> is_inventory d"
  by (cases d) auto

lemma is_included_actionable: "is_included d \<Longrightarrow> is_actionable d"
  by (cases d) auto

section \<open>Aggregate prevalence\<close>

text \<open>
  The \<open>i32\<close> counters are integers; every value the code writes into them is
  a cast \<^const>\<open>as_i32\<close>.
\<close>

datatype variant_selection = Only | Selected | Alternative

record aggregate_prevalence =
  ap_count :: int
  ap_total :: int
  ap_hosts :: "string list"
  ap_aggregate_count :: "int option"
  ap_aggregate_hosts :: "string list option"

record aggregate_snapshot_meta =
  am_label :: string
  am_host_count :: nat
  am_hostnames :: "string list"
  am_merged_at :: string
  am_baseline_provisional :: bool
  am_section_host_counts :: "string \<rightharpoonup> nat"

record repo_source_entry =
  rse_repo :: string
  rse_host_count :: nat

section \<open>Prevalence zones\<close>

datatype prevalence_zone = Divergent | NearConsensus | Consensus

text \<open>
  \<open>count * 2\<close> is an \<open>i32\<close> product: the model uses the release build's wrap-around.
\<close>

definition i32_mul2 :: "int \<Rightarrow> int" where
  "i32_mul2 n = (n * 2 + 2 ^ 31) mod 2 ^ 32 - 2 ^ 31"

definition classify_zone :: "aggregate_prevalence \<Rightarrow> prevalence_zone" where
  "classify_zone p =
     (if ap_count p = ap_total p then Consensus
      else if i32_mul2 (ap_count p) \<ge> ap_total p then NearConsensus
      else Divergent)"

lemma i32_mul2_small: "- (2 ^ 30) \<le> n \<Longrightarrow> n < 2 ^ 30 \<Longrightarrow> i32_mul2 n = 2 * n"
  by (simp add: i32_mul2_def)

text \<open>The derived \<open>Ord\<close> of the zones follows the order of the constructors.\<close>

fun zone_rank :: "prevalence_zone \<Rightarrow> nat" where
  "zone_rank Divergent = 0"
| "zone_rank NearConsensus = 1"
| "zone_rank Consensus = 2"

lemma zone_rank_inj: "zone_rank a = zone_rank b \<Longrightarrow> a = b"
  by (cases a; cases b) auto

instantiation prevalence_zone :: linorder
begin

definition less_eq_prevalence_zone :: "prevalence_zone \<Rightarrow> prevalence_zone \<Rightarrow> bool" where
  "less_eq_prevalence_zone a b \<longleftrightarrow> zone_rank a \<le> zone_rank b"

definition less_prevalence_zone :: "prevalence_zone \<Rightarrow> prevalence_zone \<Rightarrow> bool" where
  "less_prevalence_zone a b \<longleftrightarrow> zone_rank a < zone_rank b"

instance
  by standard (auto simp: less_eq_prevalence_zone_def less_prevalence_zone_def intro: zone_rank_inj)

end

text \<open>
  A zone never drops when one more host carries the item, within the range where the
  product does not overflow.
\<close>

lemma classify_zone_mono:
  assumes "0 \<le> ap_count p" "ap_count p \<le> ap_count q" "ap_count q \<le> ap_total q"
    and "ap_total p = ap_total q" "ap_total q < 2 ^ 30"
  shows "classify_zone p \<le> classify_zone q"
  using assms
  by (auto simp: classify_zone_def i32_mul2_small less_eq_prevalence_zone_def)

end
