(* ===== verification/JsonValue.thy ===== *)
theory JsonValue
  imports Prelude
begin

text \<open>
  \<open>serde_json::Value\<close> as the code uses it: the public constructors of the type, the
  accessors \<open>get\<close>, \<open>as_str\<close>, \<open>as_array\<close>, \<open>as_object\<close>, and insertion into an object. An
  object is a \<open>BTreeMap\<close> (the crate is built without \<open>preserve_order\<close>): an association
  list with strictly increasing keys. A number is kept as its literal, which the code
  never inspects. The text form \<open>serde_json::to_string\<close> is not defined here: it is a
  parameter of the definitions that use it.
\<close>

datatype json =
  JNull
| JBool bool
| JNum string
| JStr string
| JArr "json list"
| JObj "(string \<times> json) list"

fun json_get :: "string \<Rightarrow> json \<Rightarrow> json option" where
  "json_get k (JObj kvs) = map_of kvs k"
| "json_get k _ = None"

fun json_as_str :: "json \<Rightarrow> string option" where
  "json_as_str (JStr s) = Some s"
| "json_as_str _ = None"

fun json_as_array :: "json \<Rightarrow> json list option" where
  "json_as_array (JArr xs) = Some xs"
| "json_as_array _ = None"

fun json_as_object :: "json \<Rightarrow> (string \<times> json) list option" where
  "json_as_object (JObj kvs) = Some kvs"
| "json_as_object _ = None"

text \<open>\<open>BTreeMap::insert\<close>: replaces the value of a key or puts the pair at its place.\<close>

fun btree_insert :: "'k::linorder \<Rightarrow> 'v \<Rightarrow> ('k \<times> 'v) list \<Rightarrow> ('k \<times> 'v) list" where
  "btree_insert k v [] = [(k, v)]"
| "btree_insert k v ((k', v') # kvs) =
     (if k < k' then (k, v) # (k', v') # kvs
      else if k = k' then (k, v) # kvs
      else (k', v') # btree_insert k v kvs)"

fun json_insert :: "string \<Rightarrow> json \<Rightarrow> json \<Rightarrow> json" where
  "json_insert k v (JObj kvs) = JObj (btree_insert k v kvs)"
| "json_insert k v j = j"

abbreviation btree_ok :: "('k::linorder \<times> 'v) list \<Rightarrow> bool" where
  "btree_ok kvs \<equiv> sorted_wrt (<) (map fst kvs)"

lemma map_of_btree_insert: "map_of (btree_insert k v kvs) = (map_of kvs)(k \<mapsto> v)"
  by (induction kvs) auto

lemma fst_btree_insert: "fst ` set (btree_insert k v kvs) = insert k (fst ` set kvs)"
  by (simp add: map_of_btree_insert flip: dom_map_of_conv_image_fst)

lemma btree_insert_ok: "btree_ok kvs \<Longrightarrow> btree_ok (btree_insert k v kvs)"
proof (induction kvs)
  case (Cons p kvs)
  have "\<forall>k'' \<in> fst ` set (btree_insert k v kvs). k'' = k \<or> k'' \<in> fst ` set kvs"
    by (auto simp: fst_btree_insert)
  with Cons show ?case by (cases p) force
qed simp

lemma json_get_insert_same: "json_get k (json_insert k v (JObj kvs)) = Some v"
  by (simp add: map_of_btree_insert)

lemma json_get_insert_other: "k' \<noteq> k \<Longrightarrow> json_get k' (json_insert k v j) = json_get k' j"
  by (cases j) (auto simp: map_of_btree_insert)

end
