(* ===== verification/PackageTypes.thy ===== *)
theory PackageTypes
  imports Findings JsonValue Repo "HOL-Library.Word"
begin

text \<open>
  The first part of a snapshot's data: completeness, host identity, packages,
  configuration files, services, containers and software outside RPM (\<open>crates/core/src/types/\<close>).
  One record per struct, with the
  struct's fields in its order, and one datatype per enum. A record's fields carry a
  prefix of the struct's initials, because two records with a field of one name would
  hide each other's selectors. \<open>HashMap<String, T>\<close> is a map \<open>string \<rightharpoonup> T\<close>, \<open>Vec\<close> a list,
  \<open>Option\<close> an option. \<open>usize\<close> and \<open>u32\<close> fields are naturals, \<open>u64\<close> sizes are 64-bit
  words, \<open>i32\<close> fields are integers, \<open>OffsetDateTime\<close> is an instant counted as an integer.
\<close>

section \<open>Completeness (\<open>types/completeness.rs\<close>)\<close>

datatype inspector_id =
  InsRpm
| InsConfig
| InsServices
| InsNetwork
| InsStorage
| InsScheduledTasks
| InsContainers
| InsNonRpmSoftware
| InsKernelBoot
| InsSelinux
| InsUsersGroups
| InsSubscription
| InsHardware
| InsOstree
| InsOsRelease

datatype completeness =
  Complete
| Partial "inspector_id list" string
| Incomplete "inspector_id list" "inspector_id list" string

section \<open>Host identity (\<open>types/os.rs\<close>)\<close>

record os_release =
  osr_name :: string
  osr_version_id :: string
  osr_version :: string
  osr_id :: string
  osr_id_like :: string
  osr_pretty_name :: string
  osr_variant_id :: string

datatype system_type =
  SysUnknown
| SysPackageMode
| SysRpmOstree
| SysBootc

section \<open>Packages (\<open>types/rpm.rs\<close>)\<close>

datatype package_state =
  PkgAdded
| PkgBaseImageOnly
| PkgModified
| PkgLocalInstall
| PkgNoRepo

datatype version_change_direction =
  Upgrade
| Downgrade

record package_entry =
  pe_name :: string
  pe_epoch :: string
  pe_version :: string
  pe_release :: string
  pe_arch :: string
  pe_state :: package_state
  pe_disposition :: finding_kind
  pe_locked :: bool
  pe_acknowledged :: bool
  pe_source_repo :: string
  pe_repo_attribution :: repo_attribution
  pe_repo_enabling_from :: "repo_id list"
  pe_repoless_annotation :: string
  pe_repoless_cached :: bool
  pe_uploaded :: bool
  pe_cache_path :: "string option"
  pe_uploaded_version :: "string option"
  pe_aggregate :: "aggregate_prevalence option"

record version_change =
  vc_name :: string
  vc_arch :: string
  vc_host_version :: string
  vc_base_version :: string
  vc_host_epoch :: string
  vc_base_epoch :: string
  vc_direction :: version_change_direction

record enabled_module_stream =
  ms_module_name :: string
  ms_stream :: string
  ms_profiles :: "string list"
  ms_disposition :: finding_kind
  ms_locked :: bool
  ms_baseline_match :: bool
  ms_aggregate :: "aggregate_prevalence option"

record version_lock_entry =
  vl_raw_pattern :: string
  vl_name :: string
  vl_epoch :: int
  vl_version :: string
  vl_release :: string
  vl_arch :: string
  vl_disposition :: finding_kind
  vl_locked :: bool
  vl_aggregate :: "aggregate_prevalence option"

record rpm_va_entry =
  va_path :: string
  va_flags :: string
  va_package :: "string option"

record unverifiable_package =
  uv_name :: string
  uv_reason :: string

record repo_status =
  rst_repo_id :: string
  rst_repo_name :: string
  rst_error :: string
  rst_affected_packages :: "string list"

record ostree_package_override =
  oo_name :: string
  oo_from_nevra :: string
  oo_to_nevra :: string

record repo_file =
  rf_path :: string
  rf_content :: string
  rf_is_default_repo :: bool
  rf_disposition :: finding_kind
  rf_locked :: bool
  rf_aggregate :: "aggregate_prevalence option"

record file_ownership_entry =
  fo_package_name :: string
  fo_paths :: "string list"

record installed_group =
  ig_name :: string
  ig_members :: "string list"
  ig_optional_installed :: "string list"

record rpm_section =
  rpm_packages_added :: "package_entry list"
  rpm_base_image_only :: "package_entry list"
  rpm_rpm_va :: "rpm_va_entry list"
  rpm_repo_files :: "repo_file list"
  rpm_gpg_keys :: "repo_file list"
  rpm_dnf_history_removed :: "string list"
  rpm_version_changes :: "version_change list"
  rpm_leaf_packages :: "string list option"
  rpm_auto_packages :: "string list option"
  rpm_leaf_dep_tree :: json
  rpm_module_streams :: "enabled_module_stream list"
  rpm_version_locks :: "version_lock_entry list"
  rpm_module_stream_conflicts :: "string list"
  rpm_baseline_module_streams :: "(string \<rightharpoonup> string) option"
  rpm_versionlock_command_output :: "string option"
  rpm_multiarch_packages :: "string list"
  rpm_duplicate_packages :: "string list"
  rpm_ostree_overrides :: "ostree_package_override list"
  rpm_ostree_removals :: "string list"
  rpm_base_image :: "string option"
  rpm_baseline_suppressed :: "string list option"
  rpm_baseline_package_names :: "string list option"
  rpm_leaf_authority_hosts :: "nat option"
  rpm_leaf_total_hosts :: "nat option"
  rpm_file_ownership :: "file_ownership_entry list"
  rpm_installed_groups :: "installed_group list option"

section \<open>Configuration files (\<open>types/config.rs\<close>)\<close>

datatype config_file_kind =
  CfgRpmOwnedDefault
| CfgRpmOwnedModified
| CfgUnowned
| CfgOrphaned
| CfgBaselineMatch

datatype config_category =
  CatTmpfiles
| CatEnvironment
| CatAudit
| CatPam
| CatTuned
| CatKernelModule
| CatInitramfs
| CatLibraryPath
| CatJournal
| CatLogrotate
| CatAutomount
| CatSysctl
| CatCryptoPolicy
| CatIdentity
| CatLimits
| CatOther

datatype config_shadow = ShadowSysctl | ShadowServices

record config_file_entry =
  cf_path :: string
  cf_kind :: config_file_kind
  cf_category :: config_category
  cf_content :: string
  cf_rpm_va_flags :: "string option"
  cf_package :: "string option"
  cf_diff_against_rpm :: "string option"
  cf_disposition :: finding_kind
  cf_locked :: bool
  cf_variant_selection :: variant_selection
  cf_aggregate :: "aggregate_prevalence option"
  cf_attention_reason :: "string option"
  cf_shadowed_by :: "config_shadow option"

record config_section =
  cfg_files :: "config_file_entry list"

section \<open>Services (\<open>types/services.rs\<close>)\<close>

datatype service_unit_state =
  UnitEnabled
| UnitDisabled
| UnitMasked

datatype preset_default =
  PresetEnable
| PresetDisable

datatype service_action =
  ActEnable
| ActDisable
| ActMask

record service_state_change =
  ssc_unit :: string
  ssc_current_state :: service_unit_state
  ssc_default_state :: "preset_default option"
  ssc_disposition :: finding_kind
  ssc_locked :: bool
  ssc_owning_package :: "string option"
  ssc_aggregate :: "aggregate_prevalence option"
  ssc_attention_reason :: "string option"
  ssc_shadow_type :: "shadow_type option"
  ssc_shadow_rationale :: "string option"

record systemd_drop_in =
  di_unit :: string
  di_path :: string
  di_content :: string
  di_disposition :: finding_kind
  di_locked :: bool
  di_variant_selection :: variant_selection
  di_aggregate :: "aggregate_prevalence option"
  di_attention_reason :: "string option"
  di_shadow_type :: "shadow_type option"
  di_shadow_rationale :: "string option"

record service_section =
  svc_state_changes :: "service_state_change list"
  svc_enabled_units :: "string list"
  svc_disabled_units :: "string list"
  svc_drop_ins :: "systemd_drop_in list"
  svc_preset_matched_units :: "string list"

fun unit_action :: "service_unit_state \<Rightarrow> service_action" where
  "unit_action UnitEnabled = ActEnable"
| "unit_action UnitDisabled = ActDisable"
| "unit_action UnitMasked = ActMask"

definition implied_action :: "service_state_change \<Rightarrow> service_action" where
  "implied_action c = unit_action (ssc_current_state c)"

section \<open>Containers (\<open>types/containers.rs\<close>)\<close>

record container_mount =
  cm_mount_type :: string
  cm_source :: string
  cm_destination :: string
  cm_mode :: string
  cm_rw :: bool

record quadlet_unit =
  qu_path :: string
  qu_name :: string
  qu_content :: string
  qu_image :: string
  qu_disposition :: finding_kind
  qu_locked :: bool
  qu_variant_selection :: variant_selection
  qu_aggregate :: "aggregate_prevalence option"
  qu_ports :: "string list"
  qu_volumes :: "string list"
  qu_generated :: bool

record compose_service =
  cs_service :: string
  cs_image :: string

record compose_file =
  cpf_path :: string
  cpf_images :: "compose_service list"
  cpf_disposition :: finding_kind
  cpf_locked :: bool
  cpf_variant_selection :: variant_selection
  cpf_aggregate :: "aggregate_prevalence option"
  cpf_raw_content :: "string option"

record running_container =
  rc_id :: string
  rc_name :: string
  rc_image :: string
  rc_image_id :: string
  rc_status :: string
  rc_restart_policy :: string
  rc_mounts :: "container_mount list"
  rc_networks :: json
  rc_ports :: json
  rc_env :: "string list"
  rc_inspect_data :: bool
  rc_disposition :: finding_kind
  rc_locked :: bool
  rc_acknowledged :: bool
  rc_aggregate :: "aggregate_prevalence option"

record flatpak_app =
  fa_app_id :: string
  fa_origin :: string
  fa_branch :: string
  fa_disposition :: finding_kind
  fa_locked :: bool
  fa_aggregate :: "aggregate_prevalence option"
  fa_remote :: string
  fa_remote_url :: string

record container_section =
  ctr_quadlet_units :: "quadlet_unit list"
  ctr_compose_files :: "compose_file list"
  ctr_running_containers :: "running_container list"
  ctr_flatpak_apps :: "flatpak_app list"

section \<open>Software outside RPM (\<open>types/nonrpm.rs\<close>)\<close>

datatype file_type =
  FtOther
| FtElfBinary
| FtJar
| FtScript
| FtDataFile
| FtConfig
| FtSymlink

record language_package =
  lp_name :: string
  lp_version :: string
  lp_pinned :: bool

record non_rpm_item =
  nri_path :: string
  nri_name :: string
  nri_method :: string
  nri_confidence :: string
  nri_disposition :: finding_kind
  nri_locked :: bool
  nri_acknowledged :: bool
  nri_lang :: string
  nri_static :: bool
  nri_version :: string
  nri_shared_libs :: "string list"
  nri_system_site_packages :: bool
  nri_packages :: "language_package list"
  nri_has_c_extensions :: bool
  nri_git_remote :: string
  nri_git_commit :: string
  nri_git_branch :: string
  nri_manifest_files :: "string \<rightharpoonup> string"
  nri_rpm_filtered :: bool
  nri_files :: "json option"
  nri_content :: string
  nri_aggregate :: "aggregate_prevalence option"
  nri_review_status :: string
  nri_notes :: string

record non_rpm_software_section =
  nrs_items :: "non_rpm_item list"
  nrs_env_files :: "config_file_entry list"

record provenance_signals =
  ps_file_type :: file_type
  ps_last_modified :: "64 word"
  ps_uid :: nat
  ps_gid :: nat
  ps_permissions :: string
  ps_mutable :: bool
  ps_writable_mount :: bool
  ps_service_working_dir :: bool

record unmanaged_file =
  uf_path :: string
  uf_size :: "64 word"
  uf_file_type :: file_type
  uf_provenance :: provenance_signals
  uf_disposition :: finding_kind
  uf_locked :: bool
  uf_acknowledged :: bool
  uf_under_var :: bool
  uf_link_target :: string
  uf_aggregate :: "aggregate_prevalence option"
  uf_content_hash :: string
  uf_variant_selection :: variant_selection

record unmanaged_usr_entry =
  uu_path :: string
  uu_file_count :: nat
  uu_total_size_bytes :: "64 word"
  uu_file_type :: file_type
  uu_disposition :: finding_kind

record unmanaged_file_section =
  ufs_items :: "unmanaged_file list"
  ufs_usr_entries :: "unmanaged_usr_entry list"
  ufs_total_size :: "64 word"
  ufs_total_count :: nat

end
