(* ===== verification/SystemTypes.thy ===== *)
theory SystemTypes
  imports Findings JsonValue Repo "HOL-Library.Word"
begin

text \<open>
  The second part of a snapshot's data: network, kernel and boot, scheduled tasks, SELinux, storage, users and groups
  (\<open>crates/core/src/types/\<close>), with the conventions of \<open>PackageTypes\<close>.
\<close>

section \<open>Network (\<open>types/network.rs\<close>)\<close>

record nm_connection =
  nm_path :: string
  nm_name :: string
  nm_method :: string
  nm_conn_type :: string
  nm_disposition :: finding_kind
  nm_locked :: bool
  nm_acknowledged :: bool
  nm_aggregate :: "aggregate_prevalence option"

record firewall_zone =
  fz_path :: string
  fz_name :: string
  fz_content :: string
  fz_services :: "string list"
  fz_ports :: "string list"
  fz_rich_rules :: "string list"
  fz_disposition :: finding_kind
  fz_locked :: bool
  fz_aggregate :: "aggregate_prevalence option"

record firewall_direct_rule =
  fdr_ipv :: string
  fdr_table :: string
  fdr_chain :: string
  fdr_priority :: string
  fdr_args :: string
  fdr_disposition :: finding_kind
  fdr_locked :: bool

record static_route_file =
  srf_path :: string
  srf_name :: string

record proxy_entry =
  px_source :: string
  px_line :: string

record network_section =
  net_connections :: "nm_connection list"
  net_firewall_zones :: "firewall_zone list"
  net_firewall_direct_rules :: "firewall_direct_rule list"
  net_static_routes :: "static_route_file list"
  net_ip_routes :: "string list"
  net_ip_rules :: "string list"
  net_resolv_provenance :: string
  net_hosts_additions :: "string list"
  net_proxy :: "proxy_entry list"

definition has_ifcfg_connections :: "network_section \<Rightarrow> bool" where
  "has_ifcfg_connections n \<longleftrightarrow>
     (\<exists>c \<in> set (net_connections n). str_contains (nm_path c) ''network-scripts'')"

section \<open>Kernel and boot (\<open>types/kernelboot.rs\<close>)\<close>

record sysctl_override =
  so_key :: string
  so_runtime :: string
  so_default :: string
  so_source :: string
  so_disposition :: finding_kind
  so_locked :: bool
  so_aggregate :: "aggregate_prevalence option"

record kernel_module =
  km_name :: string
  km_size :: string
  km_used_by :: string
  km_disposition :: finding_kind
  km_locked :: bool
  km_aggregate :: "aggregate_prevalence option"

record alternative_entry =
  alt_name :: string
  alt_path :: string
  alt_status :: string

record kernel_boot_section =
  kb_cmdline :: string
  kb_grub_defaults :: string
  kb_sysctl_overrides :: "sysctl_override list"
  kb_loaded_modules :: "kernel_module list"
  kb_tuned_active :: string
  kb_tuned_disposition :: finding_kind
  kb_locale :: "string option"
  kb_timezone :: "string option"
  kb_alternatives :: "alternative_entry list"

definition is_stock_tuned_profile :: "string \<Rightarrow> bool" where
  "is_stock_tuned_profile name \<longleftrightarrow> name \<in> set
     [''throughput-performance'', ''virtual-guest'', ''balanced'', ''desktop'',
      ''latency-performance'', ''network-latency'', ''network-throughput'', ''powersave'',
      ''hpc-compute'', ''intel-sst'', ''optimize-serial-console'', ''aws'', ''atomic-guest'',
      ''atomic-host'']"

section \<open>Scheduled tasks (\<open>types/scheduled.rs\<close>)\<close>

record cron_job =
  cj_path :: string
  cj_source :: string
  cj_rpm_owned :: bool
  cj_disposition :: finding_kind
  cj_locked :: bool
  cj_aggregate :: "aggregate_prevalence option"

record systemd_timer =
  tm_name :: string
  tm_on_calendar :: string
  tm_exec_start :: string
  tm_description :: string
  tm_source :: string
  tm_path :: string
  tm_timer_content :: string
  tm_service_content :: string
  tm_disposition :: finding_kind
  tm_locked :: bool
  tm_aggregate :: "aggregate_prevalence option"

record at_job =
  aj_file :: string
  aj_command :: string
  aj_user :: string
  aj_working_dir :: string
  aj_disposition :: finding_kind
  aj_locked :: bool
  aj_aggregate :: "aggregate_prevalence option"

record generated_timer_unit =
  gt_name :: string
  gt_timer_content :: string
  gt_service_content :: string
  gt_cron_expr :: string
  gt_source_path :: string
  gt_command :: string
  gt_disposition :: finding_kind
  gt_locked :: bool
  gt_aggregate :: "aggregate_prevalence option"

record scheduled_task_section =
  sch_cron_jobs :: "cron_job list"
  sch_systemd_timers :: "systemd_timer list"
  sch_at_jobs :: "at_job list"
  sch_generated_timer_units :: "generated_timer_unit list"

section \<open>SELinux (\<open>types/selinux.rs\<close>)\<close>

datatype fcontext_file_type =
  FcAll
| FcRegularFile
| FcDirectory
| FcCharDevice
| FcBlockDevice
| FcSocket
| FcSymlink
| FcNamedPipe

record selinux_context =
  sc_user :: string
  sc_role :: string
  sc_type :: string
  sc_level :: "string option"

datatype fcontext_rule =
  Label string fcontext_file_type selinux_context finding_kind "aggregate_prevalence option"
| Unlabel string fcontext_file_type finding_kind "aggregate_prevalence option"
| Equivalence string string finding_kind "aggregate_prevalence option"
| Unparsed string

datatype fcontext_source = PolicyStore | SemanageList

record selinux_port_label =
  pl_protocol :: string
  pl_port :: string
  pl_label_type :: string
  pl_disposition :: finding_kind
  pl_locked :: bool
  pl_aggregate :: "aggregate_prevalence option"

record selinux_section =
  sel_mode :: string
  sel_custom_modules :: "string list"
  sel_boolean_overrides :: "json list"
  sel_fcontext_rules :: "fcontext_rule list"
  sel_fcontext_source :: fcontext_source
  sel_fips_mode :: bool
  sel_port_labels :: "selinux_port_label list"

fun semanage_flag :: "fcontext_file_type \<Rightarrow> char option" where
  "semanage_flag FcAll = None"
| "semanage_flag FcRegularFile = Some (CHR ''f'')"
| "semanage_flag FcDirectory = Some (CHR ''d'')"
| "semanage_flag FcCharDevice = Some (CHR ''c'')"
| "semanage_flag FcBlockDevice = Some (CHR ''b'')"
| "semanage_flag FcSocket = Some (CHR ''s'')"
| "semanage_flag FcSymlink = Some (CHR ''l'')"
| "semanage_flag FcNamedPipe = Some (CHR ''p'')"

definition parse_column :: "string \<Rightarrow> fcontext_file_type option" where
  "parse_column text =
     (let t = to_ascii_lowercase (str_trim text) in
      if t = ''all files'' then Some FcAll
      else if t = ''regular file'' then Some FcRegularFile
      else if t = ''directory'' then Some FcDirectory
      else if t = ''character device'' then Some FcCharDevice
      else if t = ''block device'' then Some FcBlockDevice
      else if t = ''socket'' then Some FcSocket
      else if t = ''symbolic link'' then Some FcSymlink
      else if t = ''named pipe'' then Some FcNamedPipe
      else None)"

section \<open>Storage (\<open>types/storage.rs\<close>)\<close>

datatype var_dir_backing =
  Tmpfiles string string
| StateDirectory "string list"
| CacheDirectory "string list"
| LogsDirectory "string list"
| RpmOwned string
| Unbacked

record fstab_entry =
  fe_device :: string
  fe_mount_point :: string
  fe_fstype :: string
  fe_options :: string
  fe_disposition :: finding_kind
  fe_locked :: bool
  fe_acknowledged :: bool
  fe_aggregate :: "aggregate_prevalence option"
  fe_attention_reason :: "string option"

record credential_ref =
  cr_mount_point :: string
  cr_credential_path :: string
  cr_source :: string

record mount_point =
  mp_target :: string
  mp_source :: string
  mp_fstype :: string
  mp_options :: string

record lvm_volume =
  lv_lv_name :: string
  lv_vg_name :: string
  lv_lv_size :: string

record unbacked_var_advisory =
  uva_disposition :: finding_kind
  uva_paths :: "string list"

record var_directory =
  vd_path :: string
  vd_backing :: "var_dir_backing option"
  vd_mode :: "string option"
  vd_owner_name :: "string option"
  vd_group_name :: "string option"
  vd_owner_uid :: "nat option"
  vd_owner_gid :: "nat option"

record storage_section =
  sto_fstab_entries :: "fstab_entry list"
  sto_mount_points :: "mount_point list"
  sto_lvm_info :: "lvm_volume list"
  sto_var_directories :: "var_directory list"
  sto_credential_refs :: "credential_ref list"
  sto_unbacked_var_advisory :: "unbacked_var_advisory option"

definition RUN_TMPFILES_PREFIX :: string where
  "RUN_TMPFILES_PREFIX = ''/run/tmpfiles.d/''"

fun names_a_carryable_creator :: "var_dir_backing \<Rightarrow> bool" where
  "names_a_carryable_creator (Tmpfiles conf _) = (\<not> starts_with conf RUN_TMPFILES_PREFIX)"
| "names_a_carryable_creator (StateDirectory declared_by) = (declared_by \<noteq> [])"
| "names_a_carryable_creator (CacheDirectory declared_by) = (declared_by \<noteq> [])"
| "names_a_carryable_creator (LogsDirectory declared_by) = (declared_by \<noteq> [])"
| "names_a_carryable_creator (RpmOwned _) = True"
| "names_a_carryable_creator Unbacked = False"

section \<open>Users and groups (\<open>types/users.rs\<close>)\<close>

record user_group_section =
  ug_users :: "json list"
  ug_groups :: "json list"
  ug_sudoers_rules :: "string list"
  ug_ssh_authorized_keys_refs :: "json list"
  ug_passwd_entries :: "string list"
  ug_shadow_entries :: "string list"
  ug_group_entries :: "string list"
  ug_gshadow_entries :: "string list"
  ug_subuid_entries :: "string list"
  ug_subgid_entries :: "string list"

end
