(* ===== verification/SnapshotTypes.thy ===== *)
theory SnapshotTypes
  imports PackageTypes SystemTypes
begin

text \<open>
  The rest of a snapshot's data and the snapshot itself: warnings, preflight, redaction,
  subscription, baseline data (\<open>crates/core/src/types/\<close>, \<open>baseline.rs\<close>) and
  \<open>InspectionSnapshot\<close> with its constructor and loader (\<open>snapshot.rs\<close>), with the
  conventions of \<open>PackageTypes\<close>.
\<close>

section \<open>Warnings and preflight (\<open>types/warnings.rs, preflight.rs\<close>)\<close>

datatype warning_severity =
  SevInfo
| SevWarning
| SevError

record warning =
  wn_inspector :: string
  wn_message :: string
  wn_severity :: "warning_severity option"
  wn_extra :: "string \<rightharpoonup> json"

record preflight_result =
  pf_status :: string
  pf_status_reason :: "string option"
  pf_available :: "string list"
  pf_unavailable :: "string list"
  pf_unverifiable :: "unverifiable_package list"
  pf_direct_install :: "string list"
  pf_repo_unreachable :: "repo_status list"
  pf_base_image :: string
  pf_repos_queried :: "string list"
  pf_timestamp :: string

section \<open>Redaction (\<open>types/redaction.rs\<close>)\<close>

datatype confidence =
  High
| Medium
| Low

record redaction_hint =
  rh_path :: string
  rh_reason :: string
  rh_confidence :: "confidence option"

datatype redaction_state =
  FullyRedacted string string
| PartiallyRedacted string string nat "redaction_hint list"
| SensitiveRetained string string nat "redaction_hint list"
| RedactionUnknown
| Raw

datatype redaction_kind =
  RkExcluded
| RkFlagged
| RkInline

datatype detection_method =
  DmPattern
| DmHeuristic
| DmPathBased

datatype redaction_finding_kind =
  RfPrivateKey
| RfCertificate
| RfPasswordHash
| RfPassword
| RfAwsKey
| RfJdbcPassword
| RfPostgresPassword
| RfMongodbPassword
| RfRedisPassword
| RfWireguardKey
| RfWifiPsk
| RfShadowHash
| RfNoPassword
| RfGenericCredential

record redaction_finding =
  rfd_path :: string
  rfd_source :: string
  rfd_kind :: redaction_kind
  rfd_pattern :: string
  rfd_remediation :: string
  rfd_line :: "int option"
  rfd_replacement :: "string option"
  rfd_detection_method :: detection_method
  rfd_confidence :: "confidence option"
  rfd_finding_kind :: "redaction_finding_kind option"

section \<open>Subscription (\<open>types/subscription.rs\<close>)\<close>

record subscription_file =
  sf_path :: string
  sf_content :: string
  sf_size_bytes :: "64 word"
  sf_cert_expiry :: "int option"

record subscription_section =
  sub_entitlement_certs :: "subscription_file list"
  sub_ca_certs :: "subscription_file list"
  sub_config_files :: "subscription_file list"
  sub_earliest_expiry :: "int option"
  sub_incomplete :: bool
  sub_org_id :: "string option"
  sub_system_uuid :: "string option"
  sub_rhsm_server :: "string option"
  sub_source_hostname :: "string option"

section \<open>Baseline data (\<open>baseline.rs\<close>)\<close>

datatype resolution_strategy =
  CliOverride
| UniversalBlue
| BootcStatus
| FedoraAtomicDesktop
| StrategyOsRelease

record baseline_package_entry =
  bpe_name :: string
  bpe_epoch :: "string option"
  bpe_version :: string
  bpe_release :: string
  bpe_arch :: string

record baseline_data =
  bd_image_digest :: string
  bd_packages :: "string \<rightharpoonup> baseline_package_entry"
  bd_extracted_at :: string

record target_image_identity =
  ti_image_ref :: string
  ti_strategy :: resolution_strategy

section \<open>The snapshot (\<open>snapshot.rs\<close>)\<close>

definition SCHEMA_VERSION :: nat where
  "SCHEMA_VERSION = 25"

record inspection_snapshot =
  snap_schema_version :: nat
  snap_meta :: "string \<rightharpoonup> json"
  snap_os_release :: "os_release option"
  snap_system_type :: system_type
  snap_rpm :: "rpm_section option"
  snap_config :: "config_section option"
  snap_services :: "service_section option"
  snap_network :: "network_section option"
  snap_storage :: "storage_section option"
  snap_scheduled_tasks :: "scheduled_task_section option"
  snap_containers :: "container_section option"
  snap_non_rpm_software :: "non_rpm_software_section option"
  snap_unmanaged_files :: "unmanaged_file_section option"
  snap_kernel_boot :: "kernel_boot_section option"
  snap_selinux :: "selinux_section option"
  snap_users_groups :: "user_group_section option"
  snap_preflight :: preflight_result
  snap_warnings :: "warning list"
  snap_redactions :: "redaction_finding list"
  snap_redaction_hints :: "redaction_hint list"
  snap_redaction_state :: "redaction_state option"
  snap_completeness :: completeness
  snap_target_image :: "target_image_identity option"
  snap_baseline :: "baseline_data option"
  snap_sensitive_snapshot :: bool
  snap_preserved_credentials :: bool
  snap_preserved_ssh_keys :: bool
  snap_subscription :: "subscription_section option"
  snap_preserved_subscription :: bool
  snap_redaction_skipped :: bool
  snap_aggregate_meta :: "aggregate_snapshot_meta option"
  snap_rpm_repo_conflicts :: "string \<rightharpoonup> repo_source_entry list"

definition preflight_default :: preflight_result where
  "preflight_default = \<lparr> pf_status = [], pf_status_reason = None, pf_available = [], pf_unavailable = [],
     pf_unverifiable = [], pf_direct_install = [], pf_repo_unreachable = [],
     pf_base_image = [], pf_repos_queried = [], pf_timestamp = [] \<rparr>"

text \<open>\<open>InspectionSnapshot::new\<close>: every section absent.\<close>

definition snapshot_new :: inspection_snapshot where
  "snapshot_new = \<lparr>
     snap_schema_version = SCHEMA_VERSION, snap_meta = Map.empty, snap_os_release = None,
     snap_system_type = SysUnknown, snap_rpm = None, snap_config = None,
     snap_services = None, snap_network = None, snap_storage = None,
     snap_scheduled_tasks = None, snap_containers = None, snap_non_rpm_software = None,
     snap_unmanaged_files = None, snap_kernel_boot = None, snap_selinux = None,
     snap_users_groups = None, snap_preflight = preflight_default, snap_warnings = [],
     snap_redactions = [], snap_redaction_hints = [], snap_redaction_state = None,
     snap_completeness = Complete, snap_target_image = None, snap_baseline = None,
     snap_sensitive_snapshot = False, snap_preserved_credentials = False, snap_preserved_ssh_keys = False,
     snap_subscription = None, snap_preserved_subscription = False, snap_redaction_skipped = False,
     snap_aggregate_meta = None, snap_rpm_repo_conflicts = Map.empty \<rparr>"

text \<open>
  \<open>InspectionSnapshot::load\<close>: parsing is a parameter (\<open>serde_json::from_str\<close>); the accepted
  schema versions are exactly \<open>MIN_SCHEMA .. SCHEMA_VERSION\<close>.
\<close>

definition MIN_SCHEMA :: nat where
  "MIN_SCHEMA = 25"

datatype snapshot_error = UnsupportedVersion nat | JsonError string

definition snapshot_load ::
  "(string \<Rightarrow> string + inspection_snapshot) \<Rightarrow> string \<Rightarrow> snapshot_error + inspection_snapshot" where
  "snapshot_load from_str text =
     (case from_str text of
        Inl e \<Rightarrow> Inl (JsonError e)
      | Inr snap \<Rightarrow>
          if snap_schema_version snap < MIN_SCHEMA \<or> snap_schema_version snap > SCHEMA_VERSION
          then Inl (UnsupportedVersion (snap_schema_version snap))
          else Inr snap)"

lemma snapshot_load_Inr:
  "snapshot_load from_str text = Inr snap \<longleftrightarrow>
     from_str text = Inr snap \<and> snap_schema_version snap = SCHEMA_VERSION"
  by (auto simp: snapshot_load_def MIN_SCHEMA_def SCHEMA_VERSION_def split: sum.splits if_splits)

text \<open>The display names of the column and the flag letters agree on which types there are.\<close>

lemma semanage_flag_inj: "semanage_flag a = semanage_flag b \<Longrightarrow> a = b"
  by (cases a; cases b) auto

lemma names_a_carryable_creator_unbacked: "names_a_carryable_creator b \<Longrightarrow> b \<noteq> Unbacked"
  by auto

end
