(* ===== verification/Baseline.thy ===== *)
theory Baseline
  imports SnapshotTypes
begin

text \<open>
  Base image resolution (\<open>crates/core/src/baseline.rs\<close>): the chain of sources for the image
  reference, version clamping, and the normalization of an image reference.
\<close>

section \<open>Types and constants\<close>

record base_image_resolution =
  bir_image_ref :: string
  bir_strategy :: resolution_strategy

record ublue_metadata =
  ub_image_ref :: "string option"
  ub_image_tag :: "string option"
  ub_image_name :: "string option"
  ub_image_vendor :: "string option"

datatype resolution_error =
  MalformedUblueMetadata string string
| UnknownDistro string
| NoResolution string

datatype normalization_error =
  EmptyRef
| InvalidCharacters string
| NotFullyQualified string
| LocalOnly string

definition RHEL_BOOTC_MIN :: "(string \<times> string) list" where
  "RHEL_BOOTC_MIN = [(''9'', ''9.6''), (''10'', ''10.0'')]"

definition FEDORA_BOOTC_MIN :: nat where
  "FEDORA_BOOTC_MIN = 41"

definition TRANSPORT_PREFIXES :: "string list" where
  "TRANSPORT_PREFIXES = [''ostree-image-signed:docker://'', ''docker://'', ''containers-storage:'']"

definition FEDORA_ATOMIC_DESKTOP_VARIANTS :: "string list" where
  "FEDORA_ATOMIC_DESKTOP_VARIANTS = [''silverblue'', ''kinoite'', ''sway-atomic'', ''budgie-atomic'',
     ''cosmic-atomic'', ''lxqt-atomic'', ''xfce-atomic'']"

definition UBLUE_METADATA_PATH :: string where
  "UBLUE_METADATA_PATH = ''/usr/share/ublue-os/image-info.json''"

definition SHELL_METACHARACTERS :: "char list" where
  "SHELL_METACHARACTERS = [CHR ''$'', CHR 0x60, CHR ''|'', CHR '';'', CHR ''&'', CHR ''('', CHR '')'',
     CHR ''{'', CHR ''}'', CHR ''<'', CHR ''>'', CHR 0x0A, CHR 0x0D, CHR ''!'', CHR ''#'']"

section \<open>Versions\<close>

text \<open>\<open>str::parse::<u32>\<close>: an optional plus sign, digits, no overflow.\<close>

definition digit_value :: "char \<Rightarrow> nat option" where
  "digit_value c = (if 48 \<le> (of_char c :: nat) \<and> (of_char c :: nat) \<le> 57 then Some (of_char c - 48) else None)"

fun parse_digits :: "nat \<Rightarrow> string \<Rightarrow> nat option" where
  "parse_digits acc [] = Some acc"
| "parse_digits acc (c # cs) =
     (case digit_value c of
        None \<Rightarrow> None
      | Some d \<Rightarrow> if acc * 10 + d < 2 ^ 32 then parse_digits (acc * 10 + d) cs else None)"

definition parse_u32 :: "string \<Rightarrow> nat option" where
  "parse_u32 s =
     (let digits = (case s of [] \<Rightarrow> [] | c # cs \<Rightarrow> if c = CHR ''+'' then cs else s)
      in if digits = [] then None else parse_digits 0 digits)"

definition parse_version_parts :: "string \<Rightarrow> nat list option" where
  "parse_version_parts version =
     (if version = [] then None
      else those (map parse_u32 (split_on (\<lambda>c. c = CHR ''.'') version)))"

definition version_part :: "nat list \<Rightarrow> nat \<Rightarrow> nat" where
  "version_part parts i = (if i < length parts then parts ! i else 0)"

text \<open>The loop over the indices: whether \<open>version\<close> is kept.\<close>

fun clamp_keeps :: "nat list \<Rightarrow> nat list \<Rightarrow> nat list \<Rightarrow> bool" where
  "clamp_keeps v_parts m_parts [] = True"
| "clamp_keeps v_parts m_parts (i # is) =
     (if version_part v_parts i < version_part m_parts i then False
      else if version_part v_parts i > version_part m_parts i then True
      else clamp_keeps v_parts m_parts is)"

definition clamp_version :: "string \<Rightarrow> string \<Rightarrow> string" where
  "clamp_version version minimum =
     (case parse_version_parts version of
        None \<Rightarrow> minimum
      | Some v_parts \<Rightarrow>
          (case parse_version_parts minimum of
             None \<Rightarrow> minimum
           | Some m_parts \<Rightarrow>
               if clamp_keeps v_parts m_parts [0..<max (length v_parts) (length m_parts)]
               then version else minimum))"

section \<open>Resolution\<close>

fun strip_first_prefix :: "string list \<Rightarrow> string \<Rightarrow> string" where
  "strip_first_prefix [] s = s"
| "strip_first_prefix (p # ps) s =
     (case strip_prefix p s of Some rest \<Rightarrow> rest | None \<Rightarrow> strip_first_prefix ps s)"

definition strip_transport_prefix :: "string \<Rightarrow> string" where
  "strip_transport_prefix s = strip_first_prefix TRANSPORT_PREFIXES s"

text \<open>The part from the last slash on, or the whole text.\<close>

definition last_component :: "string \<Rightarrow> string" where
  "last_component r = rev (takeWhile (\<lambda>c. c \<noteq> CHR ''/'') (rev r))"

definition ref_has_tag :: "string \<Rightarrow> bool" where
  "ref_has_tag r \<longleftrightarrow> CHR '':'' \<in> set (last_component r)"

definition resolve_ublue :: "ublue_metadata \<Rightarrow> resolution_error + base_image_resolution" where
  "resolve_ublue ub =
     (case ub_image_ref ub of
        Some (c # cs) \<Rightarrow>
          let stripped = strip_transport_prefix (c # cs) in
          if ref_has_tag stripped
          then Inr \<lparr> bir_image_ref = stripped, bir_strategy = UniversalBlue \<rparr>
          else (case ub_image_tag ub of
             Some (t # ts) \<Rightarrow> Inr \<lparr> bir_image_ref = stripped @ '':'' @ (t # ts), bir_strategy = UniversalBlue \<rparr>
           | _ \<Rightarrow> Inl (MalformedUblueMetadata UBLUE_METADATA_PATH ''image-ref has no tag and no image-tag field''))
      | _ \<Rightarrow>
          let vendor = (case ub_image_vendor ub of None \<Rightarrow> [] | Some v \<Rightarrow> v);
              name = (case ub_image_name ub of None \<Rightarrow> [] | Some n \<Rightarrow> n);
              tag = (case ub_image_tag ub of None \<Rightarrow> [] | Some t \<Rightarrow> t)
          in if vendor \<noteq> [] \<and> name \<noteq> [] \<and> tag \<noteq> []
             then Inr \<lparr> bir_image_ref = ''ghcr.io/'' @ vendor @ ''/'' @ name @ '':'' @ tag, bir_strategy = UniversalBlue \<rparr>
             else Inl (MalformedUblueMetadata UBLUE_METADATA_PATH
               ''missing required fields for synthesis (need vendor, name, tag)''))"

definition major_version :: "string \<Rightarrow> string" where
  "major_version version_id = hd (split_on (\<lambda>c. c = CHR ''.'') version_id)"

definition resolve_from_os_release :: "os_release \<Rightarrow> resolution_error + base_image_resolution" where
  "resolve_from_os_release os =
     (let sid = osr_id os;
          version_id = osr_version_id os;
          major = major_version version_id;
          effective_major = (if major = ''8'' then ''9'' else major)
      in if sid = ''rhel'' then
           let effective = (case map_of RHEL_BOOTC_MIN effective_major of
                 Some minimum \<Rightarrow> clamp_version version_id minimum
               | None \<Rightarrow> version_id)
           in Inr \<lparr> bir_image_ref = ''registry.redhat.io/rhel'' @ effective_major @ ''/rhel-bootc:'' @ effective,
                    bir_strategy = StrategyOsRelease \<rparr>
         else if sid = ''centos'' then
           Inr \<lparr> bir_image_ref = ''quay.io/centos-bootc/centos-bootc:stream'' @ effective_major,
                 bir_strategy = StrategyOsRelease \<rparr>
         else if sid = ''fedora'' then
           Inr \<lparr> bir_image_ref = ''quay.io/fedora/fedora-bootc:'' @ clamp_version major (nat_str FEDORA_BOOTC_MIN),
                 bir_strategy = StrategyOsRelease \<rparr>
         else Inl (UnknownDistro sid))"

definition resolve_base_image ::
  "os_release \<Rightarrow> ublue_metadata option \<Rightarrow> string option \<Rightarrow> string option \<Rightarrow>
   resolution_error + base_image_resolution" where
  "resolve_base_image os ublue bootc_status_ref cli_override =
     (case cli_override of
        Some (c # cs) \<Rightarrow> Inr \<lparr> bir_image_ref = c # cs, bir_strategy = CliOverride \<rparr>
      | _ \<Rightarrow>
        (case ublue of
           Some ub \<Rightarrow> resolve_ublue ub
         | None \<Rightarrow>
           (case bootc_status_ref of
              Some (b # bs) \<Rightarrow> Inr \<lparr> bir_image_ref = b # bs, bir_strategy = BootcStatus \<rparr>
            | _ \<Rightarrow>
              if osr_id os = ''fedora'' \<and> osr_variant_id os \<noteq> []
                 \<and> osr_variant_id os \<in> set FEDORA_ATOMIC_DESKTOP_VARIANTS
              then Inr \<lparr> bir_image_ref =
                     ''quay.io/fedora-ostree-desktops/'' @ osr_variant_id os @ '':'' @ osr_version_id os,
                   bir_strategy = FedoraAtomicDesktop \<rparr>
              else resolve_from_os_release os)))"

section \<open>Normalization\<close>

definition first_component :: "string \<Rightarrow> string" where
  "first_component r = hd (split_on (\<lambda>c. c = CHR ''/'') r)"

definition normalize_image_ref :: "string \<Rightarrow> normalization_error + string" where
  "normalize_image_ref raw =
     (if raw = [] then Inl EmptyRef
      else if has_whitespace raw then Inl (InvalidCharacters raw)
      else if \<exists>c \<in> set raw. c \<in> set SHELL_METACHARACTERS then Inl (InvalidCharacters raw)
      else let working = strip_transport_prefix raw in
        if starts_with working ''localhost/'' then Inl (LocalOnly working)
        else if starts_with raw ''containers-storage:'' then Inl (LocalOnly working)
        else if CHR ''/'' \<notin> set working then Inl (NotFullyQualified working)
        else if CHR ''.'' \<notin> set (first_component working) \<and> CHR '':'' \<notin> set (first_component working)
          then Inl (NotFullyQualified working)
        else if CHR ''@'' \<in> set working then Inr working
        else if ref_has_tag working then Inr working
        else Inr (working @ '':latest''))"

section \<open>Clamping\<close>

text \<open>\<open>version\<close> is at least \<open>minimum\<close>, part by part with missing parts zero.\<close>

definition version_ge :: "nat list \<Rightarrow> nat list \<Rightarrow> bool" where
  "version_ge vs ms \<longleftrightarrow>
     (\<forall>i. version_part vs i = version_part ms i)
     \<or> (\<exists>i. version_part vs i > version_part ms i \<and> (\<forall>j < i. version_part vs j = version_part ms j))"

lemma clamp_keeps_upt:
  assumes "k \<le> n" "\<forall>i < k. version_part vs i = version_part ms i"
    and "\<forall>i \<ge> n. version_part vs i = version_part ms i"
  shows "clamp_keeps vs ms [k..<n] \<longleftrightarrow> version_ge vs ms"
  using assms
proof (induction "n - k" arbitrary: k)
  case 0
  then have "version_part vs i = version_part ms i" for i by (cases "i < k") auto
  then show ?case using 0 by (simp add: version_ge_def)
next
  case (Suc d)
  then have kn: "k < n" by simp
  then have upt: "[k..<n] = k # [Suc k..<n]" by (rule upt_conv_Cons)
  consider "version_part vs k < version_part ms k" | "version_part vs k > version_part ms k"
    | "version_part vs k = version_part ms k" by linarith
  then show ?case
  proof cases
    case 1
    have "\<not> version_ge vs ms"
    proof
      assume "version_ge vs ms"
      then obtain i where i: "version_part vs i > version_part ms i" "\<forall>j < i. version_part vs j = version_part ms j"
        using 1 unfolding version_ge_def by (metis less_irrefl)
      then have "\<not> i < k" "i \<noteq> k" "\<not> k < i" using Suc.prems(2) 1 by auto
      then show False by simp
    qed
    then show ?thesis using 1 by (simp add: upt)
  next
    case 2
    then have "version_ge vs ms" unfolding version_ge_def using Suc.prems(2) by blast
    then show ?thesis using 2 by (simp add: upt)
  next
    case 3
    then have "clamp_keeps vs ms [Suc k..<n] \<longleftrightarrow> version_ge vs ms"
      using Suc kn less_Suc_eq by (intro Suc.hyps(1)) auto
    then show ?thesis using 3 by (simp add: upt)
  qed
qed

lemma clamp_keeps_iff:
  "clamp_keeps vs ms [0..<max (length vs) (length ms)] \<longleftrightarrow> version_ge vs ms"
  by (rule clamp_keeps_upt) (auto simp: version_part_def)

lemma version_ge_refl: "version_ge vs vs"
  by (simp add: version_ge_def)

lemma clamp_version_cases:
  "clamp_version v m =
     (case (parse_version_parts v, parse_version_parts m) of
        (Some vs, Some ms) \<Rightarrow> if version_ge vs ms then v else m
      | _ \<Rightarrow> m)"
  by (auto simp: clamp_version_def clamp_keeps_iff split: option.splits)

lemma clamp_version_at_least:
  "parse_version_parts m = Some ms \<Longrightarrow> \<exists>ps. parse_version_parts (clamp_version v m) = Some ps \<and> version_ge ps ms"
  by (auto simp: clamp_version_cases version_ge_refl split: option.splits)

lemma clamp_version_idem: "clamp_version (clamp_version v m) m = clamp_version v m"
  by (auto simp: clamp_version_cases split: option.splits)

section \<open>Normalization\<close>

lemma strip_first_prefix_suffix: "\<exists>p. s = p @ strip_first_prefix ps s"
proof (induction ps)
  case (Cons p ps)
  then show ?case by (auto simp: strip_prefix_Some split: option.splits)
qed simp

lemma strip_transport_prefix_suffix: "\<exists>p. s = p @ strip_transport_prefix s"
  unfolding strip_transport_prefix_def by (rule strip_first_prefix_suffix)

lemma str_contains_suffix: "str_contains s w \<Longrightarrow> str_contains (p @ s) w"
  by (auto simp: str_contains_iff) (metis append.assoc)

lemma str_contains_append_last:
  assumes "str_contains (s @ t) w" "w \<noteq> []" "last w \<notin> set t"
  shows "str_contains s w"
proof -
  obtain a b where ab: "s @ t = (a @ w) @ b" using assms(1) by (auto simp: str_contains_iff)
  then consider us where "s = (a @ w) @ us" | us where "s @ us = a @ w" "t = us @ b"
    unfolding append_eq_append_conv2 by blast
  then show ?thesis
  proof cases
    case 1
    then show ?thesis by (auto simp: str_contains_iff)
  next
    case 2
    have "us = []"
    proof (rule ccontr)
      assume "us \<noteq> []"
      then have "last w = last us" using 2(1) assms(2) by (metis last_appendR)
      then show False using assms(3) 2(2) \<open>us \<noteq> []\<close> by simp
    qed
    then have "s = a @ w @ []" using 2 by simp
    then show ?thesis unfolding str_contains_iff by blast
  qed
qed

lemma has_whitespace_suffix: "has_whitespace s \<Longrightarrow> has_whitespace (p @ s)"
  unfolding has_whitespace_def using str_contains_suffix by blast

lemma has_whitespace_latest: "has_whitespace (s @ '':latest'') \<longleftrightarrow> has_whitespace s"
proof
  assume "has_whitespace (s @ '':latest'')"
  then obtain w where w: "w \<in> set ws_encodings" "str_contains (s @ '':latest'') w"
    by (auto simp: has_whitespace_def)
  then have "w \<noteq> []" "last w \<notin> set '':latest''" by (auto simp: ws_encodings_def)
  then show "has_whitespace s" using w str_contains_append_last unfolding has_whitespace_def by blast
next
  assume "has_whitespace s"
  then show "has_whitespace (s @ '':latest'')"
    unfolding has_whitespace_def str_contains_iff by (metis append.assoc)
qed

lemma first_component_append: "CHR ''/'' \<in> set r \<Longrightarrow> first_component (r @ t) = first_component r"
  by (simp add: first_component_def split_on_hd takeWhile_append1)

lemma last_component_append: "CHR ''/'' \<notin> set t \<Longrightarrow> last_component (r @ t) = last_component r @ t"
  by (simp add: last_component_def takeWhile_append)

lemma ref_has_tag_latest: "ref_has_tag (r @ '':latest'')"
  by (simp add: ref_has_tag_def last_component_append)

text \<open>What a normalized reference looks like.\<close>

definition well_formed_ref :: "string \<Rightarrow> bool" where
  "well_formed_ref r \<longleftrightarrow> r \<noteq> [] \<and> \<not> has_whitespace r \<and> (\<forall>c \<in> set r. c \<notin> set SHELL_METACHARACTERS)
     \<and> CHR ''/'' \<in> set r \<and> (CHR ''.'' \<in> set (first_component r) \<or> CHR '':'' \<in> set (first_component r))
     \<and> \<not> starts_with r ''localhost/'' \<and> (CHR ''@'' \<in> set r \<or> ref_has_tag r)"

lemma starts_with_localhost_append:
  "CHR ''/'' \<in> set r \<Longrightarrow> starts_with (r @ t) ''localhost/'' \<Longrightarrow> starts_with r ''localhost/''"
proof -
  assume r: "CHR ''/'' \<in> set r" and s: "starts_with (r @ t) ''localhost/''"
  from s obtain q where q: "r @ t = ''localhost/'' @ q" by (auto simp: starts_with_iff)
  have "takeWhile (\<lambda>c. c \<noteq> CHR ''/'') (r @ t) = ''localhost''" unfolding q by simp
  then have tw: "takeWhile (\<lambda>c. c \<noteq> CHR ''/'') r = ''localhost''" using r by (simp add: takeWhile_append1)
  have "dropWhile (\<lambda>c. c \<noteq> CHR ''/'') r \<noteq> []" using r by auto
  then obtain c cs where d: "dropWhile (\<lambda>c. c \<noteq> CHR ''/'') r = c # cs" by (meson neq_Nil_conv)
  then have "c = CHR ''/''" by (metis (mono_tags, lifting) dropWhile_eq_Cons_conv)
  then have "r = ''localhost/'' @ cs"
    using takeWhile_dropWhile_id [of "\<lambda>c. c \<noteq> CHR ''/''" r] tw d by simp
  then show ?thesis by simp
qed

lemma normalize_image_ref_ok:
  assumes "normalize_image_ref raw = Inr r"
  shows "well_formed_ref r" and "\<not> starts_with raw ''containers-storage:''"
    and "r = strip_transport_prefix raw \<or> r = strip_transport_prefix raw @ '':latest''"
proof -
  let ?w = "strip_transport_prefix raw"
  have conds: "\<not> has_whitespace raw" "\<forall>c \<in> set raw. c \<notin> set SHELL_METACHARACTERS"
      "\<not> starts_with ?w ''localhost/''" "\<not> starts_with raw ''containers-storage:''" "CHR ''/'' \<in> set ?w"
      "CHR ''.'' \<in> set (first_component ?w) \<or> CHR '':'' \<in> set (first_component ?w)"
    and r: "r = (if CHR ''@'' \<in> set ?w \<or> ref_has_tag ?w then ?w else ?w @ '':latest'')"
    using assms by (auto simp: normalize_image_ref_def Let_def split: if_splits)
  obtain p where p: "raw = p @ ?w" using strip_transport_prefix_suffix by blast
  have nows: "\<not> has_whitespace ?w" using conds(1) p has_whitespace_suffix by metis
  have nometa: "\<forall>c \<in> set ?w. c \<notin> set SHELL_METACHARACTERS" using conds(2) p by (metis UnCI set_append)
  show "well_formed_ref r"
  proof (cases "CHR ''@'' \<in> set ?w \<or> ref_has_tag ?w")
    case True
    then show ?thesis using r conds nows nometa by (auto simp: well_formed_ref_def)
  next
    case False
    have "\<forall>c \<in> set '':latest''. c \<notin> set SHELL_METACHARACTERS" by (simp add: SHELL_METACHARACTERS_def)
    then show ?thesis
      using False r conds nows nometa starts_with_localhost_append [of ?w "'':latest''"]
      by (auto simp: well_formed_ref_def has_whitespace_latest first_component_append ref_has_tag_latest)
  qed
  show "\<not> starts_with raw ''containers-storage:''" by (rule conds(4))
  show "r = ?w \<or> r = ?w @ '':latest''" using r by auto
qed

lemma strip_transport_prefix_id:
  "(\<forall>p \<in> set TRANSPORT_PREFIXES. \<not> starts_with r p) \<Longrightarrow> strip_transport_prefix r = r"
proof -
  have "(\<forall>p \<in> set ps. \<not> starts_with r p) \<Longrightarrow> strip_first_prefix ps r = r" for ps
    by (induction ps) (auto simp: strip_prefix_def)
  then show "(\<forall>p \<in> set TRANSPORT_PREFIXES. \<not> starts_with r p) \<Longrightarrow> ?thesis"
    by (simp add: strip_transport_prefix_def)
qed

text \<open>A well-formed reference without a transport prefix is its own normal form.\<close>

lemma normalize_well_formed:
  assumes "well_formed_ref r" and "\<forall>p \<in> set TRANSPORT_PREFIXES. \<not> starts_with r p"
  shows "normalize_image_ref r = Inr r"
proof -
  have "\<not> starts_with r ''containers-storage:''" using assms(2) by (simp add: TRANSPORT_PREFIXES_def)
  then show ?thesis
    using assms(1) strip_transport_prefix_id [OF assms(2)]
    by (auto simp: normalize_image_ref_def well_formed_ref_def Let_def)
qed

end
