(* ===== verification/TypeProperties.thy ===== *)
theory TypeProperties
  imports Repo Findings Baseline
begin

text \<open>
  The properties of the pure routines of the data model: prevalence zones, repository tiers,
  the parser of \<open>.repo\<close> files, version clamping, image references and the choice of the base
  image.
\<close>

section \<open>Prevalence zones\<close>

definition demo_prevalence :: "int \<Rightarrow> int \<Rightarrow> aggregate_prevalence" where
  "demo_prevalence n t = \<lparr> ap_count = n, ap_total = t, ap_hosts = [],
     ap_aggregate_count = None, ap_aggregate_hosts = None \<rparr>"

text \<open>For fewer than \<open>2^30\<close> hosts, the zone is \<open>Consensus\<close> exactly when all hosts carry the
  item and \<open>Divergent\<close> exactly when less than half of them do, and it does not drop when more
  hosts carry the item.\<close>

theorem zones_by_share:
  assumes "0 \<le> ap_count p" "ap_count p \<le> ap_total p" "ap_total p < 2 ^ 30"
    and "ap_total q = ap_total p" "ap_count p \<le> ap_count q" "ap_count q \<le> ap_total q"
  shows "(classify_zone p = Consensus \<longleftrightarrow> ap_count p = ap_total p)
    \<and> (classify_zone p = Divergent \<longleftrightarrow> 2 * ap_count p < ap_total p)
    \<and> classify_zone p \<le> classify_zone q"
proof -
  have "i32_mul2 (ap_count p) = 2 * ap_count p" using assms by (intro i32_mul2_small) auto
  then have "classify_zone p = Consensus \<longleftrightarrow> ap_count p = ap_total p"
    and "classify_zone p = Divergent \<longleftrightarrow> 2 * ap_count p < ap_total p"
    using assms(1,2) by (auto simp: classify_zone_def)
  moreover have "classify_zone p \<le> classify_zone q"
    using assms by (intro classify_zone_mono) auto
  ultimately show ?thesis by simp
qed

theorem zones_by_share_witness:
  "classify_zone (demo_prevalence 2 5) = Divergent \<and> classify_zone (demo_prevalence 2 5) \<le> classify_zone (demo_prevalence 3 5)"
  using zones_by_share [of "demo_prevalence 2 5" "demo_prevalence 3 5"] by (auto simp: demo_prevalence_def)

text \<open>From \<open>2^30\<close> hosts on the doubled count wraps: an item that nearly all hosts carry is
  \<open>Divergent\<close>.\<close>

lemma zone_overflow: "classify_zone (demo_prevalence (2 ^ 30) (2 ^ 30 + 1)) = Divergent"
  by (simp add: classify_zone_def demo_prevalence_def i32_mul2_def)

section \<open>Repository tiers\<close>

lemma str_find_least:
  assumes "str_find pat s = Some i" "s = a @ pat @ b"
  shows "i \<le> length a"
  using assms
proof (induction s arbitrary: i a)
  case (Cons c cs)
  show ?case
  proof (cases "starts_with (c # cs) pat")
    case False
    then obtain j where j: "str_find pat cs = Some j" "i = Suc j" using Cons.prems(1) by auto
    have "a \<noteq> []" using False Cons.prems(2) by (auto simp: starts_with_iff)
    then obtain a' where a': "a = c # a'" "cs = a' @ pat @ b" using Cons.prems(2) by (cases a) auto
    show ?thesis using Cons.IH [OF j(1) a'(2)] j(2) a'(1) by simp
  next
    case True
    then have "i = 0" using Cons.prems(1) by simp
    then show ?thesis by simp
  qed
qed (auto split: if_splits)

definition at_boundaries :: "string \<Rightarrow> string \<Rightarrow> bool" where
  "at_boundaries a b \<longleftrightarrow> (a = [] \<or> last a = CHR ''-'') \<and> (b = [] \<or> hd b = CHR ''-'')"

lemma keyword_segment_iff:
  "contains_keyword_segment i kw \<longleftrightarrow>
     (\<exists>a b. i = a @ kw @ b \<and> at_boundaries a b \<and> (\<forall>a' b'. i = a' @ kw @ b' \<longrightarrow> length a \<le> length a'))"
proof
  assume "contains_keyword_segment i kw"
  then obtain pos where find: "str_find kw i = Some pos"
    and before: "pos = 0 \<or> i ! (pos - 1) = CHR ''-''"
    and aft: "pos + length kw = length i \<or> i ! (pos + length kw) = CHR ''-''"
    by (auto simp: contains_keyword_segment_def Let_def split: option.splits)
  have split: "i = take pos i @ kw @ drop (pos + length kw) i" and len: "pos + length kw \<le> length i"
    using str_find_Some [OF find] by auto
  have "take pos i = [] \<or> last (take pos i) = CHR ''-''"
    using before len by (cases pos) (auto simp: take_Suc_conv_app_nth)
  moreover have "drop (pos + length kw) i = [] \<or> hd (drop (pos + length kw) i) = CHR ''-''"
    using aft len by (metis drop_all hd_drop_conv_nth le_neq_implies_less order_refl)
  moreover have "length (take pos i) \<le> length a'" if "i = a' @ kw @ b'" for a' b'
    using str_find_least [OF find that] by simp
  ultimately show "\<exists>a b. i = a @ kw @ b \<and> at_boundaries a b \<and> (\<forall>a' b'. i = a' @ kw @ b' \<longrightarrow> length a \<le> length a')"
    using split unfolding at_boundaries_def by blast
next
  assume "\<exists>a b. i = a @ kw @ b \<and> at_boundaries a b \<and> (\<forall>a' b'. i = a' @ kw @ b' \<longrightarrow> length a \<le> length a')"
  then obtain a b where i: "i = a @ kw @ b" and bd: "at_boundaries a b"
    and least: "\<And>a' b'. i = a' @ kw @ b' \<Longrightarrow> length a \<le> length a'" by blast
  obtain pos where find: "str_find kw i = Some pos"
    using i str_find_None [of kw i] by (cases "str_find kw i") auto
  have "pos \<le> length a" by (rule str_find_least [OF find i])
  moreover have "length a \<le> length (take pos i)" using str_find_Some [OF find] by (intro least) auto
  ultimately have pos: "pos = length a" by simp
  then show "contains_keyword_segment i kw"
    using find bd unfolding contains_keyword_segment_def at_boundaries_def Let_def i
    by (cases a rule: rev_cases; cases b) (auto simp: nth_append)
qed

text \<open>A repository id is matched against a keyword at its first occurrence only, which must
  be a whole segment between hyphens. Ids are compared without regard to case; the tier is
  none exactly for the empty id and \<open>@commandline\<close>, and an id of the distribution is in the
  list of its repositories or has one of its keywords as such a segment.\<close>

theorem tier_of_repository:
  "repo_tier_of (to_lowercase s) = repo_tier_of s
   \<and> (repo_tier_of s = TierNone \<longleftrightarrow> s = [] \<or> to_lowercase s = ''@commandline'')
   \<and> (repo_tier_of s = TierDistro \<longleftrightarrow> to_lowercase s \<in> set DISTRO_REPOS
        \<or> to_lowercase s \<notin> set OFFICIAL_OPTIONAL_REPOS \<and> to_lowercase s \<noteq> ''@commandline''
          \<and> (\<exists>kw \<in> {''baseos'', ''appstream''}. \<exists>a b. to_lowercase s = a @ kw @ b \<and> at_boundaries a b
               \<and> \<not> (\<exists>a' b'. to_lowercase s = a' @ kw @ b' \<and> length a' < length a)))"
proof -
  have seg: "contains_keyword_segment i kw \<longleftrightarrow> (\<exists>a b. i = a @ kw @ b \<and> at_boundaries a b
      \<and> \<not> (\<exists>a' b'. i = a' @ kw @ b' \<and> length a' < length a))" for i kw
    unfolding keyword_segment_iff by (simp only: not_ex de_Morgan_conj not_less imp_conv_disj)
  have kws: "(\<exists>kw \<in> set DISTRO_REPO_KEYWORDS. contains_keyword_segment (to_lowercase s) kw)
      \<longleftrightarrow> (\<exists>kw \<in> {''baseos'', ''appstream''}. contains_keyword_segment (to_lowercase s) kw)"
    by (simp add: DISTRO_REPO_KEYWORDS_def)
  have nil: "\<not> contains_keyword_segment [] kw" if "kw \<in> {''baseos'', ''appstream''}" for kw
    using that by (auto simp: contains_keyword_segment_def)
  have "repo_tier_of s = TierDistro \<longleftrightarrow> to_lowercase s \<in> set DISTRO_REPOS
        \<or> to_lowercase s \<notin> set OFFICIAL_OPTIONAL_REPOS \<and> to_lowercase s \<noteq> ''@commandline''
          \<and> (\<exists>kw \<in> {''baseos'', ''appstream''}. contains_keyword_segment (to_lowercase s) kw)"
    unfolding repo_tier_of_def Let_def kws using nil
    by (auto simp: DISTRO_REPOS_def)
  then show ?thesis unfolding seg using repo_tier_of_case_insensitive repo_tier_of_None_iff by simp
qed

text \<open>A keyword that is a segment only at a later occurrence is not found.\<close>

lemma later_segment_missed: "repo_tier_of ''xappstream-appstream'' = TierThirdParty"
  by code_simp

section \<open>The parser of .repo files\<close>

text \<open>The blocks of a file: every header with the lines up to the next one.\<close>

fun repo_blocks :: "string list \<Rightarrow> (string \<times> string list) list" where
  "repo_blocks [] = []"
| "repo_blocks (l # ls) =
     (if is_section_header l
      then (l, takeWhile (\<lambda>m. \<not> is_section_header m) ls) # repo_blocks ls
      else repo_blocks ls)"

text \<open>The settings of a block, and the section they describe.\<close>

definition block_settings :: "string list \<Rightarrow> (string \<times> string) list" where
  "block_settings ls = List.map_filter (\<lambda>l. map_option
     (\<lambda>(k, v). (str_trim k, str_trim (strip_trailing_comment v))) (split_once (CHR ''='') l)) ls"

definition values_of :: "string \<Rightarrow> (string \<times> string) list \<Rightarrow> string list" where
  "values_of k kvs = map snd (filter (\<lambda>kv. fst kv = k) kvs)"

definition section_of_block :: "string \<times> string list \<Rightarrow> repo_section_def" where
  "section_of_block b = (let kvs = block_settings (snd b) in
     \<lparr> rs_id = RepoId (butlast (tl (fst b))),
       rs_enabled = (values_of ''enabled'' kvs = [] \<or> is_enabled_value (last (values_of ''enabled'' kvs))),
       rs_has_source = (\<exists>kv \<in> set kvs. fst kv \<in> {''baseurl'', ''metalink'', ''mirrorlist''}),
       rs_gpg_key_paths = concat (map gpg_key_paths_of (values_of ''gpgkey'' kvs)) \<rparr>)"

lemma section_lines:
  "foldl (\<lambda>s l. section_line l s) s ls =
     (let kvs = block_settings ls in
     \<lparr> rs_id = rs_id s,
       rs_enabled = (if values_of ''enabled'' kvs = [] then rs_enabled s else is_enabled_value (last (values_of ''enabled'' kvs))),
       rs_has_source = (rs_has_source s \<or> (\<exists>kv \<in> set kvs. fst kv \<in> {''baseurl'', ''metalink'', ''mirrorlist''})),
       rs_gpg_key_paths = rs_gpg_key_paths s @ concat (map gpg_key_paths_of (values_of ''gpgkey'' kvs)) \<rparr>)"
proof (induction ls arbitrary: s)
  case Nil
  show ?case by (simp add: block_settings_def values_of_def List.map_filter_simps)
next
  case (Cons l ls)
  show ?case
  proof (cases "split_once (CHR ''='') l")
    case None
    then have "section_line l s = s" "block_settings (l # ls) = block_settings ls"
      by (simp_all add: section_line_def block_settings_def List.map_filter_simps)
    then show ?thesis using Cons.IH [of s] by simp
  next
    case (Some kv)
    obtain k v where kv: "kv = (k, v)" by (cases kv)
    let ?k = "str_trim k" and ?v = "str_trim (strip_trailing_comment v)"
    have line: "section_line l s = apply_key ?k ?v s"
      and kvs: "block_settings (l # ls) = (?k, ?v) # block_settings ls"
      using Some kv by (simp_all add: section_line_def block_settings_def List.map_filter_simps)
    show ?thesis
      unfolding foldl_Cons line Cons.IH [of "apply_key ?k ?v s"] kvs Let_def
      by (simp add: apply_key_def values_of_def)
  qed
qed

lemma header_length: "is_section_header h \<Longrightarrow> 2 \<le> length h"
proof -
  assume h: "is_section_header h"
  then obtain r q where r: "h = ''['' @ r" and q: "rev h = rev '']'' @ q"
    unfolding is_section_header_def ends_with_def starts_with_iff by blast
  then have "h = rev q @ '']''" by (metis rev_append rev_rev_ident)
  then have "r \<noteq> []" using r by (cases q) auto
  then show "2 \<le> length h" using r by (cases r) simp_all
qed

lemma new_section_fields:
  assumes "is_section_header h"
  shows "rs_id (new_section h) = RepoId (butlast (tl h))" "rs_enabled (new_section h)"
    "\<not> rs_has_source (new_section h)" "rs_gpg_key_paths (new_section h) = []"
proof -
  have "take (length h - 2) (drop 1 h) = butlast (tl h)"
    using header_length [OF assms] by (cases h) (simp_all add: butlast_conv_take)
  then show "rs_id (new_section h) = RepoId (butlast (tl h))" by (simp add: new_section_def)
qed (simp_all add: new_section_def)

lemma section_of_block_fold:
  assumes "is_section_header h"
  shows "section_of_block (h, ls) = foldl (\<lambda>s l. section_line l s) (new_section h) ls"
  unfolding section_lines section_of_block_def
  using new_section_fields [OF assms] by (simp add: Let_def)

lemma parse_lines_blocks:
  "flush_sections (foldl parse_repo_line (ss, cur) ls) =
     ss @ (case cur of None \<Rightarrow> []
       | Some s \<Rightarrow> [foldl (\<lambda>s l. section_line l s) s (takeWhile (\<lambda>m. \<not> is_section_header m) (map str_trim ls))])
     @ map section_of_block (repo_blocks (map str_trim ls))"
proof (induction ls arbitrary: ss cur)
  case Nil
  show ?case by (simp add: flush_sections_def split: option.split)
next
  case (Cons l ls)
  show ?case
  proof (cases "is_section_header (str_trim l)")
    case True
    show ?thesis
      using True Cons.IH [of "case cur of None \<Rightarrow> ss | Some s \<Rightarrow> ss @ [s]" "Some (new_section (str_trim l))"]
        section_of_block_fold [OF True]
      by (cases cur) simp_all
  next
    case False
    then show ?thesis using Cons.IH [of ss "map_option (section_line (str_trim l)) cur"]
      by (cases cur) simp_all
  qed
qed

text \<open>The parser returns one section for every header line, in order: its id is the text
  between the brackets, it is enabled unless its last \<open>enabled\<close> setting says otherwise, it
  has a source when one of the three source keys occurs, and its key paths are those of all its
  \<open>gpgkey\<close> settings. Lines before the first header are ignored, and no section depends on the
  lines of another.\<close>

theorem parse_repo_sections_blocks:
  "parse_repo_sections content = map section_of_block (repo_blocks (map str_trim (str_lines content)))"
  unfolding parse_repo_sections_flush parse_lines_blocks by simp

section \<open>Versions\<close>

text \<open>C40. Clamping to a minimum that is a version returns a version at least the minimum: the
  given one when it parses and is at least the minimum, otherwise the minimum. Clamping again
  changes nothing.\<close>

theorem clamp_version_correct:
  assumes "parse_version_parts minimum = Some ms"
  shows "(\<exists>ps. parse_version_parts (clamp_version version minimum) = Some ps \<and> version_ge ps ms)
    \<and> (clamp_version version minimum = version \<or> clamp_version version minimum = minimum)
    \<and> (\<forall>vs. parse_version_parts version = Some vs \<longrightarrow> version_ge vs ms \<longrightarrow> clamp_version version minimum = version)
    \<and> clamp_version (clamp_version version minimum) minimum = clamp_version version minimum"
proof -
  have "clamp_version version minimum = version \<or> clamp_version version minimum = minimum"
    by (simp add: clamp_version_cases split: option.split)
  moreover have "clamp_version version minimum = version" if "parse_version_parts version = Some vs" "version_ge vs ms" for vs
    using assms that by (simp add: clamp_version_cases)
  ultimately show ?thesis
    using clamp_version_at_least [OF assms] clamp_version_idem by simp
qed

theorem clamp_version_correct_witness:
  "clamp_version ''9.10'' ''9.6'' = ''9.10'' \<and> clamp_version (clamp_version ''9.4'' ''9.6'') ''9.6'' = clamp_version ''9.4'' ''9.6''"
proof -
  have min: "parse_version_parts ''9.6'' = Some [9, 6]" and v: "parse_version_parts ''9.10'' = Some [9, 10]"
    by (simp_all add: parse_version_parts_def parse_u32_def digit_value_def)
  have "version_ge [9, 10] [9, 6]"
    unfolding version_ge_def by (intro disjI2 exI [of _ 1]) (simp add: version_part_def)
  then show ?thesis
    using clamp_version_correct [OF min, of "''9.10''"] clamp_version_correct [OF min, of "''9.4''"] v by blast
qed

section \<open>Image references\<close>

text \<open>C39. A reference that normalization accepts comes out qualified: not empty, without white
  space and shell metacharacters, with a registry host in front (a dot or a colon before the
  first slash) that is not the bare \<open>localhost\<close>, and with a tag or a digest. It is the input
  without its transport prefix, completed by \<open>:latest\<close> when it had neither, and it is accepted
  unchanged when it does not itself begin with a transport prefix.\<close>

theorem normalize_image_ref_correct:
  assumes "normalize_image_ref raw = Inr r"
  shows "well_formed_ref r \<and> \<not> starts_with raw ''containers-storage:''
    \<and> (r = strip_transport_prefix raw \<or> r = strip_transport_prefix raw @ '':latest'')
    \<and> ((\<forall>p \<in> set TRANSPORT_PREFIXES. \<not> starts_with r p) \<longrightarrow> normalize_image_ref r = Inr r)"
  using normalize_image_ref_ok [OF assms] normalize_well_formed by simp

theorem normalize_image_ref_correct_witness:
  "well_formed_ref ''quay.io/fedora/fedora-bootc:latest''"
proof -
  have "normalize_image_ref ''docker://quay.io/fedora/fedora-bootc'' = Inr ''quay.io/fedora/fedora-bootc:latest''"
    by code_simp
  then show ?thesis using normalize_image_ref_correct by blast
qed

text \<open>Some references that exist on the local machine only are accepted, and a doubled transport
  prefix is stripped once.\<close>

lemma local_references_accepted:
  "normalize_image_ref ''localhost:5000/foo'' = Inr ''localhost:5000/foo:latest''"
  "normalize_image_ref ''docker://containers-storage:q.io/x'' = Inr ''containers-storage:q.io/x:latest''"
  by code_simp+

section \<open>The base image\<close>

text \<open>The sources of the base image are consulted in a fixed order: a non-empty override on
  the command line wins over everything; Universal Blue metadata, when present, decides (even
  when it is malformed); then a non-empty image of the running system; then the desktop
  variants of Fedora; then the distribution. The recorded strategy names the source.\<close>

theorem resolve_base_image_priority:
  "resolve_base_image os ublue status cli =
     (if cli \<noteq> None \<and> cli \<noteq> Some [] then Inr \<lparr> bir_image_ref = the cli, bir_strategy = CliOverride \<rparr>
      else if ublue \<noteq> None then resolve_ublue (the ublue)
      else if status \<noteq> None \<and> status \<noteq> Some [] then Inr \<lparr> bir_image_ref = the status, bir_strategy = BootcStatus \<rparr>
      else if osr_id os = ''fedora'' \<and> osr_variant_id os \<in> set FEDORA_ATOMIC_DESKTOP_VARIANTS
        then Inr \<lparr> bir_image_ref = ''quay.io/fedora-ostree-desktops/'' @ osr_variant_id os @ '':'' @ osr_version_id os,
                   bir_strategy = FedoraAtomicDesktop \<rparr>
      else resolve_from_os_release os)
   \<and> (resolve_ublue ub = Inr b \<longrightarrow> bir_strategy b = UniversalBlue \<and> bir_image_ref b \<noteq> [])
   \<and> (resolve_from_os_release os = Inr c \<longrightarrow> bir_strategy c = StrategyOsRelease
        \<and> osr_id os \<in> {''rhel'', ''centos'', ''fedora''})"
proof -
  have nil: "[] \<notin> set FEDORA_ATOMIC_DESKTOP_VARIANTS" by (simp add: FEDORA_ATOMIC_DESKTOP_VARIANTS_def)
  have "resolve_ublue ub = Inr b \<longrightarrow> bir_strategy b = UniversalBlue \<and> bir_image_ref b \<noteq> []"
    by (auto simp: resolve_ublue_def Let_def ref_has_tag_def last_component_def split: option.splits list.splits if_splits)
  moreover have "resolve_from_os_release os = Inr c \<longrightarrow> bir_strategy c = StrategyOsRelease
      \<and> osr_id os \<in> {''rhel'', ''centos'', ''fedora''}"
    by (auto simp: resolve_from_os_release_def Let_def split: if_splits)
  ultimately show ?thesis
    using nil by (auto simp: resolve_base_image_def split: option.split list.split)
qed

definition demo_os :: os_release where
  "demo_os = \<lparr> osr_name = ''CentOS'', osr_version_id = ''9'', osr_version = ''9'', osr_id = ''centos'',
     osr_id_like = [], osr_pretty_name = [], osr_variant_id = [] \<rparr>"

definition demo_ublue :: ublue_metadata where
  "demo_ublue = \<lparr> ub_image_ref = Some ''docker://ghcr.io/u/b:1'', ub_image_tag = None, ub_image_name = None, ub_image_vendor = None \<rparr>"

theorem resolve_base_image_priority_witness:
  "\<exists>b c. resolve_base_image demo_os (Some demo_ublue) None (Some []) = Inr b \<and> bir_strategy b = UniversalBlue
     \<and> resolve_base_image demo_os None (Some []) None = Inr c \<and> bir_strategy c = StrategyOsRelease"
proof -
  obtain b where b: "resolve_ublue demo_ublue = Inr b"
    by (simp add: resolve_ublue_def demo_ublue_def strip_transport_prefix_def TRANSPORT_PREFIXES_def
        strip_prefix_def ref_has_tag_def last_component_def)
  obtain c where c: "resolve_from_os_release demo_os = Inr c"
    by (simp add: resolve_from_os_release_def demo_os_def Let_def)
  show ?thesis
    using resolve_base_image_priority [of demo_os "Some demo_ublue" None "Some []" demo_ublue b c]
      resolve_base_image_priority [of demo_os None "Some []" None demo_ublue b c] b c
    by (simp add: demo_os_def)
qed

text \<open>A RHEL host without a version resolves to an image with an empty tag, which the
  normalization accepts.\<close>

lemma rhel_without_version:
  assumes "osr_id os = ''rhel''" "osr_version_id os = []"
  shows "resolve_base_image os None None None =
      Inr \<lparr> bir_image_ref = ''registry.redhat.io/rhel/rhel-bootc:'', bir_strategy = StrategyOsRelease \<rparr>"
    and "normalize_image_ref ''registry.redhat.io/rhel/rhel-bootc:'' = Inr ''registry.redhat.io/rhel/rhel-bootc:''"
proof -
  show "resolve_base_image os None None None =
      Inr \<lparr> bir_image_ref = ''registry.redhat.io/rhel/rhel-bootc:'', bir_strategy = StrategyOsRelease \<rparr>"
    using assms by (simp add: resolve_base_image_def resolve_from_os_release_def major_version_def RHEL_BOOTC_MIN_def)
  show "normalize_image_ref ''registry.redhat.io/rhel/rhel-bootc:'' = Inr ''registry.redhat.io/rhel/rhel-bootc:''"
    by code_simp
qed

end
