(* ===== verification/MergeEngine.thy ===== *)
theory MergeEngine
  imports Findings
begin

text \<open>
  The generic merge engine of \<open>crates/core/src/aggregate/merge.rs\<close>: items of one kind,
  collected from several hosts, become one list with an \<open>AggregatePrevalence\<close> on every item.

  The trait \<open>AggregateMergeable\<close> is the record \<open>mergeable\<close> of its methods (with the text
  form \<open>serde_json::to_string\<close> of an item beside them); its contract is the locale
  \<open>mergeable\<close>, extended by \<open>variant_mergeable\<close> for the kinds with a variant selection. The
  implementations of the trait are in the theory \<open>Mergeable\<close>, which interprets the locales.

  A result \<^term>\<open>None\<close> is a panic: a host index outside \<open>hostnames\<close>, or the \<open>unwrap\<close> of the
  content key of an item that has none in a group whose first item has one.
\<close>

section \<open>The trait\<close>

record 'a mergeable =
  identity_key :: "'a \<Rightarrow> string"
  get_aggregate :: "'a \<Rightarrow> aggregate_prevalence option"
  set_aggregate :: "aggregate_prevalence option \<Rightarrow> 'a \<Rightarrow> 'a"
  set_include :: "bool \<Rightarrow> 'a \<Rightarrow> 'a"
  set_variant :: "variant_selection \<Rightarrow> 'a \<Rightarrow> 'a"
  content_variant_key :: "'a \<Rightarrow> string option"
  payload_json :: "'a \<Rightarrow> string"

section \<open>The engine\<close>

text \<open>The host names behind host indices, sorted and deduplicated.\<close>

definition hosts_of :: "string list \<Rightarrow> nat list \<Rightarrow> string list panics" where
  "hosts_of hostnames idxs = map_option sort_dedup (map_panics (index_at hostnames) idxs)"

definition prevalence :: "string list \<Rightarrow> nat \<Rightarrow> string list option \<Rightarrow> aggregate_prevalence" where
  "prevalence hosts total_hosts aggregate_hosts =
     \<lparr> ap_count = as_i32 (length hosts), ap_total = as_i32 total_hosts, ap_hosts = hosts,
       ap_aggregate_count = map_option (\<lambda>hs. as_i32 (length hs)) aggregate_hosts,
       ap_aggregate_hosts = aggregate_hosts \<rparr>"

definition stamp :: "('a, 'b) mergeable_scheme \<Rightarrow> aggregate_prevalence \<Rightarrow> 'a \<Rightarrow> 'a" where
  "stamp M p x = set_include M True (set_aggregate M (Some p) x)"

definition narrow_one :: "('a, 'b) mergeable_scheme \<Rightarrow> 'a \<Rightarrow> 'a" where
  "narrow_one M x =
     (case get_aggregate M x of
        Some f \<Rightarrow> if ap_count f < ap_total f then set_include M False x else x
      | None \<Rightarrow> x)"

definition narrow_non_universal :: "('a, 'b) mergeable_scheme \<Rightarrow> 'a list \<Rightarrow> 'a list" where
  "narrow_non_universal M items = map (narrow_one M) items"

text \<open>The payload count of one group: (payload, occurrences, first position).\<close>

fun payload_bump :: "string \<Rightarrow> nat \<Rightarrow> (string \<times> nat \<times> nat) list \<Rightarrow> (string \<times> nat \<times> nat) list" where
  "payload_bump key pos [] = [(key, 1, pos)]"
| "payload_bump key pos ((k, n, p) # ps) =
     (if k = key then (k, Suc n, p) # ps else (k, n, p) # payload_bump key pos ps)"

definition normalized_payload :: "('a, 'b) mergeable_scheme \<Rightarrow> 'a \<Rightarrow> string" where
  "normalized_payload M item = payload_json M (set_include M True (set_aggregate M None item))"

definition payload_counts :: "string list \<Rightarrow> (string \<times> nat \<times> nat) list" where
  "payload_counts payloads =
     foldl (\<lambda>counts (pos, key). payload_bump key pos counts) [] (List.enumerate 0 payloads)"

definition rank_payloads :: "(string \<times> nat \<times> nat) list \<Rightarrow> (string \<times> nat \<times> nat) list" where
  "rank_payloads counts = sort_key (\<lambda>(k, n, pos). (- int n, pos)) counts"

definition merge_plain ::
  "('a, 'b) mergeable_scheme \<Rightarrow> nat \<Rightarrow> string list \<Rightarrow> (nat \<times> 'a) list \<Rightarrow> 'a panics" where
  "merge_plain M total_hosts hosts grp = do {
     (_, _, winner_idx) \<leftarrow> index_at (rank_payloads (payload_counts (map (normalized_payload M \<circ> snd) grp))) 0;
     (_, item) \<leftarrow> index_at grp winner_idx;
     Some (stamp M (prevalence hosts total_hosts None) item)
   }"

definition rank_variants :: "(string \<times> (nat \<times> 'a) list) list \<Rightarrow> (string \<times> (nat \<times> 'a) list) list" where
  "rank_variants subgroups =
     sort_key (\<lambda>(hash, sg). (- int (length (sort_dedup (map fst sg))), hash)) subgroups"

text \<open>One ranked variant: position 0 is the selected one.\<close>

definition merge_variant ::
  "('a, 'b) mergeable_scheme \<Rightarrow> nat \<Rightarrow> string list \<Rightarrow> string list \<Rightarrow>
   nat \<times> string \<times> (nat \<times> 'a) list \<Rightarrow> 'a panics" where
  "merge_variant M total_hosts hostnames aggregate_hosts = (\<lambda>(i, hash, sg). do {
     hosts \<leftarrow> hosts_of hostnames (map fst sg);
     (_, item) \<leftarrow> index_at sg 0;
     Some (set_variant M (if i = 0 then Selected else Alternative)
       (stamp M (prevalence hosts total_hosts (Some aggregate_hosts)) item))
   })"

definition merge_with_variants ::
  "('a, 'b) mergeable_scheme \<Rightarrow> hash_order \<Rightarrow> nat \<Rightarrow> string list \<Rightarrow> (nat \<times> 'a) list \<Rightarrow> 'a list panics" where
  "merge_with_variants M ord total_hosts hostnames grp = do {
     keyed \<leftarrow> map_panics (\<lambda>(idx, item). map_option (\<lambda>h. (h, idx, item)) (content_variant_key M item)) grp;
     let subgroups = map (\<lambda>(h, es). (h, map snd es)) (group_by fst keyed);
     if length subgroups = 1
     then do {
       (_, sg) \<leftarrow> index_at (hm_iter ord subgroups) 0;
       hosts \<leftarrow> hosts_of hostnames (map fst sg);
       (_, item) \<leftarrow> index_at sg 0;
       Some [stamp M (prevalence hosts total_hosts None) item]
     }
     else do {
       aggregate_hosts \<leftarrow> hosts_of hostnames (concat (map (\<lambda>(h, sg). map fst sg) (hm_iter ord subgroups)));
       variant_results \<leftarrow> map_panics (merge_variant M total_hosts hostnames aggregate_hosts)
         (List.enumerate 0 (rank_variants (hm_iter ord subgroups)));
       Some (narrow_non_universal M variant_results)
     }
   }"

definition merge_group ::
  "('a, 'b) mergeable_scheme \<Rightarrow> hash_order \<Rightarrow> nat \<Rightarrow> string list \<Rightarrow> (nat \<times> 'a) list \<Rightarrow> 'a list panics" where
  "merge_group M ord total_hosts hostnames unsorted = do {
     let grp = sort_key fst unsorted;
     hosts \<leftarrow> hosts_of hostnames (map fst grp);
     (_, first) \<leftarrow> index_at grp 0;
     if content_variant_key M first \<noteq> None
     then merge_with_variants M ord total_hosts hostnames grp
     else map_option (\<lambda>x. [x]) (merge_plain M total_hosts hosts grp)
   }"

definition merge_items ::
  "('a, 'b) mergeable_scheme \<Rightarrow> hash_order \<Rightarrow> (nat \<times> 'a) list \<Rightarrow> nat \<Rightarrow> string list \<Rightarrow> 'a list panics" where
  "merge_items M ord items total_hosts hostnames = do {
     let groups = group_by (identity_key M \<circ> snd) items;
     merged \<leftarrow> map_panics (merge_group M ord total_hosts hostnames) (map snd (hm_iter ord groups));
     Some (sort_key (identity_key M) (narrow_non_universal M (concat merged)))
   }"

section \<open>Host lists\<close>

lemma hosts_of_ok:
  "\<forall>i \<in> set idxs. i < length hostnames \<Longrightarrow>
     hosts_of hostnames idxs = Some (sort_dedup (map ((!) hostnames) idxs))"
  by (simp add: hosts_of_def map_panics_index_at)

lemma hosts_of_Some_iff:
  "hosts_of hostnames idxs = Some hosts \<longleftrightarrow>
     (\<forall>i \<in> set idxs. i < length hostnames) \<and> hosts = sort_dedup (map ((!) hostnames) idxs)"
proof (cases "\<forall>i \<in> set idxs. i < length hostnames")
  case True
  then show ?thesis by (auto simp: hosts_of_ok)
next
  case False
  then have "\<exists>i \<in> set idxs. length hostnames \<le> i" by (simp add: not_less)
  with False show ?thesis by (simp add: hosts_of_def map_panics_index_at_None)
qed

lemma hosts_of_cong: "set is = set js \<Longrightarrow> hosts_of hostnames is = hosts_of hostnames js"
proof -
  assume eq: "set is = set js"
  have "hosts_of hostnames is = Some h \<longleftrightarrow> hosts_of hostnames js = Some h" for h
    unfolding hosts_of_Some_iff using eq by (auto intro!: sort_dedup_cong)
  then show ?thesis by (metis option.exhaust)
qed

section \<open>The payload count\<close>

text \<open>The position of the first occurrence.\<close>

fun first_index :: "'a list \<Rightarrow> 'a \<Rightarrow> nat" where
  "first_index [] k = 0"
| "first_index (x # xs) k = (if x = k then 0 else Suc (first_index xs k))"

lemma first_index_snoc:
  "first_index (xs @ [x]) k = (if k \<in> set xs then first_index xs k else if x = k then length xs else Suc (length xs))"
  by (induction xs) auto

lemma first_index_less: "k \<in> set xs \<Longrightarrow> first_index xs k < length xs \<and> xs ! first_index xs k = k"
  by (induction xs) auto

lemma payload_bump_map:
  assumes "distinct ks"
  shows "payload_bump k pos (map (\<lambda>k'. (k', g k', h k')) ks) =
    (if k \<in> set ks then map (\<lambda>k'. (k', if k' = k then Suc (g k') else g k', h k')) ks
     else map (\<lambda>k'. (k', g k', h k')) ks @ [(k, 1, pos)])"
  using assms by (induction ks) auto

lemma payload_counts_eq:
  "payload_counts ps = map (\<lambda>k. (k, count_list ps k, first_index ps k)) (first_seen ps)"
proof (induction ps rule: rev_induct)
  case Nil
  then show ?case by (simp add: payload_counts_def)
next
  case (snoc p ps)
  have "payload_counts (ps @ [p]) = payload_bump p (length ps) (payload_counts ps)"
    by (simp add: payload_counts_def enumerate_append_eq)
  also have "\<dots> = payload_bump p (length ps) (map (\<lambda>k. (k, count_list ps k, first_index ps k)) (first_seen ps))"
    by (simp only: snoc.IH)
  also have "\<dots> = map (\<lambda>k. (k, count_list (ps @ [p]) k, first_index (ps @ [p]) k)) (first_seen (ps @ [p]))"
    by (subst payload_bump_map)
      (auto simp: first_seen_snoc first_index_snoc count_list_0_iff)
  finally show ?case .
qed

lemma rank_payloads_nonempty: "ps \<noteq> [] \<Longrightarrow> rank_payloads (payload_counts ps) \<noteq> []"
  by (simp add: rank_payloads_def payload_counts_eq flip: set_empty)

text \<open>The winner occurs most often, and first among those that do.\<close>

lemma rank_payloads_winner:
  assumes "rank_payloads (payload_counts ps) = (k, n, w) # rest" and "q \<in> set ps"
  shows "w < length ps" "ps ! w = k" "n = count_list ps k" "count_list ps q \<le> count_list ps k"
    "count_list ps q = count_list ps k \<Longrightarrow> w \<le> first_index ps q"
proof -
  let ?f = "\<lambda>(k, n, pos). (- int n, pos)"
  have "(k, n, w) \<in> set (rank_payloads (payload_counts ps))" using assms(1) by simp
  then have kin: "k \<in> set ps" and n: "n = count_list ps k" and w: "w = first_index ps k"
    by (auto simp: rank_payloads_def payload_counts_eq)
  show "w < length ps" "ps ! w = k" using first_index_less [OF kin] w by auto
  show "n = count_list ps k" by (rule n)
  have "(q, count_list ps q, first_index ps q) \<in> set (payload_counts ps)"
    using assms(2) by (simp add: payload_counts_eq)
  then have "?f (hd (sort_key ?f (payload_counts ps))) \<le> ?f (q, count_list ps q, first_index ps q)"
    by (rule sort_key_hd_min)
  then have le: "(- int n, w) \<le> (- int (count_list ps q), first_index ps q)"
    using assms(1) by (simp add: rank_payloads_def)
  then show "count_list ps q \<le> count_list ps k" using n by auto
  show "w \<le> first_index ps q" if "count_list ps q = count_list ps k"
    using le n that by auto
qed

end
