(* ===== verification/MergeContract.thy ===== *)
theory MergeContract
  imports MergeEngine
begin

text \<open>
  The contract of \<open>AggregateMergeable\<close> and what the engine guarantees under it.

  The laws of the locale \<open>mergeable\<close> say that the setters of the trait touch their own
  field only: the identity key and the content key never depend on the prevalence, the
  decision or the variant selection. Under them the engine returns exactly one entry per
  (identity, content key) pair, each with the hosts that carry the pair, sorted by identity;
  it includes an actionable entry exactly when every host carries it; and its result does
  not depend on the iteration order of the hash maps. \<open>variant_mergeable\<close> adds the variant
  selection.
\<close>

section \<open>Specification vocabulary\<close>

text \<open>The items of one (identity, content key) pair.\<close>

definition carriers :: "('a, 'b) mergeable_scheme \<Rightarrow> (nat \<times> 'a) list \<Rightarrow> 'a \<Rightarrow> (nat \<times> 'a) list" where
  "carriers M items x = filter (\<lambda>e. identity_key M (snd e) = identity_key M x
     \<and> content_variant_key M (snd e) = content_variant_key M x) items"

definition carrier_hosts :: "('a, 'b) mergeable_scheme \<Rightarrow> string list \<Rightarrow> (nat \<times> 'a) list \<Rightarrow> 'a \<Rightarrow> string list" where
  "carrier_hosts M hostnames items x = sort_dedup (map (\<lambda>e. hostnames ! fst e) (carriers M items x))"

text \<open>Inputs on which the engine does not panic.\<close>

definition hosts_in_range :: "string list \<Rightarrow> (nat \<times> 'a) list \<Rightarrow> bool" where
  "hosts_in_range hostnames items \<longleftrightarrow> (\<forall>e \<in> set items. fst e < length hostnames)"

definition uniform_variants :: "('a, 'b) mergeable_scheme \<Rightarrow> (nat \<times> 'a) list \<Rightarrow> bool" where
  "uniform_variants M items \<longleftrightarrow>
     (\<forall>d \<in> set items. \<forall>e \<in> set items. identity_key M (snd d) = identity_key M (snd e) \<longrightarrow>
        (content_variant_key M (snd d) = None \<longleftrightarrow> content_variant_key M (snd e) = None))"

text \<open>
  What one entry of the result owes to the items it stands for: the tag of an input item, the
  hosts of all the items with that tag, and the item's decision, narrowed to excluded when
  fewer than all hosts carry the tag.
\<close>

definition tag :: "('a, 'b) mergeable_scheme \<Rightarrow> 'a \<Rightarrow> string \<times> string option" where
  "tag M x = (identity_key M x, content_variant_key M x)"

definition final_entry ::
  "('a, 'b) mergeable_scheme \<Rightarrow> ('a \<Rightarrow> finding_kind) \<Rightarrow> string list \<Rightarrow> nat \<Rightarrow> (nat \<times> 'a) list \<Rightarrow> 'a \<Rightarrow> bool" where
  "final_entry M disp hostnames total_hosts items y \<longleftrightarrow>
     (\<exists>e \<in> set items. \<exists>p. tag M y = tag M (snd e) \<and> get_aggregate M y = Some p
        \<and> ap_hosts p = carrier_hosts M hostnames items y
        \<and> ap_count p = as_i32 (length (ap_hosts p)) \<and> ap_total p = as_i32 total_hosts
        \<and> disp y = with_include (disp (snd e)) (\<not> ap_count p < ap_total p))"

text \<open>The number of hosts that carry the tag of \<open>y\<close>.\<close>

definition host_count :: "('a, 'b) mergeable_scheme \<Rightarrow> (nat \<times> 'a) list \<Rightarrow> 'a \<Rightarrow> nat" where
  "host_count M items y = card (fst ` set (carriers M items y))"

section \<open>Iteration order\<close>

lemma hm_iter_map:
  assumes "legal_order ord"
  shows "hm_iter ord (map (\<lambda>k. (k, f k)) ks) = map (\<lambda>k. (k, f k)) (ord ks)"
proof -
  have "the (map_of (map (\<lambda>k. (k, f k)) ks) k) = f k" if "k \<in> set (ord ks)" for k
    using that legal_order_set [OF assms] by (simp add: map_of_map_restrict)
  then show ?thesis by (simp add: hm_iter_def comp_def cong: map_cong)
qed

lemma hm_iter_single: "legal_order ord \<Longrightarrow> length m = 1 \<Longrightarrow> hm_iter ord m = m"
proof -
  assume ord: "legal_order ord" and "length m = 1"
  then obtain k v where m: "m = [(k, v)]" by (cases m) auto
  have "mset (ord [k]) = {#k#}" using ord by (simp add: legal_order_def)
  then have "ord [k] = [k]" by simp
  with m show ?thesis by (simp add: hm_iter_def)
qed

lemma rank_variants_cong:
  assumes "mset xs = mset ys" and "distinct (map fst xs)"
  shows "rank_variants xs = rank_variants ys"
  unfolding rank_variants_def
proof (rule sort_key_inj_eq [OF assms(1)])
  show "inj_on (\<lambda>(hash, sg). (- int (length (sort_dedup (map fst sg))), hash)) (set xs)"
  proof (rule inj_onI)
    fix p q
    assume pq: "p \<in> set xs" "q \<in> set xs"
      "(\<lambda>(hash, sg). (- int (length (sort_dedup (map fst sg))), hash)) p
       = (\<lambda>(hash, sg). (- int (length (sort_dedup (map fst sg))), hash)) q"
    then have "fst p = fst q" by (auto simp: case_prod_beta)
    with pq show "p = q"
      using assms(2) by (metis distinct_map inj_on_def)
  qed
qed

lemma merge_with_variants_order:
  assumes "legal_order ord" "legal_order ord'"
  shows "merge_with_variants M ord T hn g = merge_with_variants M ord' T hn g"
proof (cases "map_panics (\<lambda>(idx, item). map_option (\<lambda>h. (h, idx, item)) (content_variant_key M item)) g")
  case None
  then show ?thesis by (simp add: merge_with_variants_def)
next
  case (Some keyed)
  define sgs where "sgs = map (\<lambda>(h, es). (h, map snd es)) (group_by fst keyed)"
  have dist: "distinct (map fst sgs)"
    by (simp add: sgs_def comp_def case_prod_beta map_fst_group_by [unfolded comp_def])
  have eq: "mset (hm_iter ord sgs) = mset (hm_iter ord' sgs)"
    using hm_iter_mset dist assms by metis
  have d1: "distinct (map fst (hm_iter ord sgs))"
    using dist assms(1) by (simp add: hm_iter_def comp_def legal_order_distinct)
  have rank: "rank_variants (hm_iter ord sgs) = rank_variants (hm_iter ord' sgs)"
    by (rule rank_variants_cong [OF eq d1])
  have agg: "hosts_of hn (concat (map (\<lambda>(h, sg). map fst sg) (hm_iter ord sgs)))
      = hosts_of hn (concat (map (\<lambda>(h, sg). map fst sg) (hm_iter ord' sgs)))"
    using mset_eq_setD [OF eq] by (intro hosts_of_cong) simp
  have len: "length (group_by fst keyed) = length sgs" by (simp add: sgs_def)
  show ?thesis
  proof (cases "length sgs = 1")
    case True
    then show ?thesis
      using hm_iter_single [OF assms(1) True] hm_iter_single [OF assms(2) True] Some
      by (simp add: merge_with_variants_def sgs_def [symmetric])
  next
    case False
    then show ?thesis
      using Some rank agg len by (simp add: merge_with_variants_def sgs_def [symmetric])
  qed
qed

lemma merge_group_order:
  "legal_order ord \<Longrightarrow> legal_order ord' \<Longrightarrow> merge_group M ord T hn g = merge_group M ord' T hn g"
  unfolding merge_group_def by (simp only: merge_with_variants_order [of ord ord'])

lemma in_enumerate_snd: "(i, z) \<in> set (List.enumerate n zs) \<Longrightarrow> z \<in> set zs"
  by (induction zs arbitrary: n) auto

lemma concat_mset_cong: "mset ks = mset ks' \<Longrightarrow> mset (concat (map G ks)) = mset (concat (map G ks'))"
  by (simp add: mset_concat comp_def flip: sum_mset_sum_list)

lemma filter_concat_keyed:
  assumes "distinct ks" "\<And>k y. k \<in> set ks \<Longrightarrow> y \<in> set (G k) \<Longrightarrow> f y = k"
  shows "filter (\<lambda>y. f y = k) (concat (map G ks)) = (if k \<in> set ks then G k else [])"
  using assms
proof (induction ks)
  case (Cons a ks)
  have "filter (\<lambda>y. f y = k) (G a) = (if a = k then G a else [])"
    using Cons.prems(2) by (auto simp: filter_id_conv filter_empty_conv)
  then show ?case using Cons by auto
qed simp

lemma sort_key_concat_keyed:
  assumes "distinct ks" "\<And>k y. k \<in> set ks \<Longrightarrow> y \<in> set (G k) \<Longrightarrow> f y = k"
  shows "sort_key f (concat (map G ks)) = concat (map G (sort ks))"
proof (rule properties_for_sort_key)
  show "mset (concat (map G (sort ks))) = mset (concat (map G ks))"
    by (rule concat_mset_cong) simp
  show "filter (\<lambda>y. f k = f y) (concat (map G (sort ks))) = filter (\<lambda>y. f k = f y) (concat (map G ks))" for k
    using filter_concat_keyed [of ks G f "f k"] filter_concat_keyed [of "sort ks" G f "f k"] assms
    by (simp add: eq_commute [of "f k"])
  have "sorted (map f (concat (map G xs)))"
    if "sorted xs" "\<And>k y. k \<in> set xs \<Longrightarrow> y \<in> set (G k) \<Longrightarrow> f y = k" for xs
    using that
  proof (induction xs)
    case (Cons a xs)
    then have "sorted (map f (G a))"
      by (metis (mono_tags, lifting) list.set_intros(1) map_idI sort_key_const sorted_sort_key)
    moreover have "f y \<le> f z" if "y \<in> set (G a)" "b \<in> set xs" "z \<in> set (G b)" for y z b
    proof -
      have "f y = a" "f z = b" using Cons.prems(2) that by (meson list.set_intros)+
      then show ?thesis using Cons.prems(1) that(2) by simp
    qed
    ultimately show ?case using Cons by (auto simp: sorted_append)
  qed simp
  from this [of "sort ks"] show "sorted (map f (concat (map G (sort ks))))" using assms(2) by simp
qed

section \<open>The contract\<close>

locale mergeable =
  fixes M :: "('a, 'b) mergeable_scheme"
    and disp :: "'a \<Rightarrow> finding_kind"
  assumes key_set_aggregate: "identity_key M (set_aggregate M a x) = identity_key M x"
    and key_set_include: "identity_key M (set_include M b x) = identity_key M x"
    and key_set_variant: "identity_key M (set_variant M v x) = identity_key M x"
    and content_set_aggregate: "content_variant_key M (set_aggregate M a x) = content_variant_key M x"
    and content_set_include: "content_variant_key M (set_include M b x) = content_variant_key M x"
    and content_set_variant: "content_variant_key M (set_variant M v x) = content_variant_key M x"
    and aggregate_set_aggregate: "get_aggregate M (set_aggregate M a x) = a"
    and aggregate_set_include: "get_aggregate M (set_include M b x) = get_aggregate M x"
    and aggregate_set_variant: "get_aggregate M (set_variant M v x) = get_aggregate M x"
    and disp_set_aggregate: "disp (set_aggregate M a x) = disp x"
    and disp_set_include: "disp (set_include M b x) = with_include (disp x) b"
    and disp_set_variant: "disp (set_variant M v x) = disp x"
begin

lemmas laws [simp] =
  key_set_aggregate key_set_include key_set_variant
  content_set_aggregate content_set_include content_set_variant
  aggregate_set_aggregate aggregate_set_include aggregate_set_variant
  disp_set_aggregate disp_set_include disp_set_variant

lemma stamp_simps [simp]:
  "identity_key M (stamp M p x) = identity_key M x"
  "content_variant_key M (stamp M p x) = content_variant_key M x"
  "get_aggregate M (stamp M p x) = Some p"
  "disp (stamp M p x) = with_include (disp x) True"
  by (simp_all add: stamp_def)

lemma narrow_one_simps [simp]:
  "identity_key M (narrow_one M x) = identity_key M x"
  "content_variant_key M (narrow_one M x) = content_variant_key M x"
  "get_aggregate M (narrow_one M x) = get_aggregate M x"
  by (simp_all add: narrow_one_def split: option.split)

lemma disp_narrow_one:
  "get_aggregate M x = Some p \<Longrightarrow>
     disp (narrow_one M x) = (if ap_count p < ap_total p then with_include (disp x) False else disp x)"
  by (simp add: narrow_one_def)

text \<open>An entry made for the items \<open>g\<close> of one pair: key, hosts, and a decision.\<close>

definition entry_for :: "string list \<Rightarrow> nat \<Rightarrow> (nat \<times> 'a) list \<Rightarrow> 'a \<Rightarrow> bool" where
  "entry_for hn T g y \<longleftrightarrow>
     (\<exists>e \<in> set g. \<exists>p b. identity_key M y = identity_key M (snd e)
        \<and> content_variant_key M y = content_variant_key M (snd e)
        \<and> get_aggregate M y = Some p
        \<and> ap_hosts p = carrier_hosts M hn g (snd e)
        \<and> ap_count p = as_i32 (length (ap_hosts p)) \<and> ap_total p = as_i32 T
        \<and> disp y = with_include (disp (snd e)) b \<and> (b \<or> ap_count p < ap_total p))"

lemma carrier_hosts_cong:
  "identity_key M x = identity_key M y \<Longrightarrow> content_variant_key M x = content_variant_key M y \<Longrightarrow>
     carrier_hosts M hn g x = carrier_hosts M hn g y"
  by (simp add: carrier_hosts_def carriers_def)

lemma carrier_hosts_set_cong:
  "set g = set g' \<Longrightarrow> carrier_hosts M hn g x = carrier_hosts M hn g' x"
  unfolding carrier_hosts_def carriers_def by (rule sort_dedup_cong) simp

lemma merge_plain_ok:
  assumes "g \<noteq> []"
  obtains i x where "(i, x) \<in> set g"
    "merge_plain M T hosts g = Some (stamp M (prevalence hosts T None) x)"
    "\<And>j z. (j, z) \<in> set g \<Longrightarrow>
       count_list (map (normalized_payload M \<circ> snd) g) (normalized_payload M z)
       \<le> count_list (map (normalized_payload M \<circ> snd) g) (normalized_payload M x)"
proof -
  let ?ps = "map (normalized_payload M \<circ> snd) g"
  have ne: "?ps \<noteq> []" using assms by simp
  obtain k n w rest where rank: "rank_payloads (payload_counts ?ps) = (k, n, w) # rest"
    using rank_payloads_nonempty [OF ne] by (metis list.exhaust prod_cases3)
  have "hd ?ps \<in> set ?ps" using ne by (rule hd_in_set)
  note win = rank_payloads_winner [OF rank this]
  then have w: "w < length g" by simp
  obtain i x where gx: "g ! w = (i, x)" by (cases "g ! w")
  have "(i, x) \<in> set g" using w gx nth_mem by metis
  moreover have "merge_plain M T hosts g = Some (stamp M (prevalence hosts T None) x)"
    using rank w gx by (simp add: merge_plain_def index_at_def)
  moreover have "k = normalized_payload M x" using win(2) w gx by simp
  then have "count_list ?ps (normalized_payload M z) \<le> count_list ?ps (normalized_payload M x)"
    if "(j, z) \<in> set g" for j z
  proof -
    have "normalized_payload M z \<in> set ?ps" using that by force
    then show ?thesis using rank_payloads_winner(4) [OF rank] \<open>k = normalized_payload M x\<close> by blast
  qed
  ultimately show thesis by (rule that)
qed

text \<open>The variants of a group: content keys in first-seen order with their items.\<close>

definition variant_keys :: "(nat \<times> 'a) list \<Rightarrow> string list" where
  "variant_keys g = first_seen (map (\<lambda>e. the (content_variant_key M (snd e))) g)"

definition variant_items :: "(nat \<times> 'a) list \<Rightarrow> string \<Rightarrow> (nat \<times> 'a) list" where
  "variant_items g h = filter (\<lambda>e. content_variant_key M (snd e) = Some h) g"

definition ranked_variants :: "(nat \<times> 'a) list \<Rightarrow> (string \<times> (nat \<times> 'a) list) list" where
  "ranked_variants g = rank_variants (map (\<lambda>h. (h, variant_items g h)) (variant_keys g))"

definition host_names :: "string list \<Rightarrow> (nat \<times> 'a) list \<Rightarrow> string list" where
  "host_names hn g = sort_dedup (map (\<lambda>e. hn ! fst e) g)"

definition variant_entry ::
  "string list \<Rightarrow> nat \<Rightarrow> string list \<Rightarrow> nat \<Rightarrow> (nat \<times> 'a) list \<Rightarrow> 'a" where
  "variant_entry hn T aggregate_hosts i sg =
     set_variant M (if i = 0 then Selected else Alternative)
       (stamp M (prevalence (host_names hn sg) T (Some aggregate_hosts)) (snd (hd sg)))"

lemma hosts_of_names:
  "hosts_in_range hn g \<Longrightarrow> hosts_of hn (map fst g) = Some (host_names hn g)"
  by (subst hosts_of_ok) (auto simp: hosts_in_range_def host_names_def comp_def)

lemma keyed_variants:
  assumes "\<forall>e \<in> set g. content_variant_key M (snd e) \<noteq> None"
  shows "map_panics (\<lambda>(idx, item). map_option (\<lambda>h. (h, idx, item)) (content_variant_key M item)) g
      = Some (map (\<lambda>e. (the (content_variant_key M (snd e)), e)) g)"
    and "map (\<lambda>(h, es). (h, map snd es)) (group_by fst (map (\<lambda>e. (the (content_variant_key M (snd e)), e)) g))
      = map (\<lambda>h. (h, variant_items g h)) (variant_keys g)"
proof -
  show "map_panics (\<lambda>(idx, item). map_option (\<lambda>h. (h, idx, item)) (content_variant_key M item)) g
      = Some (map (\<lambda>e. (the (content_variant_key M (snd e)), e)) g)"
    using assms by (force simp: map_panics_Some_iff)
  have "map snd (filter (\<lambda>e. fst e = h) (map (\<lambda>e. (the (content_variant_key M (snd e)), e)) g))
      = variant_items g h" for h
    using assms unfolding variant_items_def
    by (induction g) auto
  then show "map (\<lambda>(h, es). (h, map snd es)) (group_by fst (map (\<lambda>e. (the (content_variant_key M (snd e)), e)) g))
      = map (\<lambda>h. (h, variant_items g h)) (variant_keys g)"
    by (simp add: group_by_eq variant_keys_def comp_def case_prod_beta)
qed

lemma variant_keys_iff:
  assumes "\<forall>e \<in> set g. content_variant_key M (snd e) \<noteq> None"
  shows "h \<in> set (variant_keys g) \<longleftrightarrow> variant_items g h \<noteq> []"
  using assms by (force simp: variant_keys_def variant_items_def filter_empty_conv)

lemma variant_keys_distinct [simp]: "distinct (variant_keys g)"
  by (simp add: variant_keys_def)

lemma concat_variant_items:
  assumes "\<forall>e \<in> set g. content_variant_key M (snd e) \<noteq> None"
  shows "set (concat (map (variant_items g) (variant_keys g))) = set g"
  using assms by (force simp: variant_keys_def variant_items_def)

lemma merge_variant_ok:
  assumes "hosts_in_range hn sg" "sg \<noteq> []"
  shows "merge_variant M T hn agg (i, h, sg) = Some (variant_entry hn T agg i sg)"
  using assms hosts_of_names [OF assms(1)]
  by (cases sg) (auto simp: merge_variant_def index_at_def variant_entry_def)

lemma hosts_in_range_filter: "hosts_in_range hn g \<Longrightarrow> hosts_in_range hn (filter P g)"
  by (auto simp: hosts_in_range_def)

lemma ranked_variants_mem:
  "(h, sg) \<in> set (ranked_variants g) \<longleftrightarrow> h \<in> set (variant_keys g) \<and> sg = variant_items g h"
  by (auto simp: ranked_variants_def rank_variants_def)

text \<open>The result of \<open>merge_with_variants\<close> in closed form.\<close>

lemma merge_with_variants_eq:
  assumes ord: "legal_order ord" and g: "g \<noteq> []" and rng: "hosts_in_range hn g"
    and vk: "\<forall>e \<in> set g. content_variant_key M (snd e) \<noteq> None"
  shows "merge_with_variants M ord T hn g = Some
    (if length (variant_keys g) = 1
     then [stamp M (prevalence (host_names hn g) T None) (snd (hd g))]
     else narrow_non_universal M
       (map (\<lambda>(i, h, sg). variant_entry hn T (host_names hn g) i sg)
          (List.enumerate 0 (ranked_variants g))))"
proof -
  let ?subs = "map (\<lambda>h. (h, variant_items g h)) (variant_keys g)"
  have start: "merge_with_variants M ord T hn g = merge_with_variants M (\<lambda>ks. ks) T hn g"
    by (rule merge_with_variants_order) (simp_all add: ord)
  have iter: "hm_iter (\<lambda>ks. ks) ?subs = ?subs"
    by (simp add: hm_iter_map)
  have len: "length (group_by fst (map (\<lambda>e. (the (content_variant_key M (snd e)), e)) g)) = length (variant_keys g)"
    using arg_cong [OF keyed_variants(2) [OF vk], of length] by simp
  show ?thesis
  proof (cases "length (variant_keys g) = 1")
    case True
    then obtain h where h: "variant_keys g = [h]" by (cases "variant_keys g") auto
    have "variant_items g h = g"
      unfolding variant_items_def filter_id_conv
    proof
      fix e
      assume e: "e \<in> set g"
      then have "the (content_variant_key M (snd e)) \<in> set (variant_keys g)"
        by (simp add: variant_keys_def)
      then show "content_variant_key M (snd e) = Some h" using h e vk by auto
    qed
    then show ?thesis
      using True h g start keyed_variants [OF vk] iter hosts_of_names [OF rng]
      by (cases g) (auto simp: merge_with_variants_def index_at_def)
  next
    case False
    have agg: "hosts_of hn (concat (map (\<lambda>(h, sg). map fst sg) ?subs)) = Some (host_names hn g)"
    proof -
      have "set (concat (map (\<lambda>(h, sg). map fst sg) ?subs)) = fst ` set (concat (map (variant_items g) (variant_keys g)))"
        by (force simp: image_iff)
      also have "\<dots> = set (map fst g)" using concat_variant_items [OF vk] by simp
      finally show ?thesis using hosts_of_names [OF rng] hosts_of_cong by metis
    qed
    have "merge_variant M T hn (host_names hn g) e
        = Some ((\<lambda>(i, h, sg). variant_entry hn T (host_names hn g) i sg) e)"
      if mem: "e \<in> set (List.enumerate 0 (ranked_variants g))" for e
    proof -
      obtain i h sg where e: "e = (i, h, sg)" by (cases e)
      have "(h, sg) \<in> set (ranked_variants g)" using in_enumerate_snd [OF mem [unfolded e]] by simp
      then have "h \<in> set (variant_keys g)" "sg = variant_items g h"
        unfolding ranked_variants_mem by blast+
      then have "sg \<noteq> []" "hosts_in_range hn sg"
        using variant_keys_iff [OF vk] hosts_in_range_filter [OF rng] by (auto simp: variant_items_def)
      then show ?thesis using e by (simp add: merge_variant_ok)
    qed
    then have "map_panics (merge_variant M T hn (host_names hn g)) (List.enumerate 0 (ranked_variants g))
       = Some (map (\<lambda>(i, h, sg). variant_entry hn T (host_names hn g) i sg) (List.enumerate 0 (ranked_variants g)))"
      by (simp add: map_panics_Some_iff)
    then show ?thesis
      unfolding start unfolding merge_with_variants_def keyed_variants(1) [OF vk] ranked_variants_def
      using False keyed_variants(2) [OF vk] iter agg len by (simp add: Let_def)
  qed
qed

text \<open>Entries for one group.\<close>

lemma entry_for_stamp:
  assumes "e \<in> set g" "set sg = set (carriers M g (snd e))"
  shows "entry_for hn T g (stamp M (prevalence (host_names hn sg) T agg) (snd e))"
proof -
  have "host_names hn sg = carrier_hosts M hn g (snd e)"
    unfolding host_names_def carrier_hosts_def using assms(2) by (intro sort_dedup_cong) simp
  then show ?thesis
    using assms(1) unfolding entry_for_def
    by (intro bexI [of _ e] exI [of _ "prevalence (host_names hn sg) T agg"] exI [of _ True])
      (auto simp: prevalence_def)
qed

lemma entry_for_set_variant: "entry_for hn T g y \<Longrightarrow> entry_for hn T g (set_variant M v y)"
  by (simp add: entry_for_def)

lemma entry_for_narrow: "entry_for hn T g y \<Longrightarrow> entry_for hn T g (narrow_one M y)"
proof -
  assume "entry_for hn T g y"
  then obtain e p b where e: "e \<in> set g" and y: "identity_key M y = identity_key M (snd e)"
      "content_variant_key M y = content_variant_key M (snd e)" "get_aggregate M y = Some p"
      "ap_hosts p = carrier_hosts M hn g (snd e)" "ap_count p = as_i32 (length (ap_hosts p))"
      "ap_total p = as_i32 T" "disp y = with_include (disp (snd e)) b" "b \<or> ap_count p < ap_total p"
    unfolding entry_for_def by blast
  then show ?thesis
    unfolding entry_for_def
    by (intro bexI [of _ e] exI [of _ p] exI [of _ "if ap_count p < ap_total p then False else b"])
      (auto simp: disp_narrow_one)
qed

lemma entry_for_set_cong: "set g = set g' \<Longrightarrow> entry_for hn T g y = entry_for hn T g' y"
  unfolding entry_for_def using carrier_hosts_set_cong [of g g'] by simp

lemma carriers_variant_items:
  assumes "\<forall>d \<in> set g. identity_key M (snd d) = k" "e \<in> set g" "content_variant_key M (snd e) = Some h"
  shows "carriers M g (snd e) = variant_items g h"
  using assms by (auto simp: carriers_def variant_items_def intro: filter_cong)

lemma map_snd_enumerate: "map (\<lambda>(i, z). f z) (List.enumerate n zs) = map f zs"
  by (induction zs arbitrary: n) auto

lemma merge_with_variants_entries:
  assumes ord: "legal_order ord" and g: "g \<noteq> []" and rng: "hosts_in_range hn g"
    and vk: "\<forall>e \<in> set g. content_variant_key M (snd e) \<noteq> None"
    and key: "\<forall>d \<in> set g. identity_key M (snd d) = k"
  shows "\<exists>outs. merge_with_variants M ord T hn g = Some outs \<and> distinct (map (content_variant_key M) outs)
     \<and> content_variant_key M ` set outs = (content_variant_key M \<circ> snd) ` set g
     \<and> (\<forall>y \<in> set outs. entry_for hn T g y)"
proof (cases "length (variant_keys g) = 1")
  case True
  then obtain h where h: "variant_keys g = [h]" by (cases "variant_keys g") auto
  have all: "content_variant_key M (snd e) = Some h" if e: "e \<in> set g" for e
  proof -
    have "the (content_variant_key M (snd e)) \<in> set (variant_keys g)"
      using e by (simp add: variant_keys_def)
    then show ?thesis using h e vk by auto
  qed
  have hd: "hd g \<in> set g" using g by simp
  have "set g = set (carriers M g (snd (hd g)))"
    using all key hd by (auto simp: carriers_def)
  then have "entry_for hn T g (stamp M (prevalence (host_names hn g) T None) (snd (hd g)))"
    using entry_for_stamp [OF hd] by blast
  moreover have "(content_variant_key M \<circ> snd) ` set g = {Some h}"
    using all g by (auto simp: image_iff) (metis list.set_intros(1) neq_Nil_conv prod.collapse)
  ultimately show ?thesis
    using True all hd merge_with_variants_eq [OF ord g rng vk] by simp
next
  case False
  let ?e = "\<lambda>(i, h, sg). variant_entry hn T (host_names hn g) i sg"
  let ?outs = "narrow_non_universal M (map ?e (List.enumerate 0 (ranked_variants g)))"
  have vkeys: "content_variant_key M (?e z) = Some (fst (snd z))"
    if "z \<in> set (List.enumerate 0 (ranked_variants g))" for z
  proof -
    obtain i h sg where z: "z = (i, h, sg)" by (cases z)
    have "(h, sg) \<in> set (ranked_variants g)" using in_enumerate_snd [OF that [unfolded z]] by simp
    then have "h \<in> set (variant_keys g)" "sg = variant_items g h"
      unfolding ranked_variants_mem by blast+
    then have "hd sg \<in> set sg" "\<forall>e \<in> set sg. content_variant_key M (snd e) = Some h"
      using variant_keys_iff [OF vk] hd_in_set by (blast, simp add: variant_items_def)
    then show ?thesis using z by (simp add: variant_entry_def)
  qed
  have map_vk: "map (content_variant_key M) ?outs = map (Some \<circ> fst) (ranked_variants g)"
  proof -
    have "map (content_variant_key M) ?outs
        = map (\<lambda>z. content_variant_key M (?e z)) (List.enumerate 0 (ranked_variants g))"
      by (simp add: narrow_non_universal_def)
    also have "\<dots> = map (\<lambda>z. Some (fst (snd z))) (List.enumerate 0 (ranked_variants g))"
      using vkeys by (intro map_cong) auto
    also have "\<dots> = map (Some \<circ> fst) (ranked_variants g)"
      using map_snd_enumerate [of "Some \<circ> fst" 0 "ranked_variants g"] by (simp add: case_prod_beta')
    finally show ?thesis .
  qed
  have fst_ranked: "mset (map fst (ranked_variants g)) = mset (variant_keys g)"
    by (simp add: ranked_variants_def rank_variants_def multiset.map_comp comp_def)
  then have "distinct (map fst (ranked_variants g))"
    using mset_eq_imp_distinct_iff variant_keys_distinct by metis
  then have "distinct (map (Some \<circ> fst) (ranked_variants g))"
    by (simp add: distinct_map comp_inj_on)
  then have dist: "distinct (map (content_variant_key M) ?outs)" by (simp only: map_vk)
  have "content_variant_key M ` set ?outs = Some ` set (variant_keys g)"
  proof -
    have "content_variant_key M ` set ?outs = set (map (content_variant_key M) ?outs)" by simp
    also have "\<dots> = Some ` set (map fst (ranked_variants g))" by (simp only: map_vk) (simp add: image_comp)
    also have "set (map fst (ranked_variants g)) = set (variant_keys g)"
      using fst_ranked by (rule mset_eq_setD)
    finally show ?thesis .
  qed
  also have "\<dots> = (content_variant_key M \<circ> snd) ` set g"
    using vk by (force simp: variant_keys_def)
  finally have img: "content_variant_key M ` set ?outs = (content_variant_key M \<circ> snd) ` set g" .
  have "entry_for hn T g y" if y: "y \<in> set ?outs" for y
  proof -
    obtain i h sg where y: "y = narrow_one M (variant_entry hn T (host_names hn g) i sg)"
      and mem: "(h, sg) \<in> set (ranked_variants g)"
      using y by (auto simp: narrow_non_universal_def dest!: in_enumerate_snd)
    have h: "h \<in> set (variant_keys g)" and sg: "sg = variant_items g h"
      using mem unfolding ranked_variants_mem by blast+
    then have hd: "hd sg \<in> set sg" using variant_keys_iff [OF vk] by simp
    then have hdg: "hd sg \<in> set g" and hdv: "content_variant_key M (snd (hd sg)) = Some h"
      using sg by (auto simp: variant_items_def)
    have "set sg = set (carriers M g (snd (hd sg)))"
      using carriers_variant_items [OF key hdg hdv] sg by simp
    then show ?thesis
      using entry_for_stamp [OF hdg] y by (simp add: variant_entry_def entry_for_set_variant entry_for_narrow)
  qed
  then show ?thesis
    using False dist img merge_with_variants_eq [OF ord g rng vk] by simp
qed

lemma merge_group_entries:
  assumes ord: "legal_order ord" and g: "g \<noteq> []" and rng: "hosts_in_range hn g"
    and uni: "uniform_variants M g" and key: "\<forall>d \<in> set g. identity_key M (snd d) = k"
  shows "\<exists>outs. merge_group M ord T hn g = Some outs \<and> distinct (map (content_variant_key M) outs)
     \<and> content_variant_key M ` set outs = (content_variant_key M \<circ> snd) ` set g
     \<and> (\<forall>y \<in> set outs. entry_for hn T g y)"
proof -
  define s where "s = sort_key fst g"
  have ss: "set s = set g" by (simp add: s_def)
  have sne: "s \<noteq> []" using g by (simp add: s_def flip: set_empty)
  have rs: "hosts_in_range hn s" and ks: "\<forall>d \<in> set s. identity_key M (snd d) = k"
    using rng key by (simp_all add: hosts_in_range_def ss)
  have hd: "hd s \<in> set g" using sne ss hd_in_set by metis
  have at0: "index_at s 0 = Some (hd s)" using sne by (simp add: index_at_def hd_conv_nth)
  show ?thesis
  proof (cases "content_variant_key M (snd (hd s))")
    case (Some h)
    have vk: "\<forall>e \<in> set s. content_variant_key M (snd e) \<noteq> None"
      using uni hd key Some ss unfolding uniform_variants_def by (metis option.distinct(1))
    have "merge_group M ord T hn g = merge_with_variants M ord T hn s"
      using Some at0 hosts_of_names [OF rs] by (simp add: merge_group_def s_def [symmetric] case_prod_beta)
    then show ?thesis
      using merge_with_variants_entries [OF ord sne rs vk ks] ss entry_for_set_cong [OF ss] by simp
  next
    case None
    have vk: "\<forall>e \<in> set s. content_variant_key M (snd e) = None"
      using uni hd key None ss unfolding uniform_variants_def by metis
    obtain i x where x: "(i, x) \<in> set s"
      and plain: "merge_plain M T (host_names hn s) s = Some (stamp M (prevalence (host_names hn s) T None) x)"
      using merge_plain_ok [OF sne] by metis
    have mg: "merge_group M ord T hn g = Some [stamp M (prevalence (host_names hn s) T None) x]"
      using None at0 plain hosts_of_names [OF rs] by (simp add: merge_group_def s_def [symmetric] case_prod_beta)
    have xk: "identity_key M x = k" "content_variant_key M x = None"
      using bspec [OF ks x] bspec [OF vk x] by simp_all
    have "set s = set (carriers M g (snd (i, x)))"
      using vk ks xk ss by (auto simp: carriers_def)
    then have "entry_for hn T g (stamp M (prevalence (host_names hn s) T None) x)"
      using entry_for_stamp [of "(i, x)" g s] x ss by simp
    moreover have "(content_variant_key M \<circ> snd) ` set g = {None}"
      using vk ss g by (auto simp: image_iff) (metis list.set_intros(1) neq_Nil_conv prod.collapse)
    moreover have "content_variant_key M x = None" using vk x by auto
    ultimately show ?thesis using mg by simp
  qed
qed

text \<open>A group's results keep the group's identity, on every input that does not panic.\<close>

lemma merge_group_identity:
  assumes ord: "legal_order ord" and g: "g \<noteq> []" and key: "\<forall>d \<in> set g. identity_key M (snd d) = k"
    and outs: "merge_group M ord T hn g = Some outs" and y: "y \<in> set outs"
  shows "identity_key M y = k"
proof -
  define s where "s = sort_key fst g"
  have ss: "set s = set g" by (simp add: s_def)
  have sne: "s \<noteq> []" using g by (simp add: s_def flip: set_empty)
  have ks: "\<forall>d \<in> set s. identity_key M (snd d) = k" using key by (simp add: ss)
  obtain hosts where hosts: "hosts_of hn (map fst s) = Some hosts"
    using outs by (auto simp: merge_group_def s_def [symmetric] bind_eq_Some_conv Let_def)
  then have rs: "hosts_in_range hn s"
    by (auto simp: hosts_of_Some_iff hosts_in_range_def)
  have at0: "index_at s 0 = Some (hd s)" using sne by (simp add: index_at_def hd_conv_nth)
  show ?thesis
  proof (cases "content_variant_key M (snd (hd s))")
    case (Some h)
    have mg: "merge_with_variants M ord T hn s = Some outs"
      using Some at0 hosts outs by (simp add: merge_group_def s_def [symmetric] case_prod_beta)
    then have vk: "\<forall>e \<in> set s. content_variant_key M (snd e) \<noteq> None"
      by (auto simp: merge_with_variants_def bind_eq_Some_conv map_panics_Some_iff)
    obtain e where "e \<in> set s" "identity_key M y = identity_key M (snd e)"
      using merge_with_variants_entries [OF ord sne rs vk ks, of T] mg y unfolding entry_for_def by auto
    then show ?thesis using ks by simp
  next
    case None
    obtain i x where "(i, x) \<in> set s" "merge_plain M T hosts s = Some (stamp M (prevalence hosts T None) x)"
      using merge_plain_ok [OF sne] by metis
    then show ?thesis
      using None at0 hosts outs y bspec [OF ks, of "(i, x)"]
      by (auto simp: merge_group_def s_def [symmetric] case_prod_beta)
  qed
qed

definition items_of :: "(nat \<times> 'a) list \<Rightarrow> string \<Rightarrow> (nat \<times> 'a) list" where
  "items_of items k = filter (\<lambda>e. identity_key M (snd e) = k) items"

definition identities :: "(nat \<times> 'a) list \<Rightarrow> string list" where
  "identities items = sort_dedup (map (\<lambda>e. identity_key M (snd e)) items)"

lemma items_of_nonempty: "k \<in> set (identities items) \<Longrightarrow> items_of items k \<noteq> []"
  by (auto simp: items_of_def identities_def filter_empty_conv)

lemma uniform_group:
  "uniform_variants M items \<Longrightarrow> d \<in> set (items_of items k) \<Longrightarrow> e \<in> set (items_of items k) \<Longrightarrow>
     content_variant_key M (snd d) = None \<longleftrightarrow> content_variant_key M (snd e) = None"
  by (simp add: uniform_variants_def items_of_def)

text \<open>The whole merge, identity by identity, free of the iteration order.\<close>

lemma merge_items_eq:
  assumes ord: "legal_order ord"
  shows "merge_items M ord items T hn =
    map_option (\<lambda>gs. narrow_non_universal M (concat gs))
      (map_panics (\<lambda>k. merge_group M (\<lambda>ks. ks) T hn (items_of items k)) (identities items))"
proof -
  let ?ks = "first_seen (map (\<lambda>e. identity_key M (snd e)) items)"
  let ?F = "\<lambda>k. merge_group M (\<lambda>ks. ks) T hn (items_of items k)"
  have ids: "identities items = sort ?ks"
    unfolding identities_def by (rule sorted_distinct_set_unique) simp_all
  have iter: "map snd (hm_iter ord (group_by (identity_key M \<circ> snd) items)) = map (items_of items) (ord ?ks)"
    using hm_iter_map [OF ord, of "items_of items" ?ks] by (simp add: group_by_eq items_of_def comp_def)
  have swap: "merge_group M ord T hn = merge_group M (\<lambda>ks. ks) T hn"
    using merge_group_order [OF ord legal_order_id] by blast
  have mp: "map_panics (merge_group M ord T hn) (map (items_of items) (ord ?ks)) = map_panics ?F (ord ?ks)"
    by (simp add: swap map_panics_def comp_def)
  have dist: "distinct (ord ?ks)" and set: "set (ord ?ks) = set ?ks"
    using legal_order_distinct [OF ord] legal_order_set [OF ord] by auto
  show ?thesis
  proof (cases "\<exists>k \<in> set ?ks. ?F k = None")
    case True
    then have "map_panics ?F (ord ?ks) = None" "map_panics ?F (identities items) = None"
      unfolding map_panics_None_iff ids using set by auto
    then show ?thesis by (simp add: merge_items_def iter mp)
  next
    case False
    then have some: "map_panics ?F xs = Some (map (\<lambda>k. the (?F k)) xs)" if "set xs = set ?ks" for xs
      using that by (simp add: map_panics_Some_iff)
    have nar: "narrow_non_universal M (concat (map G xs)) = concat (map (\<lambda>k. narrow_non_universal M (G k)) xs)"
      for G and xs :: "string list"
      by (simp add: narrow_non_universal_def map_concat comp_def)
    have keyed: "identity_key M y = k"
      if k: "k \<in> set (ord ?ks)" and y: "y \<in> set (narrow_non_universal M (the (?F k)))" for k y
    proof -
      obtain z where z: "z \<in> set (the (?F k))" "y = narrow_one M z"
        using y by (auto simp: narrow_non_universal_def)
      have "?F k = Some (the (?F k))" using False k set by force
      moreover have "items_of items k \<noteq> []" "\<forall>d \<in> set (items_of items k). identity_key M (snd d) = k"
        using k set by (auto simp: items_of_def filter_empty_conv)
      ultimately show ?thesis using z merge_group_identity [OF legal_order_id] by (metis narrow_one_simps(1))
    qed
    have "merge_items M ord items T hn = Some (sort_key (identity_key M)
        (concat (map (\<lambda>k. narrow_non_universal M (the (?F k))) (ord ?ks))))"
      by (simp add: merge_items_def iter mp some [OF set] nar)
    also have "\<dots> = Some (concat (map (\<lambda>k. narrow_non_universal M (the (?F k))) (sort (ord ?ks))))"
      using sort_key_concat_keyed [OF dist keyed] by simp
    also have "sort (ord ?ks) = identities items"
      unfolding ids using ord by (intro sort_key_inj_eq) (simp_all add: legal_order_def inj_on_def)
    finally show ?thesis by (simp add: some ids nar)
  qed
qed

lemma merge_items_order:
  "legal_order ord \<Longrightarrow> legal_order ord' \<Longrightarrow> merge_items M ord items T hn = merge_items M ord' items T hn"
  by (simp add: merge_items_eq)

text \<open>One entry per tag.\<close>

lemma carriers_items_of:
  "e \<in> set (items_of items k) \<Longrightarrow> carriers M (items_of items k) (snd e) = carriers M items (snd e)"
  by (auto simp: carriers_def items_of_def intro!: filter_cong)

lemma final_entry_narrow:
  assumes "entry_for hn T (items_of items k) z"
  shows "final_entry M disp hn T items (narrow_one M z)"
proof -
  obtain e p b where e: "e \<in> set (items_of items k)" and z: "identity_key M z = identity_key M (snd e)"
      "content_variant_key M z = content_variant_key M (snd e)" "get_aggregate M z = Some p"
      "ap_hosts p = carrier_hosts M hn (items_of items k) (snd e)" "ap_count p = as_i32 (length (ap_hosts p))"
      "ap_total p = as_i32 T" "disp z = with_include (disp (snd e)) b" "b \<or> ap_count p < ap_total p"
    using assms unfolding entry_for_def by blast
  have "carrier_hosts M hn (items_of items k) (snd e) = carrier_hosts M hn items (narrow_one M z)"
    using carriers_items_of [OF e] carrier_hosts_cong [of "snd e" "narrow_one M z" hn items] z
    by (simp add: carrier_hosts_def)
  moreover have "e \<in> set items" using e by (simp add: items_of_def)
  ultimately show ?thesis
    using z unfolding final_entry_def tag_def
    by (intro bexI [of _ e] exI [of _ p]) (auto simp: disp_narrow_one)
qed

definition merged_group :: "string list \<Rightarrow> nat \<Rightarrow> (nat \<times> 'a) list \<Rightarrow> string \<Rightarrow> 'a list \<Rightarrow> bool" where
  "merged_group hn T items k outs \<longleftrightarrow>
     merge_group M (\<lambda>ks. ks) T hn (items_of items k) = Some outs
     \<and> distinct (map (content_variant_key M) outs)
     \<and> content_variant_key M ` set outs = (content_variant_key M \<circ> snd) ` set (items_of items k)
     \<and> (\<forall>y \<in> set outs. identity_key M y = k \<and> entry_for hn T (items_of items k) y)"

lemma merged_groupD:
  assumes "merged_group hn T items k outs"
  shows "merge_group M (\<lambda>ks. ks) T hn (items_of items k) = Some outs"
    and "distinct (map (content_variant_key M) outs)"
    and "content_variant_key M ` set outs = (content_variant_key M \<circ> snd) ` set (items_of items k)"
    and "y \<in> set outs \<Longrightarrow> identity_key M y = k"
    and "y \<in> set outs \<Longrightarrow> entry_for hn T (items_of items k) y"
  using assms unfolding merged_group_def by blast+

lemma merged_group_ex:
  assumes rng: "hosts_in_range hn items" and uni: "uniform_variants M items" and k: "k \<in> set (identities items)"
  shows "\<exists>outs. merged_group hn T items k outs"
proof -
  have ne: "items_of items k \<noteq> []" using k by (rule items_of_nonempty)
  have key: "\<forall>d \<in> set (items_of items k). identity_key M (snd d) = k" by (simp add: items_of_def)
  have "hosts_in_range hn (items_of items k)" "uniform_variants M (items_of items k)"
    using rng uni by (simp_all add: hosts_in_range_def uniform_variants_def items_of_def)
  from merge_group_entries [OF legal_order_id ne this key, of T]
  obtain outs where outs: "merge_group M (\<lambda>ks. ks) T hn (items_of items k) = Some outs"
      and rest: "distinct (map (content_variant_key M) outs)"
      "content_variant_key M ` set outs = (content_variant_key M \<circ> snd) ` set (items_of items k)"
      "\<forall>y \<in> set outs. entry_for hn T (items_of items k) y"
    by blast
  have "\<forall>y \<in> set outs. identity_key M y = k"
    using merge_group_identity [OF legal_order_id ne key outs] by simp
  then show ?thesis unfolding merged_group_def using outs rest by (intro exI [of _ outs]) simp
qed

lemma merge_items_groups:
  assumes ord: "legal_order ord" and rng: "hosts_in_range hn items" and uni: "uniform_variants M items"
  obtains G where
    "merge_items M ord items T hn = Some (concat (map (\<lambda>k. narrow_non_universal M (G k)) (identities items)))"
    "\<forall>k \<in> set (identities items). merged_group hn T items k (G k)"
proof -
  let ?F = "\<lambda>k. merge_group M (\<lambda>ks. ks) T hn (items_of items k)"
  define G where "G = (\<lambda>k. the (?F k))"
  have G: "merged_group hn T items k (G k)" if "k \<in> set (identities items)" for k
    using merged_group_ex [OF rng uni that, of T] unfolding G_def by (auto simp: merged_groupD(1))
  then have "?F k = Some (G k)" if "k \<in> set (identities items)" for k
    using that by (simp add: merged_groupD(1))
  then have mp: "map_panics ?F (identities items) = Some (map G (identities items))"
    by (simp add: map_panics_Some_iff)
  have "merge_items M ord items T hn = Some (concat (map (\<lambda>k. narrow_non_universal M (G k)) (identities items)))"
    by (simp add: merge_items_eq [OF ord] mp narrow_non_universal_def map_concat comp_def)
  then show thesis using G by (intro that [of G]) simp_all
qed

lemma narrow_all_simps [simp]:
  "map (identity_key M) (narrow_non_universal M xs) = map (identity_key M) xs"
  "map (content_variant_key M) (narrow_non_universal M xs) = map (content_variant_key M) xs"
  "map (tag M) (narrow_non_universal M xs) = map (tag M) xs"
  by (simp_all add: narrow_non_universal_def tag_def)

lemma distinct_concat_keyed:
  assumes "distinct ks" "\<And>k. k \<in> set ks \<Longrightarrow> distinct (G k)" "\<And>k y. k \<in> set ks \<Longrightarrow> y \<in> set (G k) \<Longrightarrow> f y = k"
  shows "distinct (concat (map G ks))"
  using assms
proof (induction ks)
  case (Cons a ks)
  have "set (G a) \<inter> set (G b) = {}" if "b \<in> set ks" for b
    using Cons.prems(1,3) that by (metis disjoint_iff distinct.simps(2) list.set_intros)
  then show ?case using Cons by auto
qed simp

theorem merge_items_spec:
  assumes ord: "legal_order ord" and rng: "hosts_in_range hn items" and uni: "uniform_variants M items"
  shows "\<exists>outs. merge_items M ord items T hn = Some outs \<and> distinct (map (tag M) outs)
    \<and> tag M ` set outs = (tag M \<circ> snd) ` set items \<and> sorted (map (identity_key M) outs)
    \<and> (\<forall>y \<in> set outs. final_entry M disp hn T items y)"
proof -
  obtain G where outs: "merge_items M ord items T hn
        = Some (concat (map (\<lambda>k. narrow_non_universal M (G k)) (identities items)))"
    and grp_all: "\<forall>k \<in> set (identities items). merged_group hn T items k (G k)"
    by (rule merge_items_groups [OF assms, of T])
  note grp = bspec [OF grp_all]
  note dist = merged_groupD(2) [OF grp] and keys = merged_groupD(3) [OF grp]
    and ent = merged_groupD(4,5) [OF grp]
  let ?outs = "concat (map (\<lambda>k. narrow_non_universal M (G k)) (identities items))"
  have tags: "map (tag M) ?outs = concat (map (\<lambda>k. map (tag M) (G k)) (identities items))"
    by (simp add: map_concat comp_def)
  have dk: "distinct (identities items)" by (simp add: identities_def)
  have "distinct (map (tag M) ?outs)"
    unfolding tags
  proof (rule distinct_concat_keyed [OF dk, where f = fst])
    fix k
    assume k: "k \<in> set (identities items)"
    have "inj_on (content_variant_key M) (set (G k))" "distinct (G k)"
      using dist [OF k] by (simp_all add: distinct_map)
    then show "distinct (map (tag M) (G k))"
      by (auto simp: distinct_map tag_def inj_on_def)
    fix y
    assume "y \<in> set (map (tag M) (G k))"
    then show "fst y = k" using ent [OF k] by (auto simp: tag_def)
  qed
  moreover have "tag M ` set ?outs = (tag M \<circ> snd) ` set items"
  proof -
    have tg: "tag M ` set (G k) = (tag M \<circ> snd) ` set (items_of items k)" if k: "k \<in> set (identities items)" for k
    proof -
      have "tag M ` set (G k) = Pair k ` content_variant_key M ` set (G k)"
        using ent [OF k] by (force simp: tag_def image_comp)
      also have "\<dots> = (tag M \<circ> snd) ` set (items_of items k)"
        unfolding keys [OF k] by (force simp: tag_def items_of_def image_comp)
      finally show ?thesis .
    qed
    have "tag M ` set ?outs = (\<Union>k \<in> set (identities items). tag M ` set (G k))"
    proof -
      have "tag M ` set ?outs = set (map (tag M) ?outs)" by simp
      then show ?thesis unfolding tags by simp
    qed
    also have "\<dots> = (\<Union>k \<in> set (identities items). (tag M \<circ> snd) ` set (items_of items k))"
      using tg by simp
    also have "\<dots> = (tag M \<circ> snd) ` set items"
      by (force simp: items_of_def identities_def)
    finally show ?thesis .
  qed
  moreover have "sorted (map (identity_key M) ?outs)"
  proof -
    let ?H = "\<lambda>k. map (identity_key M) (G k)"
    have "sorted (map (\<lambda>x. x) (sort_key (\<lambda>x. x) (concat (map ?H (identities items)))))"
      by (rule sorted_sort_key)
    also have "sort_key (\<lambda>x. x) (concat (map ?H (identities items))) = concat (map ?H (sort (identities items)))"
      by (rule sort_key_concat_keyed [OF dk]) (use ent in auto)
    also have "sort (identities items) = identities items"
      by (simp add: identities_def sorted_sort_id)
    also have "map (\<lambda>x. x) (concat (map ?H (identities items))) = map (identity_key M) ?outs"
      by (simp add: map_concat comp_def)
    finally show ?thesis .
  qed
  moreover have "final_entry M disp hn T items y" if y: "y \<in> set ?outs" for y
  proof -
    obtain k z where "k \<in> set (identities items)" "z \<in> set (G k)" "y = narrow_one M z"
      using y by (auto simp: narrow_non_universal_def)
    then show ?thesis using ent final_entry_narrow by blast
  qed
  ultimately show ?thesis using outs by blast
qed

text \<open>Where an entry of the result comes from.\<close>

lemma merge_items_member:
  assumes ord: "legal_order ord" and rng: "hosts_in_range hn items" and uni: "uniform_variants M items"
    and outs: "merge_items M ord items T hn = Some outs" and y: "y \<in> set outs"
  obtains z G where "y = narrow_one M z" "z \<in> set G" "merged_group hn T items (identity_key M y) G"
    "identity_key M y \<in> set (identities items)"
    "{x \<in> set outs. identity_key M x = identity_key M y} = narrow_one M ` set G"
proof -
  obtain G where G: "merge_items M ord items T hn
        = Some (concat (map (\<lambda>k. narrow_non_universal M (G k)) (identities items)))"
    and grp_all: "\<forall>k \<in> set (identities items). merged_group hn T items k (G k)"
    by (rule merge_items_groups [OF ord rng uni, of T])
  note grp = bspec [OF grp_all]
  have mem: "x \<in> set outs \<longleftrightarrow> (\<exists>k \<in> set (identities items). x \<in> narrow_one M ` set (G k))" for x
    using G outs by (simp add: narrow_non_universal_def)
  have ident: "identity_key M x = k" if "k \<in> set (identities items)" "x \<in> narrow_one M ` set (G k)" for x k
    using that merged_groupD(4) [OF grp] by force
  obtain k where k0: "k \<in> set (identities items)" "y \<in> narrow_one M ` set (G k)"
    using y unfolding mem by blast
  have "identity_key M y = k" using k0 by (rule ident)
  then have k: "identity_key M y \<in> set (identities items)" "y \<in> narrow_one M ` set (G (identity_key M y))"
    using k0 by simp_all
  then obtain z where z: "z \<in> set (G (identity_key M y))" "y = narrow_one M z" by blast
  have "{x \<in> set outs. identity_key M x = identity_key M y} = narrow_one M ` set (G (identity_key M y))"
  proof (intro equalityI subsetI)
    fix x
    assume "x \<in> {x \<in> set outs. identity_key M x = identity_key M y}"
    then obtain k' where "k' \<in> set (identities items)" "x \<in> narrow_one M ` set (G k')"
        "identity_key M x = identity_key M y"
      unfolding mem by blast
    then show "x \<in> narrow_one M ` set (G (identity_key M y))" using ident by metis
  next
    fix x
    assume x: "x \<in> narrow_one M ` set (G (identity_key M y))"
    show "x \<in> {x \<in> set outs. identity_key M x = identity_key M y}"
      using bexI [where P = "\<lambda>k. x \<in> narrow_one M ` set (G k)", OF x k(1)] ident [OF k(1) x] mem [of x] by blast
  qed
  from that [OF z(2) z(1) grp [OF k(1)] k(1) this] show thesis .
qed

text \<open>A group without content keys is represented by an item with a most frequent payload.\<close>

theorem merge_items_majority:
  assumes ord: "legal_order ord" and rng: "hosts_in_range hn items" and uni: "uniform_variants M items"
    and outs: "merge_items M ord items T hn = Some outs" and y: "y \<in> set outs"
    and plain: "content_variant_key M y = None"
  shows "\<exists>x \<in> snd ` set items. tag M x = tag M y \<and> (\<exists>p. y = narrow_one M (stamp M p x))
    \<and> (\<forall>z \<in> snd ` set (carriers M items y).
         count_list (map (normalized_payload M \<circ> snd) (carriers M items y)) (normalized_payload M z)
         \<le> count_list (map (normalized_payload M \<circ> snd) (carriers M items y)) (normalized_payload M x))"
proof -
  let ?k = "identity_key M y"
  obtain z G where z: "y = narrow_one M z" "z \<in> set G" and grp: "merged_group hn T items ?k G"
    and k: "?k \<in> set (identities items)"
    by (rule merge_items_member [OF ord rng uni outs y])
  define s where "s = sort_key fst (items_of items ?k)"
  have ss: "set s = set (items_of items ?k)" by (simp add: s_def)
  have sne: "s \<noteq> []" using items_of_nonempty [OF k] by (simp add: s_def flip: set_empty)
  have sub: "set s \<subseteq> set items" by (auto simp: ss items_of_def)
  have "content_variant_key M z \<in> (content_variant_key M \<circ> snd) ` set (items_of items ?k)"
    using z(2) merged_groupD(3) [OF grp] by blast
  then obtain d where d: "d \<in> set (items_of items ?k)" "content_variant_key M (snd d) = None"
    using z(1) plain by auto
  have vk: "\<forall>e \<in> set (items_of items ?k). content_variant_key M (snd e) = None"
    using uniform_group [OF uni _ d(1)] d(2) by simp
  have car: "carriers M items y = items_of items ?k"
    unfolding carriers_def items_of_def
    using vk plain by (intro filter_cong) (auto simp: items_of_def)
  have at0: "index_at s 0 = Some (hd s)" using sne by (simp add: index_at_def hd_conv_nth)
  have rs: "hosts_in_range hn s" using rng sub by (auto simp: hosts_in_range_def)
  obtain i x where x: "(i, x) \<in> set s"
    and mp: "merge_plain M T (host_names hn s) s = Some (stamp M (prevalence (host_names hn s) T None) x)"
    and max: "\<And>j z. (j, z) \<in> set s \<Longrightarrow>
       count_list (map (normalized_payload M \<circ> snd) s) (normalized_payload M z)
       \<le> count_list (map (normalized_payload M \<circ> snd) s) (normalized_payload M x)"
    using merge_plain_ok [OF sne] by metis
  have "content_variant_key M (snd (hd s)) = None" using vk ss sne by (metis hd_in_set)
  then have "merge_group M (\<lambda>ks. ks) T hn (items_of items ?k) = Some [stamp M (prevalence (host_names hn s) T None) x]"
    using at0 mp hosts_of_names [OF rs] by (simp add: merge_group_def s_def [symmetric] case_prod_beta)
  then have G: "G = [stamp M (prevalence (host_names hn s) T None) x]"
    using merged_groupD(1) [OF grp] by simp
  have cnt: "count_list (map (normalized_payload M \<circ> snd) s) = count_list (map (normalized_payload M \<circ> snd) (carriers M items y))"
  proof
    fix v
    have "mset (map (normalized_payload M \<circ> snd) s) = mset (map (normalized_payload M \<circ> snd) (carriers M items y))"
      by (simp add: s_def car)
    then show "count_list (map (normalized_payload M \<circ> snd) s) v
        = count_list (map (normalized_payload M \<circ> snd) (carriers M items y)) v"
      by (metis count_mset)
  qed
  have "x \<in> snd ` set items" using x sub by force
  moreover have "tag M x = tag M y" using z G by (simp add: tag_def)
  moreover have "y = narrow_one M (stamp M (prevalence (host_names hn s) T None) x)" using z G by simp
  moreover have "\<forall>z \<in> snd ` set (carriers M items y).
      count_list (map (normalized_payload M \<circ> snd) (carriers M items y)) (normalized_payload M z)
      \<le> count_list (map (normalized_payload M \<circ> snd) (carriers M items y)) (normalized_payload M x)"
  proof (intro ballI)
    fix z
    assume "z \<in> snd ` set (carriers M items y)"
    then obtain j where "(j, z) \<in> set s" unfolding car ss by auto
    from max [OF this] show "count_list (map (normalized_payload M \<circ> snd) (carriers M items y)) (normalized_payload M z)
      \<le> count_list (map (normalized_payload M \<circ> snd) (carriers M items y)) (normalized_payload M x)"
      by (simp only: cnt)
  qed
  ultimately show ?thesis by blast
qed

text \<open>The results for a group with content keys, variant by variant.\<close>

lemma merged_group_variants:
  assumes rng: "hosts_in_range hn items" and uni: "uniform_variants M items"
    and k: "k \<in> set (identities items)"
    and grp: "merged_group hn T items k G" and y: "y \<in> set G" "content_variant_key M y \<noteq> None"
  defines "s \<equiv> sort_key fst (items_of items k)"
  shows "\<forall>e \<in> set s. content_variant_key M (snd e) \<noteq> None"
    and "G = (if length (variant_keys s) = 1
     then [stamp M (prevalence (host_names hn s) T None) (snd (hd s))]
     else narrow_non_universal M
       (map (\<lambda>(i, h, sg). variant_entry hn T (host_names hn s) i sg)
          (List.enumerate 0 (ranked_variants s))))"
proof -
  have ss: "set s = set (items_of items k)" by (simp add: s_def)
  have sne: "s \<noteq> []" using items_of_nonempty [OF k] by (simp add: s_def flip: set_empty)
  have rs: "hosts_in_range hn s" using rng by (auto simp: hosts_in_range_def ss items_of_def)
  obtain e where e: "e \<in> set (items_of items k)" "content_variant_key M (snd e) \<noteq> None"
    using y merged_groupD(3) [OF grp] by (metis (no_types, lifting) comp_apply imageE image_eqI)
  show vk: "\<forall>e \<in> set s. content_variant_key M (snd e) \<noteq> None"
    unfolding ss using uniform_group [OF uni _ e(1)] e(2) by simp
  have at0: "index_at s 0 = Some (hd s)" using sne by (simp add: index_at_def hd_conv_nth)
  have "content_variant_key M (snd (hd s)) \<noteq> None" using vk sne by simp
  then have "merge_group M (\<lambda>ks. ks) T hn (items_of items k) = merge_with_variants M (\<lambda>ks. ks) T hn s"
    using at0 hosts_of_names [OF rs] by (simp add: merge_group_def s_def [symmetric] case_prod_beta)
  then show "G = (if length (variant_keys s) = 1
     then [stamp M (prevalence (host_names hn s) T None) (snd (hd s))]
     else narrow_non_universal M
       (map (\<lambda>(i, h, sg). variant_entry hn T (host_names hn s) i sg)
          (List.enumerate 0 (ranked_variants s))))"
    using merged_groupD(1) [OF grp] merge_with_variants_eq [OF legal_order_id sne rs vk, of T] by simp
qed

end

end
