(* ===== verification/MergeVariants.thy ===== *)
theory MergeVariants
  imports MergeContract
begin

text \<open>
  The variant selection: what the engine promises for items with a content key, when the
  kind keeps its \<open>set_variant\<close> value (\<open>variant_mergeable\<close>, an extension of the contract of
  \<open>MergeContract\<close>). When the hosts disagree on the content behind one identity, exactly
  one variant is selected: one carried by most hosts, and among those the one with the
  least content key. When they agree nothing is selected anew.
\<close>

locale variant_mergeable = mergeable M disp
  for M :: "('a, 'b) mergeable_scheme" and disp :: "'a \<Rightarrow> finding_kind" +
  fixes vsel :: "'a \<Rightarrow> variant_selection"
  assumes vsel_set_variant: "vsel (set_variant M v x) = v"
    and vsel_set_include: "vsel (set_include M b x) = vsel x"
    and vsel_set_aggregate: "vsel (set_aggregate M a x) = vsel x"
begin

lemma vsel_stamp [simp]: "vsel (stamp M p x) = vsel x"
  by (simp add: stamp_def vsel_set_include vsel_set_aggregate)

lemma vsel_narrow_one [simp]: "vsel (narrow_one M x) = vsel x"
  by (simp add: narrow_one_def vsel_set_include split: option.split)

lemma vsel_variant_entry: "vsel (variant_entry hn T ah i sg) = (if i = 0 then Selected else Alternative)"
  by (simp add: variant_entry_def vsel_set_variant)

lemma host_count_variant:
  assumes key: "identity_key M y = k" and h: "content_variant_key M y = Some h"
  shows "host_count M items y = length (sort_dedup (map fst (variant_items (sort_key fst (items_of items k)) h)))"
proof -
  have "set (variant_items (sort_key fst (items_of items k)) h) = set (carriers M items y)"
    using assms by (auto simp: variant_items_def items_of_def carriers_def)
  then show ?thesis by (simp add: host_count_def length_sort_dedup)
qed

text \<open>The entries of a contested identity, ranked.\<close>

lemma contested_entries:
  assumes ord: "legal_order ord" and rng: "hosts_in_range hn items" and uni: "uniform_variants M items"
    and outs: "merge_items M ord items T hn = Some outs"
    and y: "y \<in> set outs" and y': "y' \<in> set outs"
    and same: "identity_key M y' = identity_key M y" and diff: "content_variant_key M y' \<noteq> content_variant_key M y"
  obtains R :: "(string \<times> (nat \<times> 'a) list) list" and f where "R \<noteq> []"
    "{x \<in> set outs. identity_key M x = identity_key M y} = f ` set (List.enumerate 0 R)"
    "\<forall>(i, h, sg) \<in> set (List.enumerate 0 R). content_variant_key M (f (i, h, sg)) = Some h
       \<and> vsel (f (i, h, sg)) = (if i = 0 then Selected else Alternative)
       \<and> host_count M items (f (i, h, sg)) = length (sort_dedup (map fst sg))"
    "\<forall>(h, sg) \<in> set R. length (sort_dedup (map fst sg)) < length (sort_dedup (map fst (snd (hd R))))
       \<or> length (sort_dedup (map fst sg)) = length (sort_dedup (map fst (snd (hd R)))) \<and> fst (hd R) \<le> h"
proof -
  let ?k = "identity_key M y"
  define s where "s = sort_key fst (items_of items ?k)"
  obtain z G where z: "y = narrow_one M z" "z \<in> set G" and grp: "merged_group hn T items ?k G"
    and k: "?k \<in> set (identities items)"
    and eq: "{x \<in> set outs. identity_key M x = ?k} = narrow_one M ` set G"
    by (rule merge_items_member [OF ord rng uni outs y])
  have "y' \<in> narrow_one M ` set G" using y' same eq by blast
  then obtain z' where z': "z' \<in> set G" "y' = narrow_one M z'" by blast
  obtain w where w: "w \<in> set G" "content_variant_key M w \<noteq> None"
    using diff z z' by (cases "content_variant_key M z = None") auto
  note vk = merged_group_variants(1) [OF rng uni k grp w, folded s_def]
    and G = merged_group_variants(2) [OF rng uni k grp w, folded s_def]
  let ?R = "ranked_variants s"
  let ?E = "\<lambda>(i, h, sg). variant_entry hn T (host_names hn s) i sg"
  let ?f = "\<lambda>e. narrow_one M (narrow_one M (?E e))"
  have "length (variant_keys s) \<noteq> 1" using G z z' diff by (auto split: if_splits)
  then have G': "G = map (narrow_one M) (map ?E (List.enumerate 0 ?R))"
    using G by (simp add: narrow_non_universal_def)
  have ne: "?R \<noteq> []" using G' z by auto
  have img: "{x \<in> set outs. identity_key M x = ?k} = ?f ` set (List.enumerate 0 ?R)"
    unfolding eq G' by (simp add: image_comp comp_def)
  have props: "content_variant_key M (?f (i, h, sg)) = Some h
       \<and> vsel (?f (i, h, sg)) = (if i = 0 then Selected else Alternative)
       \<and> host_count M items (?f (i, h, sg)) = length (sort_dedup (map fst sg))"
    if mem: "(i, h, sg) \<in> set (List.enumerate 0 ?R)" for i h sg
  proof -
    have h: "h \<in> set (variant_keys s)" and sg: "sg = variant_items s h"
      using in_enumerate_snd [OF mem] unfolding ranked_variants_mem by blast+
    have "hd sg \<in> set sg" using h sg variant_keys_iff [OF vk] by simp
    then have hd: "content_variant_key M (snd (hd sg)) = Some h" "hd sg \<in> set (items_of items ?k)"
      using sg by (auto simp: variant_items_def s_def)
    then have "identity_key M (?f (i, h, sg)) = ?k" "content_variant_key M (?f (i, h, sg)) = Some h"
      by (simp_all add: variant_entry_def items_of_def)
    then show ?thesis
      using host_count_variant [of "?f (i, h, sg)" ?k h items] sg
      by (simp add: vsel_variant_entry s_def)
  qed
  have rank: "length (sort_dedup (map fst sg)) < length (sort_dedup (map fst (snd (hd ?R))))
       \<or> length (sort_dedup (map fst sg)) = length (sort_dedup (map fst (snd (hd ?R)))) \<and> fst (hd ?R) \<le> h"
    if mem: "(h, sg) \<in> set ?R" for h sg
  proof -
    let ?r = "\<lambda>(hash, sg). (- int (length (sort_dedup (map fst sg))), hash)"
    have "?r (hd ?R) \<le> ?r (h, sg)"
      using mem unfolding ranked_variants_def rank_variants_def by (intro sort_key_hd_min) simp
    then show ?thesis by (cases "hd ?R") (auto simp: less_eq_prod_def)
  qed
  show thesis
    by (rule that [OF ne img]) (use props in fast, use rank in fast)
qed

theorem one_selected:
  assumes ord: "legal_order ord" and rng: "hosts_in_range hn items" and uni: "uniform_variants M items"
    and outs: "merge_items M ord items T hn = Some outs"
    and y: "y \<in> set outs" and y': "y' \<in> set outs"
    and same: "identity_key M y' = identity_key M y" and diff: "content_variant_key M y' \<noteq> content_variant_key M y"
  shows "\<exists>!z. z \<in> set outs \<and> identity_key M z = identity_key M y \<and> vsel z = Selected"
proof -
  obtain R :: "(string \<times> (nat \<times> 'a) list) list" and f where R: "R \<noteq> []"
    and img: "{x \<in> set outs. identity_key M x = identity_key M y} = f ` set (List.enumerate 0 R)"
    and props: "\<forall>(i, h, sg) \<in> set (List.enumerate 0 R). content_variant_key M (f (i, h, sg)) = Some h
       \<and> vsel (f (i, h, sg)) = (if i = 0 then Selected else Alternative)
       \<and> host_count M items (f (i, h, sg)) = length (sort_dedup (map fst sg))"
    and "\<forall>(h, sg) \<in> set R. length (sort_dedup (map fst sg)) < length (sort_dedup (map fst (snd (hd R))))
       \<or> length (sort_dedup (map fst sg)) = length (sort_dedup (map fst (snd (hd R)))) \<and> fst (hd R) \<le> h"
    by (rule contested_entries [OF assms])
  have sel: "vsel (f e) = Selected \<longleftrightarrow> e = (0, hd R)" if "e \<in> set (List.enumerate 0 R)" for e
    using that bspec [OF props that] R by (auto simp: in_set_enumerate_eq hd_conv_nth split: if_splits)
  have hd0: "(0, hd R) \<in> set (List.enumerate 0 R)" using R by (cases R) auto
  have sel0: "vsel (f (0, hd R)) = Selected" using sel [OF hd0] by simp
  have one: "x \<in> f ` set (List.enumerate 0 R) \<and> vsel x = Selected \<longleftrightarrow> x = f (0, hd R)" for x
  proof
    assume "x \<in> f ` set (List.enumerate 0 R) \<and> vsel x = Selected"
    then show "x = f (0, hd R)" using sel by (metis imageE)
  next
    assume "x = f (0, hd R)"
    then show "x \<in> f ` set (List.enumerate 0 R) \<and> vsel x = Selected" using sel0 hd0 by simp
  qed
  have "z \<in> set outs \<and> identity_key M z = identity_key M y \<and> vsel z = Selected \<longleftrightarrow> z = f (0, hd R)" for z
    using one [of z] unfolding img [symmetric] by simp
  then show ?thesis by simp
qed

theorem selected_rank:
  assumes ord: "legal_order ord" and rng: "hosts_in_range hn items" and uni: "uniform_variants M items"
    and outs: "merge_items M ord items T hn = Some outs"
    and y: "y \<in> set outs" and y': "y' \<in> set outs"
    and same: "identity_key M y' = identity_key M y" and diff: "content_variant_key M y' \<noteq> content_variant_key M y"
    and sel: "vsel y = Selected"
  shows "host_count M items y' < host_count M items y
    \<or> host_count M items y' = host_count M items y \<and> the (content_variant_key M y) < the (content_variant_key M y')"
proof -
  obtain R :: "(string \<times> (nat \<times> 'a) list) list" and f where R: "R \<noteq> []"
    and img: "{x \<in> set outs. identity_key M x = identity_key M y} = f ` set (List.enumerate 0 R)"
    and props: "\<forall>(i, h, sg) \<in> set (List.enumerate 0 R). content_variant_key M (f (i, h, sg)) = Some h
       \<and> vsel (f (i, h, sg)) = (if i = 0 then Selected else Alternative)
       \<and> host_count M items (f (i, h, sg)) = length (sort_dedup (map fst sg))"
    and rank: "\<forall>(h, sg) \<in> set R. length (sort_dedup (map fst sg)) < length (sort_dedup (map fst (snd (hd R))))
       \<or> length (sort_dedup (map fst sg)) = length (sort_dedup (map fst (snd (hd R)))) \<and> fst (hd R) \<le> h"
    by (rule contested_entries [OF ord rng uni outs y y' same diff])
  have "y \<in> f ` set (List.enumerate 0 R)" "y' \<in> f ` set (List.enumerate 0 R)"
    using y y' same unfolding img [symmetric] by simp_all
  then obtain i h sg j h' sg' where e: "(i, h, sg) \<in> set (List.enumerate 0 R)" "y = f (i, h, sg)"
    and e': "(j, h', sg') \<in> set (List.enumerate 0 R)" "y' = f (j, h', sg')"
    by auto
  have i: "i = 0" using bspec [OF props e(1)] e(2) sel by (auto split: if_splits)
  then have hd: "hd R = (h, sg)" using e(1) R by (auto simp: in_set_enumerate_eq hd_conv_nth)
  have "h' \<noteq> h" using bspec [OF props e(1)] bspec [OF props e'(1)] e e' diff by auto
  then show ?thesis
    using bspec [OF rank in_enumerate_snd [OF e'(1)]] bspec [OF props e(1)] bspec [OF props e'(1)] e(2) e'(2) hd
    by auto
qed

text \<open>An identity with one variant keeps the selection of one of its items.\<close>

theorem uncontested_keeps_selection:
  assumes ord: "legal_order ord" and rng: "hosts_in_range hn items" and uni: "uniform_variants M items"
    and outs: "merge_items M ord items T hn = Some outs" and y: "y \<in> set outs"
    and one: "\<forall>e \<in> set items. identity_key M (snd e) = identity_key M y \<longrightarrow>
                content_variant_key M (snd e) = content_variant_key M y"
  shows "vsel y \<in> (vsel \<circ> snd) ` set (carriers M items y)"
proof -
  let ?k = "identity_key M y"
  define s where "s = sort_key fst (items_of items ?k)"
  obtain z G where z: "y = narrow_one M z" "z \<in> set G" and grp: "merged_group hn T items ?k G"
    and k: "?k \<in> set (identities items)"
    by (rule merge_items_member [OF ord rng uni outs y])
  have ss: "set s = set (items_of items ?k)" by (simp add: s_def)
  have sne: "s \<noteq> []" using items_of_nonempty [OF k] by (simp add: s_def flip: set_empty)
  have car: "set (carriers M items y) = set s"
    using one by (auto simp: ss carriers_def items_of_def)
  have rs: "hosts_in_range hn s" using rng by (auto simp: hosts_in_range_def ss items_of_def)
  have "\<exists>x p. x \<in> snd ` set s \<and> G = [stamp M p x]"
  proof (cases "content_variant_key M y")
    case None
    obtain i x where x: "(i, x) \<in> set s"
      and mp: "merge_plain M T (host_names hn s) s = Some (stamp M (prevalence (host_names hn s) T None) x)"
      using merge_plain_ok [OF sne] by metis
    have "hd s \<in> set items" "identity_key M (snd (hd s)) = ?k"
      using hd_in_set [OF sne] by (simp_all add: ss items_of_def)
    then have "content_variant_key M (snd (hd s)) = None" using one None by simp
    moreover have "index_at s 0 = Some (hd s)" using sne by (simp add: index_at_def hd_conv_nth)
    ultimately have "merge_group M (\<lambda>ks. ks) T hn (items_of items ?k) = Some [stamp M (prevalence (host_names hn s) T None) x]"
      using mp hosts_of_names [OF rs] by (simp add: merge_group_def s_def [symmetric] case_prod_beta)
    then have "G = [stamp M (prevalence (host_names hn s) T None) x]" using merged_groupD(1) [OF grp] by simp
    then show ?thesis using x by force
  next
    case (Some h)
    then have w: "content_variant_key M z \<noteq> None" using z by simp
    have "\<forall>e \<in> set s. content_variant_key M (snd e) = Some h"
      using one Some by (auto simp: ss items_of_def)
    then have "set (variant_keys s) = {h}" using sne by (cases s) (auto simp: variant_keys_def)
    then have "length (variant_keys s) = 1" using distinct_card [OF variant_keys_distinct, of s] by simp
    then have "G = [stamp M (prevalence (host_names hn s) T None) (snd (hd s))]"
      using merged_group_variants(2) [OF rng uni k grp z(2) w, folded s_def] by simp
    then show ?thesis using hd_in_set [OF sne] by blast
  qed
  then obtain x p where "x \<in> snd ` set s" "G = [stamp M p x]" by blast
  then have "x \<in> snd ` set (carriers M items y)" "vsel y = vsel x" unfolding car using z by simp_all
  then show ?thesis by force
qed

end

end
