(* ===== verification/Mergeable.thy ===== *)
theory Mergeable
  imports MergeVariants SnapshotTypes
begin

text \<open>
  The implementations of \<open>AggregateMergeable\<close> (\<open>crates/core/src/aggregate/merge.rs\<close>): one record
  of the trait's methods per item kind, and the interpretation of the engine's contract on it.

  Two functions the code takes from other crates are parameters, gathered in the record
  \<open>env\<close>: \<open>sha256_hex\<close> (\<open>sha2\<close>: the lower-case hex digest of a byte string) and \<open>to_json\<close>
  (\<open>serde_json::to_string\<close> on the values the merge serializes). Nothing is assumed of
  them in the proofs here. The record also holds the iteration order of the hash maps: every
  map of the process draws its own order, and the one result that can depend on it is the
  architecture of a snapshot, so the map of the \<open>i\<close>-th snapshot has an order of its own.
\<close>

section \<open>The environment\<close>

text \<open>The values the merge passes to \<open>serde_json::to_string\<close>.\<close>

datatype payload =
  PJson json
| PComposeImages "compose_service list"
| PPackage package_entry
| PRepoFile repo_file
| PModuleStream enabled_module_stream
| PVersionLock version_lock_entry
| PConfigFile config_file_entry
| PStateChange service_state_change
| PDropIn systemd_drop_in
| PQuadlet quadlet_unit
| PComposeFile compose_file
| PFlatpak flatpak_app
| PConnection nm_connection
| PFirewallZone firewall_zone
| PPortLabel selinux_port_label
| PKernelModule kernel_module
| PSysctl sysctl_override
| PNonRpm non_rpm_item
| PUnmanaged unmanaged_file
| PCron cron_job
| PTimer systemd_timer
| PAt at_job
| PGeneratedTimer generated_timer_unit
| PFstab fstab_entry

record env =
  sha256_hex :: "string \<Rightarrow> string"
  to_json :: "payload \<Rightarrow> string"
  env_order :: hash_order
  env_arch_order :: "nat \<Rightarrow> hash_order"

definition legal_env :: "env \<Rightarrow> bool" where
  "legal_env E \<longleftrightarrow> legal_order (env_order E) \<and> (\<forall>i. legal_order (env_arch_order E i))"

section \<open>Software outside RPM: composite keys\<close>

definition non_rpm_identity :: "non_rpm_item \<Rightarrow> string" where
  "non_rpm_identity x =
     (if nri_path x = [] then nri_name x
      else let ecosystem =
        (if nri_method x \<in> {''pip list'', ''pip dist-info'', ''venv''} then ''pip''
         else if nri_method x = ''npm lockfile'' then ''npm''
         else if nri_method x = ''gem lockfile'' then ''gem''
         else ''other'')
      in ecosystem @ '':'' @ nri_path x)"

text \<open>The bytes fed to the hasher.\<close>

definition non_rpm_digest_input :: "non_rpm_item \<Rightarrow> string" where
  "non_rpm_digest_input x =
     nri_method x @ [CHR 0x0A] @
     (if nri_packages x = []
      then nri_name x @ [CHR 0x0A] @ nri_version x @ [CHR 0x0A] @ nri_content x @ [CHR 0x0A]
      else concat (map (\<lambda>p. lp_name p @ ''='' @ lp_version p @ [CHR 0x0A])
             (sort_key (\<lambda>p. (lp_name p, lp_version p)) (nri_packages x))))"

section \<open>The trait implementations\<close>

definition package_ops :: "env \<Rightarrow> package_entry mergeable" where
  "package_ops E = \<lparr>
     identity_key = (\<lambda>x. pe_name x @ ''.'' @ pe_arch x),
     get_aggregate = pe_aggregate,
     set_aggregate = (\<lambda>a x. x\<lparr>pe_aggregate := a\<rparr>),
     set_include = (\<lambda>val x. x\<lparr>pe_disposition := with_include (pe_disposition x) val\<rparr>),
     set_variant = (\<lambda>v x. x),
     content_variant_key = (\<lambda>x. None),
     payload_json = (\<lambda>x. to_json E (PPackage x)) \<rparr>"

definition repo_file_ops :: "env \<Rightarrow> repo_file mergeable" where
  "repo_file_ops E = \<lparr>
     identity_key = (\<lambda>x. rf_path x),
     get_aggregate = rf_aggregate,
     set_aggregate = (\<lambda>a x. x\<lparr>rf_aggregate := a\<rparr>),
     set_include = (\<lambda>val x. x\<lparr>rf_disposition := with_include (rf_disposition x) val\<rparr>),
     set_variant = (\<lambda>v x. x),
     content_variant_key = (\<lambda>x. None),
     payload_json = (\<lambda>x. to_json E (PRepoFile x)) \<rparr>"

definition module_stream_ops :: "env \<Rightarrow> enabled_module_stream mergeable" where
  "module_stream_ops E = \<lparr>
     identity_key = (\<lambda>x. ms_module_name x @ '':'' @ ms_stream x),
     get_aggregate = ms_aggregate,
     set_aggregate = (\<lambda>a x. x\<lparr>ms_aggregate := a\<rparr>),
     set_include = (\<lambda>val x. x\<lparr>ms_disposition := with_include (ms_disposition x) val\<rparr>),
     set_variant = (\<lambda>v x. x),
     content_variant_key = (\<lambda>x. None),
     payload_json = (\<lambda>x. to_json E (PModuleStream x)) \<rparr>"

definition version_lock_ops :: "env \<Rightarrow> version_lock_entry mergeable" where
  "version_lock_ops E = \<lparr>
     identity_key = (\<lambda>x. vl_name x @ ''.'' @ vl_arch x),
     get_aggregate = vl_aggregate,
     set_aggregate = (\<lambda>a x. x\<lparr>vl_aggregate := a\<rparr>),
     set_include = (\<lambda>val x. x\<lparr>vl_disposition := with_include (vl_disposition x) val\<rparr>),
     set_variant = (\<lambda>v x. x),
     content_variant_key = (\<lambda>x. None),
     payload_json = (\<lambda>x. to_json E (PVersionLock x)) \<rparr>"

definition config_file_ops :: "env \<Rightarrow> config_file_entry mergeable" where
  "config_file_ops E = \<lparr>
     identity_key = (\<lambda>x. cf_path x),
     get_aggregate = cf_aggregate,
     set_aggregate = (\<lambda>a x. x\<lparr>cf_aggregate := a\<rparr>),
     set_include = (\<lambda>val x. x\<lparr>cf_disposition := with_include (cf_disposition x) val\<rparr>),
     set_variant = (\<lambda>v x. x\<lparr>cf_variant_selection := v\<rparr>),
     content_variant_key = (\<lambda>x. Some (sha256_hex E (cf_content x))),
     payload_json = (\<lambda>x. to_json E (PConfigFile x)) \<rparr>"

definition state_change_ops :: "env \<Rightarrow> service_state_change mergeable" where
  "state_change_ops E = \<lparr>
     identity_key = (\<lambda>x. ssc_unit x),
     get_aggregate = ssc_aggregate,
     set_aggregate = (\<lambda>a x. x\<lparr>ssc_aggregate := a\<rparr>),
     set_include = (\<lambda>val x. x\<lparr>ssc_disposition := with_include (ssc_disposition x) val\<rparr>),
     set_variant = (\<lambda>v x. x),
     content_variant_key = (\<lambda>x. None),
     payload_json = (\<lambda>x. to_json E (PStateChange x)) \<rparr>"

definition drop_in_ops :: "env \<Rightarrow> systemd_drop_in mergeable" where
  "drop_in_ops E = \<lparr>
     identity_key = (\<lambda>x. di_path x),
     get_aggregate = di_aggregate,
     set_aggregate = (\<lambda>a x. x\<lparr>di_aggregate := a\<rparr>),
     set_include = (\<lambda>val x. x\<lparr>di_disposition := with_include (di_disposition x) val\<rparr>),
     set_variant = (\<lambda>v x. x\<lparr>di_variant_selection := v\<rparr>),
     content_variant_key = (\<lambda>x. Some (sha256_hex E (di_content x))),
     payload_json = (\<lambda>x. to_json E (PDropIn x)) \<rparr>"

definition quadlet_ops :: "env \<Rightarrow> quadlet_unit mergeable" where
  "quadlet_ops E = \<lparr>
     identity_key = (\<lambda>x. qu_path x),
     get_aggregate = qu_aggregate,
     set_aggregate = (\<lambda>a x. x\<lparr>qu_aggregate := a\<rparr>),
     set_include = (\<lambda>val x. x\<lparr>qu_disposition := with_include (qu_disposition x) val\<rparr>),
     set_variant = (\<lambda>v x. x\<lparr>qu_variant_selection := v\<rparr>),
     content_variant_key = (\<lambda>x. Some (sha256_hex E (qu_content x))),
     payload_json = (\<lambda>x. to_json E (PQuadlet x)) \<rparr>"

definition compose_ops :: "env \<Rightarrow> compose_file mergeable" where
  "compose_ops E = \<lparr>
     identity_key = (\<lambda>x. cpf_path x),
     get_aggregate = cpf_aggregate,
     set_aggregate = (\<lambda>a x. x\<lparr>cpf_aggregate := a\<rparr>),
     set_include = (\<lambda>val x. x\<lparr>cpf_disposition := with_include (cpf_disposition x) val\<rparr>),
     set_variant = (\<lambda>v x. x\<lparr>cpf_variant_selection := v\<rparr>),
     content_variant_key = (\<lambda>x. Some (sha256_hex E (to_json E (PComposeImages (cpf_images x))))),
     payload_json = (\<lambda>x. to_json E (PComposeFile x)) \<rparr>"

definition flatpak_ops :: "env \<Rightarrow> flatpak_app mergeable" where
  "flatpak_ops E = \<lparr>
     identity_key = (\<lambda>x. fa_app_id x @ ''.'' @ fa_remote x @ ''.'' @ fa_branch x),
     get_aggregate = fa_aggregate,
     set_aggregate = (\<lambda>a x. x\<lparr>fa_aggregate := a\<rparr>),
     set_include = (\<lambda>val x. x\<lparr>fa_disposition := with_include (fa_disposition x) val\<rparr>),
     set_variant = (\<lambda>v x. x),
     content_variant_key = (\<lambda>x. None),
     payload_json = (\<lambda>x. to_json E (PFlatpak x)) \<rparr>"

definition connection_ops :: "env \<Rightarrow> nm_connection mergeable" where
  "connection_ops E = \<lparr>
     identity_key = (\<lambda>x. nm_path x),
     get_aggregate = nm_aggregate,
     set_aggregate = (\<lambda>a x. x\<lparr>nm_aggregate := a\<rparr>),
     set_include = (\<lambda>val x. x\<lparr>nm_disposition := with_include (nm_disposition x) val\<rparr>),
     set_variant = (\<lambda>v x. x),
     content_variant_key = (\<lambda>x. None),
     payload_json = (\<lambda>x. to_json E (PConnection x)) \<rparr>"

definition firewall_zone_ops :: "env \<Rightarrow> firewall_zone mergeable" where
  "firewall_zone_ops E = \<lparr>
     identity_key = (\<lambda>x. fz_path x),
     get_aggregate = fz_aggregate,
     set_aggregate = (\<lambda>a x. x\<lparr>fz_aggregate := a\<rparr>),
     set_include = (\<lambda>val x. x\<lparr>fz_disposition := with_include (fz_disposition x) val\<rparr>),
     set_variant = (\<lambda>v x. x),
     content_variant_key = (\<lambda>x. None),
     payload_json = (\<lambda>x. to_json E (PFirewallZone x)) \<rparr>"

definition port_label_ops :: "env \<Rightarrow> selinux_port_label mergeable" where
  "port_label_ops E = \<lparr>
     identity_key = (\<lambda>x. pl_protocol x @ '':'' @ pl_port x),
     get_aggregate = pl_aggregate,
     set_aggregate = (\<lambda>a x. x\<lparr>pl_aggregate := a\<rparr>),
     set_include = (\<lambda>val x. x\<lparr>pl_disposition := with_include (pl_disposition x) val\<rparr>),
     set_variant = (\<lambda>v x. x),
     content_variant_key = (\<lambda>x. None),
     payload_json = (\<lambda>x. to_json E (PPortLabel x)) \<rparr>"

definition kernel_module_ops :: "env \<Rightarrow> kernel_module mergeable" where
  "kernel_module_ops E = \<lparr>
     identity_key = (\<lambda>x. km_name x),
     get_aggregate = km_aggregate,
     set_aggregate = (\<lambda>a x. x\<lparr>km_aggregate := a\<rparr>),
     set_include = (\<lambda>val x. x\<lparr>km_disposition := with_include (km_disposition x) val\<rparr>),
     set_variant = (\<lambda>v x. x),
     content_variant_key = (\<lambda>x. None),
     payload_json = (\<lambda>x. to_json E (PKernelModule x)) \<rparr>"

definition sysctl_ops :: "env \<Rightarrow> sysctl_override mergeable" where
  "sysctl_ops E = \<lparr>
     identity_key = (\<lambda>x. so_key x),
     get_aggregate = so_aggregate,
     set_aggregate = (\<lambda>a x. x\<lparr>so_aggregate := a\<rparr>),
     set_include = (\<lambda>val x. x\<lparr>so_disposition := with_include (so_disposition x) val\<rparr>),
     set_variant = (\<lambda>v x. x),
     content_variant_key = (\<lambda>x. None),
     payload_json = (\<lambda>x. to_json E (PSysctl x)) \<rparr>"

definition non_rpm_ops :: "env \<Rightarrow> non_rpm_item mergeable" where
  "non_rpm_ops E = \<lparr>
     identity_key = (\<lambda>x. non_rpm_identity x),
     get_aggregate = nri_aggregate,
     set_aggregate = (\<lambda>a x. x\<lparr>nri_aggregate := a\<rparr>),
     set_include = (\<lambda>val x. x\<lparr>nri_disposition := with_include (nri_disposition x) val\<rparr>),
     set_variant = (\<lambda>v x. x),
     content_variant_key = (\<lambda>x. Some (sha256_hex E (non_rpm_digest_input x))),
     payload_json = (\<lambda>x. to_json E (PNonRpm x)) \<rparr>"

definition unmanaged_ops :: "env \<Rightarrow> unmanaged_file mergeable" where
  "unmanaged_ops E = \<lparr>
     identity_key = (\<lambda>x. uf_path x),
     get_aggregate = uf_aggregate,
     set_aggregate = (\<lambda>a x. x\<lparr>uf_aggregate := a\<rparr>),
     set_include = (\<lambda>val x. x\<lparr>uf_disposition := with_include (uf_disposition x) val\<rparr>),
     set_variant = (\<lambda>v x. x\<lparr>uf_variant_selection := v\<rparr>),
     content_variant_key = (\<lambda>x. if uf_content_hash x = [] then None else Some (uf_content_hash x)),
     payload_json = (\<lambda>x. to_json E (PUnmanaged x)) \<rparr>"

definition cron_ops :: "env \<Rightarrow> cron_job mergeable" where
  "cron_ops E = \<lparr>
     identity_key = (\<lambda>x. cj_path x),
     get_aggregate = cj_aggregate,
     set_aggregate = (\<lambda>a x. x\<lparr>cj_aggregate := a\<rparr>),
     set_include = (\<lambda>val x. x\<lparr>cj_disposition := with_include (cj_disposition x) val\<rparr>),
     set_variant = (\<lambda>v x. x),
     content_variant_key = (\<lambda>x. None),
     payload_json = (\<lambda>x. to_json E (PCron x)) \<rparr>"

definition timer_ops :: "env \<Rightarrow> systemd_timer mergeable" where
  "timer_ops E = \<lparr>
     identity_key = (\<lambda>x. tm_name x),
     get_aggregate = tm_aggregate,
     set_aggregate = (\<lambda>a x. x\<lparr>tm_aggregate := a\<rparr>),
     set_include = (\<lambda>val x. x\<lparr>tm_disposition := with_include (tm_disposition x) val\<rparr>),
     set_variant = (\<lambda>v x. x),
     content_variant_key = (\<lambda>x. None),
     payload_json = (\<lambda>x. to_json E (PTimer x)) \<rparr>"

definition at_ops :: "env \<Rightarrow> at_job mergeable" where
  "at_ops E = \<lparr>
     identity_key = (\<lambda>x. aj_file x),
     get_aggregate = aj_aggregate,
     set_aggregate = (\<lambda>a x. x\<lparr>aj_aggregate := a\<rparr>),
     set_include = (\<lambda>val x. x\<lparr>aj_disposition := with_include (aj_disposition x) val\<rparr>),
     set_variant = (\<lambda>v x. x),
     content_variant_key = (\<lambda>x. None),
     payload_json = (\<lambda>x. to_json E (PAt x)) \<rparr>"

definition generated_timer_ops :: "env \<Rightarrow> generated_timer_unit mergeable" where
  "generated_timer_ops E = \<lparr>
     identity_key = (\<lambda>x. gt_name x),
     get_aggregate = gt_aggregate,
     set_aggregate = (\<lambda>a x. x\<lparr>gt_aggregate := a\<rparr>),
     set_include = (\<lambda>val x. x\<lparr>gt_disposition := with_include (gt_disposition x) val\<rparr>),
     set_variant = (\<lambda>v x. x),
     content_variant_key = (\<lambda>x. None),
     payload_json = (\<lambda>x. to_json E (PGeneratedTimer x)) \<rparr>"

definition fstab_ops :: "env \<Rightarrow> fstab_entry mergeable" where
  "fstab_ops E = \<lparr>
     identity_key = (\<lambda>x. fe_mount_point x),
     get_aggregate = fe_aggregate,
     set_aggregate = (\<lambda>a x. x\<lparr>fe_aggregate := a\<rparr>),
     set_include = (\<lambda>val x. x\<lparr>fe_disposition := with_include (fe_disposition x) val\<rparr>),
     set_variant = (\<lambda>v x. x),
     content_variant_key = (\<lambda>x. None),
     payload_json = (\<lambda>x. to_json E (PFstab x)) \<rparr>"

lemmas ops_defs =
  package_ops_def
  repo_file_ops_def
  module_stream_ops_def
  version_lock_ops_def
  config_file_ops_def
  state_change_ops_def
  drop_in_ops_def
  quadlet_ops_def
  compose_ops_def
  flatpak_ops_def
  connection_ops_def
  firewall_zone_ops_def
  port_label_ops_def
  kernel_module_ops_def
  sysctl_ops_def
  non_rpm_ops_def
  unmanaged_ops_def
  cron_ops_def
  timer_ops_def
  at_ops_def
  generated_timer_ops_def
  fstab_ops_def

section \<open>The contract holds\<close>

interpretation packages: mergeable "package_ops E" pe_disposition for E
  by unfold_locales (simp_all add: package_ops_def)

interpretation repo_files: mergeable "repo_file_ops E" rf_disposition for E
  by unfold_locales (simp_all add: repo_file_ops_def)

interpretation module_streams: mergeable "module_stream_ops E" ms_disposition for E
  by unfold_locales (simp_all add: module_stream_ops_def)

interpretation version_locks: mergeable "version_lock_ops E" vl_disposition for E
  by unfold_locales (simp_all add: version_lock_ops_def)

interpretation config_files: variant_mergeable "config_file_ops E" cf_disposition cf_variant_selection for E
  by unfold_locales (simp_all add: config_file_ops_def)

interpretation state_changes: mergeable "state_change_ops E" ssc_disposition for E
  by unfold_locales (simp_all add: state_change_ops_def)

interpretation drop_ins: variant_mergeable "drop_in_ops E" di_disposition di_variant_selection for E
  by unfold_locales (simp_all add: drop_in_ops_def)

interpretation quadlets: variant_mergeable "quadlet_ops E" qu_disposition qu_variant_selection for E
  by unfold_locales (simp_all add: quadlet_ops_def)

interpretation compose_files: variant_mergeable "compose_ops E" cpf_disposition cpf_variant_selection for E
  by unfold_locales (simp_all add: compose_ops_def)

interpretation flatpaks: mergeable "flatpak_ops E" fa_disposition for E
  by unfold_locales (simp_all add: flatpak_ops_def)

interpretation connections: mergeable "connection_ops E" nm_disposition for E
  by unfold_locales (simp_all add: connection_ops_def)

interpretation firewall_zones: mergeable "firewall_zone_ops E" fz_disposition for E
  by unfold_locales (simp_all add: firewall_zone_ops_def)

interpretation port_labels: mergeable "port_label_ops E" pl_disposition for E
  by unfold_locales (simp_all add: port_label_ops_def)

interpretation kernel_modules: mergeable "kernel_module_ops E" km_disposition for E
  by unfold_locales (simp_all add: kernel_module_ops_def)

interpretation sysctls: mergeable "sysctl_ops E" so_disposition for E
  by unfold_locales (simp_all add: sysctl_ops_def)

interpretation non_rpm_items: mergeable "non_rpm_ops E" nri_disposition for E
  by unfold_locales (simp_all add: non_rpm_ops_def non_rpm_identity_def non_rpm_digest_input_def)

interpretation unmanaged: variant_mergeable "unmanaged_ops E" uf_disposition uf_variant_selection for E
  by unfold_locales (simp_all add: unmanaged_ops_def)

interpretation cron_jobs: mergeable "cron_ops E" cj_disposition for E
  by unfold_locales (simp_all add: cron_ops_def)

interpretation timers: mergeable "timer_ops E" tm_disposition for E
  by unfold_locales (simp_all add: timer_ops_def)

interpretation at_jobs: mergeable "at_ops E" aj_disposition for E
  by unfold_locales (simp_all add: at_ops_def)

interpretation generated_timers: mergeable "generated_timer_ops E" gt_disposition for E
  by unfold_locales (simp_all add: generated_timer_ops_def)

interpretation fstab_entries: mergeable "fstab_ops E" fe_disposition for E
  by unfold_locales (simp_all add: fstab_ops_def)

section \<open>What the implementations share\<close>

text \<open>Every kind but unmanaged files has a content key on all items or on none.\<close>

lemma ops_uniform [simp]:
  "uniform_variants (package_ops E) packages_items"
  "uniform_variants (repo_file_ops E) repo_files_items"
  "uniform_variants (module_stream_ops E) module_streams_items"
  "uniform_variants (version_lock_ops E) version_locks_items"
  "uniform_variants (config_file_ops E) config_files_items"
  "uniform_variants (state_change_ops E) state_changes_items"
  "uniform_variants (drop_in_ops E) drop_ins_items"
  "uniform_variants (quadlet_ops E) quadlets_items"
  "uniform_variants (compose_ops E) compose_files_items"
  "uniform_variants (flatpak_ops E) flatpaks_items"
  "uniform_variants (connection_ops E) connections_items"
  "uniform_variants (firewall_zone_ops E) firewall_zones_items"
  "uniform_variants (port_label_ops E) port_labels_items"
  "uniform_variants (kernel_module_ops E) kernel_modules_items"
  "uniform_variants (sysctl_ops E) sysctls_items"
  "uniform_variants (non_rpm_ops E) non_rpm_items_items"
  "uniform_variants (cron_ops E) cron_jobs_items"
  "uniform_variants (timer_ops E) timers_items"
  "uniform_variants (at_ops E) at_jobs_items"
  "uniform_variants (generated_timer_ops E) generated_timers_items"
  "uniform_variants (fstab_ops E) fstab_entries_items"
  by (simp_all add: uniform_variants_def ops_defs)

text \<open>An unmanaged file has a content key exactly when its hash was computed.\<close>

lemma unmanaged_uniform_iff:
  "uniform_variants (unmanaged_ops E) items \<longleftrightarrow>
     (\<forall>d \<in> set items. \<forall>e \<in> set items. uf_path (snd d) = uf_path (snd e) \<longrightarrow>
        (uf_content_hash (snd d) = [] \<longleftrightarrow> uf_content_hash (snd e) = []))"
  by (auto simp: uniform_variants_def unmanaged_ops_def)

text \<open>Environments with the same external functions, whatever their iteration orders.\<close>

definition same_functions :: "env \<Rightarrow> env \<Rightarrow> bool" where
  "same_functions E E' \<longleftrightarrow> sha256_hex E = sha256_hex E' \<and> to_json E = to_json E'"

lemma ops_same:
  assumes "same_functions E E'"
  shows
    "package_ops E = package_ops E'"
    and "repo_file_ops E = repo_file_ops E'"
    and "module_stream_ops E = module_stream_ops E'"
    and "version_lock_ops E = version_lock_ops E'"
    and "config_file_ops E = config_file_ops E'"
    and "state_change_ops E = state_change_ops E'"
    and "drop_in_ops E = drop_in_ops E'"
    and "quadlet_ops E = quadlet_ops E'"
    and "compose_ops E = compose_ops E'"
    and "flatpak_ops E = flatpak_ops E'"
    and "connection_ops E = connection_ops E'"
    and "firewall_zone_ops E = firewall_zone_ops E'"
    and "port_label_ops E = port_label_ops E'"
    and "kernel_module_ops E = kernel_module_ops E'"
    and "sysctl_ops E = sysctl_ops E'"
    and "non_rpm_ops E = non_rpm_ops E'"
    and "unmanaged_ops E = unmanaged_ops E'"
    and "cron_ops E = cron_ops E'"
    and "timer_ops E = timer_ops E'"
    and "at_ops E = at_ops E'"
    and "generated_timer_ops E = generated_timer_ops E'"
    and "fstab_ops E = fstab_ops E'"
  using assms by (simp_all add: same_functions_def ops_defs)

end
