(* ===== verification/DedupHelpers.thy ===== *)
theory DedupHelpers
  imports MergeEngine JsonValue
begin

text \<open>
  The helpers of \<open>crates/core/src/aggregate/merge.rs\<close> that the section adapters share:
  collecting items and string lists from the sections of the hosts, deduplication, and the
  choice of one scalar for the whole fleet.
\<close>

section \<open>Definitions\<close>

definition dedup_strings :: "string list list \<Rightarrow> string list" where
  "dedup_strings lls = sort (dedup_by (\<lambda>x. x) (concat lls))"

definition dedup_json_values :: "(json \<Rightarrow> string) \<Rightarrow> json list list \<Rightarrow> json list" where
  "dedup_json_values to_string lls = dedup_by to_string (concat lls)"

fun collect_from :: "('s \<Rightarrow> 'a list) \<Rightarrow> nat \<Rightarrow> 's option list \<Rightarrow> (nat \<times> 'a) list" where
  "collect_from ex idx [] = []"
| "collect_from ex idx (None # ss) = collect_from ex (Suc idx) ss"
| "collect_from ex idx (Some s # ss) = map (Pair idx) (ex s) @ collect_from ex (Suc idx) ss"

definition collect_items :: "'s option list \<Rightarrow> ('s \<Rightarrow> 'a list) \<Rightarrow> (nat \<times> 'a) list" where
  "collect_items sections extractor = collect_from extractor 0 sections"

definition collect_string_lists :: "'s option list \<Rightarrow> ('s \<Rightarrow> 'a list) \<Rightarrow> 'a list list" where
  "collect_string_lists sections extractor = List.map_filter (map_option extractor) sections"

text \<open>\<open>for s in sections.iter().flatten() { for x in &s.field { .. } }\<close> visits these items.\<close>

definition flat_items :: "'s option list \<Rightarrow> ('s \<Rightarrow> 'a list) \<Rightarrow> 'a list" where
  "flat_items sections extractor = concat (collect_string_lists sections extractor)"

text \<open>The block the adapters repeat: first occurrence of every key, then sorted by a key.\<close>

definition dedup_sorted :: "'s option list \<Rightarrow> ('s \<Rightarrow> 'a list) \<Rightarrow> ('a \<Rightarrow> string) \<Rightarrow> ('a \<Rightarrow> string) \<Rightarrow> 'a list" where
  "dedup_sorted sections extractor key order_key =
     sort_key order_key (dedup_by key (flat_items sections extractor))"

fun host_pairs :: "('s \<Rightarrow> 'a option) \<Rightarrow> string list \<Rightarrow> nat \<Rightarrow> 's option list \<Rightarrow> (string \<times> 'a) list" where
  "host_pairs ex hn idx [] = []"
| "host_pairs ex hn idx (s # ss) =
     (case Option.bind s ex of
        Some v \<Rightarrow> [(if idx < length hn then hn ! idx else [], v)]
      | None \<Rightarrow> []) @ host_pairs ex hn (Suc idx) ss"

definition first_host_option :: "'s option list \<Rightarrow> string list \<Rightarrow> ('s \<Rightarrow> 'a option) \<Rightarrow> 'a option" where
  "first_host_option sections hostnames extractor =
     (case sort_key fst (host_pairs extractor hostnames 0 sections) of
        [] \<Rightarrow> None
      | (_, v) # _ \<Rightarrow> Some v)"

definition most_prevalent_scalar :: "'s option list \<Rightarrow> ('s \<Rightarrow> string) \<Rightarrow> string" where
  "most_prevalent_scalar sections extractor =
     (let counts = count_by (\<lambda>v. v)
            (filter (\<lambda>v. v \<noteq> []) (List.map_filter (map_option extractor) sections));
          ranked = sort_key (\<lambda>(v, n). - int n) counts
      in case ranked of [] \<Rightarrow> [] | (v, _) # _ \<Rightarrow> v)"

definition is_scalar_universal :: "'s option list \<Rightarrow> ('s \<Rightarrow> string) \<Rightarrow> string \<Rightarrow> bool" where
  "is_scalar_universal sections accessor winner =
     list_all (\<lambda>v. v = winner) (List.map_filter (map_option accessor) sections)"

definition most_prevalent_bool :: "'s option list \<Rightarrow> ('s \<Rightarrow> bool) \<Rightarrow> bool" where
  "most_prevalent_bool sections extractor =
     (let votes = List.map_filter (map_option extractor) sections
      in length (filter (\<lambda>b. b) votes) > length (filter (\<lambda>b. \<not> b) votes))"

definition baseline_host_option :: "'s option list \<Rightarrow> nat \<Rightarrow> ('s \<Rightarrow> 'a option) \<Rightarrow> 'a option" where
  "baseline_host_option sections baseline_idx extractor =
     (if baseline_idx < length sections then Option.bind (sections ! baseline_idx) extractor else None)"

definition all_none :: "'s option list \<Rightarrow> bool" where
  "all_none sections = list_all (\<lambda>s. s = None) sections"

section \<open>Lists and sets\<close>

lemma set_map_filter_sections: "set (List.map_filter (map_option f) ss) = {f s |s. Some s \<in> set ss}"
  by (force simp: List.map_filter_def)

lemma dedup_strings_sort_dedup: "dedup_strings lls = sort_dedup (concat lls)"
proof (rule sorted_distinct_set_unique)
  show "distinct (dedup_strings lls)"
    using dedup_by_distinct [of "\<lambda>x. x" "concat lls"] by (simp add: dedup_strings_def)
  show "set (dedup_strings lls) = set (sort_dedup (concat lls))"
    using dedup_by_keys [of "\<lambda>x. x" "concat lls"] by (simp add: dedup_strings_def)
qed (simp_all add: dedup_strings_def)

lemma dedup_strings_spec:
  "sorted (dedup_strings lls)" "distinct (dedup_strings lls)"
  "x \<in> set (dedup_strings lls) \<longleftrightarrow> (\<exists>l \<in> set lls. x \<in> set l)"
  by (simp_all add: dedup_strings_sort_dedup)

lemma dedup_json_values_spec:
  "distinct (map ser (dedup_json_values ser lls))"
  "set (dedup_json_values ser lls) \<subseteq> set (concat lls)"
  "l \<in> set lls \<Longrightarrow> v \<in> set l \<Longrightarrow> \<exists>w \<in> set (dedup_json_values ser lls). ser w = ser v"
proof -
  show "l \<in> set lls \<Longrightarrow> v \<in> set l \<Longrightarrow> \<exists>w \<in> set (dedup_json_values ser lls). ser w = ser v"
    using dedup_by_keys [of ser "concat lls"] unfolding dedup_json_values_def
    by (metis UN_I imageE image_eqI set_concat)
qed (use dedup_by_subset [of ser "concat lls"] in \<open>simp_all add: dedup_json_values_def\<close>)

lemma collect_string_lists_mem:
  "l \<in> set (collect_string_lists ss ex) \<longleftrightarrow> (\<exists>s. Some s \<in> set ss \<and> l = ex s)"
  by (auto simp: collect_string_lists_def set_map_filter_sections)

lemma flat_items_mem: "x \<in> set (flat_items ss ex) \<longleftrightarrow> (\<exists>s. Some s \<in> set ss \<and> x \<in> set (ex s))"
  unfolding flat_items_def set_concat UN_iff by (metis collect_string_lists_mem)

lemma dedup_collected_mem:
  "x \<in> set (dedup_strings (collect_string_lists ss ex)) \<longleftrightarrow> (\<exists>s. Some s \<in> set ss \<and> x \<in> set (ex s))"
  unfolding dedup_strings_spec by (metis collect_string_lists_mem)

lemma dedup_sorted_spec:
  "sorted (map ok (dedup_sorted ss ex key ok))"
  "distinct (map key (dedup_sorted ss ex key ok))"
  "key ` set (dedup_sorted ss ex key ok) = key ` set (flat_items ss ex)"
  "x \<in> set (dedup_sorted ss ex key ok) \<Longrightarrow> List.find (\<lambda>y. key y = key x) (flat_items ss ex) = Some x"
proof -
  have "mset (map key (dedup_sorted ss ex key ok)) = mset (map key (dedup_by key (flat_items ss ex)))"
    by (simp add: dedup_sorted_def)
  then show "distinct (map key (dedup_sorted ss ex key ok))"
    using dedup_by_distinct mset_eq_imp_distinct_iff by metis
qed (simp_all add: dedup_sorted_def dedup_by_first)

section \<open>Collected items\<close>

lemma collect_from_mem:
  "(i, x) \<in> set (collect_from ex n ss) \<longleftrightarrow> n \<le> i \<and> i < n + length ss \<and> (\<exists>s. ss ! (i - n) = Some s \<and> x \<in> set (ex s))"
proof (induction ex n ss rule: collect_from.induct)
  case (2 ex n ss)
  have "(i, x) \<in> set (collect_from ex n (None # ss)) \<longleftrightarrow> (i, x) \<in> set (collect_from ex (Suc n) ss)" by simp
  also have "\<dots> \<longleftrightarrow> Suc n \<le> i \<and> i < Suc n + length ss \<and> (\<exists>s. ss ! (i - Suc n) = Some s \<and> x \<in> set (ex s))"
    by (rule 2)
  also have "\<dots> \<longleftrightarrow> n \<le> i \<and> i < n + length (None # ss) \<and> (\<exists>s. (None # ss) ! (i - n) = Some s \<and> x \<in> set (ex s))"
    by (cases "i = n") (auto simp: nth_Cons')
  finally show ?case .
next
  case (3 ex n s ss)
  have "(i, x) \<in> set (collect_from ex n (Some s # ss)) \<longleftrightarrow>
      (i = n \<and> x \<in> set (ex s)) \<or> (i, x) \<in> set (collect_from ex (Suc n) ss)" by auto
  also have "\<dots> \<longleftrightarrow> n \<le> i \<and> i < n + length (Some s # ss) \<and> (\<exists>t. (Some s # ss) ! (i - n) = Some t \<and> x \<in> set (ex t))"
    unfolding 3 by (cases "i = n") (auto simp: nth_Cons')
  finally show ?case .
qed auto

lemma collect_items_mem:
  "(i, x) \<in> set (collect_items ss ex) \<longleftrightarrow> i < length ss \<and> (\<exists>s. ss ! i = Some s \<and> x \<in> set (ex s))"
  by (simp add: collect_items_def collect_from_mem)

lemma collect_items_all_none: "all_none ss \<Longrightarrow> collect_items ss ex = []"
proof -
  assume "all_none ss"
  moreover have "list_all (\<lambda>s. s = None) ss \<Longrightarrow> collect_from ex n ss = []" for n
    by (induction ss arbitrary: n) auto
  ultimately show ?thesis by (simp add: all_none_def collect_items_def)
qed

lemma sorted_fst_collect_items: "sorted (map fst (collect_items ss ex))"
proof -
  have "sorted (map fst (collect_from ex n ss))" for n
    by (induction ex n ss rule: collect_from.induct)
      (auto simp: sorted_append collect_from_mem comp_def map_replicate_const)
  then show ?thesis by (simp add: collect_items_def)
qed

lemma map_snd_collect_items: "map snd (collect_items ss ex) = flat_items ss ex"
proof -
  have "map snd (collect_from ex n ss) = concat (List.map_filter (map_option ex) ss)" for n
    by (induction ex n ss rule: collect_from.induct) (auto simp: List.map_filter_simps comp_def)
  then show ?thesis by (simp add: collect_items_def flat_items_def collect_string_lists_def)
qed

section \<open>Scalars\<close>

lemma most_prevalent_scalar_empty:
  "most_prevalent_scalar ss ex = [] \<longleftrightarrow> (\<forall>s. Some s \<in> set ss \<longrightarrow> ex s = [])"
proof -
  define vs where "vs = filter (\<lambda>v. v \<noteq> []) (List.map_filter (map_option ex) ss)"
  have none: "vs = [] \<longleftrightarrow> (\<forall>s. Some s \<in> set ss \<longrightarrow> ex s = [])"
    by (auto simp: vs_def filter_empty_conv set_map_filter_sections)
  have mps: "most_prevalent_scalar ss ex
      = (case sort_key (\<lambda>(v, n). - int n) (count_by (\<lambda>v. v) vs) of [] \<Rightarrow> [] | (v, _) # _ \<Rightarrow> v)"
    by (simp add: most_prevalent_scalar_def vs_def)
  show ?thesis
  proof (cases "vs = []")
    case True
    then show ?thesis using none by (simp add: mps count_by_def)
  next
    case False
    then have "count_by (\<lambda>v. v) vs \<noteq> []" by (simp add: count_by_eq)
    then obtain v n rest where r: "sort_key (\<lambda>(v, n). - int n) (count_by (\<lambda>v. v) vs) = (v, n) # rest"
      by (metis list.exhaust set_empty set_sort surj_pair)
    then have "(v, n) \<in> set (count_by (\<lambda>v. v) vs)"
      by (metis list.set_intros(1) set_sort)
    then have "v \<noteq> []" by (auto simp: count_by_mem vs_def)
    then show ?thesis using r none False by (simp add: mps)
  qed
qed

text \<open>The winner is a value some host has, and no non-empty value has more hosts.\<close>

lemma most_prevalent_scalar_max:
  assumes "most_prevalent_scalar ss ex \<noteq> []" and "v \<noteq> []"
  shows "\<exists>s. Some s \<in> set ss \<and> ex s = most_prevalent_scalar ss ex"
    and "count_list (List.map_filter (map_option ex) ss) v
      \<le> count_list (List.map_filter (map_option ex) ss) (most_prevalent_scalar ss ex)"
proof -
  let ?all = "List.map_filter (map_option ex) ss"
  let ?vs = "filter (\<lambda>v. v \<noteq> []) ?all"
  have cnt: "count_list ?vs w = count_list ?all w" if "w \<noteq> []" for w
  proof -
    have "count_list (filter (\<lambda>v. v \<noteq> []) xs) w = count_list xs w" for xs
      using that by (induction xs) auto
    then show ?thesis .
  qed
  obtain w n rest where r: "sort_key (\<lambda>(v, n). - int n) (count_by (\<lambda>v. v) ?vs) = (w, n) # rest"
    using assms(1) by (auto simp: most_prevalent_scalar_def Let_def split: list.splits)
  then have w: "most_prevalent_scalar ss ex = w" by (simp add: most_prevalent_scalar_def)
  have mem: "(w, n) \<in> set (count_by (\<lambda>v. v) ?vs)"
    using r by (metis list.set_intros(1) set_sort)
  then have n: "n = count_list ?vs w" and "w \<in> set ?vs" by (simp_all add: count_by_mem)
  then show "\<exists>s. Some s \<in> set ss \<and> ex s = most_prevalent_scalar ss ex"
    by (auto simp: w set_map_filter_sections)
  have wne: "w \<noteq> []" using \<open>w \<in> set ?vs\<close> by simp
  show "count_list ?all v \<le> count_list ?all (most_prevalent_scalar ss ex)"
  proof (cases "v \<in> set ?vs")
    case True
    then have "(v, count_list ?vs v) \<in> set (count_by (\<lambda>v. v) ?vs)" by (simp add: count_by_mem)
    from sort_key_hd_min [OF this, of "\<lambda>(v, n). - int n"]
    have "count_list ?vs v \<le> n" by (simp add: r)
    then show ?thesis using n w cnt wne assms(2) by simp
  next
    case False
    then show ?thesis using assms(2) by (simp add: count_list_0_iff)
  qed
qed

lemma is_scalar_universal_iff:
  "is_scalar_universal ss ex w \<longleftrightarrow> (\<forall>s. Some s \<in> set ss \<longrightarrow> ex s = w)"
  by (auto simp: is_scalar_universal_def list_all_iff set_map_filter_sections)

text \<open>With host names in sorted order the first host that has the value gives it.\<close>

lemma host_pairs_fst:
  "n + length ss \<le> length hn \<Longrightarrow> sorted hn \<Longrightarrow>
     sorted (map fst (host_pairs ex hn n ss)) \<and> (\<forall>p \<in> set (host_pairs ex hn n ss). n < length hn \<and> hn ! n \<le> fst p)"
proof (induction ex hn n ss rule: host_pairs.induct)
  case (2 ex hn n s ss)
  then have IH: "sorted (map fst (host_pairs ex hn (Suc n) ss))"
    "\<forall>p \<in> set (host_pairs ex hn (Suc n) ss). Suc n < length hn \<and> hn ! Suc n \<le> fst p" and n: "n < length hn"
    by auto
  have "hn ! n \<le> hn ! Suc n" if "Suc n < length hn" using that 2(3) by (simp add: sorted_nth_mono)
  then have "\<forall>p \<in> set (host_pairs ex hn (Suc n) ss). hn ! n \<le> fst p"
    using IH(2) order_trans by blast
  then show ?case using IH n by (auto split: option.splits)
qed simp

lemma first_host_option_sorted:
  assumes "sorted hn" "length ss \<le> length hn"
  shows "first_host_option ss hn ex = map_option (\<lambda>s. the (ex (the s))) (List.find (\<lambda>s. Option.bind s ex \<noteq> None) ss)"
proof -
  have hp: "(case host_pairs ex hn n ts of [] \<Rightarrow> None | (_, v) # _ \<Rightarrow> Some v)
      = map_option (\<lambda>s. the (ex (the s))) (List.find (\<lambda>s. Option.bind s ex \<noteq> None) ts)" for n ts
    by (induction ts arbitrary: n) (auto split: option.splits simp: bind_eq_Some_conv)
  have "sort_key fst (host_pairs ex hn 0 ss) = host_pairs ex hn 0 ss"
    using host_pairs_fst [of 0 ss hn ex] assms by (simp add: sorted_sort_id sort_key_id_if_sorted)
  then show ?thesis using hp by (simp add: first_host_option_def)
qed

end
