(* ===== verification/RpmMerge.thy ===== *)
theory RpmMerge
  imports Mergeable DedupHelpers
begin

text \<open>
  \<open>merge_rpm_sections\<close> (\<open>crates/core/src/aggregate/merge.rs\<close>), step by step: the generic merges,
  the leaf sets of the authoritative hosts, the leaf filter, the forced inclusion of the
  leaves every authoritative host has, and the repository conflicts with the reconciliation
  of \<open>source_repo\<close>. One definition per block of the function, composed in its order.

  A \<open>HashSet\<close> that is only sorted or asked for membership is a list without repetition.
\<close>

section \<open>Leaves\<close>

text \<open>The hosts with leaf data: index, section and leaf list.\<close>

definition authoritative :: "rpm_section option list \<Rightarrow> (nat \<times> rpm_section \<times> string list) list" where
  "authoritative sections =
     concat (map (\<lambda>(i, s). case s of None \<Rightarrow> []
         | Some sec \<Rightarrow> (case rpm_leaf_packages sec of None \<Rightarrow> [] | Some leaves \<Rightarrow> [(i, sec, leaves)]))
       (List.enumerate 0 sections))"

definition leaf_intersection :: "string list list \<Rightarrow> string list" where
  "leaf_intersection leaf_sets =
     (case leaf_sets of [] \<Rightarrow> []
      | s # ss \<Rightarrow> sort (foldl (\<lambda>acc set'. filter (\<lambda>pkg. pkg \<in> set set') acc) (first_seen s) ss))"

definition leaf_union :: "string list list \<Rightarrow> string list" where
  "leaf_union leaf_sets =
     (case leaf_sets of [] \<Rightarrow> [] | s # ss \<Rightarrow> first_seen (foldl (\<lambda>acc set'. acc @ set') s ss))"

text \<open>The dependency tree of the first authoritative host by host name, cut to the leaves.\<close>

definition leaf_dep_tree ::
  "(nat \<times> rpm_section \<times> string list) list \<Rightarrow> string list \<Rightarrow> string list \<Rightarrow> json" where
  "leaf_dep_tree auth hostnames sorted_leaf =
     (case sort_key (\<lambda>(i, sec, leaves). if i < length hostnames then hostnames ! i else []) auth of
        [] \<Rightarrow> JObj []
      | (_, donor, _) # _ \<Rightarrow>
          (case json_as_object (rpm_leaf_dep_tree donor) of
             Some obj \<Rightarrow> JObj (filter (\<lambda>(k, v). k \<in> set sorted_leaf) obj)
           | None \<Rightarrow> JObj []))"

text \<open>\<open>leaf_packages\<close>, \<open>leaf_union\<close> and \<open>leaf_dep_tree\<close>.\<close>

definition leaf_data ::
  "rpm_section option list \<Rightarrow> string list \<Rightarrow> string list option \<times> string list option \<times> json" where
  "leaf_data sections hostnames =
     (let auth = authoritative sections in
      if auth = [] then (None, None, JObj [])
      else let leaf_sets = map (\<lambda>(i, sec, leaves). leaves) auth;
               sorted_leaf = leaf_intersection leaf_sets
           in (Some sorted_leaf, Some (leaf_union leaf_sets), leaf_dep_tree auth hostnames sorted_leaf))"

section \<open>The package list\<close>

definition package_id :: "package_entry \<Rightarrow> string" where
  "package_id pkg = pe_name pkg @ ''.'' @ pe_arch pkg"

definition is_universal_package :: "package_entry \<Rightarrow> bool" where
  "is_universal_package pkg =
     (case pe_aggregate pkg of None \<Rightarrow> False | Some f \<Rightarrow> ap_count f \<ge> ap_total f)"

definition leaf_filter ::
  "string list option \<Rightarrow> string list option \<Rightarrow> package_entry list \<Rightarrow> package_entry list" where
  "leaf_filter leaf_packages leaf_any packages =
     (case leaf_packages of None \<Rightarrow> packages
      | Some leaf_set \<Rightarrow> filter (\<lambda>pkg.
          if is_universal_package pkg then package_id pkg \<in> set leaf_set
          else package_id pkg \<in> set (case leaf_any of None \<Rightarrow> [] | Some u \<Rightarrow> u)) packages)"

definition force_include_leaves :: "string list option \<Rightarrow> package_entry list \<Rightarrow> package_entry list" where
  "force_include_leaves leaf_packages packages =
     (case leaf_packages of None \<Rightarrow> packages
      | Some leaf_set \<Rightarrow> map (\<lambda>pkg. if package_id pkg \<in> set leaf_set
          then pkg\<lparr>pe_disposition := fk_included\<rparr> else pkg) packages)"

section \<open>Repository conflicts\<close>

text \<open>\<open>repo_counts\<close> of one package over the hosts' own package lists.\<close>

definition repo_counts :: "rpm_section option list \<Rightarrow> package_entry \<Rightarrow> (string \<times> nat) list" where
  "repo_counts sections pkg =
     count_by (\<lambda>h. to_lowercase (pe_source_repo h))
       (filter (\<lambda>h. pe_name h = pe_name pkg \<and> pe_arch h = pe_arch pkg \<and> pe_source_repo h \<noteq> [])
          (flat_items sections rpm_packages_added))"

definition repo_conflict :: "env \<Rightarrow> rpm_section option list \<Rightarrow> package_entry \<Rightarrow> repo_source_entry list option" where
  "repo_conflict E sections pkg =
     (let counts = repo_counts sections pkg in
      if length counts \<ge> 2 then
        if length (first_seen (map (\<lambda>(r, n). repo_tier_of r) (hm_iter (env_order E) counts))) < 2 then None
        else Some (sort_key (\<lambda>e. (- int (rse_host_count e), rse_repo e))
               (map (\<lambda>(repo, host_count). \<lparr> rse_repo = repo, rse_host_count = host_count \<rparr>)
                  (hm_iter (env_order E) counts)))
      else None)"

definition repo_conflicts ::
  "env \<Rightarrow> rpm_section option list \<Rightarrow> package_entry list \<Rightarrow> (string \<rightharpoonup> repo_source_entry list)" where
  "repo_conflicts E sections packages =
     foldl (\<lambda>conflicts pkg. case repo_conflict E sections pkg of
         None \<Rightarrow> conflicts | Some entries \<Rightarrow> conflicts(package_id pkg \<mapsto> entries))
       Map.empty packages"

definition reconcile_source_repo ::
  "(string \<rightharpoonup> repo_source_entry list) \<Rightarrow> package_entry list \<Rightarrow> package_entry list" where
  "reconcile_source_repo conflicts packages =
     map (\<lambda>pkg. case conflicts (package_id pkg) of
         Some (winner # _) \<Rightarrow> pkg\<lparr>pe_source_repo := rse_repo winner\<rparr>
       | _ \<Rightarrow> pkg) packages"

section \<open>The section\<close>

definition version_change_key :: "version_change \<Rightarrow> string" where
  "version_change_key vc = vc_name vc @ ''.'' @ vc_arch vc"

definition merge_rpm_sections ::
  "env \<Rightarrow> rpm_section option list \<Rightarrow> nat \<Rightarrow> string list \<Rightarrow> nat option \<Rightarrow>
   (rpm_section \<times> (string \<rightharpoonup> repo_source_entry list)) option panics" where
  "merge_rpm_sections E sections total_hosts hostnames baseline_host_idx =
    (if all_none sections then Some None else do {
       packages \<leftarrow> merge_items (package_ops E) (env_order E)
         (collect_items sections rpm_packages_added) total_hosts hostnames;
       base_image_only \<leftarrow> merge_items (package_ops E) (env_order E)
         (collect_items sections rpm_base_image_only) total_hosts hostnames;
       repo_files \<leftarrow> merge_items (repo_file_ops E) (env_order E)
         (collect_items sections rpm_repo_files) total_hosts hostnames;
       gpg_keys \<leftarrow> merge_items (repo_file_ops E) (env_order E)
         (collect_items sections rpm_gpg_keys) total_hosts hostnames;
       module_streams \<leftarrow> merge_items (module_stream_ops E) (env_order E)
         (collect_items sections rpm_module_streams) total_hosts hostnames;
       version_locks \<leftarrow> merge_items (version_lock_ops E) (env_order E)
         (collect_items sections rpm_version_locks) total_hosts hostnames;
       let strings = (\<lambda>field. dedup_strings (collect_string_lists sections field));
       let (leaf_packages, leaf_any, dep_tree) = leaf_data sections hostnames;
       let baseline_option = (\<lambda>field. Option.bind baseline_host_idx (\<lambda>idx. baseline_host_option sections idx field));
       let kept = force_include_leaves leaf_packages (leaf_filter leaf_packages leaf_any packages);
       let conflicts = repo_conflicts E sections kept;
       Some (Some (
         \<lparr> rpm_packages_added = reconcile_source_repo conflicts kept,
           rpm_base_image_only = base_image_only,
           rpm_rpm_va = dedup_sorted sections rpm_rpm_va va_path va_path,
           rpm_repo_files = repo_files,
           rpm_gpg_keys = gpg_keys,
           rpm_dnf_history_removed = strings rpm_dnf_history_removed,
           rpm_version_changes = dedup_sorted sections rpm_version_changes version_change_key version_change_key,
           rpm_leaf_packages = leaf_packages,
           rpm_auto_packages = None,
           rpm_leaf_dep_tree = dep_tree,
           rpm_module_streams = module_streams,
           rpm_version_locks = version_locks,
           rpm_module_stream_conflicts = strings rpm_module_stream_conflicts,
           rpm_baseline_module_streams =
             Option.bind baseline_host_idx (\<lambda>idx. baseline_host_option sections idx rpm_baseline_module_streams),
           rpm_versionlock_command_output =
             first_host_option sections hostnames rpm_versionlock_command_output,
           rpm_multiarch_packages = strings rpm_multiarch_packages,
           rpm_duplicate_packages = strings rpm_duplicate_packages,
           rpm_ostree_overrides = dedup_sorted sections rpm_ostree_overrides oo_name oo_name,
           rpm_ostree_removals = strings rpm_ostree_removals,
           rpm_base_image =
             Option.bind baseline_host_idx (\<lambda>idx. baseline_host_option sections idx rpm_base_image),
           rpm_baseline_suppressed = baseline_option rpm_baseline_suppressed,
           rpm_baseline_package_names = baseline_option rpm_baseline_package_names,
           rpm_leaf_authority_hosts = Some (as_u32 (length (authoritative sections))),
           rpm_leaf_total_hosts = Some (as_u32 total_hosts),
           rpm_file_ownership = dedup_sorted sections rpm_file_ownership fo_package_name fo_package_name,
           rpm_installed_groups = None \<rparr>,
         conflicts))
     })"

section \<open>Leaves: what the sets are\<close>

lemma leaf_intersection_mem:
  "p \<in> set (leaf_intersection ls) \<longleftrightarrow> ls \<noteq> [] \<and> (\<forall>l \<in> set ls. p \<in> set l)"
proof -
  have "p \<in> set (foldl (\<lambda>acc s. filter (\<lambda>pkg. pkg \<in> set s) acc) xs ss) \<longleftrightarrow> p \<in> set xs \<and> (\<forall>l \<in> set ss. p \<in> set l)"
    for xs and ss :: "string list list"
    by (induction ss arbitrary: xs) auto
  then show ?thesis by (cases ls) (auto simp: leaf_intersection_def)
qed

lemma leaf_intersection_sorted: "sorted (leaf_intersection ls) \<and> distinct (leaf_intersection ls)"
proof -
  have "distinct xs \<Longrightarrow> distinct (foldl (\<lambda>acc s. filter (\<lambda>pkg. pkg \<in> set s) acc) xs ss)"
    for xs and ss :: "string list list"
    by (induction ss arbitrary: xs) auto
  then show ?thesis by (cases ls) (auto simp: leaf_intersection_def)
qed

lemma leaf_union_mem: "p \<in> set (leaf_union ls) \<longleftrightarrow> (\<exists>l \<in> set ls. p \<in> set l)"
proof -
  have "p \<in> set (foldl (\<lambda>acc s. acc @ s) xs ss) \<longleftrightarrow> p \<in> set xs \<or> (\<exists>l \<in> set ss. p \<in> set l)"
    for xs and ss :: "string list list"
    by (induction ss arbitrary: xs) auto
  then show ?thesis by (cases ls) (auto simp: leaf_union_def)
qed

text \<open>Leaf lists of the authoritative hosts.\<close>

definition host_leaves :: "rpm_section option list \<Rightarrow> string list set" where
  "host_leaves sections = {l. \<exists>s. Some s \<in> set sections \<and> rpm_leaf_packages s = Some l}"

lemma ex_enumerate: "(\<exists>i. (i, x) \<in> set (List.enumerate n xs)) \<longleftrightarrow> x \<in> set xs"
  by (induction xs arbitrary: n) auto

lemma authoritative_leaves:
  "(\<lambda>(i, sec, leaves). leaves) ` set (authoritative sections) = host_leaves sections"
proof -
  have mem: "(i, s, l) \<in> set (authoritative sections) \<longleftrightarrow>
      (i, Some s) \<in> set (List.enumerate 0 sections) \<and> rpm_leaf_packages s = Some l" for i s l
    by (auto simp: authoritative_def split: option.splits)
  have "l \<in> (\<lambda>(i, sec, leaves). leaves) ` set (authoritative sections)
      \<longleftrightarrow> (\<exists>i s. (i, s, l) \<in> set (authoritative sections))" for l
    by force
  also have "\<dots> l \<longleftrightarrow> (\<exists>s. Some s \<in> set sections \<and> rpm_leaf_packages s = Some l)" for l
    unfolding mem by (metis ex_enumerate)
  finally show ?thesis unfolding host_leaves_def by blast
qed

lemma leaf_data_None: "fst (leaf_data sections hn) = None \<longleftrightarrow> host_leaves sections = {}"
  by (auto simp: leaf_data_def Let_def simp flip: authoritative_leaves)

lemma leaf_data_Some:
  assumes "fst (leaf_data sections hn) = Some ls"
  shows "p \<in> set ls \<longleftrightarrow> (\<forall>l \<in> host_leaves sections. p \<in> set l)"
    and "\<exists>u. fst (snd (leaf_data sections hn)) = Some u \<and> (p \<in> set u \<longleftrightarrow> (\<exists>l \<in> host_leaves sections. p \<in> set l))"
    and "sorted ls" and "distinct ls" and "host_leaves sections \<noteq> {}"
proof -
  have ne: "authoritative sections \<noteq> []" and ls: "ls = leaf_intersection (map (\<lambda>(i, sec, leaves). leaves) (authoritative sections))"
    using assms by (auto simp: leaf_data_def Let_def split: if_splits)
  show "p \<in> set ls \<longleftrightarrow> (\<forall>l \<in> host_leaves sections. p \<in> set l)"
    unfolding ls leaf_intersection_mem set_map authoritative_leaves using ne by simp
  show "\<exists>u. fst (snd (leaf_data sections hn)) = Some u \<and> (p \<in> set u \<longleftrightarrow> (\<exists>l \<in> host_leaves sections. p \<in> set l))"
    using ne by (simp add: leaf_data_def Let_def leaf_union_mem flip: authoritative_leaves)
  show "sorted ls" "distinct ls" using leaf_intersection_sorted ls by auto
  show "host_leaves sections \<noteq> {}" using ne by (auto simp flip: authoritative_leaves)
qed

section \<open>Conflicts\<close>

lemma repo_counts_distinct [simp]: "distinct (map fst (repo_counts sections pkg))"
  by (simp add: repo_counts_def)

lemma repo_conflict_order:
  assumes "legal_env E" "legal_env E'"
  shows "repo_conflict E sections pkg = repo_conflict E' sections pkg"
proof -
  let ?c = "repo_counts sections pkg"
  have ms: "mset (hm_iter (env_order E) ?c) = mset (hm_iter (env_order E') ?c)"
    using assms by (simp add: legal_env_def hm_iter_mset)
  have dist: "distinct (map fst (hm_iter (env_order E) ?c))"
    using assms(1) by (simp add: hm_iter_def comp_def legal_env_def legal_order_distinct)
  have len: "length (first_seen xs) = card (set xs)" for xs :: "repo_tier list"
    using distinct_card [OF distinct_first_seen, of xs] by simp
  have "length (first_seen (map (\<lambda>(r, n). repo_tier_of r) (hm_iter (env_order E) ?c)))
      = length (first_seen (map (\<lambda>(r, n). repo_tier_of r) (hm_iter (env_order E') ?c)))"
    unfolding len set_map using mset_eq_setD [OF ms] by simp
  moreover have "sort_key (\<lambda>e. (- int (rse_host_count e), rse_repo e))
        (map (\<lambda>(repo, host_count). \<lparr> rse_repo = repo, rse_host_count = host_count \<rparr>) (hm_iter (env_order E) ?c))
      = sort_key (\<lambda>e. (- int (rse_host_count e), rse_repo e))
        (map (\<lambda>(repo, host_count). \<lparr> rse_repo = repo, rse_host_count = host_count \<rparr>) (hm_iter (env_order E') ?c))"
    by (rule sort_key_inj_eq) (use ms in \<open>auto simp: inj_on_def\<close>)
  ultimately show ?thesis by (simp add: repo_conflict_def Let_def)
qed

text \<open>The first entry of a conflict is a repository with the most hosts.\<close>

lemma repo_conflict_Some:
  assumes E: "legal_env E" and c: "repo_conflict E sections pkg = Some entries"
  obtains w rest where "entries = w # rest"
    "(rse_repo w, rse_host_count w) \<in> set (repo_counts sections pkg)"
    "\<forall>(r, n) \<in> set (repo_counts sections pkg).
       n < rse_host_count w \<or> n = rse_host_count w \<and> rse_repo w \<le> r"
    "\<exists>r r'. r \<in> fst ` set (repo_counts sections pkg) \<and> r' \<in> fst ` set (repo_counts sections pkg)
       \<and> repo_tier_of r \<noteq> repo_tier_of r'"
proof -
  let ?c = "repo_counts sections pkg"
  let ?e = "map (\<lambda>(repo, host_count). \<lparr> rse_repo = repo, rse_host_count = host_count \<rparr>) (hm_iter (env_order E) ?c)"
  let ?k = "\<lambda>e. (- int (rse_host_count e), rse_repo e)"
  have set: "set (hm_iter (env_order E) ?c) = set ?c"
    using E by (simp add: legal_env_def hm_iter_set)
  have two: "length ?c \<ge> 2" and tiers: "\<not> length (first_seen (map (\<lambda>(r, n). repo_tier_of r) (hm_iter (env_order E) ?c))) < 2"
    and entries: "entries = sort_key ?k ?e"
    using c by (auto simp: repo_conflict_def Let_def split: if_splits)
  have "set entries = set ?e" by (simp add: entries)
  moreover have "?e \<noteq> []" using two set by auto
  ultimately obtain w rest where w: "entries = w # rest" by (cases entries) auto
  then have "w \<in> set ?e" using \<open>set entries = set ?e\<close> by (metis list.set_intros(1))
  then obtain r n where "w = \<lparr> rse_repo = r, rse_host_count = n \<rparr>" "(r, n) \<in> set ?c"
    unfolding set_map set by (elim imageE) (simp split: prod.splits)
  then have mem: "(rse_repo w, rse_host_count w) \<in> set ?c" by simp
  have "n < rse_host_count w \<or> n = rse_host_count w \<and> rse_repo w \<le> r" if "(r, n) \<in> set ?c" for r n
  proof -
    have "(\<lambda>(repo, host_count). \<lparr> rse_repo = repo, rse_host_count = host_count \<rparr>) (r, n) \<in> set ?e"
      unfolding set_map set using that by (rule imageI)
    then have "\<lparr> rse_repo = r, rse_host_count = n \<rparr> \<in> set ?e" by simp
    from sort_key_hd_min [OF this, of ?k] show ?thesis
      unfolding entries [symmetric] w by (auto simp: less_eq_prod_def)
  qed
  then have max: "\<forall>(r, n) \<in> set ?c. n < rse_host_count w \<or> n = rse_host_count w \<and> rse_repo w \<le> r"
    by blast
  have "\<exists>r r'. r \<in> fst ` set ?c \<and> r' \<in> fst ` set ?c \<and> repo_tier_of r \<noteq> repo_tier_of r'"
  proof (rule ccontr)
    assume "\<not> ?thesis"
    then have same: "\<forall>r \<in> fst ` set ?c. \<forall>r' \<in> fst ` set ?c. repo_tier_of r = repo_tier_of r'" by blast
    have "card (set (map (\<lambda>(r, n). repo_tier_of r) (hm_iter (env_order E) ?c))) \<le> 1"
    proof (rule card_le_Suc0_iff_eq [THEN iffD2, unfolded One_nat_def [symmetric]])
      show "\<forall>a \<in> set (map (\<lambda>(r, n). repo_tier_of r) (hm_iter (env_order E) ?c)).
          \<forall>b \<in> set (map (\<lambda>(r, n). repo_tier_of r) (hm_iter (env_order E) ?c)). a = b"
        using same unfolding set_map set by force
    qed simp
    then show False
      using tiers distinct_card [OF distinct_first_seen, of "map (\<lambda>(r, n). repo_tier_of r) (hm_iter (env_order E) ?c)"]
      by simp
  qed
  from that [OF w mem max this] show thesis .
qed

text \<open>What the conflict map holds: with one entry per name and architecture, the packages' own conflicts.\<close>

lemma repo_conflicts_lookup:
  assumes "distinct (map package_id packages)"
  shows "pkg \<in> set packages \<Longrightarrow> repo_conflicts E sections packages (package_id pkg) = repo_conflict E sections pkg"
    and "k \<notin> package_id ` set packages \<Longrightarrow> repo_conflicts E sections packages k = None"
proof -
  have gen: "foldl (\<lambda>conflicts pkg. case repo_conflict E sections pkg of
         None \<Rightarrow> conflicts | Some entries \<Rightarrow> conflicts(package_id pkg \<mapsto> entries)) m ps k
     = (case List.find (\<lambda>p. package_id p = k \<and> repo_conflict E sections p \<noteq> None) (rev ps) of
          None \<Rightarrow> m k | Some p \<Rightarrow> repo_conflict E sections p)" for m ps k
    by (induction ps rule: rev_induct) (auto split: option.splits)
  show "repo_conflicts E sections packages (package_id pkg) = repo_conflict E sections pkg"
    if mem: "pkg \<in> set packages"
  proof -
    have same: "p = pkg" if "p \<in> set packages" "package_id p = package_id pkg" for p
      using assms mem that by (simp add: distinct_map inj_on_def)
    show ?thesis
    proof (cases "List.find (\<lambda>p. package_id p = package_id pkg \<and> repo_conflict E sections p \<noteq> None) (rev packages)")
      case None
      then have "repo_conflict E sections pkg = None" using mem by (auto simp: find_None_iff)
      then show ?thesis using None by (simp add: repo_conflicts_def gen)
    next
      case (Some p)
      then have "p = pkg" using same by (auto simp: find_Some_iff) (metis nth_mem length_rev set_rev)
      then show ?thesis using Some by (simp add: repo_conflicts_def gen)
    qed
  qed
  show "repo_conflicts E sections packages k = None" if "k \<notin> package_id ` set packages"
  proof -
    have "List.find (\<lambda>p. package_id p = k \<and> repo_conflict E sections p \<noteq> None) (rev packages) = None"
      using that by (auto simp: find_None_iff)
    then show ?thesis by (simp add: repo_conflicts_def gen)
  qed
qed

end
