(* ===== verification/FcontextMerge.thy ===== *)
theory FcontextMerge
  imports DedupHelpers SystemTypes
begin

text \<open>
  \<open>merge_fcontext_rules\<close> (\<open>crates/core/src/aggregate/merge.rs\<close>): the local SELinux file-context
  rules of all hosts become one row per semantic key, in the order of the hosts and of each
  host's own rules. The row keeps the first content seen; it is included only when every host
  carries exactly that content.
\<close>

section \<open>Definitions\<close>

text \<open>The \<open>Debug\<close> form of the enum, which is part of the key.\<close>

fun file_type_debug :: "fcontext_file_type \<Rightarrow> string" where
  "file_type_debug FcAll = ''All''"
| "file_type_debug FcRegularFile = ''RegularFile''"
| "file_type_debug FcDirectory = ''Directory''"
| "file_type_debug FcCharDevice = ''CharDevice''"
| "file_type_debug FcBlockDevice = ''BlockDevice''"
| "file_type_debug FcSocket = ''Socket''"
| "file_type_debug FcSymlink = ''Symlink''"
| "file_type_debug FcNamedPipe = ''NamedPipe''"

fun fcontext_rule_key :: "fcontext_rule \<Rightarrow> nat \<times> string \<times> string" where
  "fcontext_rule_key (Label spec ft _ _ _) = (0, spec, file_type_debug ft)"
| "fcontext_rule_key (Unlabel spec ft _ _) = (0, spec, file_type_debug ft)"
| "fcontext_rule_key (Equivalence subject _ _ _) = (1, subject, [])"
| "fcontext_rule_key (Unparsed raw) = (2, raw, [])"

fun stamp_fcontext :: "bool \<Rightarrow> aggregate_prevalence \<Rightarrow> fcontext_rule \<Rightarrow> fcontext_rule" where
  "stamp_fcontext include p (Label spec ft ctx d _) = Label spec ft ctx (with_include d include) (Some p)"
| "stamp_fcontext include p (Unlabel spec ft d _) = Unlabel spec ft (with_include d include) (Some p)"
| "stamp_fcontext include p (Equivalence subject like d _) = Equivalence subject like (with_include d include) (Some p)"
| "stamp_fcontext include p (Unparsed raw) = Unparsed raw"

definition merge_fcontext_key ::
  "nat \<Rightarrow> string list \<Rightarrow> (nat \<times> fcontext_rule) list \<Rightarrow> fcontext_rule panics" where
  "merge_fcontext_key total_hosts hostnames entries = do {
     key_hosts \<leftarrow> hosts_of hostnames (sort_dedup (map fst entries));
     let variants = group_by snd entries;
     let has_disagreement = length variants > 1;
     (rule, reps) \<leftarrow> index_at variants 0;
     rep_hosts \<leftarrow> hosts_of hostnames (map fst reps);
     let include = (length rep_hosts = total_hosts);
     Some (stamp_fcontext include
       \<lparr> ap_count = as_i32 (length rep_hosts), ap_total = as_i32 total_hosts, ap_hosts = rep_hosts,
         ap_aggregate_count = (if has_disagreement then Some (as_i32 (length key_hosts)) else None),
         ap_aggregate_hosts = (if has_disagreement then Some key_hosts else None) \<rparr>
       rule)
   }"

definition merge_fcontext_rules ::
  "selinux_section option list \<Rightarrow> nat \<Rightarrow> string list \<Rightarrow> fcontext_rule list panics" where
  "merge_fcontext_rules sections total_hosts hostnames =
     map_panics (\<lambda>(key, entries). merge_fcontext_key total_hosts hostnames entries)
       (group_by (fcontext_rule_key \<circ> snd) (collect_items sections sel_fcontext_rules))"

fun fcontext_disposition :: "fcontext_rule \<Rightarrow> finding_kind option" where
  "fcontext_disposition (Label _ _ _ d _) = Some d"
| "fcontext_disposition (Unlabel _ _ d _) = Some d"
| "fcontext_disposition (Equivalence _ _ d _) = Some d"
| "fcontext_disposition (Unparsed _) = None"

fun fcontext_aggregate :: "fcontext_rule \<Rightarrow> aggregate_prevalence option" where
  "fcontext_aggregate (Label _ _ _ _ a) = a"
| "fcontext_aggregate (Unlabel _ _ _ a) = a"
| "fcontext_aggregate (Equivalence _ _ _ a) = a"
| "fcontext_aggregate (Unparsed _) = None"

section \<open>Properties\<close>

lemma file_type_debug_inj: "file_type_debug a = file_type_debug b \<Longrightarrow> a = b"
  by (cases a; cases b) auto

lemma stamp_fcontext_simps [simp]:
  "fcontext_rule_key (stamp_fcontext b p r) = fcontext_rule_key r"
  "fcontext_disposition (stamp_fcontext b p r) = map_option (\<lambda>d. with_include d b) (fcontext_disposition r)"
  "fcontext_disposition r \<noteq> None \<Longrightarrow> fcontext_aggregate (stamp_fcontext b p r) = Some p"
  by (cases r; simp)+

text \<open>The rules of all hosts in the order they are visited, and the first one with a key.\<close>

abbreviation rules_of :: "selinux_section option list \<Rightarrow> fcontext_rule list" where
  "rules_of sections \<equiv> flat_items sections sel_fcontext_rules"

definition first_rule :: "selinux_section option list \<Rightarrow> nat \<times> string \<times> string \<Rightarrow> fcontext_rule" where
  "first_rule sections k = the (List.find (\<lambda>r. fcontext_rule_key r = k) (rules_of sections))"

text \<open>The host names that carry exactly this rule.\<close>

definition rule_hosts :: "selinux_section option list \<Rightarrow> string list \<Rightarrow> fcontext_rule \<Rightarrow> string list" where
  "rule_hosts sections hostnames r = sort_dedup
     (map (\<lambda>i. hostnames ! i) (filter (\<lambda>i. \<exists>s. sections ! i = Some s \<and> r \<in> set (sel_fcontext_rules s)) [0..<length sections]))"

definition key_hosts ::
  "selinux_section option list \<Rightarrow> string list \<Rightarrow> nat \<times> string \<times> string \<Rightarrow> string list" where
  "key_hosts sections hostnames k = sort_dedup
     (map (\<lambda>i. hostnames ! i) (filter (\<lambda>i. \<exists>s. sections ! i = Some s
        \<and> (\<exists>r \<in> set (sel_fcontext_rules s). fcontext_rule_key r = k)) [0..<length sections]))"

definition contested :: "selinux_section option list \<Rightarrow> nat \<times> string \<times> string \<Rightarrow> bool" where
  "contested sections k \<longleftrightarrow>
     (\<exists>r \<in> set (rules_of sections). \<exists>r' \<in> set (rules_of sections).
        fcontext_rule_key r = k \<and> fcontext_rule_key r' = k \<and> r \<noteq> r')"

lemma find_hd_filter: "filter P xs \<noteq> [] \<Longrightarrow> List.find P xs = Some (hd (filter P xs))"
  by (induction xs) auto

lemma length_first_seen_one: "1 < length (first_seen xs) \<longleftrightarrow> (\<exists>x \<in> set xs. \<exists>y \<in> set xs. x \<noteq> y)"
proof -
  have card: "length (first_seen xs) = card (set xs)"
    using distinct_card [OF distinct_first_seen, of xs] by simp
  show ?thesis
  proof
    assume "1 < length (first_seen xs)"
    then show "\<exists>x \<in> set xs. \<exists>y \<in> set xs. x \<noteq> y"
      unfolding card by (metis One_nat_def card_le_Suc0_iff_eq finite_set not_less)
  next
    assume "\<exists>x \<in> set xs. \<exists>y \<in> set xs. x \<noteq> y"
    then show "1 < length (first_seen xs)"
      unfolding card by (metis One_nat_def card_le_Suc0_iff_eq finite_set not_less)
  qed
qed

text \<open>One key: the row, its hosts and its decision.\<close>

lemma merge_fcontext_key_ok:
  assumes len: "length sections \<le> length hn"
    and k: "k \<in> fcontext_rule_key ` set (rules_of sections)"
  defines "entries \<equiv> filter (\<lambda>e. fcontext_rule_key (snd e) = k) (collect_items sections sel_fcontext_rules)"
    and "r \<equiv> first_rule sections k"
  shows "merge_fcontext_key T hn entries = Some (stamp_fcontext (length (rule_hosts sections hn r) = T)
       \<lparr> ap_count = as_i32 (length (rule_hosts sections hn r)), ap_total = as_i32 T,
         ap_hosts = rule_hosts sections hn r,
         ap_aggregate_count = (if contested sections k then Some (as_i32 (length (key_hosts sections hn k))) else None),
         ap_aggregate_hosts = (if contested sections k then Some (key_hosts sections hn k) else None) \<rparr> r)"
    and "fcontext_rule_key r = k" and "r \<in> set (rules_of sections)"
proof -
  have snds: "map snd entries = filter (\<lambda>r. fcontext_rule_key r = k) (rules_of sections)"
    by (simp add: entries_def filter_map comp_def flip: map_snd_collect_items)
  have ne: "filter (\<lambda>r. fcontext_rule_key r = k) (rules_of sections) \<noteq> []"
    using k by (auto simp: filter_empty_conv)
  then have r: "r = hd (map snd entries)"
    unfolding r_def first_rule_def snds by (simp add: find_hd_filter)
  have "r \<in> set (filter (\<lambda>r. fcontext_rule_key r = k) (rules_of sections))"
    unfolding r snds using ne by (rule hd_in_set)
  then show rk: "fcontext_rule_key r = k" and rmem: "r \<in> set (rules_of sections)" by auto
  have idx: "\<forall>i \<in> set (map fst entries). i < length hn"
    using len by (force simp: entries_def collect_items_mem)
  have fs: "first_seen (map snd entries) \<noteq> []" "hd (first_seen (map snd entries)) = r"
    using ne r unfolding snds by (simp, cases "filter (\<lambda>r. fcontext_rule_key r = k) (rules_of sections)") auto
  then have at0: "index_at (group_by snd entries) 0 = Some (r, filter (\<lambda>e. snd e = r) entries)"
    by (cases "first_seen (map snd entries)") (auto simp: group_by_eq index_at_def)
  have "hosts_of hn (sort_dedup (map fst entries)) = Some (sort_dedup (map ((!) hn) (sort_dedup (map fst entries))))"
    using idx by (intro hosts_of_ok) simp
  moreover have "sort_dedup (map ((!) hn) (sort_dedup (map fst entries))) = key_hosts sections hn k"
  proof -
    have "fst ` set entries = {i. i < length sections \<and> (\<exists>s. sections ! i = Some s
        \<and> (\<exists>r \<in> set (sel_fcontext_rules s). fcontext_rule_key r = k))}"
    proof (intro equalityI subsetI)
      fix i
      assume "i \<in> fst ` set entries"
      then obtain r where "(i, r) \<in> set entries" by force
      then show "i \<in> {i. i < length sections \<and> (\<exists>s. sections ! i = Some s
        \<and> (\<exists>r \<in> set (sel_fcontext_rules s). fcontext_rule_key r = k))}"
        unfolding entries_def set_filter mem_Collect_eq collect_items_mem snd_conv by blast
    next
      fix i
      assume "i \<in> {i. i < length sections \<and> (\<exists>s. sections ! i = Some s
        \<and> (\<exists>r \<in> set (sel_fcontext_rules s). fcontext_rule_key r = k))}"
      then obtain r where "(i, r) \<in> set entries" by (auto simp: entries_def collect_items_mem)
      then show "i \<in> fst ` set entries" by force
    qed
    then show ?thesis
      unfolding key_hosts_def by (intro sort_dedup_cong) (auto simp: image_def)
  qed
  ultimately have kh: "hosts_of hn (sort_dedup (map fst entries)) = Some (key_hosts sections hn k)" by simp
  have "hosts_of hn (map fst (filter (\<lambda>e. snd e = r) entries))
      = Some (sort_dedup (map ((!) hn) (map fst (filter (\<lambda>e. snd e = r) entries))))"
    using idx by (intro hosts_of_ok) auto
  moreover have "sort_dedup (map ((!) hn) (map fst (filter (\<lambda>e. snd e = r) entries))) = rule_hosts sections hn r"
  proof -
    have "i \<in> fst ` set (filter (\<lambda>e. snd e = r) entries) \<longleftrightarrow> (i, r) \<in> set entries" for i
      by force
    then have "fst ` set (filter (\<lambda>e. snd e = r) entries)
        = {i. i < length sections \<and> (\<exists>s. sections ! i = Some s \<and> r \<in> set (sel_fcontext_rules s))}"
      using rk by (simp add: entries_def collect_items_mem set_eq_iff)
    then have "(!) hn ` fst ` set (filter (\<lambda>e. snd e = r) entries)
        = (!) hn ` {i. i < length sections \<and> (\<exists>s. sections ! i = Some s \<and> r \<in> set (sel_fcontext_rules s))}"
      by (rule arg_cong)
    then show ?thesis unfolding rule_hosts_def by (intro sort_dedup_cong) (simp add: image_image)
  qed
  ultimately have rh: "hosts_of hn (map fst (filter (\<lambda>e. snd e = r) entries)) = Some (rule_hosts sections hn r)" by simp
  have dis: "length (group_by snd entries) > 1 \<longleftrightarrow> contested sections k"
    using length_first_seen_one [of "map snd entries"] unfolding contested_def
    by (simp add: group_by_eq snds [unfolded comp_def]) blast
  show "merge_fcontext_key T hn entries = Some (stamp_fcontext (length (rule_hosts sections hn r) = T)
       \<lparr> ap_count = as_i32 (length (rule_hosts sections hn r)), ap_total = as_i32 T,
         ap_hosts = rule_hosts sections hn r,
         ap_aggregate_count = (if contested sections k then Some (as_i32 (length (key_hosts sections hn k))) else None),
         ap_aggregate_hosts = (if contested sections k then Some (key_hosts sections hn k) else None) \<rparr> r)"
    using dis by (simp add: merge_fcontext_key_def kh at0 rh Let_def)
qed

text \<open>The whole list: one row per key, in first-seen order.\<close>

lemma merge_fcontext_rules_eq:
  assumes len: "length sections \<le> length hn"
  shows "merge_fcontext_rules sections T hn = Some
    (map (\<lambda>k. let r = first_rule sections k in
       stamp_fcontext (length (rule_hosts sections hn r) = T)
       \<lparr> ap_count = as_i32 (length (rule_hosts sections hn r)), ap_total = as_i32 T,
         ap_hosts = rule_hosts sections hn r,
         ap_aggregate_count = (if contested sections k then Some (as_i32 (length (key_hosts sections hn k))) else None),
         ap_aggregate_hosts = (if contested sections k then Some (key_hosts sections hn k) else None) \<rparr> r)
     (first_seen (map fcontext_rule_key (rules_of sections))))"
proof -
  have keys: "map (fcontext_rule_key \<circ> snd) (collect_items sections sel_fcontext_rules)
      = map fcontext_rule_key (rules_of sections)"
    by (simp flip: map_snd_collect_items)
  show ?thesis
    unfolding merge_fcontext_rules_def group_by_eq keys map_panics_Some_iff
    using merge_fcontext_key_ok(1) [OF len]
    by (auto simp: comp_def Let_def)
qed

text \<open>Every host has the rule, exactly when the names of its hosts are all the names.\<close>

lemma rule_hosts_all:
  assumes "distinct hn" "length sections = length hn"
  shows "length (rule_hosts sections hn r) = length hn \<longleftrightarrow>
    (\<forall>i < length hn. \<exists>s. sections ! i = Some s \<and> r \<in> set (sel_fcontext_rules s))"
proof -
  let ?I = "{i. i < length hn \<and> (\<exists>s. sections ! i = Some s \<and> r \<in> set (sel_fcontext_rules s))}"
  have "length (rule_hosts sections hn r) = card ((!) hn ` ?I)"
    using assms(2) by (simp add: rule_hosts_def length_sort_dedup) 
  also have "\<dots> = card ?I"
    using assms(1) by (intro card_image) (auto simp: inj_on_def nth_eq_iff_index_eq)
  finally have len: "length (rule_hosts sections hn r) = card ?I" .
  have sub: "?I \<subseteq> {..<length hn}" by auto
  show ?thesis
  proof
    assume "length (rule_hosts sections hn r) = length hn"
    then have "?I = {..<length hn}" using len sub by (intro card_subset_eq) auto
    then show "\<forall>i < length hn. \<exists>s. sections ! i = Some s \<and> r \<in> set (sel_fcontext_rules s)" by auto
  next
    assume "\<forall>i < length hn. \<exists>s. sections ! i = Some s \<and> r \<in> set (sel_fcontext_rules s)"
    then have "?I = {..<length hn}" by auto
    then show "length (rule_hosts sections hn r) = length hn" using len by simp
  qed
qed

end
