(* ===== verification/JsonMerge.thy ===== *)
theory JsonMerge
  imports JsonValue
begin

text \<open>
  \<open>merge_json_by_name\<close> (\<open>crates/core/src/aggregate/merge.rs\<close>): users and groups are JSON objects
  merged by their \<open>name\<close>; the listed array fields of same-named objects are united. The text
  form \<open>serde_json::to_string\<close>, by which a united array is sorted, is the parameter
  \<open>to_string\<close>.
\<close>

section \<open>Definitions\<close>

definition json_name :: "json \<Rightarrow> string" where
  "json_name item = (case Option.bind (json_get ''name'' item) json_as_str of None \<Rightarrow> [] | Some s \<Rightarrow> s)"

fun push_new :: "json list \<Rightarrow> json list \<Rightarrow> json list" where
  "push_new merged [] = merged"
| "push_new merged (v # vs) = push_new (if v \<in> set merged then merged else merged @ [v]) vs"

definition union_field :: "(json \<Rightarrow> string) \<Rightarrow> json \<Rightarrow> json \<Rightarrow> string \<Rightarrow> json" where
  "union_field to_string item existing field =
     (case (Option.bind (json_get field existing) json_as_array, Option.bind (json_get field item) json_as_array) of
        (Some existing_arr, Some new_arr) \<Rightarrow>
          json_insert field (JArr (sort_key to_string (push_new existing_arr new_arr))) existing
      | _ \<Rightarrow> existing)"

definition union_fields :: "(json \<Rightarrow> string) \<Rightarrow> string list \<Rightarrow> json \<Rightarrow> json \<Rightarrow> json" where
  "union_fields to_string fields existing item = foldl (union_field to_string item) existing fields"

text \<open>One turn of the loop over the items: \<open>by_name\<close> with its keys in the order of \<open>order\<close>.\<close>

fun name_step :: "(json \<Rightarrow> json \<Rightarrow> json) \<Rightarrow> string \<Rightarrow> json \<Rightarrow> (string \<times> json) list \<Rightarrow> (string \<times> json) list" where
  "name_step merge name item [] = [(name, item)]"
| "name_step merge name item ((n, existing) # rest) =
     (if n = name then (n, merge existing item) # rest else (n, existing) # name_step merge name item rest)"

definition merge_json_by_name :: "(json \<Rightarrow> string) \<Rightarrow> json list list \<Rightarrow> string list \<Rightarrow> json list" where
  "merge_json_by_name to_string all_lists union_array_fields =
     (let by_name = foldl (\<lambda>m item. name_step (union_fields to_string union_array_fields) (json_name item) item m)
            [] (concat all_lists)
      in List.map_filter (map_of by_name) (sort (map fst by_name)))"

section \<open>The loop in closed form\<close>

fun combine :: "(json \<Rightarrow> json \<Rightarrow> json) \<Rightarrow> json list \<Rightarrow> json" where
  "combine merge [] = JNull"
| "combine merge (x # xs) = foldl merge x xs"

lemma combine_snoc: "xs \<noteq> [] \<Longrightarrow> combine merge (xs @ [x]) = merge (combine merge xs) x"
  by (cases xs) auto

lemma name_step_map:
  assumes "distinct ks"
  shows "name_step merge k x (map (\<lambda>k'. (k', g k')) ks) =
    (if k \<in> set ks then map (\<lambda>k'. (k', if k' = k then merge (g k') x else g k')) ks
     else map (\<lambda>k'. (k', g k')) ks @ [(k, x)])"
  using assms by (induction ks) auto

lemma name_loop_eq:
  "foldl (\<lambda>m item. name_step merge (json_name item) item m) [] xs =
     map (\<lambda>n. (n, combine merge (filter (\<lambda>x. json_name x = n) xs))) (first_seen (map json_name xs))"
proof (induction xs rule: rev_induct)
  case (snoc x xs)
  have "foldl (\<lambda>m item. name_step merge (json_name item) item m) [] (xs @ [x])
      = name_step merge (json_name x) x (map (\<lambda>n. (n, combine merge (filter (\<lambda>x. json_name x = n) xs))) (first_seen (map json_name xs)))"
    by (simp add: snoc.IH)
  also have "\<dots> = map (\<lambda>n. (n, combine merge (filter (\<lambda>x. json_name x = n) (xs @ [x])))) (first_seen (map json_name (xs @ [x])))"
  proof (cases "json_name x \<in> json_name ` set xs")
    case True
    then have "filter (\<lambda>y. json_name y = json_name x) xs \<noteq> []" by (force simp: filter_empty_conv)
    with True show ?thesis
      by (subst name_step_map) (auto simp: first_seen_snoc combine_snoc)
  next
    case False
    then have "filter (\<lambda>y. json_name y = json_name x) xs = []"
      unfolding filter_empty_conv by (metis imageI)
    with False show ?thesis
      by (subst name_step_map) (auto simp: first_seen_snoc)
  qed
  finally show ?case .
qed simp

definition same_name :: "json list list \<Rightarrow> string \<Rightarrow> json list" where
  "same_name all_lists n = filter (\<lambda>x. json_name x = n) (concat all_lists)"

lemma merge_json_by_name_eq:
  "merge_json_by_name ser lls fields =
     map (\<lambda>n. combine (union_fields ser fields) (same_name lls n)) (sort_dedup (map json_name (concat lls)))"
proof -
  let ?ks = "first_seen (map json_name (concat lls))"
  let ?g = "\<lambda>n. combine (union_fields ser fields) (same_name lls n)"
  have loop: "foldl (\<lambda>m item. name_step (union_fields ser fields) (json_name item) item m) [] (concat lls)
      = map (\<lambda>n. (n, ?g n)) ?ks"
    by (simp add: name_loop_eq same_name_def)
  have "sort ?ks = sort_dedup (map json_name (concat lls))"
    by (rule sorted_distinct_set_unique) simp_all
  moreover have "List.map_filter (map_of (map (\<lambda>n. (n, ?g n)) ?ks)) (sort ?ks) = map ?g (sort ?ks)"
    by (simp add: List.map_filter_def map_of_map_restrict comp_def cong: map_cong)
  ultimately show ?thesis by (simp add: merge_json_by_name_def loop comp_def)
qed

section \<open>Field by field\<close>

lemma push_new_set: "set (push_new xs ys) = set xs \<union> set ys"
  by (induction ys arbitrary: xs) auto

lemma push_new_distinct: "distinct xs \<Longrightarrow> distinct (push_new xs ys)"
  by (induction ys arbitrary: xs) auto

lemma union_field_other: "g \<noteq> f \<Longrightarrow> json_get g (union_field ser item ex f) = json_get g ex"
  by (auto simp: union_field_def json_get_insert_other split: option.splits)

lemma union_fields_other: "g \<notin> set fields \<Longrightarrow> json_get g (union_fields ser fields ex item) = json_get g ex"
proof (unfold union_fields_def, induction fields arbitrary: ex)
  case (Cons f fields)
  then show ?case using union_field_other [of g f ser item ex] by simp
qed simp

definition array_of :: "string \<Rightarrow> json \<Rightarrow> json list" where
  "array_of f j = (case Option.bind (json_get f j) json_as_array of None \<Rightarrow> [] | Some xs \<Rightarrow> xs)"

definition has_array :: "string \<Rightarrow> json \<Rightarrow> bool" where
  "has_array f j \<longleftrightarrow> Option.bind (json_get f j) json_as_array \<noteq> None"

lemma array_cong: "json_get f a = json_get f b \<Longrightarrow> has_array f a = has_array f b \<and> array_of f a = array_of f b"
  by (simp add: has_array_def array_of_def)

lemma union_field_same:
  "has_array f (union_field ser item ex f) = has_array f ex"
  "has_array f ex \<Longrightarrow> set (array_of f (union_field ser item ex f)) = set (array_of f ex) \<union> set (array_of f item)"
  "\<not> has_array f ex \<Longrightarrow> union_field ser item ex f = ex"
proof -
  have obj: "\<exists>kvs. ex = JObj kvs" if "has_array f ex"
    using that by (cases ex) (auto simp: has_array_def)
  show "\<not> has_array f ex \<Longrightarrow> union_field ser item ex f = ex"
    by (auto simp: has_array_def union_field_def)
  show "has_array f (union_field ser item ex f) = has_array f ex"
  proof (cases "has_array f ex")
    case True
    then show ?thesis using obj by (auto simp: has_array_def union_field_def map_of_btree_insert split: option.splits)
  next
    case False
    then show ?thesis by (auto simp: has_array_def union_field_def)
  qed
  show "has_array f ex \<Longrightarrow> set (array_of f (union_field ser item ex f)) = set (array_of f ex) \<union> set (array_of f item)"
    using obj
    by (auto simp: has_array_def array_of_def union_field_def map_of_btree_insert push_new_set split: option.splits)
qed

lemma union_fields_simps [simp]:
  "union_fields ser [] ex item = ex"
  "union_fields ser (g # fields) ex item = union_fields ser fields (union_field ser item ex g) item"
  by (simp_all add: union_fields_def)

lemma union_fields_array:
  "distinct fields \<Longrightarrow> f \<in> set fields \<Longrightarrow>
     has_array f (union_fields ser fields ex item) = has_array f ex \<and>
     (has_array f ex \<longrightarrow> set (array_of f (union_fields ser fields ex item)) = set (array_of f ex) \<union> set (array_of f item)) \<and>
     (\<not> has_array f ex \<longrightarrow> json_get f (union_fields ser fields ex item) = json_get f ex)"
proof (induction fields arbitrary: ex)
  case (Cons g fields)
  let ?ex = "union_field ser item ex g"
  show ?case
  proof (cases "f = g")
    case True
    then have "json_get f (union_fields ser fields ?ex item) = json_get f ?ex"
      using Cons.prems by (simp add: union_fields_other)
    from array_cong [OF this] this show ?thesis
      using True union_field_same(1) [of f ser item ex] union_field_same(2) [of f ex ser item]
        union_field_same(3) [of f ex ser item] by (cases "has_array g ex") simp_all
  next
    case False
    then show ?thesis
      using Cons.prems Cons.IH [of ?ex] union_field_other [OF False, of ser item ex]
        array_cong [OF union_field_other [OF False, of ser item ex]] by simp
  qed
qed simp

lemmas union_fields_same = union_fields_array [THEN conjunct1]
  union_fields_array [THEN conjunct2, THEN conjunct1, rule_format]
  union_fields_array [THEN conjunct2, THEN conjunct2, rule_format]

lemma fold_union_array:
  assumes "distinct fields" "f \<in> set fields"
  shows "has_array f (foldl (union_fields ser fields) x xs) = has_array f x"
    and "has_array f x \<Longrightarrow> set (array_of f (foldl (union_fields ser fields) x xs))
       = set (array_of f x) \<union> (\<Union>y \<in> set xs. set (array_of f y))"
    and "\<not> has_array f x \<Longrightarrow> json_get f (foldl (union_fields ser fields) x xs) = json_get f x"
proof (induction xs arbitrary: x)
  case (Cons y xs)
  {
    case 1
    show ?case using Cons(1) [of "union_fields ser fields x y"] union_fields_same(1) [OF assms] by simp
  next
    case 2
    then show ?case
      using Cons(2) [of "union_fields ser fields x y"] union_fields_same(1,2) [OF assms] by (simp add: Un_assoc)
  next
    case 3
    then show ?case
      using Cons(3) [of "union_fields ser fields x y"] union_fields_same(1,3) [OF assms] by simp
  }
qed simp_all

lemma fold_union_other:
  "g \<notin> set fields \<Longrightarrow> json_get g (foldl (union_fields ser fields) x xs) = json_get g x"
  by (induction xs arbitrary: x) (simp_all add: union_fields_other)

section \<open>The merged list\<close>

lemma combine_name:
  assumes "''name'' \<notin> set fields" "same_name lls n \<noteq> []"
  shows "json_name (combine (union_fields ser fields) (same_name lls n)) = n"
proof -
  obtain x xs where s: "same_name lls n = x # xs" using assms(2) by (cases "same_name lls n") auto
  then have "x \<in> set (same_name lls n)" by simp
  then have "json_name x = n" by (simp add: same_name_def)
  then show ?thesis using fold_union_other [OF assms(1), of ser x xs] s by (simp add: json_name_def)
qed

lemma same_name_nonempty: "n \<in> set (sort_dedup (map json_name (concat lls))) \<Longrightarrow> same_name lls n \<noteq> []"
  by (auto simp: same_name_def filter_empty_conv)

lemma merged_names:
  assumes "''name'' \<notin> set fields"
  shows "map json_name (merge_json_by_name ser lls fields) = sort_dedup (map json_name (concat lls))"
  unfolding merge_json_by_name_eq map_map
  by (intro map_idI) (simp only: comp_apply combine_name [OF assms same_name_nonempty])

lemma merged_fields:
  assumes fields: "''name'' \<notin> set fields" "distinct fields" and f: "f \<in> set fields"
    and u: "u \<in> set (merge_json_by_name ser lls fields)"
  defines "same \<equiv> same_name lls (json_name u)"
  shows "same \<noteq> []"
    and "has_array f (hd same) \<Longrightarrow> set (array_of f u) = (\<Union>v \<in> set same. set (array_of f v))"
    and "\<not> has_array f (hd same) \<Longrightarrow> json_get f u = json_get f (hd same)"
    and "g \<notin> set fields \<Longrightarrow> json_get g u = json_get g (hd same)"
proof -
  obtain n where n: "n \<in> set (sort_dedup (map json_name (concat lls)))"
    and u': "u = combine (union_fields ser fields) (same_name lls n)"
    using u unfolding merge_json_by_name_eq by auto
  have ne: "same_name lls n \<noteq> []" using n by (rule same_name_nonempty)
  have "json_name u = n" unfolding u' by (rule combine_name [OF fields(1) ne])
  then have same: "same = same_name lls n" by (simp add: same_def)
  then show "same \<noteq> []" using ne by simp
  then obtain x xs where x: "same = x # xs" by (cases same) auto
  then have u'': "u = foldl (union_fields ser fields) x xs" using u' same by simp
  note fu = fold_union_array [OF fields(2) f, where ser = ser and x = x and xs = xs, folded u'']
  show "has_array f (hd same) \<Longrightarrow> set (array_of f u) = (\<Union>v \<in> set same. set (array_of f v))"
    using fu(2) x by simp
  show "\<not> has_array f (hd same) \<Longrightarrow> json_get f u = json_get f (hd same)"
    using fu(3) x by simp
  show "g \<notin> set fields \<Longrightarrow> json_get g u = json_get g (hd same)"
    using fold_union_other [of g fields ser x xs] u'' x by simp
qed

end
