(* ===== verification/SectionMerge.thy ===== *)
theory SectionMerge
  imports Mergeable FcontextMerge JsonMerge
begin

text \<open>
  The section adapters of \<open>crates/core/src/aggregate/merge.rs\<close> other than the RPM one: one
  definition per function. A section is absent from the result exactly when every host lacks
  it. A result \<^term>\<open>None\<close> of the outer option is a panic of the engine.
\<close>

section \<open>Adapters\<close>

definition merge_config_sections ::
  "env \<Rightarrow> config_section option list \<Rightarrow> nat \<Rightarrow> string list \<Rightarrow> config_section option panics" where
  "merge_config_sections E sections total_hosts hostnames =
    (if all_none sections then Some None else do {
       files \<leftarrow> merge_items (config_file_ops E) (env_order E) (collect_items sections cfg_files) total_hosts hostnames;
       Some (Some \<lparr>
         cfg_files = files \<rparr>)
     })"

definition merge_service_sections ::
  "env \<Rightarrow> service_section option list \<Rightarrow> nat \<Rightarrow> string list \<Rightarrow> service_section option panics" where
  "merge_service_sections E sections total_hosts hostnames =
    (if all_none sections then Some None else do {
       state_changes \<leftarrow> merge_items (state_change_ops E) (env_order E) (collect_items sections svc_state_changes) total_hosts hostnames;
       drop_ins \<leftarrow> merge_items (drop_in_ops E) (env_order E) (collect_items sections svc_drop_ins) total_hosts hostnames;
       Some (Some \<lparr>
         svc_state_changes = state_changes,
         svc_enabled_units = dedup_strings (collect_string_lists sections svc_enabled_units),
         svc_disabled_units = dedup_strings (collect_string_lists sections svc_disabled_units),
         svc_drop_ins = drop_ins,
         svc_preset_matched_units = dedup_strings (collect_string_lists sections svc_preset_matched_units) \<rparr>)
     })"

definition merge_container_sections ::
  "env \<Rightarrow> container_section option list \<Rightarrow> nat \<Rightarrow> string list \<Rightarrow> container_section option panics" where
  "merge_container_sections E sections total_hosts hostnames =
    (if all_none sections then Some None else do {
       quadlet_units \<leftarrow> merge_items (quadlet_ops E) (env_order E) (collect_items sections ctr_quadlet_units) total_hosts hostnames;
       compose_files \<leftarrow> merge_items (compose_ops E) (env_order E) (collect_items sections ctr_compose_files) total_hosts hostnames;
       flatpak_apps \<leftarrow> merge_items (flatpak_ops E) (env_order E) (collect_items sections ctr_flatpak_apps) total_hosts hostnames;
       Some (Some \<lparr>
         ctr_quadlet_units = quadlet_units,
         ctr_compose_files = compose_files,
         ctr_running_containers = [],
         ctr_flatpak_apps = flatpak_apps \<rparr>)
     })"

definition direct_rule_key :: "firewall_direct_rule \<Rightarrow> string" where
  "direct_rule_key r = fdr_ipv r @ '':'' @ fdr_table r @ '':'' @ fdr_chain r @ '':'' @ fdr_priority r @ '':'' @ fdr_args r"

definition merge_network_sections ::
  "env \<Rightarrow> network_section option list \<Rightarrow> nat \<Rightarrow> string list \<Rightarrow> network_section option panics" where
  "merge_network_sections E sections total_hosts hostnames =
    (if all_none sections then Some None else do {
       connections \<leftarrow> merge_items (connection_ops E) (env_order E) (collect_items sections net_connections) total_hosts hostnames;
       firewall_zones \<leftarrow> merge_items (firewall_zone_ops E) (env_order E) (collect_items sections net_firewall_zones) total_hosts hostnames;
       Some (Some \<lparr>
         net_connections = connections,
         net_firewall_zones = firewall_zones,
         net_firewall_direct_rules = dedup_by direct_rule_key (flat_items sections net_firewall_direct_rules),
         net_static_routes = dedup_sorted sections net_static_routes srf_path srf_path,
         net_ip_routes = dedup_strings (collect_string_lists sections net_ip_routes),
         net_ip_rules = dedup_strings (collect_string_lists sections net_ip_rules),
         net_resolv_provenance = most_prevalent_scalar sections net_resolv_provenance,
         net_hosts_additions = dedup_strings (collect_string_lists sections net_hosts_additions),
         net_proxy = dedup_sorted sections net_proxy px_source px_source \<rparr>)
     })"

text \<open>
  The directories under \<open>/var\<close>: first host wins, except that a verdict naming a creator the
  export can carry replaces one that names none. \<open>index\<close> is the position of the path in
  \<open>result\<close>, found here by the path itself.
\<close>

definition carries_creator :: "var_directory \<Rightarrow> bool" where
  "carries_creator d = (case vd_backing d of None \<Rightarrow> False | Some b \<Rightarrow> names_a_carryable_creator b)"

fun var_dir_step :: "var_directory list \<Rightarrow> var_directory \<Rightarrow> var_directory list" where
  "var_dir_step [] dir = [dir]"
| "var_dir_step (survivor # rest) dir =
     (if vd_path survivor = vd_path dir
      then (if \<not> carries_creator survivor \<and> carries_creator dir then dir else survivor) # rest
      else survivor # var_dir_step rest dir)"

definition merge_var_directories :: "storage_section option list \<Rightarrow> var_directory list" where
  "merge_var_directories sections =
     sort_key vd_path (foldl var_dir_step [] (flat_items sections sto_var_directories))"

definition volume_key :: "lvm_volume \<Rightarrow> string" where
  "volume_key vol = lv_vg_name vol @ ''/'' @ lv_lv_name vol"

definition credential_key :: "credential_ref \<Rightarrow> string" where
  "credential_key c = cr_mount_point c @ '':'' @ cr_credential_path c"

definition merge_storage_sections ::
  "env \<Rightarrow> storage_section option list \<Rightarrow> nat \<Rightarrow> string list \<Rightarrow> storage_section option panics" where
  "merge_storage_sections E sections total_hosts hostnames =
    (if all_none sections then Some None else do {
       fstab_entries \<leftarrow> merge_items (fstab_ops E) (env_order E) (collect_items sections sto_fstab_entries) total_hosts hostnames;
       Some (Some \<lparr>
         sto_fstab_entries = fstab_entries,
         sto_mount_points = dedup_sorted sections sto_mount_points mp_target mp_target,
         sto_lvm_info = dedup_sorted sections sto_lvm_info volume_key volume_key,
         sto_var_directories = merge_var_directories sections,
         sto_credential_refs = dedup_sorted sections sto_credential_refs credential_key cr_mount_point,
         sto_unbacked_var_advisory = None \<rparr>)
     })"

definition merge_scheduled_sections ::
  "env \<Rightarrow> scheduled_task_section option list \<Rightarrow> nat \<Rightarrow> string list \<Rightarrow> scheduled_task_section option panics" where
  "merge_scheduled_sections E sections total_hosts hostnames =
    (if all_none sections then Some None else do {
       cron_jobs \<leftarrow> merge_items (cron_ops E) (env_order E) (collect_items sections sch_cron_jobs) total_hosts hostnames;
       systemd_timers \<leftarrow> merge_items (timer_ops E) (env_order E) (collect_items sections sch_systemd_timers) total_hosts hostnames;
       at_jobs \<leftarrow> merge_items (at_ops E) (env_order E) (collect_items sections sch_at_jobs) total_hosts hostnames;
       generated_timer_units \<leftarrow> merge_items (generated_timer_ops E) (env_order E) (collect_items sections sch_generated_timer_units) total_hosts hostnames;
       Some (Some \<lparr>
         sch_cron_jobs = cron_jobs,
         sch_systemd_timers = systemd_timers,
         sch_at_jobs = at_jobs,
         sch_generated_timer_units = generated_timer_units \<rparr>)
     })"

definition merge_selinux_sections ::
  "env \<Rightarrow> selinux_section option list \<Rightarrow> nat \<Rightarrow> string list \<Rightarrow> selinux_section option panics" where
  "merge_selinux_sections E sections total_hosts hostnames =
    (if all_none sections then Some None else do {
       port_labels \<leftarrow> merge_items (port_label_ops E) (env_order E) (collect_items sections sel_port_labels) total_hosts hostnames;
       fcontext_rules \<leftarrow> merge_fcontext_rules sections total_hosts hostnames;
       Some (Some \<lparr>
         sel_mode = most_prevalent_scalar sections sel_mode,
         sel_custom_modules = dedup_strings (collect_string_lists sections sel_custom_modules),
         sel_boolean_overrides = dedup_json_values (\<lambda>j. to_json E (PJson j)) (collect_string_lists sections sel_boolean_overrides),
         sel_fcontext_rules = fcontext_rules,
         sel_fcontext_source = (if list_all (\<lambda>src. src = PolicyStore) (List.map_filter (map_option sel_fcontext_source) sections)
             then PolicyStore else SemanageList),
         sel_fips_mode = most_prevalent_bool sections sel_fips_mode,
         sel_port_labels = port_labels \<rparr>)
     })"

text \<open>The active tuned profile is included when it is a custom one every host agrees on.\<close>

definition tuned_include :: "kernel_boot_section option list \<Rightarrow> bool" where
  "tuned_include sections =
     (let tuned_active = most_prevalent_scalar sections kb_tuned_active
      in tuned_active \<noteq> [] \<and> \<not> is_stock_tuned_profile tuned_active
         \<and> is_scalar_universal sections kb_tuned_active tuned_active)"

definition merge_kernelboot_sections ::
  "env \<Rightarrow> kernel_boot_section option list \<Rightarrow> nat \<Rightarrow> string list \<Rightarrow> kernel_boot_section option panics" where
  "merge_kernelboot_sections E sections total_hosts hostnames =
    (if all_none sections then Some None else do {
       sysctl_overrides \<leftarrow> merge_items (sysctl_ops E) (env_order E) (collect_items sections kb_sysctl_overrides) total_hosts hostnames;
       loaded_modules \<leftarrow> merge_items (kernel_module_ops E) (env_order E) (collect_items sections kb_loaded_modules) total_hosts hostnames;
       Some (Some \<lparr>
         kb_cmdline = most_prevalent_scalar sections kb_cmdline,
         kb_grub_defaults = most_prevalent_scalar sections kb_grub_defaults,
         kb_sysctl_overrides = sysctl_overrides,
         kb_loaded_modules = loaded_modules,
         kb_tuned_active = most_prevalent_scalar sections kb_tuned_active,
         kb_tuned_disposition = fk_from_bool (tuned_include sections),
         kb_locale = first_host_option sections hostnames kb_locale,
         kb_timezone = first_host_option sections hostnames kb_timezone,
         kb_alternatives = dedup_sorted sections kb_alternatives alt_name alt_name \<rparr>)
     })"

definition merge_nonrpm_sections ::
  "env \<Rightarrow> non_rpm_software_section option list \<Rightarrow> nat \<Rightarrow> string list \<Rightarrow> non_rpm_software_section option panics" where
  "merge_nonrpm_sections E sections total_hosts hostnames =
    (if all_none sections then Some None else do {
       items \<leftarrow> merge_items (non_rpm_ops E) (env_order E) (collect_items sections nrs_items) total_hosts hostnames;
       env_files \<leftarrow> merge_items (config_file_ops E) (env_order E) (collect_items sections nrs_env_files) total_hosts hostnames;
       Some (Some \<lparr>
         nrs_items = items,
         nrs_env_files = env_files \<rparr>)
     })"

text \<open>\<open>total_size\<close> is a 64-bit sum.\<close>

definition merge_unmanaged_file_sections ::
  "env \<Rightarrow> unmanaged_file_section option list \<Rightarrow> nat \<Rightarrow> string list \<Rightarrow> unmanaged_file_section option panics" where
  "merge_unmanaged_file_sections E sections total_hosts hostnames =
    (if all_none sections then Some None else do {
       items \<leftarrow> merge_items (unmanaged_ops E) (env_order E) (collect_items sections ufs_items) total_hosts hostnames;
       Some (Some \<lparr>
         ufs_items = items,
         ufs_usr_entries = [],
         ufs_total_size = sum_list (map uf_size items),
         ufs_total_count = length items \<rparr>)
     })"

definition merge_usersgroups_sections :: "env \<Rightarrow> user_group_section option list \<Rightarrow> user_group_section option" where
  "merge_usersgroups_sections E sections =
    (if all_none sections then None else
     let ser = (\<lambda>j. to_json E (PJson j)) in
     Some \<lparr>
         ug_users = merge_json_by_name ser (collect_string_lists sections ug_users) [''groups'', ''secondary_groups''],
         ug_groups = merge_json_by_name ser (collect_string_lists sections ug_groups) [''members''],
         ug_sudoers_rules = dedup_strings (collect_string_lists sections ug_sudoers_rules),
         ug_ssh_authorized_keys_refs = dedup_json_values ser (collect_string_lists sections ug_ssh_authorized_keys_refs),
         ug_passwd_entries = dedup_strings (collect_string_lists sections ug_passwd_entries),
         ug_shadow_entries = dedup_strings (collect_string_lists sections ug_shadow_entries),
         ug_group_entries = dedup_strings (collect_string_lists sections ug_group_entries),
         ug_gshadow_entries = dedup_strings (collect_string_lists sections ug_gshadow_entries),
         ug_subuid_entries = dedup_strings (collect_string_lists sections ug_subuid_entries),
         ug_subgid_entries = dedup_strings (collect_string_lists sections ug_subgid_entries) \<rparr>)"

section \<open>The directories under /var\<close>

definition var_dir_winner :: "var_directory list \<Rightarrow> var_directory" where
  "var_dir_winner ds = (case List.find carries_creator ds of Some d \<Rightarrow> d | None \<Rightarrow> hd ds)"

lemma var_dir_winner_snoc:
  "ds \<noteq> [] \<Longrightarrow> var_dir_winner (ds @ [d]) =
     (if \<not> carries_creator (var_dir_winner ds) \<and> carries_creator d then d else var_dir_winner ds)"
proof -
  assume ne: "ds \<noteq> []"
  have app: "List.find carries_creator (ds @ [d]) = (case List.find carries_creator ds of
      None \<Rightarrow> if carries_creator d then Some d else None | Some x \<Rightarrow> Some x)"
    by (induction ds) auto
  show ?thesis
  proof (cases "List.find carries_creator ds")
    case None
    then have "\<not> carries_creator (hd ds)" using ne by (auto simp: find_None_iff)
    then show ?thesis using None app ne by (simp add: var_dir_winner_def)
  next
    case (Some x)
    then have "carries_creator x" by (auto simp: find_Some_iff)
    then show ?thesis using Some app by (simp add: var_dir_winner_def)
  qed
qed

lemma var_dir_step_map:
  assumes "distinct ks" "\<And>k. k \<in> set ks \<Longrightarrow> vd_path (g k) = k"
  shows "var_dir_step (map g ks) d =
    (if vd_path d \<in> set ks
     then map (\<lambda>k. if k = vd_path d then (if \<not> carries_creator (g k) \<and> carries_creator d then d else g k) else g k) ks
     else map g ks @ [d])"
  using assms by (induction ks) auto

lemma var_dir_winner_single: "var_dir_winner [d] = d"
  by (simp add: var_dir_winner_def)

lemma var_dir_winner_in: "ds \<noteq> [] \<Longrightarrow> var_dir_winner ds \<in> set ds"
  by (auto simp: var_dir_winner_def find_Some_iff split: option.splits)

lemma var_dir_loop:
  "foldl var_dir_step [] xs =
     map (\<lambda>k. var_dir_winner (filter (\<lambda>d. vd_path d = k) xs)) (first_seen (map vd_path xs))"
proof (induction xs rule: rev_induct)
  case (snoc x xs)
  let ?g = "\<lambda>k. var_dir_winner (filter (\<lambda>d. vd_path d = k) xs)"
  have path: "vd_path (?g k) = k" if "k \<in> set (first_seen (map vd_path xs))" for k
  proof -
    have "filter (\<lambda>d. vd_path d = k) xs \<noteq> []" using that by (auto simp: filter_empty_conv)
    from var_dir_winner_in [OF this] show ?thesis by simp
  qed
  have "foldl var_dir_step [] (xs @ [x]) = var_dir_step (map ?g (first_seen (map vd_path xs))) x"
    by (simp add: snoc.IH)
  also have "\<dots> = map (\<lambda>k. var_dir_winner (filter (\<lambda>d. vd_path d = k) (xs @ [x]))) (first_seen (map vd_path (xs @ [x])))"
  proof (cases "vd_path x \<in> vd_path ` set xs")
    case True
    then have "filter (\<lambda>d. vd_path d = vd_path x) xs \<noteq> []" by (force simp: filter_empty_conv)
    with True show ?thesis
      by (subst var_dir_step_map) (auto simp: path first_seen_snoc var_dir_winner_snoc)
  next
    case False
    then have "filter (\<lambda>d. vd_path d = vd_path x) xs = []"
      unfolding filter_empty_conv by (metis imageI)
    with False show ?thesis
      by (subst var_dir_step_map) (auto simp: path first_seen_snoc var_dir_winner_single)
  qed
  finally show ?case .
qed simp

lemma merge_var_directories_eq:
  "merge_var_directories sections =
     map (\<lambda>k. var_dir_winner (filter (\<lambda>d. vd_path d = k) (flat_items sections sto_var_directories)))
       (sort_dedup (map vd_path (flat_items sections sto_var_directories)))"
proof -
  let ?xs = "flat_items sections sto_var_directories"
  let ?g = "\<lambda>k. var_dir_winner (filter (\<lambda>d. vd_path d = k) ?xs)"
  have path: "vd_path (?g k) = k" if "k \<in> set (first_seen (map vd_path ?xs))" for k
  proof -
    have "filter (\<lambda>d. vd_path d = k) ?xs \<noteq> []" using that by (auto simp: filter_empty_conv)
    from var_dir_winner_in [OF this] show ?thesis by simp
  qed
  have "sort_key vd_path (concat (map (\<lambda>k. [?g k]) (first_seen (map vd_path ?xs))))
      = concat (map (\<lambda>k. [?g k]) (sort (first_seen (map vd_path ?xs))))"
    by (rule sort_key_concat_keyed) (use path in auto)
  moreover have "sort (first_seen (map vd_path ?xs)) = sort_dedup (map vd_path ?xs)"
    by (rule sorted_distinct_set_unique) simp_all
  moreover have "concat (map (\<lambda>k. [h k]) ks) = map h ks" for h :: "string \<Rightarrow> var_directory" and ks
    by (induction ks) auto
  ultimately show ?thesis by (simp add: merge_var_directories_def var_dir_loop)
qed

end
