(* ===== verification/Validate.thy ===== *)
theory Validate
  imports Mergeable
begin

text \<open>
  The checks before a merge (\<open>crates/core/src/aggregate/validate.rs\<close>): hard errors, which
  stop the merge, and warnings. A \<open>HashSet\<close> that is sorted before use is sorted and
  deduplicated; the two iterations over a hash map whose order reaches the result (the
  duplicate host names, the architecture of a snapshot) go through the orders of \<open>env\<close>.
\<close>

section \<open>Errors and warnings\<close>

datatype aggregate_validation_error =
  TooFewSnapshots nat
| SchemaVersionMismatch "nat list"
| DuplicateHostname string
| ArchitectureMismatch "string list"
| EmptySnapshot string
| OsMajorVersionMismatch "string list"

datatype aggregate_warning =
  StaleScanDates string
| BaselineConflict "(string \<times> nat) list" string
| MinorVersionSpread "string list"
| SystemTypeMismatch "string list"

record aggregate_validation_result =
  avr_errors :: "aggregate_validation_error list"
  avr_warnings :: "aggregate_warning list"

definition avr_is_ok :: "aggregate_validation_result \<Rightarrow> bool" where
  "avr_is_ok r \<longleftrightarrow> avr_errors r = []"

section \<open>Facts about one snapshot\<close>

definition extract_meta_string :: "inspection_snapshot \<Rightarrow> string \<Rightarrow> string option" where
  "extract_meta_string snap key = Option.bind (snap_meta snap key) json_as_str"

definition extract_hostname :: "inspection_snapshot \<Rightarrow> string" where
  "extract_hostname snap =
     (case extract_meta_string snap ''hostname'' of None \<Rightarrow> ''<unknown>'' | Some h \<Rightarrow> h)"

text \<open>\<open>max_by_key\<close>: the last of the greatest elements in iteration order.\<close>

fun last_max :: "('a \<times> nat) option \<Rightarrow> ('a \<times> nat) list \<Rightarrow> ('a \<times> nat) option" where
  "last_max best [] = best"
| "last_max best (x # xs) =
     last_max (case best of None \<Rightarrow> Some x | Some b \<Rightarrow> if snd b \<le> snd x then Some x else Some b) xs"

definition arch_counts :: "rpm_section \<Rightarrow> (string \<times> nat) list" where
  "arch_counts rpm = count_by (\<lambda>a. a)
     (filter (\<lambda>a. \<not> (a = [] \<or> a = ''noarch'')) (map pe_arch (rpm_packages_added rpm)))"

definition extract_architecture :: "hash_order \<Rightarrow> inspection_snapshot \<Rightarrow> string option" where
  "extract_architecture ord snap =
     Option.bind (snap_rpm snap) (\<lambda>rpm. map_option fst (last_max None (hm_iter ord (arch_counts rpm))))"

definition extract_os_major_version :: "inspection_snapshot \<Rightarrow> string option" where
  "extract_os_major_version snap =
     Option.bind (snap_os_release snap) (\<lambda>r.
       if osr_version_id r = [] then None
       else Some (hd (split_on (\<lambda>c. c = CHR ''.'') (osr_version_id r))))"

definition is_empty_snapshot :: "inspection_snapshot \<Rightarrow> bool" where
  "is_empty_snapshot snap \<longleftrightarrow>
     snap_rpm snap = None \<and> snap_config snap = None \<and> snap_services snap = None
     \<and> snap_network snap = None \<and> snap_storage snap = None \<and> snap_scheduled_tasks snap = None
     \<and> snap_containers snap = None \<and> snap_non_rpm_software snap = None \<and> snap_kernel_boot snap = None
     \<and> snap_selinux snap = None \<and> snap_users_groups snap = None \<and> snap_os_release snap = None"

fun system_type_debug :: "system_type \<Rightarrow> string" where
  "system_type_debug SysUnknown = ''Unknown''"
| "system_type_debug SysPackageMode = ''PackageMode''"
| "system_type_debug SysRpmOstree = ''RpmOstree''"
| "system_type_debug SysBootc = ''Bootc''"

section \<open>The checks\<close>

definition check_too_few :: "inspection_snapshot list \<Rightarrow> aggregate_validation_error list" where
  "check_too_few snaps = (if length snaps < 2 then [TooFewSnapshots (length snaps)] else [])"

definition check_schema :: "inspection_snapshot list \<Rightarrow> aggregate_validation_error list" where
  "check_schema snaps =
     (let versions = sort_dedup (map snap_schema_version snaps)
      in if length versions > 1 then [SchemaVersionMismatch versions] else [])"

definition check_hostnames :: "env \<Rightarrow> inspection_snapshot list \<Rightarrow> aggregate_validation_error list" where
  "check_hostnames E snaps =
     map (\<lambda>(hostname, count). DuplicateHostname hostname)
       (filter (\<lambda>(hostname, count). count > 1) (hm_iter (env_order E) (count_by extract_hostname snaps)))"

definition snapshot_architectures :: "env \<Rightarrow> inspection_snapshot list \<Rightarrow> string list" where
  "snapshot_architectures E snaps =
     List.map_filter (\<lambda>(i, s). extract_architecture (env_arch_order E i) s) (List.enumerate 0 snaps)"

definition check_architecture :: "env \<Rightarrow> inspection_snapshot list \<Rightarrow> aggregate_validation_error list" where
  "check_architecture E snaps =
     (let architectures = sort_dedup (snapshot_architectures E snaps)
      in if length architectures > 1 then [ArchitectureMismatch architectures] else [])"

definition check_os_major :: "inspection_snapshot list \<Rightarrow> aggregate_validation_error list" where
  "check_os_major snaps =
     (let versions = sort_dedup (List.map_filter extract_os_major_version snaps)
      in if length versions > 1 then [OsMajorVersionMismatch versions] else [])"

definition check_empty :: "inspection_snapshot list \<Rightarrow> aggregate_validation_error list" where
  "check_empty snaps = map (\<lambda>s. EmptySnapshot (extract_hostname s)) (filter is_empty_snapshot snaps)"

definition warn_minor :: "inspection_snapshot list \<Rightarrow> aggregate_warning list" where
  "warn_minor snaps =
     (let versions = sort_dedup (filter (\<lambda>v. v \<noteq> [])
            (List.map_filter (\<lambda>s. map_option osr_version_id (snap_os_release s)) snaps))
      in if length versions > 1 then [MinorVersionSpread versions] else [])"

definition warn_system_type :: "inspection_snapshot list \<Rightarrow> aggregate_warning list" where
  "warn_system_type snaps =
     (let types = sort_dedup (map (\<lambda>s. system_type_debug (snap_system_type s)) snaps)
      in if length types > 1 then [SystemTypeMismatch types] else [])"

text \<open>Image references with the number of hosts, most frequent first, ties by the reference.\<close>

definition rank_images :: "env \<Rightarrow> inspection_snapshot list \<Rightarrow> (string \<times> nat) list" where
  "rank_images E snaps =
     sort_key (\<lambda>(image_ref, n). (- int n, image_ref))
       (hm_iter (env_order E) (count_by (\<lambda>r. r)
          (List.map_filter (\<lambda>s. map_option ti_image_ref (snap_target_image s)) snaps)))"

definition warn_baseline :: "env \<Rightarrow> inspection_snapshot list \<Rightarrow> aggregate_warning list" where
  "warn_baseline E snaps =
     (case rank_images E snaps of
        (selected, n) # d # ds \<Rightarrow> [BaselineConflict ((selected, n) # d # ds) selected]
      | _ \<Rightarrow> [])"

definition warn_stale :: "inspection_snapshot list \<Rightarrow> aggregate_warning list" where
  "warn_stale snaps =
     (let timestamps = List.map_filter (\<lambda>s. extract_meta_string s ''timestamp'') snaps in
      if length timestamps \<ge> 2 \<and> Min (set timestamps) \<noteq> Max (set timestamps)
      then [StaleScanDates (''Scan dates range from '' @ Min (set timestamps) @ '' to '' @ Max (set timestamps))]
      else [])"

definition validate_snapshots :: "env \<Rightarrow> inspection_snapshot list \<Rightarrow> aggregate_validation_result" where
  "validate_snapshots E snaps =
     \<lparr> avr_errors = check_too_few snaps @ check_schema snaps @ check_hostnames E snaps
         @ check_architecture E snaps @ check_os_major snaps @ check_empty snaps,
       avr_warnings = warn_minor snaps @ warn_system_type snaps @ warn_baseline E snaps @ warn_stale snaps \<rparr>"

section \<open>When validation passes\<close>

lemma length_sort_dedup_le_one: "length (sort_dedup xs) > 1 \<longleftrightarrow> (\<exists>x \<in> set xs. \<exists>y \<in> set xs. x \<noteq> y)"
proof -
  have "card (set xs) \<le> Suc 0 \<longleftrightarrow> (\<forall>x \<in> set xs. \<forall>y \<in> set xs. x = y)"
    by (rule card_le_Suc0_iff_eq) simp
  then have "\<not> card (set xs) \<le> 1 \<longleftrightarrow> (\<exists>x \<in> set xs. \<exists>y \<in> set xs. x \<noteq> y)" by simp
  then show ?thesis by (simp only: length_sort_dedup not_le)
qed

lemma count_le_one: "(\<forall>k. count_list xs k \<le> 1) \<longleftrightarrow> distinct xs"
proof (induction xs)
  case (Cons x xs)
  show ?case
  proof
    assume le: "\<forall>k. count_list (x # xs) k \<le> 1"
    have "count_list xs k \<le> 1" for k using le [rule_format, of k] by (cases "x = k") auto
    then have "distinct xs" using Cons by simp
    moreover have "count_list xs x = 0" using le [rule_format, of x] by simp
    ultimately show "distinct (x # xs)" by (simp add: count_list_0_iff)
  next
    assume dist: "distinct (x # xs)"
    then have "\<forall>k. count_list xs k \<le> 1" "count_list xs x = 0" using Cons by (simp_all add: count_list_0_iff)
    then show "\<forall>k. count_list (x # xs) k \<le> 1" by simp
  qed
qed simp

lemma sort_dedup_check:
  "(if length (sort_dedup xs) > 1 then [e] else []) = [] \<longleftrightarrow> (\<forall>x \<in> set xs. \<forall>y \<in> set xs. x = y)"
  using length_sort_dedup_le_one [of xs] by (simp split: if_split)

lemma check_schema_iff:
  "check_schema snaps = [] \<longleftrightarrow> (\<forall>a \<in> set snaps. \<forall>b \<in> set snaps. snap_schema_version a = snap_schema_version b)"
  unfolding check_schema_def Let_def sort_dedup_check by simp

lemma count_by_le_one: "(\<forall>(k, n) \<in> set (count_by f xs). \<not> n > 1) \<longleftrightarrow> distinct (map f xs)"
proof
  assume le: "\<forall>(k, n) \<in> set (count_by f xs). \<not> n > 1"
  have "count_list (map f xs) k \<le> 1" for k
  proof (cases "k \<in> f ` set xs")
    case True
    then have "(k, count_list (map f xs) k) \<in> set (count_by f xs)" by (simp add: count_by_mem)
    from bspec [OF le this] show ?thesis by simp
  next
    case False
    then show ?thesis by (simp add: count_list_0_iff)
  qed
  then show "distinct (map f xs)" unfolding count_le_one [symmetric] by (rule allI)
next
  assume dist: "distinct (map f xs)"
  show "\<forall>(k, n) \<in> set (count_by f xs). \<not> n > 1"
  proof clarify
    fix k n
    assume "(k, n) \<in> set (count_by f xs)" and n: "1 < n"
    then have "n = count_list (map f xs) k" by (simp add: count_by_mem)
    moreover have "count_list (map f xs) k \<le> 1"
      using dist [folded count_le_one] by (rule spec)
    ultimately show False using n by simp
  qed
qed

lemma check_hostnames_iff:
  assumes "legal_env E"
  shows "check_hostnames E snaps = [] \<longleftrightarrow> distinct (map extract_hostname snaps)"
proof -
  have "set (hm_iter (env_order E) (count_by extract_hostname snaps)) = set (count_by extract_hostname snaps)"
    using assms by (intro hm_iter_set) (simp_all add: legal_env_def)
  then have "check_hostnames E snaps = [] \<longleftrightarrow> (\<forall>(k, n) \<in> set (count_by extract_hostname snaps). \<not> n > 1)"
    by (simp add: check_hostnames_def filter_empty_conv case_prod_beta)
  then show ?thesis by (simp only: count_by_le_one)
qed

lemma check_empty_iff: "check_empty snaps = [] \<longleftrightarrow> (\<forall>s \<in> set snaps. \<not> is_empty_snapshot s)"
  by (simp add: check_empty_def filter_empty_conv)

lemma check_os_major_iff:
  "check_os_major snaps = [] \<longleftrightarrow>
     (\<forall>a \<in> set snaps. \<forall>b \<in> set snaps. \<forall>u v. extract_os_major_version a = Some u \<longrightarrow> extract_os_major_version b = Some v \<longrightarrow> u = v)"
proof -
  have set: "set (List.map_filter extract_os_major_version snaps) = {v. \<exists>a \<in> set snaps. extract_os_major_version a = Some v}"
    by (force simp: List.map_filter_def)
  show ?thesis
    unfolding check_os_major_def Let_def sort_dedup_check set by blast
qed

lemma snapshot_architectures_mem:
  "a \<in> set (snapshot_architectures E snaps) \<longleftrightarrow>
     (\<exists>i < length snaps. extract_architecture (env_arch_order E i) (snaps ! i) = Some a)"
proof -
  have "a \<in> set (snapshot_architectures E snaps) \<longleftrightarrow>
      (\<exists>p \<in> set (List.enumerate 0 snaps). extract_architecture (env_arch_order E (fst p)) (snd p) = Some a)"
    by (force simp: snapshot_architectures_def List.map_filter_def case_prod_beta)
  also have "\<dots> \<longleftrightarrow> (\<exists>i < length snaps. extract_architecture (env_arch_order E i) (snaps ! i) = Some a)"
  proof
    assume "\<exists>p \<in> set (List.enumerate 0 snaps). extract_architecture (env_arch_order E (fst p)) (snd p) = Some a"
    then obtain p where "p \<in> set (List.enumerate 0 snaps)"
      "extract_architecture (env_arch_order E (fst p)) (snd p) = Some a" by blast
    then show "\<exists>i < length snaps. extract_architecture (env_arch_order E i) (snaps ! i) = Some a"
      by (intro exI [of _ "fst p"]) (simp add: in_set_enumerate_eq)
  next
    assume "\<exists>i < length snaps. extract_architecture (env_arch_order E i) (snaps ! i) = Some a"
    then obtain i where "i < length snaps" "extract_architecture (env_arch_order E i) (snaps ! i) = Some a" by blast
    then show "\<exists>p \<in> set (List.enumerate 0 snaps). extract_architecture (env_arch_order E (fst p)) (snd p) = Some a"
      by (intro bexI [of _ "(i, snaps ! i)"]) (simp_all add: in_set_enumerate_eq)
  qed
  finally show ?thesis .
qed

lemma check_architecture_iff:
  "check_architecture E snaps = [] \<longleftrightarrow>
     (\<forall>i < length snaps. \<forall>j < length snaps. \<forall>a b. extract_architecture (env_arch_order E i) (snaps ! i) = Some a \<longrightarrow>
        extract_architecture (env_arch_order E j) (snaps ! j) = Some b \<longrightarrow> a = b)"
  unfolding check_architecture_def Let_def sort_dedup_check
  by (metis snapshot_architectures_mem)

lemma validate_ok_iff:
  assumes "legal_env E"
  shows "avr_errors (validate_snapshots E snaps) = [] \<longleftrightarrow>
     2 \<le> length snaps
     \<and> (\<forall>a \<in> set snaps. \<forall>b \<in> set snaps. snap_schema_version a = snap_schema_version b)
     \<and> distinct (map extract_hostname snaps)
     \<and> (\<forall>i < length snaps. \<forall>j < length snaps. \<forall>a b. extract_architecture (env_arch_order E i) (snaps ! i) = Some a \<longrightarrow>
          extract_architecture (env_arch_order E j) (snaps ! j) = Some b \<longrightarrow> a = b)
     \<and> (\<forall>a \<in> set snaps. \<forall>b \<in> set snaps. \<forall>u v. extract_os_major_version a = Some u \<longrightarrow> extract_os_major_version b = Some v \<longrightarrow> u = v)
     \<and> (\<forall>s \<in> set snaps. \<not> is_empty_snapshot s)"
proof -
  have "check_too_few snaps = [] \<longleftrightarrow> 2 \<le> length snaps" by (auto simp: check_too_few_def)
  then show ?thesis
    by (simp only: validate_snapshots_def aggregate_validation_result.simps append_is_Nil_conv
        check_schema_iff check_hostnames_iff [OF assms] check_architecture_iff check_os_major_iff check_empty_iff)
qed

section \<open>The architecture\<close>

lemma last_max_mem: "last_max best xs = Some m \<Longrightarrow> best = Some m \<or> m \<in> set xs"
  by (induction best xs rule: last_max.induct) (auto split: option.splits if_splits)

lemma last_max_ge:
  "last_max best xs = Some m \<Longrightarrow> (\<forall>x \<in> set xs. snd x \<le> snd m) \<and> (\<forall>b. best = Some b \<longrightarrow> snd b \<le> snd m)"
proof (induction best xs rule: last_max.induct)
  case (2 best x xs)
  let ?b = "case best of None \<Rightarrow> Some x | Some b \<Rightarrow> if snd b \<le> snd x then Some x else Some b"
  have IH: "\<forall>y \<in> set xs. snd y \<le> snd m" "\<And>b. ?b = Some b \<Longrightarrow> snd b \<le> snd m"
    using 2 by simp_all
  have "snd x \<le> snd m" "best = Some b \<Longrightarrow> snd b \<le> snd m" for b
    using IH(2) by (cases best; fastforce split: if_splits)+
  then show ?case using IH(1) by simp
qed simp

lemma last_max_None: "last_max best xs = None \<longleftrightarrow> best = None \<and> xs = []"
  by (induction best xs rule: last_max.induct) (auto split: option.splits)

text \<open>The architecture is one no other has more packages of; ties are open.\<close>

lemma extract_architecture_max:
  assumes "legal_order ord" "snap_rpm snap = Some rpm" "extract_architecture ord snap = Some a"
  shows "(a, count_list (map pe_arch (rpm_packages_added rpm)) a) \<in> set (arch_counts rpm)"
    and "(b, n) \<in> set (arch_counts rpm) \<Longrightarrow> n \<le> count_list (map pe_arch (rpm_packages_added rpm)) a"
proof -
  obtain m where m: "last_max None (hm_iter ord (arch_counts rpm)) = Some m" "fst m = a"
    using assms(2,3) by (auto simp: extract_architecture_def)
  have set: "set (hm_iter ord (arch_counts rpm)) = set (arch_counts rpm)"
    using assms(1) by (intro hm_iter_set) (simp_all add: arch_counts_def)
  have mem: "m \<in> set (arch_counts rpm)" using last_max_mem [OF m(1)] set by simp
  have filt: "count_list (filter P xs) a = count_list xs a" if "P a" for P and xs :: "string list"
    using that by (induction xs) auto
  obtain k where k: "m = (a, k)" using m(2) by (cases m) simp
  have "a \<noteq> []" "a \<noteq> ''noarch''" using mem k by (auto simp: arch_counts_def count_by_mem)
  then have k': "k = count_list (map pe_arch (rpm_packages_added rpm)) a"
    using mem k filt [of "\<lambda>a. \<not> (a = [] \<or> a = ''noarch'')"] by (simp add: arch_counts_def count_by_mem)
  show "(a, count_list (map pe_arch (rpm_packages_added rpm)) a) \<in> set (arch_counts rpm)"
    using mem k k' by simp
  show "n \<le> count_list (map pe_arch (rpm_packages_added rpm)) a" if b: "(b, n) \<in> set (arch_counts rpm)"
  proof -
    have "\<forall>x \<in> set (arch_counts rpm). snd x \<le> snd m" using last_max_ge [OF m(1)] set by simp
    then have "snd (b, n) \<le> snd m" using b by (rule bspec)
    then show ?thesis using k k' by simp
  qed
qed

section \<open>Image ranking\<close>

lemma rank_images_order:
  assumes "legal_env E" "legal_env E'"
  shows "rank_images E snaps = rank_images E' snaps"
proof -
  let ?c = "count_by (\<lambda>r. r) (List.map_filter (\<lambda>s. map_option ti_image_ref (snap_target_image s)) snaps)"
  have ms: "mset (hm_iter (env_order E) ?c) = mset (hm_iter (env_order E') ?c)"
    using assms by (simp add: legal_env_def hm_iter_mset)
  have set: "set (hm_iter (env_order E) ?c) = set ?c"
    using assms(1) by (intro hm_iter_set) (simp_all add: legal_env_def)
  show ?thesis
    unfolding rank_images_def
    by (rule sort_key_inj_eq [OF ms]) (auto simp: inj_on_def)
qed

lemma rank_images_mem:
  assumes "legal_env E"
  shows "(r, n) \<in> set (rank_images E snaps) \<longleftrightarrow>
    n = count_list (List.map_filter (\<lambda>s. map_option ti_image_ref (snap_target_image s)) snaps) r
    \<and> r \<in> set (List.map_filter (\<lambda>s. map_option ti_image_ref (snap_target_image s)) snaps)"
proof -
  let ?c = "count_by (\<lambda>r. r) (List.map_filter (\<lambda>s. map_option ti_image_ref (snap_target_image s)) snaps)"
  have "set (hm_iter (env_order E) ?c) = set ?c"
    using assms by (intro hm_iter_set) (simp_all add: legal_env_def)
  then show ?thesis by (auto simp: rank_images_def count_by_mem)
qed

end
