(* ===== verification/MergeSnapshots.thy ===== *)
theory MergeSnapshots
  imports RpmMerge SectionMerge Validate
begin

text \<open>
  The orchestrator \<open>merge_snapshots\<close> and its helpers (\<open>crates/core/src/aggregate/mod.rs\<close>):
  validation, the canonical host order, the snapshot-level fields, and the section adapters.
  The time stamp \<open>chrono::Utc::now().to_rfc3339()\<close> is the parameter \<open>now\<close>. The result is
  a panic, a list of validation errors, or the merged snapshot with the warnings.
\<close>

section \<open>Snapshot-level fields\<close>

definition section_checkers :: "(string \<times> (inspection_snapshot \<Rightarrow> bool)) list" where
  "section_checkers =
     [(''rpm'', \<lambda>s. snap_rpm s \<noteq> None),
      (''config'', \<lambda>s. snap_config s \<noteq> None),
      (''services'', \<lambda>s. snap_services s \<noteq> None),
      (''network'', \<lambda>s. snap_network s \<noteq> None),
      (''storage'', \<lambda>s. snap_storage s \<noteq> None),
      (''scheduled_tasks'', \<lambda>s. snap_scheduled_tasks s \<noteq> None),
      (''containers'', \<lambda>s. snap_containers s \<noteq> None),
      (''non_rpm_software'', \<lambda>s. snap_non_rpm_software s \<noteq> None),
      (''unmanaged_files'', \<lambda>s. snap_unmanaged_files s \<noteq> None),
      (''kernel_boot'', \<lambda>s. snap_kernel_boot s \<noteq> None),
      (''selinux'', \<lambda>s. snap_selinux s \<noteq> None),
      (''users_groups'', \<lambda>s. snap_users_groups s \<noteq> None)]"

definition compute_section_host_counts :: "inspection_snapshot list \<Rightarrow> (string \<rightharpoonup> nat)" where
  "compute_section_host_counts snaps =
     foldl (\<lambda>counts (name, checker).
         let count = length (filter checker snaps)
         in if count > 0 then counts(name \<mapsto> count) else counts)
       Map.empty section_checkers"

definition image_ref_is :: "string \<Rightarrow> inspection_snapshot \<Rightarrow> bool" where
  "image_ref_is r s = (case snap_target_image s of None \<Rightarrow> False | Some ti \<Rightarrow> ti_image_ref ti = r)"

definition select_target_image ::
  "env \<Rightarrow> inspection_snapshot list \<Rightarrow> string option \<Rightarrow> target_image_identity option \<times> bool" where
  "select_target_image E snaps target_image_override =
     (case target_image_override of
        Some override_ref \<Rightarrow> (Some \<lparr> ti_image_ref = override_ref, ti_strategy = CliOverride \<rparr>, False)
      | None \<Rightarrow>
          (case rank_images E snaps of
             [] \<Rightarrow> (None, False)
           | (selected_ref, _) # others \<Rightarrow>
               let strategy = (case Option.bind (List.find (image_ref_is selected_ref) snaps) snap_target_image of
                     Some ti \<Rightarrow> ti_strategy ti
                   | None \<Rightarrow> StrategyOsRelease)
               in (Some \<lparr> ti_image_ref = selected_ref, ti_strategy = strategy \<rparr>, others \<noteq> [])))"

definition has_baseline_for :: "string \<Rightarrow> inspection_snapshot \<Rightarrow> bool" where
  "has_baseline_for r s \<longleftrightarrow> image_ref_is r s \<and> snap_baseline s \<noteq> None"

definition select_baseline ::
  "inspection_snapshot list \<Rightarrow> target_image_identity option \<Rightarrow> baseline_data option" where
  "select_baseline snaps selected_target =
     Option.bind selected_target (\<lambda>target.
       Option.bind (List.find (has_baseline_for (ti_image_ref target)) snaps) snap_baseline)"

fun position :: "('a \<Rightarrow> bool) \<Rightarrow> 'a list \<Rightarrow> nat option" where
  "position P [] = None"
| "position P (x # xs) = (if P x then Some 0 else map_option Suc (position P xs))"

definition find_baseline_host_idx ::
  "inspection_snapshot list \<Rightarrow> target_image_identity option \<Rightarrow> nat option" where
  "find_baseline_host_idx snaps selected_target =
     Option.bind selected_target (\<lambda>target. position (has_baseline_for (ti_image_ref target)) snaps)"

section \<open>Completeness\<close>

fun add_new :: "'a list \<Rightarrow> 'a list \<Rightarrow> 'a list" where
  "add_new acc [] = acc"
| "add_new acc (x # xs) = add_new (if x \<in> set acc then acc else acc @ [x]) xs"

record completeness_state =
  cst_incomplete :: bool
  cst_partial :: bool
  cst_failed :: "inspector_id list"
  cst_degraded :: "inspector_id list"
  cst_reasons :: "string list"

definition add_reason :: "string \<Rightarrow> completeness_state \<Rightarrow> completeness_state" where
  "add_reason reason st =
     (if reason \<noteq> [] \<and> reason \<notin> set (cst_reasons st)
      then st\<lparr>cst_reasons := cst_reasons st @ [reason]\<rparr> else st)"

fun completeness_step :: "completeness_state \<Rightarrow> completeness \<Rightarrow> completeness_state" where
  "completeness_step st Complete = st"
| "completeness_step st (Partial degraded reason) =
     add_reason reason (st\<lparr>cst_partial := True, cst_degraded := add_new (cst_degraded st) degraded\<rparr>)"
| "completeness_step st (Incomplete failed degraded reason) =
     add_reason reason (st\<lparr>cst_incomplete := True, cst_failed := add_new (cst_failed st) failed,
       cst_degraded := add_new (cst_degraded st) degraded\<rparr>)"

definition is_incomplete :: "completeness \<Rightarrow> bool" where
  "is_incomplete c = (case c of Incomplete _ _ _ \<Rightarrow> True | _ \<Rightarrow> False)"

definition is_partial :: "completeness \<Rightarrow> bool" where
  "is_partial c = (case c of Partial _ _ \<Rightarrow> True | _ \<Rightarrow> False)"

definition completeness_init :: completeness_state where
  "completeness_init = \<lparr> cst_incomplete = False, cst_partial = False, cst_failed = [], cst_degraded = [], cst_reasons = [] \<rparr>"

definition merge_completeness :: "inspection_snapshot list \<Rightarrow> completeness" where
  "merge_completeness snaps =
     (let cs = map snap_completeness snaps;
          st = foldl completeness_step completeness_init cs
      in if cst_incomplete st
         then Incomplete (cst_failed st) (cst_degraded st)
           (nat_str (length (filter is_incomplete cs)) @ '' host(s) incomplete: '' @ str_join ''; '' (cst_reasons st))
         else if cst_partial st
         then Partial (cst_degraded st)
           (nat_str (length (filter is_partial cs)) @ '' host(s) partial: '' @ str_join ''; '' (cst_reasons st))
         else Complete)"

section \<open>Subscription\<close>

definition subscription_hostname :: "inspection_snapshot \<Rightarrow> string" where
  "subscription_hostname snap =
     (case Option.bind (snap_subscription snap) sub_source_hostname of
        Some h \<Rightarrow> h
      | None \<Rightarrow> (case Option.bind (snap_meta snap ''hostname'') json_as_str of Some h \<Rightarrow> h | None \<Rightarrow> []))"

fun then_with :: "ordering \<Rightarrow> ordering \<Rightarrow> ordering" where
  "then_with Equal o' = o'"
| "then_with o1 _ = o1"

definition subscription_cmp :: "inspection_snapshot \<Rightarrow> inspection_snapshot \<Rightarrow> ordering" where
  "subscription_cmp a b =
     (case (Option.bind (snap_subscription a) sub_earliest_expiry, Option.bind (snap_subscription b) sub_earliest_expiry) of
        (Some a_exp, Some b_exp) \<Rightarrow>
          then_with (cmp_of a_exp b_exp) (cmp_of (subscription_hostname b) (subscription_hostname a))
      | (Some _, None) \<Rightarrow> Greater
      | (None, Some _) \<Rightarrow> Less
      | (None, None) \<Rightarrow> cmp_of (subscription_hostname b) (subscription_hostname a))"

text \<open>\<open>Iterator::max_by\<close>: of equal elements the last.\<close>

definition max_by :: "('a \<Rightarrow> 'a \<Rightarrow> ordering) \<Rightarrow> 'a list \<Rightarrow> 'a option" where
  "max_by cmp xs =
     (case xs of [] \<Rightarrow> None
      | y # ys \<Rightarrow> Some (foldl (\<lambda>best x. if cmp best x = Greater then best else x) y ys))"

definition subscription_candidates :: "inspection_snapshot list \<Rightarrow> inspection_snapshot list" where
  "subscription_candidates snaps =
     filter (\<lambda>s. case snap_subscription s of None \<Rightarrow> False | Some sub \<Rightarrow> \<not> sub_incomplete sub) snaps"

definition merge_subscription :: "inspection_snapshot list \<Rightarrow> subscription_section option" where
  "merge_subscription snaps = Option.bind (max_by subscription_cmp (subscription_candidates snaps)) snap_subscription"

section \<open>The merge\<close>

definition merge_meta :: "inspection_snapshot list \<Rightarrow> (string \<rightharpoonup> json)" where
  "merge_meta snaps =
     (foldl (\<lambda>acc s. snap_meta s ++ acc) Map.empty snaps)(''aggregate_source'' \<mapsto> JStr ''aggregate'')"

text \<open>The snapshots in the canonical host order.\<close>

definition sorted_hosts :: "inspection_snapshot list \<Rightarrow> (string \<times> inspection_snapshot) list" where
  "sorted_hosts snaps = sort_key fst (map (\<lambda>s. (extract_hostname s, s)) snaps)"

text \<open>Everything after validation and sorting.\<close>

definition merge_sorted ::
  "env \<Rightarrow> string \<Rightarrow> inspection_snapshot list \<Rightarrow> string list \<Rightarrow> string option \<Rightarrow> string option \<Rightarrow>
   inspection_snapshot panics" where
  "merge_sorted E now snaps hostnames label target_image_override =
    (let total_hosts = length snaps;
         (target_image, baseline_provisional) = select_target_image E snaps target_image_override;
         aggregate_meta = \<lparr>
           am_label = (case label of None \<Rightarrow> ''aggregate'' | Some l \<Rightarrow> l),
           am_host_count = total_hosts,
           am_hostnames = hostnames,
           am_merged_at = now,
           am_baseline_provisional = baseline_provisional,
           am_section_host_counts = compute_section_host_counts snaps \<rparr>
     in do {
       rpm_result \<leftarrow> merge_rpm_sections E (map snap_rpm snaps) total_hosts hostnames
         (find_baseline_host_idx snaps target_image);
       config \<leftarrow> merge_config_sections E (map snap_config snaps) total_hosts hostnames;
       services \<leftarrow> merge_service_sections E (map snap_services snaps) total_hosts hostnames;
       network \<leftarrow> merge_network_sections E (map snap_network snaps) total_hosts hostnames;
       storage \<leftarrow> merge_storage_sections E (map snap_storage snaps) total_hosts hostnames;
       scheduled \<leftarrow> merge_scheduled_sections E (map snap_scheduled_tasks snaps) total_hosts hostnames;
       containers \<leftarrow> merge_container_sections E (map snap_containers snaps) total_hosts hostnames;
       nonrpm \<leftarrow> merge_nonrpm_sections E (map snap_non_rpm_software snaps) total_hosts hostnames;
       unmanaged \<leftarrow> merge_unmanaged_file_sections E (map snap_unmanaged_files snaps) total_hosts hostnames;
       kernelboot \<leftarrow> merge_kernelboot_sections E (map snap_kernel_boot snaps) total_hosts hostnames;
       selinux \<leftarrow> merge_selinux_sections E (map snap_selinux snaps) total_hosts hostnames;
       Some (snapshot_new\<lparr>
         snap_schema_version := SCHEMA_VERSION,
         snap_aggregate_meta := Some aggregate_meta,
         snap_target_image := target_image,
         snap_baseline := select_baseline snaps target_image,
         snap_completeness := merge_completeness snaps,
         snap_redaction_state := None,
         snap_sensitive_snapshot := (\<exists>s \<in> set snaps. snap_sensitive_snapshot s),
         snap_preserved_credentials := (\<exists>s \<in> set snaps. snap_preserved_credentials s),
         snap_preserved_ssh_keys := (\<exists>s \<in> set snaps. snap_preserved_ssh_keys s),
         snap_redaction_skipped := (\<exists>s \<in> set snaps. snap_redaction_state s = Some Raw),
         snap_preserved_subscription := (\<exists>s \<in> set snaps. snap_preserved_subscription s),
         snap_subscription := merge_subscription snaps,
         snap_os_release := (case snaps of [] \<Rightarrow> None | s # _ \<Rightarrow> snap_os_release s),
         snap_system_type := (case snaps of [] \<Rightarrow> SysUnknown | s # _ \<Rightarrow> snap_system_type s),
         snap_meta := merge_meta snaps,
         snap_warnings := dedup_by (\<lambda>w. (wn_inspector w, wn_message w)) (concat (map snap_warnings snaps)),
         snap_redactions := dedup_by (\<lambda>r. r) (concat (map snap_redactions snaps)),
         snap_redaction_hints := dedup_by (\<lambda>h. h) (concat (map snap_redaction_hints snaps)),
         snap_rpm := map_option fst rpm_result,
         snap_rpm_repo_conflicts := (case rpm_result of None \<Rightarrow> Map.empty | Some (_, conflicts) \<Rightarrow> conflicts),
         snap_config := config,
         snap_services := services,
         snap_network := network,
         snap_storage := storage,
         snap_scheduled_tasks := scheduled,
         snap_containers := containers,
         snap_non_rpm_software := nonrpm,
         snap_unmanaged_files := unmanaged,
         snap_kernel_boot := kernelboot,
         snap_selinux := selinux,
         snap_users_groups := merge_usersgroups_sections E (map snap_users_groups snaps) \<rparr>)
     })"

definition merge_snapshots ::
  "env \<Rightarrow> string \<Rightarrow> inspection_snapshot list \<Rightarrow> string option \<Rightarrow> string option \<Rightarrow>
   (aggregate_validation_error list + inspection_snapshot \<times> aggregate_warning list) panics" where
  "merge_snapshots E now snaps label target_image_override =
     (let validation = validate_snapshots E snaps in
      if avr_errors validation \<noteq> [] then Some (Inl (avr_errors validation))
      else let indexed = sorted_hosts snaps in
        map_option (\<lambda>merged. Inr (merged, avr_warnings validation))
          (merge_sorted E now (map snd indexed) (map fst indexed) label target_image_override))"

end
