(* ===== verification/MergeGuarantees.thy ===== *)
theory MergeGuarantees
  imports MergeSnapshots
begin

text \<open>
  The section adapters and \<open>merge_snapshots\<close> inherit two guarantees of the engine through the
  interpretations of its contract: they do not panic, and their result does not depend on the
  iteration order of the hash maps. The orchestrator adds that the result does not depend on
  the order in which the snapshots are given.
\<close>

section \<open>The engine on collected items\<close>

lemma hosts_in_range_collect: "length ss \<le> length hn \<Longrightarrow> hosts_in_range hn (collect_items ss f)"
  by (auto simp: hosts_in_range_def collect_items_mem)

lemma legal_env_order: "legal_env E \<Longrightarrow> legal_order (env_order E)"
  by (simp add: legal_env_def)

text \<open>No panic.\<close>

lemma packages_total:
  assumes "legal_env E" "length ss \<le> length hn"
  shows "merge_items (package_ops E) (env_order E) (collect_items ss f) T hn \<noteq> None"
  using packages.merge_items_spec [where E = E and T = T, OF legal_env_order [OF assms(1)]
    hosts_in_range_collect [OF assms(2), of f] ops_uniform(1)] by auto

lemma repo_files_total:
  assumes "legal_env E" "length ss \<le> length hn"
  shows "merge_items (repo_file_ops E) (env_order E) (collect_items ss f) T hn \<noteq> None"
  using repo_files.merge_items_spec [where E = E and T = T, OF legal_env_order [OF assms(1)]
    hosts_in_range_collect [OF assms(2), of f] ops_uniform(2)] by auto

lemma module_streams_total:
  assumes "legal_env E" "length ss \<le> length hn"
  shows "merge_items (module_stream_ops E) (env_order E) (collect_items ss f) T hn \<noteq> None"
  using module_streams.merge_items_spec [where E = E and T = T, OF legal_env_order [OF assms(1)]
    hosts_in_range_collect [OF assms(2), of f] ops_uniform(3)] by auto

lemma version_locks_total:
  assumes "legal_env E" "length ss \<le> length hn"
  shows "merge_items (version_lock_ops E) (env_order E) (collect_items ss f) T hn \<noteq> None"
  using version_locks.merge_items_spec [where E = E and T = T, OF legal_env_order [OF assms(1)]
    hosts_in_range_collect [OF assms(2), of f] ops_uniform(4)] by auto

lemma config_files_total:
  assumes "legal_env E" "length ss \<le> length hn"
  shows "merge_items (config_file_ops E) (env_order E) (collect_items ss f) T hn \<noteq> None"
  using config_files.merge_items_spec [where E = E and T = T, OF legal_env_order [OF assms(1)]
    hosts_in_range_collect [OF assms(2), of f] ops_uniform(5)] by auto

lemma state_changes_total:
  assumes "legal_env E" "length ss \<le> length hn"
  shows "merge_items (state_change_ops E) (env_order E) (collect_items ss f) T hn \<noteq> None"
  using state_changes.merge_items_spec [where E = E and T = T, OF legal_env_order [OF assms(1)]
    hosts_in_range_collect [OF assms(2), of f] ops_uniform(6)] by auto

lemma drop_ins_total:
  assumes "legal_env E" "length ss \<le> length hn"
  shows "merge_items (drop_in_ops E) (env_order E) (collect_items ss f) T hn \<noteq> None"
  using drop_ins.merge_items_spec [where E = E and T = T, OF legal_env_order [OF assms(1)]
    hosts_in_range_collect [OF assms(2), of f] ops_uniform(7)] by auto

lemma quadlets_total:
  assumes "legal_env E" "length ss \<le> length hn"
  shows "merge_items (quadlet_ops E) (env_order E) (collect_items ss f) T hn \<noteq> None"
  using quadlets.merge_items_spec [where E = E and T = T, OF legal_env_order [OF assms(1)]
    hosts_in_range_collect [OF assms(2), of f] ops_uniform(8)] by auto

lemma compose_files_total:
  assumes "legal_env E" "length ss \<le> length hn"
  shows "merge_items (compose_ops E) (env_order E) (collect_items ss f) T hn \<noteq> None"
  using compose_files.merge_items_spec [where E = E and T = T, OF legal_env_order [OF assms(1)]
    hosts_in_range_collect [OF assms(2), of f] ops_uniform(9)] by auto

lemma flatpaks_total:
  assumes "legal_env E" "length ss \<le> length hn"
  shows "merge_items (flatpak_ops E) (env_order E) (collect_items ss f) T hn \<noteq> None"
  using flatpaks.merge_items_spec [where E = E and T = T, OF legal_env_order [OF assms(1)]
    hosts_in_range_collect [OF assms(2), of f] ops_uniform(10)] by auto

lemma connections_total:
  assumes "legal_env E" "length ss \<le> length hn"
  shows "merge_items (connection_ops E) (env_order E) (collect_items ss f) T hn \<noteq> None"
  using connections.merge_items_spec [where E = E and T = T, OF legal_env_order [OF assms(1)]
    hosts_in_range_collect [OF assms(2), of f] ops_uniform(11)] by auto

lemma firewall_zones_total:
  assumes "legal_env E" "length ss \<le> length hn"
  shows "merge_items (firewall_zone_ops E) (env_order E) (collect_items ss f) T hn \<noteq> None"
  using firewall_zones.merge_items_spec [where E = E and T = T, OF legal_env_order [OF assms(1)]
    hosts_in_range_collect [OF assms(2), of f] ops_uniform(12)] by auto

lemma port_labels_total:
  assumes "legal_env E" "length ss \<le> length hn"
  shows "merge_items (port_label_ops E) (env_order E) (collect_items ss f) T hn \<noteq> None"
  using port_labels.merge_items_spec [where E = E and T = T, OF legal_env_order [OF assms(1)]
    hosts_in_range_collect [OF assms(2), of f] ops_uniform(13)] by auto

lemma kernel_modules_total:
  assumes "legal_env E" "length ss \<le> length hn"
  shows "merge_items (kernel_module_ops E) (env_order E) (collect_items ss f) T hn \<noteq> None"
  using kernel_modules.merge_items_spec [where E = E and T = T, OF legal_env_order [OF assms(1)]
    hosts_in_range_collect [OF assms(2), of f] ops_uniform(14)] by auto

lemma sysctls_total:
  assumes "legal_env E" "length ss \<le> length hn"
  shows "merge_items (sysctl_ops E) (env_order E) (collect_items ss f) T hn \<noteq> None"
  using sysctls.merge_items_spec [where E = E and T = T, OF legal_env_order [OF assms(1)]
    hosts_in_range_collect [OF assms(2), of f] ops_uniform(15)] by auto

lemma non_rpm_items_total:
  assumes "legal_env E" "length ss \<le> length hn"
  shows "merge_items (non_rpm_ops E) (env_order E) (collect_items ss f) T hn \<noteq> None"
  using non_rpm_items.merge_items_spec [where E = E and T = T, OF legal_env_order [OF assms(1)]
    hosts_in_range_collect [OF assms(2), of f] ops_uniform(16)] by auto

lemma cron_jobs_total:
  assumes "legal_env E" "length ss \<le> length hn"
  shows "merge_items (cron_ops E) (env_order E) (collect_items ss f) T hn \<noteq> None"
  using cron_jobs.merge_items_spec [where E = E and T = T, OF legal_env_order [OF assms(1)]
    hosts_in_range_collect [OF assms(2), of f] ops_uniform(17)] by auto

lemma timers_total:
  assumes "legal_env E" "length ss \<le> length hn"
  shows "merge_items (timer_ops E) (env_order E) (collect_items ss f) T hn \<noteq> None"
  using timers.merge_items_spec [where E = E and T = T, OF legal_env_order [OF assms(1)]
    hosts_in_range_collect [OF assms(2), of f] ops_uniform(18)] by auto

lemma at_jobs_total:
  assumes "legal_env E" "length ss \<le> length hn"
  shows "merge_items (at_ops E) (env_order E) (collect_items ss f) T hn \<noteq> None"
  using at_jobs.merge_items_spec [where E = E and T = T, OF legal_env_order [OF assms(1)]
    hosts_in_range_collect [OF assms(2), of f] ops_uniform(19)] by auto

lemma generated_timers_total:
  assumes "legal_env E" "length ss \<le> length hn"
  shows "merge_items (generated_timer_ops E) (env_order E) (collect_items ss f) T hn \<noteq> None"
  using generated_timers.merge_items_spec [where E = E and T = T, OF legal_env_order [OF assms(1)]
    hosts_in_range_collect [OF assms(2), of f] ops_uniform(20)] by auto

lemma fstab_entries_total:
  assumes "legal_env E" "length ss \<le> length hn"
  shows "merge_items (fstab_ops E) (env_order E) (collect_items ss f) T hn \<noteq> None"
  using fstab_entries.merge_items_spec [where E = E and T = T, OF legal_env_order [OF assms(1)]
    hosts_in_range_collect [OF assms(2), of f] ops_uniform(21)] by auto

lemma unmanaged_total:
  assumes "legal_env E" "length ss \<le> length hn" "uniform_variants (unmanaged_ops E) (collect_items ss f)"
  shows "merge_items (unmanaged_ops E) (env_order E) (collect_items ss f) T hn \<noteq> None"
  using unmanaged.merge_items_spec [where E = E and T = T, OF legal_env_order [OF assms(1)]
    hosts_in_range_collect [OF assms(2), of f] assms(3)] by auto

lemmas engine_total =
  packages_total
  repo_files_total
  module_streams_total
  version_locks_total
  config_files_total
  state_changes_total
  drop_ins_total
  quadlets_total
  compose_files_total
  flatpaks_total
  connections_total
  firewall_zones_total
  port_labels_total
  kernel_modules_total
  sysctls_total
  non_rpm_items_total
  cron_jobs_total
  timers_total
  at_jobs_total
  generated_timers_total
  fstab_entries_total

text \<open>No dependence on the iteration order.\<close>

lemma packages_order:
  assumes "legal_env E" "legal_env E'" "same_functions E E'"
  shows "merge_items (package_ops E) (env_order E) items T hn = merge_items (package_ops E') (env_order E') items T hn"
  unfolding ops_same(1) [OF assms(3)]
  by (rule packages.merge_items_order [OF legal_env_order [OF assms(1)] legal_env_order [OF assms(2)]])

lemma repo_files_order:
  assumes "legal_env E" "legal_env E'" "same_functions E E'"
  shows "merge_items (repo_file_ops E) (env_order E) items T hn = merge_items (repo_file_ops E') (env_order E') items T hn"
  unfolding ops_same(2) [OF assms(3)]
  by (rule repo_files.merge_items_order [OF legal_env_order [OF assms(1)] legal_env_order [OF assms(2)]])

lemma module_streams_order:
  assumes "legal_env E" "legal_env E'" "same_functions E E'"
  shows "merge_items (module_stream_ops E) (env_order E) items T hn = merge_items (module_stream_ops E') (env_order E') items T hn"
  unfolding ops_same(3) [OF assms(3)]
  by (rule module_streams.merge_items_order [OF legal_env_order [OF assms(1)] legal_env_order [OF assms(2)]])

lemma version_locks_order:
  assumes "legal_env E" "legal_env E'" "same_functions E E'"
  shows "merge_items (version_lock_ops E) (env_order E) items T hn = merge_items (version_lock_ops E') (env_order E') items T hn"
  unfolding ops_same(4) [OF assms(3)]
  by (rule version_locks.merge_items_order [OF legal_env_order [OF assms(1)] legal_env_order [OF assms(2)]])

lemma config_files_order:
  assumes "legal_env E" "legal_env E'" "same_functions E E'"
  shows "merge_items (config_file_ops E) (env_order E) items T hn = merge_items (config_file_ops E') (env_order E') items T hn"
  unfolding ops_same(5) [OF assms(3)]
  by (rule config_files.merge_items_order [OF legal_env_order [OF assms(1)] legal_env_order [OF assms(2)]])

lemma state_changes_order:
  assumes "legal_env E" "legal_env E'" "same_functions E E'"
  shows "merge_items (state_change_ops E) (env_order E) items T hn = merge_items (state_change_ops E') (env_order E') items T hn"
  unfolding ops_same(6) [OF assms(3)]
  by (rule state_changes.merge_items_order [OF legal_env_order [OF assms(1)] legal_env_order [OF assms(2)]])

lemma drop_ins_order:
  assumes "legal_env E" "legal_env E'" "same_functions E E'"
  shows "merge_items (drop_in_ops E) (env_order E) items T hn = merge_items (drop_in_ops E') (env_order E') items T hn"
  unfolding ops_same(7) [OF assms(3)]
  by (rule drop_ins.merge_items_order [OF legal_env_order [OF assms(1)] legal_env_order [OF assms(2)]])

lemma quadlets_order:
  assumes "legal_env E" "legal_env E'" "same_functions E E'"
  shows "merge_items (quadlet_ops E) (env_order E) items T hn = merge_items (quadlet_ops E') (env_order E') items T hn"
  unfolding ops_same(8) [OF assms(3)]
  by (rule quadlets.merge_items_order [OF legal_env_order [OF assms(1)] legal_env_order [OF assms(2)]])

lemma compose_files_order:
  assumes "legal_env E" "legal_env E'" "same_functions E E'"
  shows "merge_items (compose_ops E) (env_order E) items T hn = merge_items (compose_ops E') (env_order E') items T hn"
  unfolding ops_same(9) [OF assms(3)]
  by (rule compose_files.merge_items_order [OF legal_env_order [OF assms(1)] legal_env_order [OF assms(2)]])

lemma flatpaks_order:
  assumes "legal_env E" "legal_env E'" "same_functions E E'"
  shows "merge_items (flatpak_ops E) (env_order E) items T hn = merge_items (flatpak_ops E') (env_order E') items T hn"
  unfolding ops_same(10) [OF assms(3)]
  by (rule flatpaks.merge_items_order [OF legal_env_order [OF assms(1)] legal_env_order [OF assms(2)]])

lemma connections_order:
  assumes "legal_env E" "legal_env E'" "same_functions E E'"
  shows "merge_items (connection_ops E) (env_order E) items T hn = merge_items (connection_ops E') (env_order E') items T hn"
  unfolding ops_same(11) [OF assms(3)]
  by (rule connections.merge_items_order [OF legal_env_order [OF assms(1)] legal_env_order [OF assms(2)]])

lemma firewall_zones_order:
  assumes "legal_env E" "legal_env E'" "same_functions E E'"
  shows "merge_items (firewall_zone_ops E) (env_order E) items T hn = merge_items (firewall_zone_ops E') (env_order E') items T hn"
  unfolding ops_same(12) [OF assms(3)]
  by (rule firewall_zones.merge_items_order [OF legal_env_order [OF assms(1)] legal_env_order [OF assms(2)]])

lemma port_labels_order:
  assumes "legal_env E" "legal_env E'" "same_functions E E'"
  shows "merge_items (port_label_ops E) (env_order E) items T hn = merge_items (port_label_ops E') (env_order E') items T hn"
  unfolding ops_same(13) [OF assms(3)]
  by (rule port_labels.merge_items_order [OF legal_env_order [OF assms(1)] legal_env_order [OF assms(2)]])

lemma kernel_modules_order:
  assumes "legal_env E" "legal_env E'" "same_functions E E'"
  shows "merge_items (kernel_module_ops E) (env_order E) items T hn = merge_items (kernel_module_ops E') (env_order E') items T hn"
  unfolding ops_same(14) [OF assms(3)]
  by (rule kernel_modules.merge_items_order [OF legal_env_order [OF assms(1)] legal_env_order [OF assms(2)]])

lemma sysctls_order:
  assumes "legal_env E" "legal_env E'" "same_functions E E'"
  shows "merge_items (sysctl_ops E) (env_order E) items T hn = merge_items (sysctl_ops E') (env_order E') items T hn"
  unfolding ops_same(15) [OF assms(3)]
  by (rule sysctls.merge_items_order [OF legal_env_order [OF assms(1)] legal_env_order [OF assms(2)]])

lemma non_rpm_items_order:
  assumes "legal_env E" "legal_env E'" "same_functions E E'"
  shows "merge_items (non_rpm_ops E) (env_order E) items T hn = merge_items (non_rpm_ops E') (env_order E') items T hn"
  unfolding ops_same(16) [OF assms(3)]
  by (rule non_rpm_items.merge_items_order [OF legal_env_order [OF assms(1)] legal_env_order [OF assms(2)]])

lemma unmanaged_order:
  assumes "legal_env E" "legal_env E'" "same_functions E E'"
  shows "merge_items (unmanaged_ops E) (env_order E) items T hn = merge_items (unmanaged_ops E') (env_order E') items T hn"
  unfolding ops_same(17) [OF assms(3)]
  by (rule unmanaged.merge_items_order [OF legal_env_order [OF assms(1)] legal_env_order [OF assms(2)]])

lemma cron_jobs_order:
  assumes "legal_env E" "legal_env E'" "same_functions E E'"
  shows "merge_items (cron_ops E) (env_order E) items T hn = merge_items (cron_ops E') (env_order E') items T hn"
  unfolding ops_same(18) [OF assms(3)]
  by (rule cron_jobs.merge_items_order [OF legal_env_order [OF assms(1)] legal_env_order [OF assms(2)]])

lemma timers_order:
  assumes "legal_env E" "legal_env E'" "same_functions E E'"
  shows "merge_items (timer_ops E) (env_order E) items T hn = merge_items (timer_ops E') (env_order E') items T hn"
  unfolding ops_same(19) [OF assms(3)]
  by (rule timers.merge_items_order [OF legal_env_order [OF assms(1)] legal_env_order [OF assms(2)]])

lemma at_jobs_order:
  assumes "legal_env E" "legal_env E'" "same_functions E E'"
  shows "merge_items (at_ops E) (env_order E) items T hn = merge_items (at_ops E') (env_order E') items T hn"
  unfolding ops_same(20) [OF assms(3)]
  by (rule at_jobs.merge_items_order [OF legal_env_order [OF assms(1)] legal_env_order [OF assms(2)]])

lemma generated_timers_order:
  assumes "legal_env E" "legal_env E'" "same_functions E E'"
  shows "merge_items (generated_timer_ops E) (env_order E) items T hn = merge_items (generated_timer_ops E') (env_order E') items T hn"
  unfolding ops_same(21) [OF assms(3)]
  by (rule generated_timers.merge_items_order [OF legal_env_order [OF assms(1)] legal_env_order [OF assms(2)]])

lemma fstab_entries_order:
  assumes "legal_env E" "legal_env E'" "same_functions E E'"
  shows "merge_items (fstab_ops E) (env_order E) items T hn = merge_items (fstab_ops E') (env_order E') items T hn"
  unfolding ops_same(22) [OF assms(3)]
  by (rule fstab_entries.merge_items_order [OF legal_env_order [OF assms(1)] legal_env_order [OF assms(2)]])

lemmas engine_order =
  packages_order
  repo_files_order
  module_streams_order
  version_locks_order
  config_files_order
  state_changes_order
  drop_ins_order
  quadlets_order
  compose_files_order
  flatpaks_order
  connections_order
  firewall_zones_order
  port_labels_order
  kernel_modules_order
  sysctls_order
  non_rpm_items_order
  unmanaged_order
  cron_jobs_order
  timers_order
  at_jobs_order
  generated_timers_order
  fstab_entries_order

section \<open>The adapters do not panic\<close>

lemma bind_not_None: "m \<noteq> None \<Longrightarrow> (\<And>x. f x \<noteq> None) \<Longrightarrow> m \<bind> f \<noteq> None"
  by (cases m) auto

lemma merge_fcontext_rules_total: "length ss \<le> length hn \<Longrightarrow> merge_fcontext_rules ss T hn \<noteq> None"
  by (simp add: merge_fcontext_rules_eq)

lemma config_total:
  assumes "legal_env E" "length ss \<le> length hn"
  shows "merge_config_sections E ss T hn \<noteq> None"
proof (cases "all_none ss")
  case False
  show ?thesis
    unfolding merge_config_sections_def if_not_P [OF False] Let_def
    by (intro bind_not_None engine_total merge_fcontext_rules_total assms) simp
qed (simp add: merge_config_sections_def)

lemma service_total:
  assumes "legal_env E" "length ss \<le> length hn"
  shows "merge_service_sections E ss T hn \<noteq> None"
proof (cases "all_none ss")
  case False
  show ?thesis
    unfolding merge_service_sections_def if_not_P [OF False] Let_def
    by (intro bind_not_None engine_total merge_fcontext_rules_total assms) simp
qed (simp add: merge_service_sections_def)

lemma container_total:
  assumes "legal_env E" "length ss \<le> length hn"
  shows "merge_container_sections E ss T hn \<noteq> None"
proof (cases "all_none ss")
  case False
  show ?thesis
    unfolding merge_container_sections_def if_not_P [OF False] Let_def
    by (intro bind_not_None engine_total merge_fcontext_rules_total assms) simp
qed (simp add: merge_container_sections_def)

lemma network_total:
  assumes "legal_env E" "length ss \<le> length hn"
  shows "merge_network_sections E ss T hn \<noteq> None"
proof (cases "all_none ss")
  case False
  show ?thesis
    unfolding merge_network_sections_def if_not_P [OF False] Let_def
    by (intro bind_not_None engine_total merge_fcontext_rules_total assms) simp
qed (simp add: merge_network_sections_def)

lemma storage_total:
  assumes "legal_env E" "length ss \<le> length hn"
  shows "merge_storage_sections E ss T hn \<noteq> None"
proof (cases "all_none ss")
  case False
  show ?thesis
    unfolding merge_storage_sections_def if_not_P [OF False] Let_def
    by (intro bind_not_None engine_total merge_fcontext_rules_total assms) simp
qed (simp add: merge_storage_sections_def)

lemma scheduled_total:
  assumes "legal_env E" "length ss \<le> length hn"
  shows "merge_scheduled_sections E ss T hn \<noteq> None"
proof (cases "all_none ss")
  case False
  show ?thesis
    unfolding merge_scheduled_sections_def if_not_P [OF False] Let_def
    by (intro bind_not_None engine_total merge_fcontext_rules_total assms) simp
qed (simp add: merge_scheduled_sections_def)

lemma selinux_total:
  assumes "legal_env E" "length ss \<le> length hn"
  shows "merge_selinux_sections E ss T hn \<noteq> None"
proof (cases "all_none ss")
  case False
  show ?thesis
    unfolding merge_selinux_sections_def if_not_P [OF False] Let_def
    by (intro bind_not_None engine_total merge_fcontext_rules_total assms) simp
qed (simp add: merge_selinux_sections_def)

lemma kernelboot_total:
  assumes "legal_env E" "length ss \<le> length hn"
  shows "merge_kernelboot_sections E ss T hn \<noteq> None"
proof (cases "all_none ss")
  case False
  show ?thesis
    unfolding merge_kernelboot_sections_def if_not_P [OF False] Let_def
    by (intro bind_not_None engine_total merge_fcontext_rules_total assms) simp
qed (simp add: merge_kernelboot_sections_def)

lemma nonrpm_total:
  assumes "legal_env E" "length ss \<le> length hn"
  shows "merge_nonrpm_sections E ss T hn \<noteq> None"
proof (cases "all_none ss")
  case False
  show ?thesis
    unfolding merge_nonrpm_sections_def if_not_P [OF False] Let_def
    by (intro bind_not_None engine_total merge_fcontext_rules_total assms) simp
qed (simp add: merge_nonrpm_sections_def)

lemma unmanaged_section_total:
  assumes "legal_env E" "length ss \<le> length hn" "uniform_variants (unmanaged_ops E) (collect_items ss ufs_items)"
  shows "merge_unmanaged_file_sections E ss T hn \<noteq> None"
proof (cases "all_none ss")
  case False
  show ?thesis
    unfolding merge_unmanaged_file_sections_def if_not_P [OF False] Let_def
    by (intro bind_not_None unmanaged_total assms) simp
qed (simp add: merge_unmanaged_file_sections_def)

lemma rpm_total:
  assumes "legal_env E" "length ss \<le> length hn"
  shows "merge_rpm_sections E ss T hn idx \<noteq> None"
proof (cases "all_none ss")
  case False
  show ?thesis
    unfolding merge_rpm_sections_def if_not_P [OF False] Let_def
    by (intro bind_not_None engine_total assms) (simp split: prod.split)
qed (simp add: merge_rpm_sections_def)

section \<open>The adapters do not depend on the iteration order\<close>

lemma config_sections_order:
  assumes "legal_env E" "legal_env E'" "same_functions E E'"
  shows "merge_config_sections E ss T hn = merge_config_sections E' ss T hn"
proof -
  have json: "to_json E = to_json E'" using assms(3) by (simp add: same_functions_def)
  show ?thesis unfolding merge_config_sections_def engine_order [OF assms] json ..
qed

lemma service_sections_order:
  assumes "legal_env E" "legal_env E'" "same_functions E E'"
  shows "merge_service_sections E ss T hn = merge_service_sections E' ss T hn"
proof -
  have json: "to_json E = to_json E'" using assms(3) by (simp add: same_functions_def)
  show ?thesis unfolding merge_service_sections_def engine_order [OF assms] json ..
qed

lemma container_sections_order:
  assumes "legal_env E" "legal_env E'" "same_functions E E'"
  shows "merge_container_sections E ss T hn = merge_container_sections E' ss T hn"
proof -
  have json: "to_json E = to_json E'" using assms(3) by (simp add: same_functions_def)
  show ?thesis unfolding merge_container_sections_def engine_order [OF assms] json ..
qed

lemma network_sections_order:
  assumes "legal_env E" "legal_env E'" "same_functions E E'"
  shows "merge_network_sections E ss T hn = merge_network_sections E' ss T hn"
proof -
  have json: "to_json E = to_json E'" using assms(3) by (simp add: same_functions_def)
  show ?thesis unfolding merge_network_sections_def engine_order [OF assms] json ..
qed

lemma storage_sections_order:
  assumes "legal_env E" "legal_env E'" "same_functions E E'"
  shows "merge_storage_sections E ss T hn = merge_storage_sections E' ss T hn"
proof -
  have json: "to_json E = to_json E'" using assms(3) by (simp add: same_functions_def)
  show ?thesis unfolding merge_storage_sections_def engine_order [OF assms] json ..
qed

lemma scheduled_sections_order:
  assumes "legal_env E" "legal_env E'" "same_functions E E'"
  shows "merge_scheduled_sections E ss T hn = merge_scheduled_sections E' ss T hn"
proof -
  have json: "to_json E = to_json E'" using assms(3) by (simp add: same_functions_def)
  show ?thesis unfolding merge_scheduled_sections_def engine_order [OF assms] json ..
qed

lemma selinux_sections_order:
  assumes "legal_env E" "legal_env E'" "same_functions E E'"
  shows "merge_selinux_sections E ss T hn = merge_selinux_sections E' ss T hn"
proof -
  have json: "to_json E = to_json E'" using assms(3) by (simp add: same_functions_def)
  show ?thesis unfolding merge_selinux_sections_def engine_order [OF assms] json ..
qed

lemma kernelboot_sections_order:
  assumes "legal_env E" "legal_env E'" "same_functions E E'"
  shows "merge_kernelboot_sections E ss T hn = merge_kernelboot_sections E' ss T hn"
proof -
  have json: "to_json E = to_json E'" using assms(3) by (simp add: same_functions_def)
  show ?thesis unfolding merge_kernelboot_sections_def engine_order [OF assms] json ..
qed

lemma nonrpm_sections_order:
  assumes "legal_env E" "legal_env E'" "same_functions E E'"
  shows "merge_nonrpm_sections E ss T hn = merge_nonrpm_sections E' ss T hn"
proof -
  have json: "to_json E = to_json E'" using assms(3) by (simp add: same_functions_def)
  show ?thesis unfolding merge_nonrpm_sections_def engine_order [OF assms] json ..
qed

lemma unmanaged_file_sections_order:
  assumes "legal_env E" "legal_env E'" "same_functions E E'"
  shows "merge_unmanaged_file_sections E ss T hn = merge_unmanaged_file_sections E' ss T hn"
proof -
  have json: "to_json E = to_json E'" using assms(3) by (simp add: same_functions_def)
  show ?thesis unfolding merge_unmanaged_file_sections_def engine_order [OF assms] json ..
qed

lemma usersgroups_sections_order:
  assumes "same_functions E E'"
  shows "merge_usersgroups_sections E ss = merge_usersgroups_sections E' ss"
proof -
  have json: "to_json E = to_json E'" using assms by (simp add: same_functions_def)
  show ?thesis unfolding merge_usersgroups_sections_def json ..
qed

lemma repo_conflicts_order:
  "legal_env E \<Longrightarrow> legal_env E' \<Longrightarrow> repo_conflicts E ss packages = repo_conflicts E' ss packages"
  using repo_conflict_order [of E E'] by (simp add: repo_conflicts_def)

lemma rpm_sections_order:
  assumes "legal_env E" "legal_env E'" "same_functions E E'"
  shows "merge_rpm_sections E ss T hn idx = merge_rpm_sections E' ss T hn idx"
  unfolding merge_rpm_sections_def engine_order [OF assms] repo_conflicts_order [OF assms(1,2)] ..

lemma select_target_image_order:
  assumes "legal_env E" "legal_env E'"
  shows "select_target_image E snaps ov = select_target_image E' snaps ov"
  unfolding select_target_image_def rank_images_order [OF assms] ..

lemma merge_sorted_order:
  assumes "legal_env E" "legal_env E'" "same_functions E E'"
  shows "merge_sorted E now snaps hn label ov = merge_sorted E' now snaps hn label ov"
  unfolding merge_sorted_def select_target_image_order [OF assms(1,2)]
    config_sections_order [OF assms] service_sections_order [OF assms] container_sections_order [OF assms]
    network_sections_order [OF assms] storage_sections_order [OF assms] scheduled_sections_order [OF assms]
    selinux_sections_order [OF assms] kernelboot_sections_order [OF assms] nonrpm_sections_order [OF assms]
    unmanaged_file_sections_order [OF assms] usersgroups_sections_order [OF assms(3)] rpm_sections_order [OF assms] ..

section \<open>The order of the input\<close>

lemma mset_map_filter:
  assumes "mset xs = mset ys"
  shows "mset (List.map_filter f xs) = mset (List.map_filter f ys)"
  using assms by (simp add: List.map_filter_def mset_filter)

lemma mset_count_by:
  assumes "mset xs = mset ys"
  shows "mset (count_by (\<lambda>x. x) xs) = mset (count_by (\<lambda>x. x) ys)"
proof -
  have "mset (first_seen xs) = mset (first_seen ys)"
    using mset_eq_setD [OF assms] by (simp add: set_eq_iff_mset_eq_distinct [symmetric])
  moreover have "count_list xs = count_list ys"
    using assms by (metis count_mset ext)
  ultimately show ?thesis by (simp add: count_by_eq)
qed

lemma sorted_hosts_perm:
  assumes "mset snaps = mset snaps'" "distinct (map extract_hostname snaps)"
  shows "sorted_hosts snaps = sorted_hosts snaps'"
  unfolding sorted_hosts_def
proof (rule sort_key_inj_eq)
  show "mset (map (\<lambda>s. (extract_hostname s, s)) snaps) = mset (map (\<lambda>s. (extract_hostname s, s)) snaps')"
    using assms(1) by simp
  show "inj_on fst (set (map (\<lambda>s. (extract_hostname s, s)) snaps))"
    using assms(2) by (auto simp: inj_on_def distinct_map)
qed

lemma rank_images_perm:
  assumes "legal_env E" "mset snaps = mset snaps'"
  shows "rank_images E snaps = rank_images E snaps'"
proof -
  let ?c = "\<lambda>ss. count_by (\<lambda>r. r) (List.map_filter (\<lambda>s. map_option ti_image_ref (snap_target_image s)) ss)"
  have "mset (?c snaps) = mset (?c snaps')" by (intro mset_count_by mset_map_filter assms(2))
  then have ms: "mset (hm_iter (env_order E) (?c snaps)) = mset (hm_iter (env_order E) (?c snaps'))"
    using assms(1) by (simp add: legal_env_def hm_iter_mset)
  have set: "set (hm_iter (env_order E) (?c snaps)) = set (?c snaps)"
    using assms(1) by (intro hm_iter_set) (simp_all add: legal_env_def)
  show ?thesis unfolding rank_images_def by (rule sort_key_inj_eq [OF ms]) (auto simp: inj_on_def)
qed

lemma warnings_perm:
  assumes E: "legal_env E" "legal_env E'" and perm: "mset snaps = mset snaps'"
  shows "avr_warnings (validate_snapshots E snaps) = avr_warnings (validate_snapshots E' snaps')"
proof -
  note sets = mset_eq_setD [OF mset_map_filter [OF perm]]
  have "warn_minor snaps = warn_minor snaps'"
    using sort_dedup_cong [of "filter (\<lambda>v. v \<noteq> []) (List.map_filter (\<lambda>s. map_option osr_version_id (snap_os_release s)) snaps)"
        "filter (\<lambda>v. v \<noteq> []) (List.map_filter (\<lambda>s. map_option osr_version_id (snap_os_release s)) snaps')"]
    by (simp add: warn_minor_def sets)
  moreover have "warn_system_type snaps = warn_system_type snaps'"
    using sort_dedup_cong [of "map (\<lambda>s. system_type_debug (snap_system_type s)) snaps"
        "map (\<lambda>s. system_type_debug (snap_system_type s)) snaps'"] mset_eq_setD [OF perm]
    by (simp add: warn_system_type_def)
  moreover have "warn_baseline E snaps = warn_baseline E' snaps'"
    unfolding warn_baseline_def rank_images_order [OF E] unfolding rank_images_perm [OF E(2) perm] ..
  moreover have "warn_stale snaps = warn_stale snaps'"
    using mset_eq_length [OF mset_map_filter [OF perm, of "\<lambda>s. extract_meta_string s ''timestamp''"]]
    unfolding warn_stale_def Let_def sets by simp
  ultimately show ?thesis by (simp add: validate_snapshots_def)
qed

section \<open>The orchestrator\<close>

lemma sorted_hosts_simps:
  "length (sorted_hosts snaps) = length snaps"
  "sorted (map fst (sorted_hosts snaps))"
  "mset (map snd (sorted_hosts snaps)) = mset snaps"
  "map fst (sorted_hosts snaps) = map extract_hostname (map snd (sorted_hosts snaps))"
proof -
  show "mset (map snd (sorted_hosts snaps)) = mset snaps"
    by (simp add: sorted_hosts_def multiset.map_comp comp_def)
  have "\<forall>p \<in> set (sorted_hosts snaps). fst p = extract_hostname (snd p)" by (auto simp: sorted_hosts_def)
  then show "map fst (sorted_hosts snaps) = map extract_hostname (map snd (sorted_hosts snaps))" by simp
qed (simp_all add: sorted_hosts_def)

text \<open>Every path has content hashes on all hosts or on none.\<close>

definition hashes_consistent :: "inspection_snapshot list \<Rightarrow> bool" where
  "hashes_consistent snaps \<longleftrightarrow>
     (\<forall>s \<in> set snaps. \<forall>t \<in> set snaps. \<forall>u v f g. snap_unmanaged_files s = Some u \<longrightarrow> snap_unmanaged_files t = Some v \<longrightarrow>
        f \<in> set (ufs_items u) \<longrightarrow> g \<in> set (ufs_items v) \<longrightarrow> uf_path f = uf_path g \<longrightarrow>
        (uf_content_hash f = [] \<longleftrightarrow> uf_content_hash g = []))"

lemma hashes_consistent_uniform:
  assumes "hashes_consistent snaps"
  shows "uniform_variants (unmanaged_ops E) (collect_items (map snap_unmanaged_files snaps) ufs_items)"
proof -
  have host: "\<exists>s u. s \<in> set snaps \<and> snap_unmanaged_files s = Some u \<and> snd d \<in> set (ufs_items u)"
    if "d \<in> set (collect_items (map snap_unmanaged_files snaps) ufs_items)" for d
  proof -
    obtain i f where d: "d = (i, f)" by (cases d)
    then have "i < length snaps" "\<exists>u. snap_unmanaged_files (snaps ! i) = Some u \<and> f \<in> set (ufs_items u)"
      using that by (auto simp: collect_items_mem)
    then show ?thesis using d nth_mem by (metis snd_conv)
  qed
  show ?thesis
    unfolding unmanaged_uniform_iff
  proof (intro ballI impI)
    fix d e
    assume d: "d \<in> set (collect_items (map snap_unmanaged_files snaps) ufs_items)"
      and e: "e \<in> set (collect_items (map snap_unmanaged_files snaps) ufs_items)"
      and path: "uf_path (snd d) = uf_path (snd e)"
    obtain s u t v where "s \<in> set snaps" "snap_unmanaged_files s = Some u" "snd d \<in> set (ufs_items u)"
      "t \<in> set snaps" "snap_unmanaged_files t = Some v" "snd e \<in> set (ufs_items v)"
      using host [OF d] host [OF e] by blast
    then show "(uf_content_hash (snd d) = []) = (uf_content_hash (snd e) = [])"
      using assms path unfolding hashes_consistent_def by blast
  qed
qed

lemma merge_sorted_total:
  assumes "legal_env E" "length snaps = length hn" "hashes_consistent snaps"
  shows "merge_sorted E now snaps hn label ov \<noteq> None"
proof -
  have len: "length (map f snaps) \<le> length hn" for f :: "inspection_snapshot \<Rightarrow> 'x" using assms(2) by simp
  obtain ti prov where ti: "select_target_image E snaps ov = (ti, prov)" by fastforce
  show ?thesis
    unfolding merge_sorted_def Let_def ti prod.case
    by (intro bind_not_None rpm_total config_total service_total network_total storage_total scheduled_total
        container_total nonrpm_total unmanaged_section_total kernelboot_total selinux_total
        hashes_consistent_uniform assms len) simp
qed

text \<open>Success, and what it means.\<close>

lemma merge_snapshots_Inr:
  "merge_snapshots E now snaps label ov = Some (Inr (merged, warnings)) \<longleftrightarrow>
     avr_errors (validate_snapshots E snaps) = [] \<and> warnings = avr_warnings (validate_snapshots E snaps)
     \<and> merge_sorted E now (map snd (sorted_hosts snaps)) (map fst (sorted_hosts snaps)) label ov = Some merged"
  by (auto simp: merge_snapshots_def Let_def)

lemma merge_snapshots_total_aux:
  assumes "legal_env E" "hashes_consistent snaps"
  shows "merge_snapshots E now snaps label ov \<noteq> None"
proof -
  have "set (map snd (sorted_hosts snaps)) = set snaps"
    using mset_eq_setD [OF sorted_hosts_simps(3)] .
  then have "hashes_consistent (map snd (sorted_hosts snaps))"
    using assms(2) unfolding hashes_consistent_def by (simp only: simp_thms)
  then have "merge_sorted E now (map snd (sorted_hosts snaps)) (map fst (sorted_hosts snaps)) label ov \<noteq> None"
    using assms(1) by (intro merge_sorted_total) simp_all
  then show ?thesis by (simp add: merge_snapshots_def Let_def)
qed

end
