(* ===== verification/EngineProperties.thy ===== *)
theory EngineProperties
  imports Mergeable
begin

text \<open>
  The properties of the merge engine for every kind of item that satisfies the contract of
  \<open>MergeContract\<close> (all kinds of \<open>Mergeable\<close> do), with examples on packages and
  configuration files, and the one panic the engine has on items that satisfy it.
\<close>

section \<open>Examples\<close>

text \<open>A small environment and items for the concrete instances.\<close>

definition demo_env :: env where
  "demo_env = \<lparr> sha256_hex = (\<lambda>s. s), to_json = (\<lambda>_. ''json''),
     env_order = (\<lambda>ks. ks), env_arch_order = (\<lambda>_ ks. ks) \<rparr>"

lemma demo_env_legal [simp]: "legal_env demo_env"
  by (simp add: legal_env_def demo_env_def)

lemma demo_env_order [simp]: "env_order demo_env = (\<lambda>ks. ks)"
  by (simp add: demo_env_def)

definition demo_config :: "string \<Rightarrow> string \<Rightarrow> config_file_entry" where
  "demo_config path content = \<lparr> cf_path = path, cf_kind = CfgUnowned, cf_category = CatOther,
     cf_content = content, cf_rpm_va_flags = None, cf_package = None, cf_diff_against_rpm = None,
     cf_disposition = fk_included, cf_locked = False, cf_variant_selection = Only, cf_aggregate = None,
     cf_attention_reason = None, cf_shadowed_by = None \<rparr>"

definition demo_repo_file :: "string \<Rightarrow> repo_file" where
  "demo_repo_file path = \<lparr> rf_path = path, rf_content = ''x'', rf_is_default_repo = False,
     rf_disposition = fk_included, rf_locked = False, rf_aggregate = None \<rparr>"

text \<open>Two hosts that agree on one file and disagree on another.\<close>

definition demo_items :: "(nat \<times> config_file_entry) list" where
  "demo_items = [(0, demo_config ''/a'' ''1''), (0, demo_config ''/b'' ''1''),
     (1, demo_config ''/a'' ''1''), (1, demo_config ''/b'' ''2''), (2, demo_config ''/b'' ''2'')]"

definition demo_hosts :: "string list" where
  "demo_hosts = [''h1'', ''h2'', ''h3'']"

lemma demo_items_ok:
  "hosts_in_range demo_hosts demo_items" "uniform_variants (config_file_ops demo_env) demo_items"
  by (simp_all add: hosts_in_range_def demo_hosts_def demo_items_def)

section \<open>One entry per tag\<close>

text \<open>C1. On items whose host indices are in range and whose identities have content keys
  throughout or nowhere, the merge does not panic and returns exactly one entry for every
  (identity, content key) pair of the input, sorted by identity. Each entry lists the sorted,
  deduplicated names of exactly the hosts that carry its pair, counts them, and takes its
  decision from an input item of the pair: included when it is not carried by fewer hosts than
  there are, excluded otherwise (advisory and inventory items keep their kind).\<close>

theorem merge_items_correct:
  assumes "mergeable M disp" "legal_order ord" "hosts_in_range hn items" "uniform_variants M items"
  shows "\<exists>outs. merge_items M ord items T hn = Some outs \<and> distinct (map (tag M) outs)
    \<and> tag M ` set outs = (tag M \<circ> snd) ` set items \<and> sorted (map (identity_key M) outs)
    \<and> (\<forall>y \<in> set outs. final_entry M disp hn T items y)"
  by (rule mergeable.merge_items_spec [OF assms])

theorem merge_items_correct_witness:
  "\<exists>outs. merge_items (config_file_ops demo_env) rev demo_items 3 demo_hosts = Some outs
    \<and> distinct (map (tag (config_file_ops demo_env)) outs)
    \<and> tag (config_file_ops demo_env) ` set outs = (tag (config_file_ops demo_env) \<circ> snd) ` set demo_items
    \<and> sorted (map (identity_key (config_file_ops demo_env)) outs)
    \<and> (\<forall>y \<in> set outs. final_entry (config_file_ops demo_env) cf_disposition demo_hosts 3 demo_items y)"
  by (rule merge_items_correct [OF config_files.mergeable_axioms legal_order_rev demo_items_ok])

section \<open>Inclusion\<close>

text \<open>The number of hosts that carry an entry reaches the total exactly when all of them do.\<close>

lemma carrier_hosts_all:
  assumes "distinct hn" "hosts_in_range hn items"
  shows "length (carrier_hosts M hn items y) = length hn \<longleftrightarrow>
    (\<forall>i < length hn. \<exists>x. (i, x) \<in> set items \<and> tag M x = tag M y)"
    and "length (carrier_hosts M hn items y) \<le> length hn"
proof -
  let ?I = "fst ` set (carriers M items y)"
  have sub: "?I \<subseteq> {..<length hn}" using assms(2) by (auto simp: carriers_def hosts_in_range_def)
  have inj: "inj_on ((!) hn) ?I"
    using sub by (intro inj_on_nth assms(1)) auto
  have "length (carrier_hosts M hn items y) = card ((!) hn ` ?I)"
    by (simp add: carrier_hosts_def length_sort_dedup image_image)
  then have len: "length (carrier_hosts M hn items y) = card ?I" using card_image [OF inj] by simp
  have mem: "i \<in> ?I \<longleftrightarrow> (\<exists>x. (i, x) \<in> set items \<and> tag M x = tag M y)" for i
    by (force simp: carriers_def tag_def)
  show "length (carrier_hosts M hn items y) \<le> length hn"
    unfolding len using card_mono [OF finite_lessThan sub] by simp
  have "card ?I = length hn \<longleftrightarrow> ?I = {..<length hn}"
    using card_subset_eq [OF finite_lessThan sub] by auto
  then show "length (carrier_hosts M hn items y) = length hn \<longleftrightarrow>
      (\<forall>i < length hn. \<exists>x. (i, x) \<in> set items \<and> tag M x = tag M y)"
    unfolding len using sub mem by (metis lessThan_iff subsetI subset_antisym)
qed

lemma final_entry_included:
  assumes entry: "final_entry M disp hn (length hn) items y"
    and hn: "distinct hn" "length hn < 2 ^ 31" and rng: "hosts_in_range hn items"
  shows "is_included (disp y) \<longleftrightarrow>
    is_actionable (disp y) \<and> (\<forall>i < length hn. \<exists>x. (i, x) \<in> set items \<and> tag M x = tag M y)"
proof -
  obtain x and p :: aggregate_prevalence where p: "ap_hosts p = carrier_hosts M hn items y" "ap_count p = as_i32 (length (ap_hosts p))"
      "ap_total p = as_i32 (length hn)" "disp y = with_include (disp x) (\<not> ap_count p < ap_total p)"
    using entry unfolding final_entry_def by blast
  note all = carrier_hosts_all [OF hn(1) rng, of M y]
  have "ap_count p = int (length (carrier_hosts M hn items y))" "ap_total p = int (length hn)"
    using p all(2) hn(2) by (simp_all add: as_i32_small)
  then have "(\<not> ap_count p < ap_total p) \<longleftrightarrow> length (carrier_hosts M hn items y) = length hn"
    using all(2) by simp
  then show ?thesis using p(4) all(1) by simp
qed

text \<open>C2. With distinct host names (which validation guarantees) and as many hosts as there
  are names, an entry of the result is included exactly when it is actionable and every host
  carries its identity with its content.\<close>

theorem included_iff_universal:
  assumes "mergeable M disp" "legal_order ord" "hosts_in_range hn items" "uniform_variants M items"
    and "distinct hn" "length hn < 2 ^ 31"
    and "merge_items M ord items (length hn) hn = Some outs" "y \<in> set outs"
  shows "is_included (disp y) \<longleftrightarrow>
    is_actionable (disp y) \<and> (\<forall>i < length hn. \<exists>x. (i, x) \<in> set items \<and> tag M x = tag M y)"
proof -
  have "final_entry M disp hn (length hn) items y"
    using mergeable.merge_items_spec [OF assms(1-4), of "length hn"] assms(7,8) by auto
  then show ?thesis using assms(3,5,6) by (intro final_entry_included) simp_all
qed

text \<open>The merge of the example: the file the hosts agree on, and the two contents of the other.\<close>

definition demo_outs :: "config_file_entry list" where
  "demo_outs = the (merge_items (config_file_ops demo_env) (\<lambda>ks. ks) demo_items 3 demo_hosts)"

lemma demo_outs_eq: "merge_items (config_file_ops demo_env) (\<lambda>ks. ks) demo_items 3 demo_hosts = Some demo_outs"
  using config_files.merge_items_spec [OF legal_order_id demo_items_ok, of 3] by (auto simp: demo_outs_def)

lemma demo_outs_tags: "tag (config_file_ops demo_env) ` set demo_outs = {(''/a'', Some ''1''), (''/b'', Some ''1''), (''/b'', Some ''2'')}"
proof -
  have "tag (config_file_ops demo_env) ` set demo_outs = (tag (config_file_ops demo_env) \<circ> snd) ` set demo_items"
    using config_files.merge_items_spec [OF legal_order_id demo_items_ok, of 3] demo_outs_eq by auto
  then show ?thesis
    by (simp add: demo_items_def tag_def config_file_ops_def demo_config_def demo_env_def insert_commute)
qed

lemma demo_outs_member:
  assumes "(k, v) \<in> {(''/a'', Some ''1''), (''/b'', Some ''1''), (''/b'', Some ''2'')}"
  shows "\<exists>y \<in> set demo_outs. identity_key (config_file_ops demo_env) y = k \<and> content_variant_key (config_file_ops demo_env) y = v"
proof -
  have "(k, v) \<in> tag (config_file_ops demo_env) ` set demo_outs" using assms demo_outs_tags by simp
  then show ?thesis by (auto simp: tag_def)
qed

lemma demo_hosts_ok: "distinct demo_hosts" "length demo_hosts < 2 ^ 31" "length demo_hosts = 3"
  by (simp_all add: demo_hosts_def)

theorem included_iff_universal_witness:
  "\<exists>y \<in> set demo_outs. identity_key (config_file_ops demo_env) y = ''/a'' \<and>
     (is_included (cf_disposition y) \<longleftrightarrow> is_actionable (cf_disposition y)
       \<and> (\<forall>i < length demo_hosts. \<exists>x. (i, x) \<in> set demo_items
            \<and> tag (config_file_ops demo_env) x = tag (config_file_ops demo_env) y))"
proof -
  obtain y where y: "y \<in> set demo_outs" "identity_key (config_file_ops demo_env) y = ''/a''"
    using demo_outs_member [of "''/a''" "Some ''1''"] by auto
  show ?thesis
    using included_iff_universal [OF config_files.mergeable_axioms legal_order_id demo_items_ok demo_hosts_ok(1,2)
        demo_outs_eq [folded demo_hosts_ok(3)] y(1)] y by blast
qed

text \<open>C3. When the hosts disagree on the content behind one identity and every host has one
  item per identity, every variant of it is excluded: no host's content is imposed on another.\<close>

theorem contested_excluded:
  assumes "mergeable M disp" "legal_order ord" "hosts_in_range hn items" "uniform_variants M items"
    and "distinct hn" "length hn < 2 ^ 31"
    and "merge_items M ord items (length hn) hn = Some outs" "y \<in> set outs" "y' \<in> set outs"
    and "identity_key M y' = identity_key M y" "content_variant_key M y' \<noteq> content_variant_key M y"
    and single: "\<And>i x x'. (i, x) \<in> set items \<Longrightarrow> (i, x') \<in> set items \<Longrightarrow> identity_key M x = identity_key M x' \<Longrightarrow> x = x'"
  shows "\<not> is_included (disp y)"
proof
  assume "is_included (disp y)"
  have spec: "final_entry M disp hn (length hn) items z" if "z \<in> set outs" for z
    using mergeable.merge_items_spec [OF assms(1-4), of "length hn"] assms(7) that by auto
  have all: "\<forall>i < length hn. \<exists>x. (i, x) \<in> set items \<and> tag M x = tag M y"
    using final_entry_included [OF spec [OF assms(8)] assms(5,6,3)] \<open>is_included (disp y)\<close> by simp
  obtain j x' where x': "(j, x') \<in> set items" "tag M x' = tag M y'"
    using spec [OF assms(9)] unfolding final_entry_def by (metis prod.collapse)
  then have "j < length hn" using assms(3) by (auto simp: hosts_in_range_def)
  then obtain x where x: "(j, x) \<in> set items" "tag M x = tag M y" using all by blast
  then have "x = x'" using single [OF x(1) x'(1)] x'(2) assms(10) by (simp add: tag_def)
  then show False using x(2) x'(2) assms(11) by (simp add: tag_def)
qed

theorem contested_excluded_witness:
  "\<exists>y \<in> set demo_outs. identity_key (config_file_ops demo_env) y = ''/b'' \<and> \<not> is_included (cf_disposition y)"
proof -
  obtain y where y: "y \<in> set demo_outs" "identity_key (config_file_ops demo_env) y = ''/b''"
      "content_variant_key (config_file_ops demo_env) y = Some ''2''"
    using demo_outs_member [of "''/b''" "Some ''2''"] by auto
  obtain y' where y': "y' \<in> set demo_outs" "identity_key (config_file_ops demo_env) y' = ''/b''"
      "content_variant_key (config_file_ops demo_env) y' = Some ''1''"
    using demo_outs_member [of "''/b''" "Some ''1''"] by auto
  have single: "x = x'" if "(i, x) \<in> set demo_items" "(i, x') \<in> set demo_items"
      "identity_key (config_file_ops demo_env) x = identity_key (config_file_ops demo_env) x'" for i x x'
    using that by (auto simp: demo_items_def config_file_ops_def demo_config_def)
  have "\<not> is_included (cf_disposition y)"
    by (rule contested_excluded [OF config_files.mergeable_axioms legal_order_id demo_items_ok demo_hosts_ok(1,2)
        demo_outs_eq [folded demo_hosts_ok(3)] y(1) y'(1)]) (use y y' single in auto)
  then show ?thesis using y by blast
qed

section \<open>Variants\<close>

text \<open>C4. When the hosts disagree on the content behind an identity, exactly one variant is
  selected. It is one that most hosts carry, and among those the one with the least content
  key; the result is the same on every run.\<close>

theorem selected_variant:
  assumes "variant_mergeable M disp vsel" "legal_order ord" "hosts_in_range hn items" "uniform_variants M items"
    and "merge_items M ord items T hn = Some outs" "y \<in> set outs" "y' \<in> set outs"
    and "identity_key M y' = identity_key M y" "content_variant_key M y' \<noteq> content_variant_key M y"
  shows "\<exists>z. (\<forall>x \<in> set outs. identity_key M x = identity_key M y \<longrightarrow> (vsel x = Selected \<longleftrightarrow> x = z))
    \<and> z \<in> set outs \<and> identity_key M z = identity_key M y
    \<and> (\<forall>x \<in> set outs. identity_key M x = identity_key M y \<longrightarrow> content_variant_key M x \<noteq> content_variant_key M z \<longrightarrow>
        host_count M items x < host_count M items z
        \<or> host_count M items x = host_count M items z
          \<and> the (content_variant_key M z) < the (content_variant_key M x))"
proof -
  obtain z where z: "z \<in> set outs" "identity_key M z = identity_key M y" "vsel z = Selected"
    and uniq: "\<And>x. x \<in> set outs \<Longrightarrow> identity_key M x = identity_key M y \<Longrightarrow> vsel x = Selected \<Longrightarrow> x = z"
    using variant_mergeable.one_selected [OF assms] by blast
  have "host_count M items x < host_count M items z
      \<or> host_count M items x = host_count M items z
        \<and> the (content_variant_key M z) < the (content_variant_key M x)"
    if x: "x \<in> set outs" "identity_key M x = identity_key M y" "content_variant_key M x \<noteq> content_variant_key M z" for x
    using variant_mergeable.selected_rank [OF assms(1-5) z(1) x(1) _ x(3) z(3)] x(2) z(2) by simp
  then show ?thesis using z uniq by (intro exI [of _ z]) blast
qed

theorem selected_variant_witness:
  "\<exists>z. (\<forall>x \<in> set demo_outs. identity_key (config_file_ops demo_env) x = ''/b'' \<longrightarrow> (cf_variant_selection x = Selected \<longleftrightarrow> x = z))
    \<and> z \<in> set demo_outs"
proof -
  obtain y where y: "y \<in> set demo_outs" "identity_key (config_file_ops demo_env) y = ''/b''"
      "content_variant_key (config_file_ops demo_env) y = Some ''2''"
    using demo_outs_member [of "''/b''" "Some ''2''"] by auto
  obtain y' where y': "y' \<in> set demo_outs" "identity_key (config_file_ops demo_env) y' = ''/b''"
      "content_variant_key (config_file_ops demo_env) y' = Some ''1''"
    using demo_outs_member [of "''/b''" "Some ''1''"] by auto
  show ?thesis
    using selected_variant [OF config_files.variant_mergeable_axioms legal_order_id demo_items_ok demo_outs_eq y(1) y'(1)] y y'
    by auto
qed

section \<open>Representatives\<close>

text \<open>For a kind without content keys, the entry of an identity is one of its items,
  stamped with the prevalence, whose payload (serialized without prevalence and decision) is
  the most frequent among the identity's items.\<close>

theorem majority_representative:
  assumes "mergeable M disp" "legal_order ord" "hosts_in_range hn items" "uniform_variants M items"
    and "merge_items M ord items T hn = Some outs" "y \<in> set outs" "content_variant_key M y = None"
  shows "\<exists>x \<in> snd ` set items. tag M x = tag M y \<and> (\<exists>p. y = narrow_one M (stamp M p x))
    \<and> (\<forall>z \<in> snd ` set (carriers M items y).
         count_list (map (normalized_payload M \<circ> snd) (carriers M items y)) (normalized_payload M z)
         \<le> count_list (map (normalized_payload M \<circ> snd) (carriers M items y)) (normalized_payload M x))"
  by (rule mergeable.merge_items_majority [OF assms])

definition demo_repo_items :: "(nat \<times> repo_file) list" where
  "demo_repo_items = [(0, demo_repo_file ''/r''), (1, demo_repo_file ''/r'')]"

lemma demo_repo_items_ok:
  "hosts_in_range demo_hosts demo_repo_items" "uniform_variants (repo_file_ops demo_env) demo_repo_items"
  by (simp_all add: hosts_in_range_def demo_hosts_def demo_repo_items_def)

theorem majority_representative_witness:
  "\<exists>outs y x. merge_items (repo_file_ops demo_env) rev demo_repo_items 3 demo_hosts = Some outs \<and> y \<in> set outs
     \<and> x \<in> snd ` set demo_repo_items \<and> tag (repo_file_ops demo_env) x = tag (repo_file_ops demo_env) y"
proof -
  obtain outs where outs: "merge_items (repo_file_ops demo_env) rev demo_repo_items 3 demo_hosts = Some outs"
      "tag (repo_file_ops demo_env) ` set outs = (tag (repo_file_ops demo_env) \<circ> snd) ` set demo_repo_items"
    using repo_files.merge_items_spec [OF legal_order_rev demo_repo_items_ok, of 3] by blast
  have "(''/r'', None) \<in> (tag (repo_file_ops demo_env) \<circ> snd) ` set demo_repo_items"
    by (simp add: demo_repo_items_def tag_def repo_file_ops_def demo_repo_file_def)
  then have "(''/r'', None) \<in> tag (repo_file_ops demo_env) ` set outs" by (simp only: outs(2))
  then obtain y where y: "y \<in> set outs" "content_variant_key (repo_file_ops demo_env) y = None"
    by (auto simp: tag_def)
  obtain x where "x \<in> snd ` set demo_repo_items" "tag (repo_file_ops demo_env) x = tag (repo_file_ops demo_env) y"
    using majority_representative [OF repo_files.mergeable_axioms legal_order_rev demo_repo_items_ok outs(1) y] by blast
  then show ?thesis using outs(1) y(1) by blast
qed

section \<open>The panic\<close>

text \<open>C5. The premise on content keys in C1 is needed: an unmanaged file whose hash was
  computed on the first host and not on the second makes the merge panic, whatever the rest of
  the two records is. (The hash is empty when \<open>sha256sum\<close> fails on a host.)\<close>

theorem unmanaged_hash_panic:
  assumes "uf_path x = uf_path z" "uf_content_hash x \<noteq> []" "uf_content_hash z = []" "legal_order ord"
  shows "merge_items (unmanaged_ops E) ord [(0, x), (1, z)] T [h, h'] = None"
proof -
  let ?M = "unmanaged_ops E"
  let ?g = "[(0, x), (Suc 0, z)]"
  have key: "identity_key ?M = uf_path"
    and vx: "content_variant_key ?M x = Some (uf_content_hash x)" and vz: "content_variant_key ?M z = None"
    using assms by (auto simp: unmanaged_ops_def)
  have "merge_with_variants ?M (\<lambda>ks. ks) T [h, h'] ?g = None"
    by (simp add: merge_with_variants_def vx vz)
  then have grp: "merge_group ?M (\<lambda>ks. ks) T [h, h'] ?g = None"
    using vx by (simp add: merge_group_def hosts_of_def index_at_def)
  have ids: "unmanaged.identities E ?g = [uf_path x]"
    using assms(1) by (simp add: unmanaged.identities_def key sort_dedup_def)
  have "unmanaged.items_of E ?g (uf_path x) = ?g"
    using assms(1) by (simp add: unmanaged.items_of_def key)
  then show ?thesis
    using grp by (simp add: unmanaged.merge_items_eq [OF assms(4)] ids)
qed

definition demo_unmanaged :: "string \<Rightarrow> unmanaged_file" where
  "demo_unmanaged h = \<lparr> uf_path = ''/opt/f'', uf_size = 1, uf_file_type = FtOther,
     uf_provenance = \<lparr> ps_file_type = FtOther, ps_last_modified = 0, ps_uid = 0, ps_gid = 0,
       ps_permissions = [], ps_mutable = False, ps_writable_mount = False, ps_service_working_dir = False \<rparr>,
     uf_disposition = fk_included, uf_locked = False, uf_acknowledged = False, uf_under_var = False,
     uf_link_target = [], uf_aggregate = None, uf_content_hash = h, uf_variant_selection = Only \<rparr>"

theorem unmanaged_hash_panic_witness:
  "merge_items (unmanaged_ops demo_env) rev [(0, demo_unmanaged ''ab''), (1, demo_unmanaged [])] 2 [''h1'', ''h2''] = None"
  by (rule unmanaged_hash_panic) (simp_all add: demo_unmanaged_def)

end
