(* ===== verification/AdapterProperties.thy ===== *)
theory AdapterProperties
  imports MergeGuarantees EngineProperties
begin

text \<open>
  The properties of the section adapters and of the validation before a merge, with the
  examples that show their hypotheses can hold.
\<close>

section \<open>SELinux file-context rules\<close>

definition demo_selinux :: "fcontext_rule list \<Rightarrow> selinux_section" where
  "demo_selinux rules = \<lparr> sel_mode = ''enforcing'', sel_custom_modules = [], sel_boolean_overrides = [],
     sel_fcontext_rules = rules, sel_fcontext_source = PolicyStore, sel_fips_mode = False, sel_port_labels = [] \<rparr>"

definition demo_label :: "string \<Rightarrow> string \<Rightarrow> fcontext_rule" where
  "demo_label spec t = Label spec FcAll \<lparr> sc_user = ''u'', sc_role = ''r'', sc_type = t, sc_level = None \<rparr> fk_included None"

definition demo_selinux_hosts :: "selinux_section option list" where
  "demo_selinux_hosts = [Some (demo_selinux [demo_label ''/x'' ''a'', demo_label ''/y'' ''a'']),
     Some (demo_selinux [demo_label ''/x'' ''a'', demo_label ''/y'' ''b''])]"

definition fcontext_prevalence :: "selinux_section option list \<Rightarrow> nat \<Rightarrow> string list \<Rightarrow> nat \<times> string \<times> string \<Rightarrow> aggregate_prevalence" where
  "fcontext_prevalence sections T hn k = (let r = first_rule sections k in
     \<lparr> ap_count = as_i32 (length (rule_hosts sections hn r)), ap_total = as_i32 T, ap_hosts = rule_hosts sections hn r,
       ap_aggregate_count = (if contested sections k then Some (as_i32 (length (key_hosts sections hn k))) else None),
       ap_aggregate_hosts = (if contested sections k then Some (key_hosts sections hn k) else None) \<rparr>)"

definition fcontext_merged_row :: "selinux_section option list \<Rightarrow> nat \<Rightarrow> string list \<Rightarrow> nat \<times> string \<times> string \<Rightarrow> fcontext_rule" where
  "fcontext_merged_row sections T hn k = stamp_fcontext (length (rule_hosts sections hn (first_rule sections k)) = T)
     (fcontext_prevalence sections T hn k) (first_rule sections k)"

lemma fcontext_rows_eq:
  assumes "length sections \<le> length hn"
  shows "merge_fcontext_rules sections T hn =
    Some (map (fcontext_merged_row sections T hn) (first_seen (map fcontext_rule_key (rules_of sections))))"
  using merge_fcontext_rules_eq [OF assms] by (simp add: Let_def fcontext_merged_row_def fcontext_prevalence_def cong: map_cong)

lemma fcontext_row:
  assumes "length sections \<le> length hn" "merge_fcontext_rules sections T hn = Some rows" "row \<in> set rows"
  shows "first_rule sections (fcontext_rule_key row) \<in> set (rules_of sections)"
    and "fcontext_rule_key (first_rule sections (fcontext_rule_key row)) = fcontext_rule_key row"
    and "row = fcontext_merged_row sections T hn (fcontext_rule_key row)"
proof -
  obtain k where k: "k \<in> set (first_seen (map fcontext_rule_key (rules_of sections)))"
    and row: "row = fcontext_merged_row sections T hn k"
    using assms(3) assms(2) [unfolded fcontext_rows_eq [OF assms(1)], symmetric] by auto
  have first: "fcontext_rule_key (first_rule sections k) = k" "first_rule sections k \<in> set (rules_of sections)"
    using merge_fcontext_key_ok(2,3) [OF assms(1), of k] k by simp_all
  have key: "fcontext_rule_key row = k" unfolding row by (simp add: first(1) fcontext_merged_row_def)
  show "first_rule sections (fcontext_rule_key row) \<in> set (rules_of sections)"
    and "fcontext_rule_key (first_rule sections (fcontext_rule_key row)) = fcontext_rule_key row"
    and "row = fcontext_merged_row sections T hn (fcontext_rule_key row)"
    unfolding key by (rule first(2) first(1) row)+
qed

lemma fcontext_row_keys:
  assumes "length sections \<le> length hn" "merge_fcontext_rules sections T hn = Some rows"
  shows "map fcontext_rule_key rows = first_seen (map fcontext_rule_key (rules_of sections))"
proof -
  have "fcontext_rule_key (fcontext_merged_row sections T hn k) = k"
    if mem: "k \<in> set (first_seen (map fcontext_rule_key (rules_of sections)))" for k
    using merge_fcontext_key_ok(2,3) [OF assms(1), of k] mem by (simp add: fcontext_merged_row_def)
  then have "map (fcontext_rule_key \<circ> fcontext_merged_row sections T hn) (first_seen (map fcontext_rule_key (rules_of sections)))
      = first_seen (map fcontext_rule_key (rules_of sections))"
    by (intro map_idI) simp
  moreover have "rows = map (fcontext_merged_row sections T hn) (first_seen (map fcontext_rule_key (rules_of sections)))"
    using assms(2) by (simp add: fcontext_rows_eq [OF assms(1)])
  ultimately show ?thesis by (simp only: map_map)
qed

text \<open>When there is a name for every host, the merge of the file-context rules does not panic and returns
  one row per semantic key, in the order in which the keys are first met. The row of a key is
  the first rule with it, stamped with the hosts that carry exactly this rule; the hosts that
  carry the key under any content are recorded exactly when the contents differ.\<close>

theorem fcontext_one_row_per_key:
  assumes "length sections \<le> length hn"
  shows "\<exists>rows. merge_fcontext_rules sections T hn = Some rows
    \<and> map fcontext_rule_key rows = first_seen (map fcontext_rule_key (rules_of sections))
    \<and> (\<forall>row \<in> set rows. let k = fcontext_rule_key row; r = first_rule sections k in
         r \<in> set (rules_of sections) \<and> fcontext_rule_key r = k
         \<and> (\<exists>p. row = stamp_fcontext (length (rule_hosts sections hn r) = T) p r
             \<and> ap_hosts p = rule_hosts sections hn r
             \<and> ap_aggregate_hosts p = (if contested sections k then Some (key_hosts sections hn k) else None)))"
proof -
  obtain rows where rows: "merge_fcontext_rules sections T hn = Some rows"
    unfolding fcontext_rows_eq [OF assms] by blast
  show ?thesis unfolding Let_def
  proof (intro exI [of _ rows] conjI ballI)
    fix row assume mem: "row \<in> set rows"
    note row = fcontext_row [OF assms rows mem]
    show "first_rule sections (fcontext_rule_key row) \<in> set (rules_of sections)" by (rule row(1))
    show "fcontext_rule_key (first_rule sections (fcontext_rule_key row)) = fcontext_rule_key row" by (rule row(2))
    show "\<exists>p. row = stamp_fcontext (length (rule_hosts sections hn (first_rule sections (fcontext_rule_key row))) = T) p
             (first_rule sections (fcontext_rule_key row))
         \<and> ap_hosts p = rule_hosts sections hn (first_rule sections (fcontext_rule_key row))
         \<and> ap_aggregate_hosts p = (if contested sections (fcontext_rule_key row)
             then Some (key_hosts sections hn (fcontext_rule_key row)) else None)"
      using row(3) unfolding fcontext_merged_row_def
      by (intro exI [of _ "fcontext_prevalence sections T hn (fcontext_rule_key row)"])
        (simp add: fcontext_prevalence_def Let_def)
  qed (rule rows, rule fcontext_row_keys [OF assms rows])
qed

theorem fcontext_one_row_per_key_witness:
  "\<exists>rows. merge_fcontext_rules demo_selinux_hosts 2 [''h1'', ''h2''] = Some rows
    \<and> map fcontext_rule_key rows = first_seen (map fcontext_rule_key (rules_of demo_selinux_hosts))"
  using fcontext_one_row_per_key [of demo_selinux_hosts "[''h1'', ''h2'']" 2]
  by (auto simp: demo_selinux_hosts_def)

text \<open>With one distinct name per host, a row is included exactly when it is actionable and
  every host has exactly that rule: a host that lacks the key, or has it with another content,
  excludes it.\<close>

theorem fcontext_included_iff:
  assumes "distinct hn" "length sections = length hn"
    and "merge_fcontext_rules sections (length hn) hn = Some rows" "row \<in> set rows"
    and "fcontext_disposition row = Some d"
  shows "is_included d \<longleftrightarrow> is_actionable d
    \<and> (\<forall>i < length hn. \<exists>s. sections ! i = Some s
         \<and> first_rule sections (fcontext_rule_key row) \<in> set (sel_fcontext_rules s))"
proof -
  let ?r = "first_rule sections (fcontext_rule_key row)"
  obtain p where row: "row = stamp_fcontext (length (rule_hosts sections hn ?r) = length hn) p ?r"
    using fcontext_row(3) [OF _ assms(3,4)] assms(2) unfolding fcontext_merged_row_def by simp
  have "fcontext_disposition row = map_option (\<lambda>d. with_include d (length (rule_hosts sections hn ?r) = length hn))
      (fcontext_disposition ?r)"
    by (subst row) simp
  then obtain d' where d: "d = with_include d' (length (rule_hosts sections hn ?r) = length hn)"
    using assms(5) by (cases "fcontext_disposition ?r") auto
  show ?thesis unfolding d using rule_hosts_all [OF assms(1,2), of ?r] by simp
qed

theorem fcontext_included_iff_witness:
  "\<exists>rows row d. merge_fcontext_rules demo_selinux_hosts 2 [''h1'', ''h2''] = Some rows \<and> row \<in> set rows
    \<and> fcontext_rule_key row = (0, ''/y'', ''All'') \<and> fcontext_disposition row = Some d \<and> \<not> is_included d"
proof -
  let ?hn = "[''h1'', ''h2'']"
  have len: "length demo_selinux_hosts \<le> length ?hn" by (simp add: demo_selinux_hosts_def)
  obtain rows where rows: "merge_fcontext_rules demo_selinux_hosts 2 ?hn = Some rows"
    unfolding fcontext_rows_eq [OF len] by blast
  note keys = fcontext_row_keys [OF len rows]
  have fr: "rules_of demo_selinux_hosts = [demo_label ''/x'' ''a'', demo_label ''/y'' ''a'', demo_label ''/x'' ''a'', demo_label ''/y'' ''b'']"
    by (simp add: demo_selinux_hosts_def demo_selinux_def flat_items_def collect_string_lists_def List.map_filter_simps)
  have "(0, ''/y'', ''All'') \<in> set (map fcontext_rule_key rows)"
    unfolding keys fr by (simp add: demo_label_def)
  then obtain row where row: "row \<in> set rows" "fcontext_rule_key row = (0, ''/y'', ''All'')" by auto
  obtain d where d: "fcontext_disposition row = Some d"
    using row(2) by (cases row rule: fcontext_rule.exhaust) simp_all
  have "first_rule demo_selinux_hosts (0, ''/y'', ''All'') = demo_label ''/y'' ''a''"
    by (simp add: first_rule_def fr demo_label_def)
  moreover have "demo_label ''/y'' ''a'' \<notin> set (sel_fcontext_rules (demo_selinux [demo_label ''/x'' ''a'', demo_label ''/y'' ''b'']))"
    by (simp add: demo_selinux_def demo_label_def)
  ultimately have no: "\<not> (\<forall>i < length ?hn. \<exists>s. demo_selinux_hosts ! i = Some s
         \<and> first_rule demo_selinux_hosts (fcontext_rule_key row) \<in> set (sel_fcontext_rules s))"
    unfolding row(2) by (intro notI) (drule spec [of _ 1], simp add: demo_selinux_hosts_def)
  have "is_included d \<longleftrightarrow> is_actionable d
    \<and> (\<forall>i < length ?hn. \<exists>s. demo_selinux_hosts ! i = Some s
         \<and> first_rule demo_selinux_hosts (fcontext_rule_key row) \<in> set (sel_fcontext_rules s))"
    by (rule fcontext_included_iff [OF _ _ _ row(1) d])
      (use rows in \<open>simp_all add: numeral_2_eq_2\<close>, simp add: demo_selinux_hosts_def)
  then show ?thesis using rows row d no by blast
qed

section \<open>Packages\<close>

lemma package_identity: "identity_key (package_ops E) = package_id"
  by (simp add: package_ops_def package_id_def fun_eq_iff)

text \<open>The result of a successful merge of RPM sections, in terms of the merged package list.\<close>

lemma merge_rpm_sections_packages:
  assumes "merge_rpm_sections E sections T hn idx = Some (Some (sec, conflicts))"
    and "merge_items (package_ops E) (env_order E) (collect_items sections rpm_packages_added) T hn = Some merged"
  defines "leaves \<equiv> fst (leaf_data sections hn)"
  defines "kept \<equiv> force_include_leaves leaves (leaf_filter leaves (fst (snd (leaf_data sections hn))) merged)"
  shows "rpm_packages_added sec = reconcile_source_repo (repo_conflicts E sections kept) kept"
    and "conflicts = repo_conflicts E sections kept" and "rpm_leaf_packages sec = leaves"
    and "rpm_leaf_authority_hosts sec = Some (as_u32 (length (authoritative sections)))"
proof -
  obtain any tree where ld: "leaf_data sections hn = (leaves, any, tree)"
    unfolding leaves_def by (metis prod.collapse)
  note inv = assms(1) [unfolded merge_rpm_sections_def Let_def ld prod.case]
  have "\<not> all_none sections" using inv by auto
  note inv' = inv [unfolded if_not_P [OF this] assms(2) Option.bind.bind_lunit]
  show "rpm_packages_added sec = reconcile_source_repo (repo_conflicts E sections kept) kept"
    and "conflicts = repo_conflicts E sections kept" and "rpm_leaf_packages sec = leaves"
    and "rpm_leaf_authority_hosts sec = Some (as_u32 (length (authoritative sections)))"
    using inv' by (auto simp: bind_eq_Some_conv kept_def ld)
qed

lemma force_include_map_ids [simp]: "map package_id (force_include_leaves ls ps) = map package_id ps"
  by (auto simp: force_include_leaves_def package_id_def split: option.split)

lemma force_include_ids [simp]: "package_id ` set (force_include_leaves ls ps) = package_id ` set ps"
  by (metis force_include_map_ids set_map)

lemma reconcile_id [simp]:
  "package_id (case c of Some (winner # _) \<Rightarrow> pkg\<lparr>pe_source_repo := rse_repo winner\<rparr> | _ \<Rightarrow> pkg) = package_id pkg"
  "pe_disposition (case c of Some (winner # _) \<Rightarrow> pkg\<lparr>pe_source_repo := rse_repo winner\<rparr> | _ \<Rightarrow> pkg) = pe_disposition pkg"
  by (auto simp: package_id_def split: option.split list.split)

lemma reconcile_ids [simp]: "package_id ` set (reconcile_source_repo c ps) = package_id ` set ps"
  by (simp add: reconcile_source_repo_def image_image)

text \<open>Two hosts: one package on both from different repositories, one only a dependency.\<close>

definition demo_package :: "string \<Rightarrow> string \<Rightarrow> package_entry" where
  "demo_package name repo = \<lparr> pe_name = name, pe_epoch = ''0'', pe_version = ''1'', pe_release = ''1'',
     pe_arch = ''x86_64'', pe_state = PkgAdded, pe_disposition = fk_included, pe_locked = False,
     pe_acknowledged = False, pe_source_repo = repo, pe_repo_attribution = Unrecorded,
     pe_repo_enabling_from = [], pe_repoless_annotation = [], pe_repoless_cached = False, pe_uploaded = False,
     pe_cache_path = None, pe_uploaded_version = None, pe_aggregate = None \<rparr>"

definition demo_rpm :: "package_entry list \<Rightarrow> string list option \<Rightarrow> rpm_section" where
  "demo_rpm packages leaves = \<lparr> rpm_packages_added = packages, rpm_base_image_only = [], rpm_rpm_va = [],
     rpm_repo_files = [], rpm_gpg_keys = [], rpm_dnf_history_removed = [], rpm_version_changes = [],
     rpm_leaf_packages = leaves, rpm_auto_packages = None, rpm_leaf_dep_tree = JObj [], rpm_module_streams = [],
     rpm_version_locks = [], rpm_module_stream_conflicts = [], rpm_baseline_module_streams = None,
     rpm_versionlock_command_output = None, rpm_multiarch_packages = [], rpm_duplicate_packages = [],
     rpm_ostree_overrides = [], rpm_ostree_removals = [], rpm_base_image = None, rpm_baseline_suppressed = None,
     rpm_baseline_package_names = None, rpm_leaf_authority_hosts = None, rpm_leaf_total_hosts = None,
     rpm_file_ownership = [], rpm_installed_groups = None \<rparr>"

definition demo_rpm_hosts :: "rpm_section option list" where
  "demo_rpm_hosts = [Some (demo_rpm [demo_package ''n'' ''epel'', demo_package ''m'' ''epel''] (Some [''n.x86_64''])),
     Some (demo_rpm [demo_package ''n'' ''baseos''] (Some [''n.x86_64'']))]"

lemma demo_rpm_eval:
  "map_option (map_option (\<lambda>(sec, c). (map package_id (rpm_packages_added sec), c ''n.x86_64'')))
     (merge_rpm_sections demo_env demo_rpm_hosts 2 [''h1'', ''h2''] None)
   = Some (Some ([''n.x86_64''], Some [\<lparr> rse_repo = ''baseos'', rse_host_count = 1 \<rparr>, \<lparr> rse_repo = ''epel'', rse_host_count = 1 \<rparr>]))"
  by code_simp

lemma demo_rpm_result:
  obtains sec conflicts p merged where
    "merge_rpm_sections demo_env demo_rpm_hosts 2 [''h1'', ''h2''] None = Some (Some (sec, conflicts))"
    "rpm_packages_added sec = [p]" "package_id p = ''n.x86_64''"
    "conflicts ''n.x86_64'' = Some [\<lparr> rse_repo = ''baseos'', rse_host_count = 1 \<rparr>, \<lparr> rse_repo = ''epel'', rse_host_count = 1 \<rparr>]"
    "merge_items (package_ops demo_env) (env_order demo_env) (collect_items demo_rpm_hosts rpm_packages_added) 2 [''h1'', ''h2''] = Some merged"
proof -
  obtain sec conflicts where eq: "merge_rpm_sections demo_env demo_rpm_hosts 2 [''h1'', ''h2''] None = Some (Some (sec, conflicts))"
    and res: "map package_id (rpm_packages_added sec) = [''n.x86_64'']"
      "conflicts ''n.x86_64'' = Some [\<lparr> rse_repo = ''baseos'', rse_host_count = 1 \<rparr>, \<lparr> rse_repo = ''epel'', rse_host_count = 1 \<rparr>]"
    using demo_rpm_eval by auto
  obtain merged where "merge_items (package_ops demo_env) (env_order demo_env) (collect_items demo_rpm_hosts rpm_packages_added) 2 [''h1'', ''h2''] = Some merged"
    using packages_total [OF demo_env_legal, of demo_rpm_hosts "[''h1'', ''h2'']" rpm_packages_added 2]
    by (auto simp: demo_rpm_hosts_def)
  note merged = this
  obtain p where p: "rpm_packages_added sec = [p]" "package_id p = ''n.x86_64''"
    using res(1) by (cases "rpm_packages_added sec") auto
  show thesis by (rule that [OF eq p res(2) merged])
qed

lemma host_leaves_simps:
  "host_leaves [] = {}" "host_leaves (None # ss) = host_leaves ss"
  "host_leaves (Some s # ss) = set_option (rpm_leaf_packages s) \<union> host_leaves ss"
  unfolding host_leaves_def by (auto simp: elem_set)

lemma demo_host_leaves: "host_leaves demo_rpm_hosts = {[''n.x86_64'']}"
  unfolding demo_rpm_hosts_def host_leaves_simps by (simp add: demo_rpm_def)

definition leaf_keeps :: "string list set \<Rightarrow> package_entry \<Rightarrow> bool" where
  "leaf_keeps leaf_lists pkg \<longleftrightarrow>
     (if is_universal_package pkg then \<forall>l \<in> leaf_lists. package_id pkg \<in> set l
      else \<exists>l \<in> leaf_lists. package_id pkg \<in> set l)"

text \<open>C37. When some host has leaf data, the packages of the merged section are exactly those of
  the plain merge that are leaves: a package every host has must be in the leaf list of every
  host with leaf data, a package some hosts lack in at least one. The recorded leaf list is the
  sorted intersection of the hosts' lists.\<close>

theorem leaf_filter_exact:
  assumes "merge_rpm_sections E sections T hn idx = Some (Some (sec, conflicts))"
    and "merge_items (package_ops E) (env_order E) (collect_items sections rpm_packages_added) T hn = Some merged"
    and "host_leaves sections \<noteq> {}"
  shows "package_id ` set (rpm_packages_added sec) = package_id ` {pkg \<in> set merged. leaf_keeps (host_leaves sections) pkg}
    \<and> (\<exists>ls. rpm_leaf_packages sec = Some ls \<and> sorted ls \<and> distinct ls \<and> set ls = (\<Inter>l \<in> host_leaves sections. set l))"
proof -
  obtain ls where ls: "fst (leaf_data sections hn) = Some ls"
    using assms(3) leaf_data_None by (cases "fst (leaf_data sections hn)") auto
  note leaf = leaf_data_Some [OF ls]
  have "set (leaf_filter (Some ls) (fst (snd (leaf_data sections hn))) merged) = {pkg \<in> set merged. leaf_keeps (host_leaves sections) pkg}"
  proof -
    obtain u where u: "fst (snd (leaf_data sections hn)) = Some u" using leaf(2) by blast
    have mem: "p \<in> set u \<longleftrightarrow> (\<exists>l \<in> host_leaves sections. p \<in> set l)" for p using leaf(2) [of p] u by simp
    show ?thesis unfolding leaf_filter_def leaf_keeps_def u option.case mem leaf(1) by auto
  qed
  then have "package_id ` set (rpm_packages_added sec) = package_id ` {pkg \<in> set merged. leaf_keeps (host_leaves sections) pkg}"
    using merge_rpm_sections_packages(1) [OF assms(1,2)] ls by simp
  moreover have "set ls = (\<Inter>l \<in> host_leaves sections. set l)" using leaf(1) by auto
  ultimately show ?thesis
    using merge_rpm_sections_packages(3) [OF assms(1,2)] ls leaf(3,4) by simp
qed

theorem leaf_filter_exact_witness:
  "\<exists>sec conflicts merged. merge_rpm_sections demo_env demo_rpm_hosts 2 [''h1'', ''h2''] None = Some (Some (sec, conflicts))
    \<and> merge_items (package_ops demo_env) (env_order demo_env) (collect_items demo_rpm_hosts rpm_packages_added) 2 [''h1'', ''h2''] = Some merged
    \<and> package_id ` {pkg \<in> set merged. leaf_keeps {[''n.x86_64'']} pkg} = {''n.x86_64''}"
proof -
  obtain sec conflicts p merged where r: "merge_rpm_sections demo_env demo_rpm_hosts 2 [''h1'', ''h2''] None = Some (Some (sec, conflicts))"
    "rpm_packages_added sec = [p]" "package_id p = ''n.x86_64''"
    "merge_items (package_ops demo_env) (env_order demo_env) (collect_items demo_rpm_hosts rpm_packages_added) 2 [''h1'', ''h2''] = Some merged"
    by (rule demo_rpm_result)
  have "package_id ` set (rpm_packages_added sec) = package_id ` {pkg \<in> set merged. leaf_keeps (host_leaves demo_rpm_hosts) pkg}"
    using leaf_filter_exact [OF r(1,4)] by (simp add: demo_host_leaves)
  then show ?thesis using r by (simp add: demo_host_leaves)
qed

text \<open>A merged package that is a leaf on every host with leaf data is included, even when
  hosts without leaf data lack the package.\<close>

theorem leaves_included:
  assumes "merge_rpm_sections E sections T hn idx = Some (Some (sec, conflicts))"
    and "host_leaves sections \<noteq> {}" "p \<in> set (rpm_packages_added sec)"
    and "\<forall>l \<in> host_leaves sections. package_id p \<in> set l"
  shows "is_included (pe_disposition p)"
proof -
  obtain merged where merged: "merge_items (package_ops E) (env_order E) (collect_items sections rpm_packages_added) T hn = Some merged"
    using assms(1) by (auto simp: merge_rpm_sections_def bind_eq_Some_conv split: if_splits)
  obtain ls where ls: "fst (leaf_data sections hn) = Some ls"
    using assms(2) leaf_data_None by (cases "fst (leaf_data sections hn)") auto
  let ?kept = "leaf_filter (Some ls) (fst (snd (leaf_data sections hn))) merged"
  obtain q where q: "q \<in> set ?kept"
    and p: "package_id p = package_id q"
      "pe_disposition p = (if package_id q \<in> set ls then fk_included else pe_disposition q)"
  proof -
    obtain r and c :: "repo_source_entry list option" where r: "r \<in> set (force_include_leaves (Some ls) ?kept)"
      and p: "p = (case c of Some (winner # _) \<Rightarrow> r\<lparr>pe_source_repo := rse_repo winner\<rparr> | _ \<Rightarrow> r)"
      using assms(3) unfolding merge_rpm_sections_packages(1) [OF assms(1) merged] ls reconcile_source_repo_def set_map
      by (elim imageE) (rule that)
    obtain q where q: "q \<in> set ?kept"
      and rq: "r = (if package_id q \<in> set ls then q\<lparr>pe_disposition := fk_included\<rparr> else q)"
      using r by (auto simp: force_include_leaves_def)
    have "package_id r = package_id q" unfolding rq by (simp add: package_id_def)
    moreover have "package_id p = package_id r" "pe_disposition p = pe_disposition r" unfolding p by simp_all
    moreover have "pe_disposition r = (if package_id q \<in> set ls then fk_included else pe_disposition q)"
      unfolding rq by simp
    ultimately show thesis using that q by simp
  qed
  have "package_id q \<in> set ls" using assms(4) leaf_data_Some(1) [OF ls] p(1) by simp
  then show ?thesis using p(2) by (simp add: fk_included_def)
qed

theorem leaves_included_witness:
  "\<exists>sec conflicts p. merge_rpm_sections demo_env demo_rpm_hosts 2 [''h1'', ''h2''] None = Some (Some (sec, conflicts))
    \<and> p \<in> set (rpm_packages_added sec) \<and> is_included (pe_disposition p)"
proof -
  obtain sec conflicts p merged where r: "merge_rpm_sections demo_env demo_rpm_hosts 2 [''h1'', ''h2''] None = Some (Some (sec, conflicts))"
    "rpm_packages_added sec = [p]" "package_id p = ''n.x86_64''" by (rule demo_rpm_result)
  then have "is_included (pe_disposition p)" by (intro leaves_included [OF r(1)]) (simp_all add: demo_host_leaves)
  then show ?thesis using r by auto
qed

text \<open>A recorded repository conflict belongs to a package whose hosts installed it from
  repositories of different tiers; the merged package then names, as its source, a repository
  that most installations came from, the alphabetically first among those.\<close>

theorem conflict_resolved_by_majority:
  assumes "legal_env E" "length sections \<le> length hn"
    and "merge_rpm_sections E sections T hn idx = Some (Some (sec, conflicts))"
    and "p \<in> set (rpm_packages_added sec)" "conflicts (package_id p) = Some entries"
  shows "(pe_source_repo p, rse_host_count (hd entries)) \<in> set (repo_counts sections p)
    \<and> (\<forall>(r, n) \<in> set (repo_counts sections p).
         n < rse_host_count (hd entries) \<or> n = rse_host_count (hd entries) \<and> pe_source_repo p \<le> r)
    \<and> (\<exists>r r'. r \<in> fst ` set (repo_counts sections p) \<and> r' \<in> fst ` set (repo_counts sections p)
         \<and> repo_tier_of r \<noteq> repo_tier_of r')"
proof -
  obtain merged where merged: "merge_items (package_ops E) (env_order E) (collect_items sections rpm_packages_added) T hn = Some merged"
    using assms(3) by (auto simp: merge_rpm_sections_def bind_eq_Some_conv split: if_splits)
  have "distinct (map (tag (package_ops E)) merged)"
    using packages.merge_items_spec [where E = E and T = T, OF legal_env_order [OF assms(1)]
        hosts_in_range_collect [OF assms(2), of rpm_packages_added] ops_uniform(1)] merged by auto
  moreover have "map (tag (package_ops E)) merged = map (\<lambda>k. (k, None)) (map package_id merged)"
    by (simp add: tag_def package_identity) (simp add: package_ops_def)
  ultimately have dm: "distinct (map package_id merged)" by (metis distinct_map)
  define leaves where "leaves = fst (leaf_data sections hn)"
  define kept where "kept = force_include_leaves leaves (leaf_filter leaves (fst (snd (leaf_data sections hn))) merged)"
  have pk: "rpm_packages_added sec = reconcile_source_repo (repo_conflicts E sections kept) kept"
    and cf: "conflicts = repo_conflicts E sections kept"
    using merge_rpm_sections_packages [OF assms(3) merged] by (simp_all add: leaves_def kept_def)
  have dk: "distinct (map package_id kept)"
    using dm by (auto simp: kept_def leaf_filter_def split: option.split intro: distinct_map_filter)
  obtain q where q: "q \<in> set kept"
    and p: "p = (case repo_conflicts E sections kept (package_id q) of
        Some (winner # _) \<Rightarrow> q\<lparr>pe_source_repo := rse_repo winner\<rparr> | _ \<Rightarrow> q)"
    using assms(4) pk by (auto simp: reconcile_source_repo_def)
  have pq: "package_id p = package_id q" unfolding p by simp
  have conf: "repo_conflict E sections q = Some entries"
    using repo_conflicts_lookup(1) [OF dk q] assms(5) cf pq by simp
  obtain w rest where w: "entries = w # rest" "(rse_repo w, rse_host_count w) \<in> set (repo_counts sections q)"
      "\<forall>(r, n) \<in> set (repo_counts sections q). n < rse_host_count w \<or> n = rse_host_count w \<and> rse_repo w \<le> r"
      "\<exists>r r'. r \<in> fst ` set (repo_counts sections q) \<and> r' \<in> fst ` set (repo_counts sections q)
         \<and> repo_tier_of r \<noteq> repo_tier_of r'"
    by (rule repo_conflict_Some [OF assms(1) conf])
  have p': "p = q\<lparr>pe_source_repo := rse_repo w\<rparr>"
    using p repo_conflicts_lookup(1) [OF dk q, of E sections] conf w(1) by simp
  then have "repo_counts sections p = repo_counts sections q" by (simp add: repo_counts_def)
  then show ?thesis using w p' by simp
qed

theorem conflict_resolved_by_majority_witness:
  "\<exists>sec conflicts p. merge_rpm_sections demo_env demo_rpm_hosts 2 [''h1'', ''h2''] None = Some (Some (sec, conflicts))
    \<and> p \<in> set (rpm_packages_added sec) \<and> (pe_source_repo p, 1) \<in> set (repo_counts demo_rpm_hosts p)"
proof -
  obtain sec conflicts p merged where r: "merge_rpm_sections demo_env demo_rpm_hosts 2 [''h1'', ''h2''] None = Some (Some (sec, conflicts))"
    "rpm_packages_added sec = [p]" "package_id p = ''n.x86_64''"
    "conflicts ''n.x86_64'' = Some [\<lparr> rse_repo = ''baseos'', rse_host_count = 1 \<rparr>, \<lparr> rse_repo = ''epel'', rse_host_count = 1 \<rparr>]"
    by (rule demo_rpm_result)
  then have "(pe_source_repo p, 1) \<in> set (repo_counts demo_rpm_hosts p)"
    using conflict_resolved_by_majority [OF demo_env_legal _ r(1), of p] by (simp add: demo_rpm_hosts_def)
  then show ?thesis using r by auto
qed

section \<open>Storage\<close>

text \<open>The merged directories under \<open>/var\<close> name each path of the input once, in sorted
  order. The record kept for a path is the first one, in host order, whose verdict names a
  creator the export can carry; when no host has such a verdict it is the first record.\<close>

theorem var_directories_prefer_carried:
  "map vd_path (merge_var_directories sections) = sort_dedup (map vd_path (flat_items sections sto_var_directories))
   \<and> (\<forall>d \<in> set (merge_var_directories sections).
        let same = filter (\<lambda>e. vd_path e = vd_path d) (flat_items sections sto_var_directories) in
        same \<noteq> [] \<and> (case List.find carries_creator same of Some e \<Rightarrow> d = e | None \<Rightarrow> d = hd same))"
proof -
  let ?xs = "flat_items sections sto_var_directories"
  have ne: "filter (\<lambda>e. vd_path e = k) ?xs \<noteq> []" if "k \<in> set (sort_dedup (map vd_path ?xs))" for k
    using that by (auto simp: filter_empty_conv)
  have path: "vd_path (var_dir_winner (filter (\<lambda>e. vd_path e = k) ?xs)) = k" if "k \<in> set (sort_dedup (map vd_path ?xs))" for k
    using var_dir_winner_in [OF ne [OF that]] by simp
  have "map vd_path (merge_var_directories sections) = sort_dedup (map vd_path ?xs)"
    unfolding merge_var_directories_eq map_map by (intro map_idI) (simp only: comp_apply path)
  moreover have "let same = filter (\<lambda>e. vd_path e = vd_path d) ?xs in
        same \<noteq> [] \<and> (case List.find carries_creator same of Some e \<Rightarrow> d = e | None \<Rightarrow> d = hd same)"
    if mem: "d \<in> set (merge_var_directories sections)" for d
  proof -
    obtain k where k: "k \<in> set (sort_dedup (map vd_path ?xs))" and d: "d = var_dir_winner (filter (\<lambda>e. vd_path e = k) ?xs)"
      using mem unfolding merge_var_directories_eq set_map by blast
    have "vd_path d = k" unfolding d by (rule path [OF k])
    then show ?thesis using ne [OF k] d by (auto simp: var_dir_winner_def split: option.splits)
  qed
  ultimately show ?thesis by blast
qed

definition demo_var_directory :: "string \<Rightarrow> var_dir_backing option \<Rightarrow> var_directory" where
  "demo_var_directory path backing = \<lparr> vd_path = path, vd_backing = backing, vd_mode = None,
     vd_owner_name = None, vd_group_name = None, vd_owner_uid = None, vd_owner_gid = None \<rparr>"

definition demo_storage :: "var_directory list \<Rightarrow> storage_section" where
  "demo_storage dirs = \<lparr> sto_fstab_entries = [], sto_mount_points = [], sto_lvm_info = [],
     sto_var_directories = dirs, sto_credential_refs = [], sto_unbacked_var_advisory = None \<rparr>"

theorem var_directories_prefer_carried_witness:
  "merge_var_directories [Some (demo_storage [demo_var_directory ''/var/a'' None]),
       Some (demo_storage [demo_var_directory ''/var/a'' (Some (RpmOwned ''p''))])]
     = [demo_var_directory ''/var/a'' (Some (RpmOwned ''p''))]"
proof -
  let ?ss = "[Some (demo_storage [demo_var_directory ''/var/a'' None]),
       Some (demo_storage [demo_var_directory ''/var/a'' (Some (RpmOwned ''p''))])]"
  have flat: "flat_items ?ss sto_var_directories
      = [demo_var_directory ''/var/a'' None, demo_var_directory ''/var/a'' (Some (RpmOwned ''p''))]"
    by code_simp
  have paths: "map vd_path (merge_var_directories ?ss) = [''/var/a'']"
    using conjunct1 [OF var_directories_prefer_carried [of ?ss]] unfolding flat
    by (simp add: demo_var_directory_def) code_simp?
  then obtain d where d: "merge_var_directories ?ss = [d]" "vd_path d = ''/var/a''"
    by (cases "merge_var_directories ?ss") auto
  have "d \<in> set (merge_var_directories ?ss)" unfolding d by simp
  note bspec [OF conjunct2 [OF var_directories_prefer_carried [of ?ss]] this, unfolded flat d(2)]
  then have "d = demo_var_directory ''/var/a'' (Some (RpmOwned ''p''))"
    by (simp add: demo_var_directory_def carries_creator_def)
  then show ?thesis using d by simp
qed

section \<open>Kernel and boot\<close>

text \<open>The merged tuned profile is included exactly when some host has a kernel section and
  all hosts with one have the same profile, which is neither empty nor a stock profile.\<close>

theorem tuned_included_iff:
  assumes "merge_kernelboot_sections E sections T hn = Some (Some sec)"
  shows "is_included (kb_tuned_disposition sec) \<longleftrightarrow>
    (\<exists>v. v \<noteq> [] \<and> \<not> is_stock_tuned_profile v \<and> (\<exists>s. Some s \<in> set sections)
       \<and> (\<forall>s. Some s \<in> set sections \<longrightarrow> kb_tuned_active s = v))"
proof -
  let ?w = "most_prevalent_scalar sections kb_tuned_active"
  have "kb_tuned_disposition sec = fk_from_bool (tuned_include sections)"
    using assms by (auto simp: merge_kernelboot_sections_def bind_eq_Some_conv split: if_splits)
  then have "is_included (kb_tuned_disposition sec) \<longleftrightarrow> tuned_include sections"
    by (cases "tuned_include sections") (simp_all add: finding_defs)
  also have "\<dots> \<longleftrightarrow> ?w \<noteq> [] \<and> \<not> is_stock_tuned_profile ?w \<and> (\<forall>s. Some s \<in> set sections \<longrightarrow> kb_tuned_active s = ?w)"
    by (simp add: tuned_include_def Let_def is_scalar_universal_iff)
  also have "\<dots> \<longleftrightarrow> (\<exists>v. v \<noteq> [] \<and> \<not> is_stock_tuned_profile v \<and> (\<exists>s. Some s \<in> set sections)
       \<and> (\<forall>s. Some s \<in> set sections \<longrightarrow> kb_tuned_active s = v))"
  proof
    assume w: "?w \<noteq> [] \<and> \<not> is_stock_tuned_profile ?w \<and> (\<forall>s. Some s \<in> set sections \<longrightarrow> kb_tuned_active s = ?w)"
    then obtain s where "Some s \<in> set sections" using most_prevalent_scalar_empty by metis
    then show "\<exists>v. v \<noteq> [] \<and> \<not> is_stock_tuned_profile v \<and> (\<exists>s. Some s \<in> set sections)
       \<and> (\<forall>s. Some s \<in> set sections \<longrightarrow> kb_tuned_active s = v)" using w by blast
  next
    assume "\<exists>v. v \<noteq> [] \<and> \<not> is_stock_tuned_profile v \<and> (\<exists>s. Some s \<in> set sections)
       \<and> (\<forall>s. Some s \<in> set sections \<longrightarrow> kb_tuned_active s = v)"
    then obtain v s where v: "v \<noteq> []" "\<not> is_stock_tuned_profile v" "Some s \<in> set sections"
      "\<forall>s. Some s \<in> set sections \<longrightarrow> kb_tuned_active s = v" by blast
    then have "?w \<noteq> []" using most_prevalent_scalar_empty by metis
    then have "?w = v" using most_prevalent_scalar_max(1) [OF _ v(1)] v(4) by metis
    then show "?w \<noteq> [] \<and> \<not> is_stock_tuned_profile ?w \<and> (\<forall>s. Some s \<in> set sections \<longrightarrow> kb_tuned_active s = ?w)"
      using v by simp
  qed
  finally show ?thesis .
qed

definition demo_kernel :: "string \<Rightarrow> kernel_boot_section" where
  "demo_kernel profile = \<lparr> kb_cmdline = [], kb_grub_defaults = [], kb_sysctl_overrides = [], kb_loaded_modules = [],
     kb_tuned_active = profile, kb_tuned_disposition = fk_included, kb_locale = None, kb_timezone = None, kb_alternatives = [] \<rparr>"

theorem tuned_included_iff_witness:
  "\<exists>sec. merge_kernelboot_sections demo_env [Some (demo_kernel ''mine''), Some (demo_kernel ''mine'')] 2 [''h1'', ''h2''] = Some (Some sec)
    \<and> is_included (kb_tuned_disposition sec)"
proof -
  let ?ss = "[Some (demo_kernel ''mine''), Some (demo_kernel ''mine'')]"
  have "map_option (\<lambda>x. x = None) (merge_kernelboot_sections demo_env ?ss 2 [''h1'', ''h2'']) = Some False"
    by code_simp
  then obtain sec where sec: "merge_kernelboot_sections demo_env ?ss 2 [''h1'', ''h2''] = Some (Some sec)" by auto
  show ?thesis
    using tuned_included_iff [OF sec] sec by (auto simp: demo_kernel_def is_stock_tuned_profile_def)
qed

section \<open>Users and groups\<close>

lemma merged_other:
  assumes "''name'' \<notin> set fs" "u \<in> set (merge_json_by_name ser lls fs)" "g \<notin> set fs"
  shows "json_get g u = json_get g (hd (same_name lls (json_name u)))"
proof -
  obtain n where n: "n \<in> set (sort_dedup (map json_name (concat lls)))"
    and u: "u = combine (union_fields ser fs) (same_name lls n)"
    using assms(2) unfolding merge_json_by_name_eq by auto
  have ne: "same_name lls n \<noteq> []" using n by (rule same_name_nonempty)
  have "json_name u = n" unfolding u by (rule combine_name [OF assms(1) ne])
  moreover obtain x xs where x: "same_name lls n = x # xs" using ne by (cases "same_name lls n") auto
  ultimately show ?thesis using fold_union_other [OF assms(3), of ser x xs] u by simp
qed

text \<open>Merging users or groups keeps one object per name, sorted by name. A listed array
  field of the merged object holds exactly the members the same-named objects have together,
  provided the first of them has that array; otherwise the field stays as the first object has
  it, and the arrays of later hosts are lost. Every other field is the first object's.\<close>

theorem merge_by_name_unites:
  assumes "''name'' \<notin> set fs" "distinct fs"
  shows "map json_name (merge_json_by_name ser lls fs) = sort_dedup (map json_name (concat lls))
    \<and> (\<forall>u \<in> set (merge_json_by_name ser lls fs). let same = same_name lls (json_name u) in
         same \<noteq> []
         \<and> (\<forall>f \<in> set fs. if has_array f (hd same)
              then set (array_of f u) = (\<Union>v \<in> set same. set (array_of f v))
              else json_get f u = json_get f (hd same))
         \<and> (\<forall>g. g \<notin> set fs \<longrightarrow> json_get g u = json_get g (hd same)))"
proof -
  have "let same = same_name lls (json_name u) in same \<noteq> []
         \<and> (\<forall>f \<in> set fs. if has_array f (hd same)
              then set (array_of f u) = (\<Union>v \<in> set same. set (array_of f v))
              else json_get f u = json_get f (hd same))
         \<and> (\<forall>g. g \<notin> set fs \<longrightarrow> json_get g u = json_get g (hd same))"
    if u: "u \<in> set (merge_json_by_name ser lls fs)" for u
  proof -
    have "json_name u \<in> set (map json_name (merge_json_by_name ser lls fs))" using u by simp
    then have names: "json_name u \<in> set (sort_dedup (map json_name (concat lls)))"
      by (simp only: merged_names [OF assms(1)])
    note ne = same_name_nonempty [OF names]
    have "if has_array f (hd (same_name lls (json_name u)))
        then set (array_of f u) = (\<Union>v \<in> set (same_name lls (json_name u)). set (array_of f v))
        else json_get f u = json_get f (hd (same_name lls (json_name u)))" if f: "f \<in> set fs" for f
      using merged_fields(2,3) [OF assms f u] by (simp split: if_split)
    then show ?thesis
      unfolding Let_def using ne merged_other [OF assms(1) u] by blast
  qed
  then show ?thesis using merged_names [OF assms(1)] by blast
qed

definition demo_user :: "string \<Rightarrow> string list \<Rightarrow> json" where
  "demo_user name groups = JObj [(''groups'', JArr (map JStr groups)), (''name'', JStr name)]"

theorem merge_by_name_unites_witness:
  "map json_name (merge_json_by_name (\<lambda>_. []) [[demo_user ''b'' [''x'']], [demo_user ''a'' [], demo_user ''b'' [''y'']]] [''groups''])
     = sort_dedup [''b'', ''a'', ''b'']"
  using merge_by_name_unites [of "[''groups'']" "\<lambda>_. []" "[[demo_user ''b'' [''x'']], [demo_user ''a'' [], demo_user ''b'' [''y'']]]"]
  by (simp add: demo_user_def json_name_def)

section \<open>Unmanaged files\<close>

text \<open>The totals of the merged section are those of its items: their number, and the sum of
  their sizes modulo \<open>2^64\<close>. There are no entries for \<open>/usr\<close>.\<close>

theorem unmanaged_totals:
  assumes "merge_unmanaged_file_sections E sections T hn = Some (Some sec)"
  shows "ufs_total_count sec = length (ufs_items sec)
    \<and> uint (ufs_total_size sec) = (\<Sum>f \<leftarrow> ufs_items sec. uint (uf_size f)) mod 2 ^ 64
    \<and> ufs_usr_entries sec = []"
proof -
  have sum: "uint (sum_list (map uf_size fs)) = (\<Sum>f \<leftarrow> fs. uint (uf_size f)) mod 2 ^ 64" for fs :: "unmanaged_file list"
  proof (induction fs)
    case (Cons f fs)
    have "uint (uf_size f + sum_list (map uf_size fs)) = (uint (uf_size f) + uint (sum_list (map uf_size fs))) mod 2 ^ 64"
      by (simp add: uint_word_ariths)
    then show ?case by (simp add: Cons.IH mod_add_right_eq)
  qed simp
  show ?thesis
    using assms sum by (auto simp: merge_unmanaged_file_sections_def bind_eq_Some_conv split: if_splits)
qed

definition demo_unmanaged_section :: "unmanaged_file_section" where
  "demo_unmanaged_section = \<lparr> ufs_items = [demo_unmanaged ''ab''], ufs_usr_entries = [], ufs_total_size = 0, ufs_total_count = 0 \<rparr>"

theorem unmanaged_totals_witness:
  "\<exists>sec. merge_unmanaged_file_sections demo_env [Some demo_unmanaged_section, None] 2 [''h1'', ''h2''] = Some (Some sec)
    \<and> ufs_total_count sec = length (ufs_items sec) \<and> length (ufs_items sec) = 1"
proof -
  have "map_option (map_option (\<lambda>sec. length (ufs_items sec)))
      (merge_unmanaged_file_sections demo_env [Some demo_unmanaged_section, None] 2 [''h1'', ''h2'']) = Some (Some 1)"
    by code_simp
  then obtain sec where "merge_unmanaged_file_sections demo_env [Some demo_unmanaged_section, None] 2 [''h1'', ''h2''] = Some (Some sec)"
    "length (ufs_items sec) = 1" by auto
  then show ?thesis using unmanaged_totals by blast
qed

section \<open>Validation\<close>

text \<open>C38. Validation reports no error exactly when there are at least two snapshots, all of one
  schema version, with distinct host names, no two different architectures, no two different
  OS major versions, and none empty.\<close>

theorem validation_passes_iff:
  assumes "legal_env E"
  shows "avr_errors (validate_snapshots E snaps) = [] \<longleftrightarrow>
     2 \<le> length snaps
     \<and> (\<forall>a \<in> set snaps. \<forall>b \<in> set snaps. snap_schema_version a = snap_schema_version b)
     \<and> distinct (map extract_hostname snaps)
     \<and> (\<forall>i < length snaps. \<forall>j < length snaps. \<forall>a b. extract_architecture (env_arch_order E i) (snaps ! i) = Some a \<longrightarrow>
          extract_architecture (env_arch_order E j) (snaps ! j) = Some b \<longrightarrow> a = b)
     \<and> (\<forall>a \<in> set snaps. \<forall>b \<in> set snaps. \<forall>u v. extract_os_major_version a = Some u \<longrightarrow> extract_os_major_version b = Some v \<longrightarrow> u = v)
     \<and> (\<forall>s \<in> set snaps. \<not> is_empty_snapshot s)"
  by (rule validate_ok_iff [OF assms])

definition demo_snapshot :: "string \<Rightarrow> inspection_snapshot" where
  "demo_snapshot host = snapshot_new\<lparr> snap_meta := [''hostname'' \<mapsto> JStr host],
     snap_kernel_boot := Some (demo_kernel ''mine'') \<rparr>"

theorem validation_passes_iff_witness:
  "avr_errors (validate_snapshots demo_env [demo_snapshot ''h1'', demo_snapshot ''h2'']) = []"
  by (subst validation_passes_iff [OF demo_env_legal])
    (auto simp: demo_snapshot_def snapshot_new_def extract_hostname_def extract_meta_string_def less_Suc_eq
      extract_architecture_def extract_os_major_version_def is_empty_snapshot_def)

text \<open>The architecture check is not a function of the snapshots. Two hosts with the same
  packages, as many of one architecture as of another, pass it under one iteration order of
  the hash maps and fail it under another.\<close>

definition demo_multilib :: "string \<Rightarrow> inspection_snapshot" where
  "demo_multilib host = snapshot_new\<lparr> snap_meta := [''hostname'' \<mapsto> JStr host],
     snap_rpm := Some (demo_rpm [demo_package ''a'' ''r'', (demo_package ''a'' ''r'')\<lparr>pe_arch := ''i686''\<rparr>] None) \<rparr>"

theorem architecture_tie_nondeterministic:
  "\<exists>E E'. legal_env E \<and> legal_env E' \<and> same_functions E E'
    \<and> check_architecture E [demo_multilib ''h1'', demo_multilib ''h2''] = []
    \<and> check_architecture E' [demo_multilib ''h1'', demo_multilib ''h2''] = [ArchitectureMismatch [''i686'', ''x86_64'']]"
proof -
  let ?E' = "demo_env\<lparr>env_arch_order := \<lambda>i ks. if i = 0 then ks else rev ks\<rparr>"
  have "legal_env ?E'" by (simp add: legal_env_def legal_order_def)
  moreover have "same_functions demo_env ?E'" by (simp add: same_functions_def)
  moreover have "check_architecture demo_env [demo_multilib ''h1'', demo_multilib ''h2''] = []" by code_simp
  moreover have "check_architecture ?E' [demo_multilib ''h1'', demo_multilib ''h2''] = [ArchitectureMismatch [''i686'', ''x86_64'']]"
    by code_simp
  ultimately show ?thesis using demo_env_legal by blast
qed

end
