(* ===== verification/MergeOutcome.thy ===== *)
theory MergeOutcome
  imports MergeGuarantees
begin

text \<open>
  What a successful merge returns (\<open>aggregate/mod.rs\<close>): which sections are present, the host
  counts, the choice of the target image and of the baseline host, the completeness and the
  subscription. The properties of the root theory are read off these lemmas.
\<close>

section \<open>Which sections are present\<close>

lemma rpm_result:
  assumes "merge_rpm_sections E ss T hn idx = Some r"
  shows "r = None \<longleftrightarrow> all_none ss"
    and "r = Some (sec, conflicts) \<Longrightarrow>
      rpm_base_image sec = Option.bind idx (\<lambda>i. baseline_host_option ss i rpm_base_image)
      \<and> rpm_baseline_package_names sec = Option.bind idx (\<lambda>i. baseline_host_option ss i rpm_baseline_package_names)
      \<and> rpm_baseline_suppressed sec = Option.bind idx (\<lambda>i. baseline_host_option ss i rpm_baseline_suppressed)
      \<and> rpm_baseline_module_streams sec = Option.bind idx (\<lambda>i. baseline_host_option ss i rpm_baseline_module_streams)"
proof -
  obtain a b c where ld: "leaf_data ss hn = (a, b, c)" by (rule prod_cases3)
  note inv = assms [unfolded merge_rpm_sections_def Let_def ld prod.case]
  show "r = None \<longleftrightarrow> all_none ss"
  proof (cases "all_none ss")
    case False
    then show ?thesis using inv [unfolded if_not_P [OF False] bind_eq_Some_conv option.inject]
      by (elim exE conjE, hypsubst) (simp (no_asm_simp))
  qed (use inv in simp)
  show "r = Some (sec, conflicts) \<Longrightarrow>
      rpm_base_image sec = Option.bind idx (\<lambda>i. baseline_host_option ss i rpm_base_image)
      \<and> rpm_baseline_package_names sec = Option.bind idx (\<lambda>i. baseline_host_option ss i rpm_baseline_package_names)
      \<and> rpm_baseline_suppressed sec = Option.bind idx (\<lambda>i. baseline_host_option ss i rpm_baseline_suppressed)
      \<and> rpm_baseline_module_streams sec = Option.bind idx (\<lambda>i. baseline_host_option ss i rpm_baseline_module_streams)"
  proof -
    assume r: "r = Some (sec, conflicts)"
    have False: "\<not> all_none ss" using inv r by (auto split: if_splits)
    show ?thesis
      using inv [unfolded if_not_P [OF False] r bind_eq_Some_conv option.inject prod.inject]
      by (elim exE conjE, hypsubst) (simp (no_asm_simp))
  qed
qed

lemma config_present:
  "merge_config_sections E ss T hn = Some r \<Longrightarrow> r = None \<longleftrightarrow> all_none ss"
  unfolding merge_config_sections_def Let_def by (auto simp: bind_eq_Some_conv split: if_splits prod.splits)

lemma service_present:
  "merge_service_sections E ss T hn = Some r \<Longrightarrow> r = None \<longleftrightarrow> all_none ss"
  unfolding merge_service_sections_def Let_def by (auto simp: bind_eq_Some_conv split: if_splits prod.splits)

lemma network_present:
  "merge_network_sections E ss T hn = Some r \<Longrightarrow> r = None \<longleftrightarrow> all_none ss"
  unfolding merge_network_sections_def Let_def by (auto simp: bind_eq_Some_conv split: if_splits prod.splits)

lemma storage_present:
  "merge_storage_sections E ss T hn = Some r \<Longrightarrow> r = None \<longleftrightarrow> all_none ss"
  unfolding merge_storage_sections_def Let_def by (auto simp: bind_eq_Some_conv split: if_splits prod.splits)

lemma scheduled_present:
  "merge_scheduled_sections E ss T hn = Some r \<Longrightarrow> r = None \<longleftrightarrow> all_none ss"
  unfolding merge_scheduled_sections_def Let_def by (auto simp: bind_eq_Some_conv split: if_splits prod.splits)

lemma container_present:
  "merge_container_sections E ss T hn = Some r \<Longrightarrow> r = None \<longleftrightarrow> all_none ss"
  unfolding merge_container_sections_def Let_def by (auto simp: bind_eq_Some_conv split: if_splits prod.splits)

lemma nonrpm_present:
  "merge_nonrpm_sections E ss T hn = Some r \<Longrightarrow> r = None \<longleftrightarrow> all_none ss"
  unfolding merge_nonrpm_sections_def Let_def by (auto simp: bind_eq_Some_conv split: if_splits prod.splits)

lemma unmanaged_file_present:
  "merge_unmanaged_file_sections E ss T hn = Some r \<Longrightarrow> r = None \<longleftrightarrow> all_none ss"
  unfolding merge_unmanaged_file_sections_def Let_def by (auto simp: bind_eq_Some_conv split: if_splits prod.splits)

lemma kernelboot_present:
  "merge_kernelboot_sections E ss T hn = Some r \<Longrightarrow> r = None \<longleftrightarrow> all_none ss"
  unfolding merge_kernelboot_sections_def Let_def by (auto simp: bind_eq_Some_conv split: if_splits prod.splits)

lemma selinux_present:
  "merge_selinux_sections E ss T hn = Some r \<Longrightarrow> r = None \<longleftrightarrow> all_none ss"
  unfolding merge_selinux_sections_def Let_def by (auto simp: bind_eq_Some_conv split: if_splits prod.splits)

lemma usersgroups_present: "merge_usersgroups_sections E ss = None \<longleftrightarrow> all_none ss"
  by (simp add: merge_usersgroups_sections_def Let_def)

lemma all_none_map: "all_none (map f snaps) \<longleftrightarrow> \<not> (\<exists>s \<in> set snaps. f s \<noteq> None)"
  by (auto simp: all_none_def list_all_iff)

text \<open>The fields of the result of \<open>merge_sorted\<close>.\<close>

lemma merge_sorted_fields:
  assumes "merge_sorted E now snaps hn label ov = Some merged"
  shows "snap_target_image merged = fst (select_target_image E snaps ov)"
    and "snap_baseline merged = select_baseline snaps (snap_target_image merged)"
    and "snap_completeness merged = merge_completeness snaps"
    and "snap_subscription merged = merge_subscription snaps"
    and "snap_aggregate_meta merged = Some \<lparr>
           am_label = (case label of None \<Rightarrow> ''aggregate'' | Some l \<Rightarrow> l),
           am_host_count = length snaps, am_hostnames = hn, am_merged_at = now,
           am_baseline_provisional = snd (select_target_image E snaps ov),
           am_section_host_counts = compute_section_host_counts snaps \<rparr>"
    and "\<exists>r. merge_rpm_sections E (map snap_rpm snaps) (length snaps) hn (find_baseline_host_idx snaps (snap_target_image merged)) = Some r
           \<and> snap_rpm merged = map_option fst r"
    and "merge_config_sections E (map snap_config snaps) (length snaps) hn = Some (snap_config merged)"
    and "merge_service_sections E (map snap_services snaps) (length snaps) hn = Some (snap_services merged)"
    and "merge_network_sections E (map snap_network snaps) (length snaps) hn = Some (snap_network merged)"
    and "merge_storage_sections E (map snap_storage snaps) (length snaps) hn = Some (snap_storage merged)"
    and "merge_scheduled_sections E (map snap_scheduled_tasks snaps) (length snaps) hn = Some (snap_scheduled_tasks merged)"
    and "merge_container_sections E (map snap_containers snaps) (length snaps) hn = Some (snap_containers merged)"
    and "merge_nonrpm_sections E (map snap_non_rpm_software snaps) (length snaps) hn = Some (snap_non_rpm_software merged)"
    and "merge_unmanaged_file_sections E (map snap_unmanaged_files snaps) (length snaps) hn = Some (snap_unmanaged_files merged)"
    and "merge_kernelboot_sections E (map snap_kernel_boot snaps) (length snaps) hn = Some (snap_kernel_boot merged)"
    and "merge_selinux_sections E (map snap_selinux snaps) (length snaps) hn = Some (snap_selinux merged)"
    and "snap_users_groups merged = merge_usersgroups_sections E (map snap_users_groups snaps)"
proof -
  obtain ti prov where ti: "select_target_image E snaps ov = (ti, prov)" by fastforce
  note inv = assms [unfolded merge_sorted_def Let_def ti prod.case bind_eq_Some_conv option.inject]
  show "snap_target_image merged = fst (select_target_image E snaps ov)"
    using inv by (elim exE conjE, hypsubst) (simp (no_asm_simp) add: ti)
  show "snap_baseline merged = select_baseline snaps (snap_target_image merged)"
    using inv by (elim exE conjE, hypsubst) (simp (no_asm_simp) add: ti)
  show "snap_completeness merged = merge_completeness snaps"
    using inv by (elim exE conjE, hypsubst) (simp (no_asm_simp) add: ti)
  show "snap_subscription merged = merge_subscription snaps"
    using inv by (elim exE conjE, hypsubst) (simp (no_asm_simp) add: ti)
  show "snap_aggregate_meta merged = Some \<lparr>
           am_label = (case label of None \<Rightarrow> ''aggregate'' | Some l \<Rightarrow> l),
           am_host_count = length snaps, am_hostnames = hn, am_merged_at = now,
           am_baseline_provisional = snd (select_target_image E snaps ov),
           am_section_host_counts = compute_section_host_counts snaps \<rparr>"
    using inv by (elim exE conjE, hypsubst) (simp (no_asm_simp) add: ti)
  show "\<exists>r. merge_rpm_sections E (map snap_rpm snaps) (length snaps) hn (find_baseline_host_idx snaps (snap_target_image merged)) = Some r
           \<and> snap_rpm merged = map_option fst r"
    using inv by (elim exE conjE, hypsubst) (simp (no_asm_simp) add: ti)
  show "merge_config_sections E (map snap_config snaps) (length snaps) hn = Some (snap_config merged)"
    using inv by (elim exE conjE, hypsubst) (simp (no_asm_simp) add: ti)
  show "merge_service_sections E (map snap_services snaps) (length snaps) hn = Some (snap_services merged)"
    using inv by (elim exE conjE, hypsubst) (simp (no_asm_simp) add: ti)
  show "merge_network_sections E (map snap_network snaps) (length snaps) hn = Some (snap_network merged)"
    using inv by (elim exE conjE, hypsubst) (simp (no_asm_simp) add: ti)
  show "merge_storage_sections E (map snap_storage snaps) (length snaps) hn = Some (snap_storage merged)"
    using inv by (elim exE conjE, hypsubst) (simp (no_asm_simp) add: ti)
  show "merge_scheduled_sections E (map snap_scheduled_tasks snaps) (length snaps) hn = Some (snap_scheduled_tasks merged)"
    using inv by (elim exE conjE, hypsubst) (simp (no_asm_simp) add: ti)
  show "merge_container_sections E (map snap_containers snaps) (length snaps) hn = Some (snap_containers merged)"
    using inv by (elim exE conjE, hypsubst) (simp (no_asm_simp) add: ti)
  show "merge_nonrpm_sections E (map snap_non_rpm_software snaps) (length snaps) hn = Some (snap_non_rpm_software merged)"
    using inv by (elim exE conjE, hypsubst) (simp (no_asm_simp) add: ti)
  show "merge_unmanaged_file_sections E (map snap_unmanaged_files snaps) (length snaps) hn = Some (snap_unmanaged_files merged)"
    using inv by (elim exE conjE, hypsubst) (simp (no_asm_simp) add: ti)
  show "merge_kernelboot_sections E (map snap_kernel_boot snaps) (length snaps) hn = Some (snap_kernel_boot merged)"
    using inv by (elim exE conjE, hypsubst) (simp (no_asm_simp) add: ti)
  show "merge_selinux_sections E (map snap_selinux snaps) (length snaps) hn = Some (snap_selinux merged)"
    using inv by (elim exE conjE, hypsubst) (simp (no_asm_simp) add: ti)
  show "snap_users_groups merged = merge_usersgroups_sections E (map snap_users_groups snaps)"
    using inv by (elim exE conjE, hypsubst) (simp (no_asm_simp) add: ti)
qed

section \<open>The host counts of the sections\<close>

lemma counts_lookup:
  assumes "distinct (map fst cs)"
  shows "foldl (\<lambda>m (k, n). if n > (0::nat) then m(k \<mapsto> n) else m) m0 cs k =
    (case map_of cs k of Some n \<Rightarrow> if n > 0 then Some n else m0 k | None \<Rightarrow> m0 k)"
  using assms
proof (induction cs arbitrary: m0)
  case (Cons c cs)
  obtain k' n where c: "c = (k', n)" by (cases c)
  have "map_of cs k' = None" using Cons.prems c by (simp add: map_of_eq_None_iff)
  then show ?case using Cons c by (auto split: option.split)
qed simp

lemma section_checkers_distinct: "distinct (map fst section_checkers)"
  by (simp add: section_checkers_def)

lemma section_host_count:
  assumes "(name, present) \<in> set section_checkers"
  shows "compute_section_host_counts snaps name =
    (if \<exists>s \<in> set snaps. present s then Some (length (filter present snaps)) else None)"
proof -
  let ?cs = "map (\<lambda>(k, c). (k, length (filter c snaps))) section_checkers"
  have "compute_section_host_counts snaps = foldl (\<lambda>m (k, n). if n > 0 then m(k \<mapsto> n) else m) Map.empty ?cs"
    by (simp add: compute_section_host_counts_def foldl_map case_prod_unfold Let_def cong: if_cong)
  moreover have "distinct (map fst ?cs)"
    using section_checkers_distinct by (simp add: case_prod_beta comp_def)
  moreover from this have "map_of ?cs name = Some (length (filter present snaps))"
    using assms by (force intro: map_of_is_SomeI)
  ultimately show ?thesis
    by (auto simp: counts_lookup filter_empty_conv)
qed

section \<open>The baseline host\<close>

lemma position_Some:
  "position P xs = Some i \<longleftrightarrow> i < length xs \<and> P (xs ! i) \<and> (\<forall>j < i. \<not> P (xs ! j))"
proof (induction xs arbitrary: i)
  case (Cons x xs)
  then show ?case by (cases i) (auto simp: less_Suc_eq_0_disj)
qed simp

lemma position_find: "List.find P xs = map_option ((!) xs) (position P xs)"
  by (induction xs) (auto simp: option.map_comp comp_def)

lemma select_baseline_position:
  "select_baseline snaps target = Option.bind (find_baseline_host_idx snaps target) (\<lambda>i. snap_baseline (snaps ! i))"
proof (cases target)
  case (Some t)
  then show ?thesis
    by (cases "position (has_baseline_for (ti_image_ref t)) snaps")
      (simp_all add: select_baseline_def find_baseline_host_idx_def position_find)
qed (simp add: select_baseline_def find_baseline_host_idx_def)

section \<open>The target image\<close>

lemma map_filter_mem: "y \<in> set (List.map_filter f xs) \<longleftrightarrow> (\<exists>x \<in> set xs. f x = Some y)"
  by (force simp: List.map_filter_def)

definition image_refs :: "inspection_snapshot list \<Rightarrow> string list" where
  "image_refs snaps = List.map_filter (\<lambda>s. map_option ti_image_ref (snap_target_image s)) snaps"

lemma rank_images_distinct:
  assumes "legal_env E"
  shows "distinct (map fst (rank_images E snaps))"
proof -
  let ?c = "count_by (\<lambda>r. r) (image_refs snaps)"
  have "mset (rank_images E snaps) = mset ?c"
    using assms by (simp add: rank_images_def image_refs_def legal_env_def hm_iter_mset)
  then have "mset (map fst (rank_images E snaps)) = mset (map fst ?c)" by (simp only: mset_map)
  then show ?thesis using mset_eq_imp_distinct_iff distinct_fst_count_by by metis
qed

lemma rank_images_head:
  assumes "legal_env E" "rank_images E snaps = (r, n) # others"
  shows "r \<in> set (image_refs snaps)" "n = count_list (image_refs snaps) r"
    "r' \<in> set (image_refs snaps) \<Longrightarrow> count_list (image_refs snaps) r' < n
       \<or> count_list (image_refs snaps) r' = n \<and> r \<le> r'"
    "others \<noteq> [] \<longleftrightarrow> (\<exists>r' \<in> set (image_refs snaps). r' \<noteq> r)"
proof -
  note mem = rank_images_mem [OF assms(1), of _ _ snaps, folded image_refs_def]
  have head: "n = count_list (image_refs snaps) r" "r \<in> set (image_refs snaps)"
    using mem [of r n] assms(2) by simp_all
  show "r \<in> set (image_refs snaps)" "n = count_list (image_refs snaps) r" by (rule head(2) head(1))+
  have sorted: "sorted (map (\<lambda>(image_ref, n). (- int n, image_ref)) ((r, n) # others))"
    using assms(2) by (metis rank_images_def sorted_sort_key)
  show "count_list (image_refs snaps) r' < n \<or> count_list (image_refs snaps) r' = n \<and> r \<le> r'"
    if r': "r' \<in> set (image_refs snaps)" for r'
  proof -
    have "(r', count_list (image_refs snaps) r') \<in> set ((r, n) # others)" using mem r' assms(2) by metis
    then show ?thesis using sorted by (auto simp: less_eq_prod_def)
  qed
  show "others \<noteq> [] \<longleftrightarrow> (\<exists>r' \<in> set (image_refs snaps). r' \<noteq> r)"
  proof
    assume "others \<noteq> []"
    then obtain r' n' where o: "(r', n') \<in> set others" by (metis list.set_intros(1) neq_Nil_conv surj_pair)
    have "r' \<noteq> r" using rank_images_distinct [OF assms(1), of snaps] o assms(2) by (force simp: image_iff)
    moreover have "r' \<in> set (image_refs snaps)" using mem [of r' n'] o assms(2) by simp
    ultimately show "\<exists>r' \<in> set (image_refs snaps). r' \<noteq> r" by blast
  next
    assume "\<exists>r' \<in> set (image_refs snaps). r' \<noteq> r"
    then obtain r' where "r' \<in> set (image_refs snaps)" "r' \<noteq> r" by blast
    then have "(r', count_list (image_refs snaps) r') \<in> set others" using mem assms(2) by (metis prod.inject set_ConsD)
    then show "others \<noteq> []" by auto
  qed
qed

text \<open>The target image without an override.\<close>

lemma select_target_image_choice:
  assumes "legal_env E" "select_target_image E snaps None = (Some ti, provisional)"
  shows "\<exists>s \<in> set snaps. snap_target_image s = Some ti"
    and "\<forall>r \<in> set (image_refs snaps). count_list (image_refs snaps) r < count_list (image_refs snaps) (ti_image_ref ti)
       \<or> count_list (image_refs snaps) r = count_list (image_refs snaps) (ti_image_ref ti) \<and> ti_image_ref ti \<le> r"
    and "provisional \<longleftrightarrow> (\<exists>r \<in> set (image_refs snaps). r \<noteq> ti_image_ref ti)"
proof -
  obtain r n others where rank: "rank_images E snaps = (r, n) # others"
    using assms(2) by (auto simp: select_target_image_def split: list.splits)
  note head = rank_images_head [OF assms(1) rank]
  obtain s0 where s0: "s0 \<in> set snaps" "image_ref_is r s0"
    using head(1) by (auto simp: image_refs_def map_filter_mem image_ref_is_def split: option.splits)
  then obtain s where s: "List.find (image_ref_is r) snaps = Some s"
    by (cases "List.find (image_ref_is r) snaps") (auto simp: find_None_iff)
  then have mem: "s \<in> set snaps" and "image_ref_is r s" by (auto simp: find_Some_iff)
  then obtain t where t: "snap_target_image s = Some t" "ti_image_ref t = r"
    by (auto simp: image_ref_is_def split: option.splits)
  have ti: "ti = t" "provisional = (others \<noteq> [])"
    using assms(2) rank s t by (auto simp: select_target_image_def Let_def)
  show "\<exists>s \<in> set snaps. snap_target_image s = Some ti" using mem t(1) ti(1) by blast
  show "\<forall>r \<in> set (image_refs snaps). count_list (image_refs snaps) r < count_list (image_refs snaps) (ti_image_ref ti)
       \<or> count_list (image_refs snaps) r = count_list (image_refs snaps) (ti_image_ref ti) \<and> ti_image_ref ti \<le> r"
    using head(3) unfolding ti(1) t(2) head(2) by blast
  show "provisional \<longleftrightarrow> (\<exists>r \<in> set (image_refs snaps). r \<noteq> ti_image_ref ti)"
    using head(4) unfolding ti t(2) by simp
qed

lemma select_target_image_none:
  assumes "legal_env E"
  shows "fst (select_target_image E snaps None) = None \<longleftrightarrow> image_refs snaps = []"
proof -
  have "rank_images E snaps = [] \<longleftrightarrow> image_refs snaps = []"
    using rank_images_mem [OF assms, of _ _ snaps, folded image_refs_def]
    by (cases "rank_images E snaps"; cases "image_refs snaps") (auto simp: set_eq_iff)
  then show ?thesis by (cases "rank_images E snaps") (simp_all add: select_target_image_def Let_def split: prod.split)
qed

section \<open>Completeness\<close>

lemma add_new_set [simp]: "set (add_new acc xs) = set acc \<union> set xs"
  by (induction acc xs rule: add_new.induct) auto

lemma add_new_distinct: "distinct acc \<Longrightarrow> distinct (add_new acc xs)"
  by (induction acc xs rule: add_new.induct) auto

definition degraded_of :: "completeness \<Rightarrow> inspector_id set" where
  "degraded_of c = (case c of Complete \<Rightarrow> {} | Partial d _ \<Rightarrow> set d | Incomplete _ d _ \<Rightarrow> set d)"

definition failed_of :: "completeness \<Rightarrow> inspector_id set" where
  "failed_of c = (case c of Incomplete f _ _ \<Rightarrow> set f | _ \<Rightarrow> {})"

lemma add_reason_simps [simp]:
  "cst_incomplete (add_reason r st) = cst_incomplete st" "cst_partial (add_reason r st) = cst_partial st"
  "cst_failed (add_reason r st) = cst_failed st" "cst_degraded (add_reason r st) = cst_degraded st"
  by (simp_all add: add_reason_def)

lemma completeness_fold:
  defines "run st cs \<equiv> foldl completeness_step st cs"
  shows "cst_incomplete (run st cs) \<longleftrightarrow> cst_incomplete st \<or> (\<exists>c \<in> set cs. is_incomplete c)"
    and "cst_partial (run st cs) \<longleftrightarrow> cst_partial st \<or> (\<exists>c \<in> set cs. is_partial c)"
    and "set (cst_failed (run st cs)) = set (cst_failed st) \<union> (\<Union>c \<in> set cs. failed_of c)"
    and "set (cst_degraded (run st cs)) = set (cst_degraded st) \<union> (\<Union>c \<in> set cs. degraded_of c)"
    and "distinct (cst_failed st) \<Longrightarrow> distinct (cst_failed (run st cs))"
    and "distinct (cst_degraded st) \<Longrightarrow> distinct (cst_degraded (run st cs))"
proof -
  have step: "cst_incomplete (completeness_step st c) \<longleftrightarrow> cst_incomplete st \<or> is_incomplete c"
    "cst_partial (completeness_step st c) \<longleftrightarrow> cst_partial st \<or> is_partial c"
    "set (cst_failed (completeness_step st c)) = set (cst_failed st) \<union> failed_of c"
    "set (cst_degraded (completeness_step st c)) = set (cst_degraded st) \<union> degraded_of c"
    "distinct (cst_failed st) \<Longrightarrow> distinct (cst_failed (completeness_step st c))"
    "distinct (cst_degraded st) \<Longrightarrow> distinct (cst_degraded (completeness_step st c))" for st c
    by (cases c; simp add: is_incomplete_def is_partial_def failed_of_def degraded_of_def add_new_distinct)+
  show "cst_incomplete (run st cs) \<longleftrightarrow> cst_incomplete st \<or> (\<exists>c \<in> set cs. is_incomplete c)"
    "cst_partial (run st cs) \<longleftrightarrow> cst_partial st \<or> (\<exists>c \<in> set cs. is_partial c)"
    "set (cst_failed (run st cs)) = set (cst_failed st) \<union> (\<Union>c \<in> set cs. failed_of c)"
    "set (cst_degraded (run st cs)) = set (cst_degraded st) \<union> (\<Union>c \<in> set cs. degraded_of c)"
    "distinct (cst_failed st) \<Longrightarrow> distinct (cst_failed (run st cs))"
    "distinct (cst_degraded st) \<Longrightarrow> distinct (cst_degraded (run st cs))"
    unfolding run_def by (induction cs arbitrary: st) (simp_all add: step Un_assoc)
qed

section \<open>The subscription\<close>

text \<open>The later expiry wins, a known one over an unknown one, then the smaller host name.\<close>

definition subscription_beats :: "inspection_snapshot \<Rightarrow> inspection_snapshot \<Rightarrow> bool" where
  "subscription_beats s t \<longleftrightarrow>
     (case (Option.bind (snap_subscription s) sub_earliest_expiry, Option.bind (snap_subscription t) sub_earliest_expiry) of
        (Some x, Some y) \<Rightarrow> y < x \<or> y = x \<and> subscription_hostname s \<le> subscription_hostname t
      | (Some _, None) \<Rightarrow> True
      | (None, Some _) \<Rightarrow> False
      | (None, None) \<Rightarrow> subscription_hostname s \<le> subscription_hostname t)"

lemma subscription_cmp_beats:
  "subscription_cmp a b = Greater \<Longrightarrow> subscription_beats a b"
  "subscription_cmp a b \<noteq> Greater \<Longrightarrow> subscription_beats b a"
  by (auto simp: subscription_cmp_def subscription_beats_def cmp_of_def split: option.splits if_splits)

lemma subscription_beats_refl: "subscription_beats s s"
  by (simp add: subscription_beats_def split: option.split)

lemma subscription_beats_trans:
  "subscription_beats a b \<Longrightarrow> subscription_beats b c \<Longrightarrow> subscription_beats a c"
  by (auto simp: subscription_beats_def split: option.splits)

lemma max_by_beats:
  assumes "max_by subscription_cmp xs = Some m"
  shows "m \<in> set xs" "\<forall>x \<in> set xs. subscription_beats m x"
proof -
  define pick where "pick = (\<lambda>best x. if subscription_cmp best x = Greater then best else x)"
  have run: "foldl pick y ys \<in> set (y # ys) \<and> (\<forall>x \<in> set (y # ys). subscription_beats (foldl pick y ys) x)" for y ys
  proof (induction ys arbitrary: y)
    case (Cons x ys)
    have "pick y x \<in> {y, x}" "subscription_beats (pick y x) y" "subscription_beats (pick y x) x"
      using subscription_cmp_beats [of y x] subscription_beats_refl by (auto simp: pick_def)
    note p = this
    define m where "m = foldl pick (pick y x) ys"
    have IH: "m \<in> set (pick y x # ys)" "\<forall>z \<in> set (pick y x # ys). subscription_beats m z"
      using Cons.IH [of "pick y x"] unfolding m_def by blast+
    have "subscription_beats m (pick y x)" using IH(2) by simp
    then have "subscription_beats m y" "subscription_beats m x" using p(2,3) subscription_beats_trans by blast+
    moreover have "m \<in> set (y # x # ys)" using IH(1) p(1) by (simp only: set_ConsD list.set) blast
    ultimately show ?case using IH(2) unfolding foldl_Cons m_def [symmetric] by simp
  qed (simp add: subscription_beats_refl)
  obtain y ys where "xs = y # ys" "m = foldl pick y ys"
    using assms by (cases xs) (auto simp: max_by_def pick_def)
  then show "m \<in> set xs" "\<forall>x \<in> set xs. subscription_beats m x" using run [of y ys] by simp_all
qed

end
