(* ===== verification/RefineTypes.thy ===== *)
theory RefineTypes
  imports Mergeable Validate
begin

text \<open>
  The vocabulary of a refine session (\<open>crates/refine/src/types.rs\<close>): the identity of an
  item, the operations and view directives a user records, the timeline they form, the
  errors of a session, content hashes and the counts of a section.

  The derived \<open>Debug\<close> text of an item, which some error messages carry, is a parameter
  \<open>debug_item\<close> of the environment \<open>refine_env\<close>, beside the environment of the merge
  engine.
\<close>

section \<open>Items\<close>

datatype item_id =
  ItemPackage (item_name: string) (item_arch: string)
| ItemRepo string
| ItemModuleStream string
| ItemVersionLock string
| ItemConfig string
| ItemService string
| ItemDropIn string
| ItemQuadlet string
| ItemCompose string
| ItemFlatpak string string string
| ItemNMConnection string
| ItemFirewallZone string
| ItemSysctl string
| ItemTunedSelection string
| ItemCronJob string
| ItemSystemdTimer string
| ItemAtJob string
| ItemGeneratedTimer string
| ItemSelinuxPort string
| ItemFstab string
| ItemNonRpm string
| ItemLanguageEnv string string
| ItemLanguagePackage string string string
| ItemUnmanagedFile string
| ItemGroup string

record refine_env =
  core_env :: env
  debug_item :: "item_id \<Rightarrow> string"

section \<open>Content hashes\<close>

datatype content_hash = ContentHash (hash_str: string)

definition is_hexdigit :: "char \<Rightarrow> bool" where
  "is_hexdigit c =
     (let n = (of_char c :: nat)
      in (48 \<le> n \<and> n \<le> 57) \<or> (65 \<le> n \<and> n \<le> 70) \<or> (97 \<le> n \<and> n \<le> 102))"

definition content_hash_new :: "string \<Rightarrow> content_hash option" where
  "content_hash_new s =
     (if length s \<noteq> 64 \<or> \<not> list_all is_hexdigit s then None else Some (ContentHash s))"

definition content_hash_of :: "env \<Rightarrow> string \<Rightarrow> content_hash" where
  "content_hash_of E content = ContentHash (sha256_hex E content)"

section \<open>Operations\<close>

datatype containerfile_strategy = StrategySkip | StrategyUseradd

datatype user_password_op =
  PasswordNew string "string option"
| PasswordNone string
| PasswordPreserve string

datatype refinement_op =
  SetInclude item_id bool
| UserStrategy string containerfile_strategy
| UserPassword user_password_op
| SelectVariant item_id content_hash
| EditVariant item_id string "content_hash option"
| DiscardVariant item_id content_hash
| SetPackagePin item_id bool
| SetBulkPackagePin string string bool

datatype view_directive = UngroupGroup string

datatype timeline_entry =
  OpEntry refinement_op
| ViewEntry view_directive
| BatchEntry "refinement_op list"

datatype repo_provenance =
  ProvVerified
| ProvIncomplete
| ProvDisabled
| ProvStale
| ProvUnknown

text \<open>
  The effective members of a repository. The code's third count, \<open>unlisted\<close>, is about the
  filtered package list of the view and is not modelled.
\<close>

record repo_effective =
  re_member_count :: nat
  re_included :: nat

definition repo_effective_default :: repo_effective where
  "repo_effective_default = \<lparr> re_member_count = 0, re_included = 0 \<rparr>"

datatype refine_error =
  UnknownTarget string
| NothingToUndo
| NothingToRedo
| StaleGeneration nat nat
| RenderFailed string
| TarballError string
| SnapshotLoad string
| StaleTarball string string
| UntrustedSnapshot string
| ArchiveSafety string
| BadRequest string
| RefineNotFound string
| InventoryNotToggleable string
| AdvisoryNotToggleable string
| NoopTarget string
| RefineIo string

type_synonym 'a refine_result = "refine_error + 'a"

section \<open>Counts of a section\<close>

datatype section_kind =
  SecPackage | SecConfig | SecRepo | SecUser | SecService | SecQuadlet | SecFlatpak
| SecSysctl | SecTuned | SecComposeContext

record section_stats =
  sst_kind :: section_kind
  sst_total :: nat
  sst_included :: nat
  sst_excluded :: nat
  sst_advisory :: nat

fun stats_count :: "section_stats \<Rightarrow> finding_kind \<Rightarrow> section_stats" where
  "stats_count s d =
     (let s' = s\<lparr>sst_total := sst_total s + 1\<rparr> in
      case d of
        Actionable True \<Rightarrow> s'\<lparr>sst_included := sst_included s' + 1\<rparr>
      | Actionable False \<Rightarrow> s'\<lparr>sst_excluded := sst_excluded s' + 1\<rparr>
      | Advisory _ _ \<Rightarrow> s'\<lparr>sst_advisory := sst_advisory s' + 1\<rparr>
      | Inventory \<Rightarrow> s'\<lparr>sst_advisory := sst_advisory s' + 1\<rparr>)"

definition stats_from_dispositions :: "section_kind \<Rightarrow> finding_kind list \<Rightarrow> section_stats" where
  "stats_from_dispositions kind dispositions =
     foldl stats_count
       \<lparr> sst_kind = kind, sst_total = 0, sst_included = 0, sst_excluded = 0, sst_advisory = 0 \<rparr>
       dispositions"

section \<open>Decimal text\<close>

text \<open>\<open>format!("{n}")\<close> of a \<open>usize\<close>.\<close>

definition digit_char :: "nat \<Rightarrow> char" where
  "digit_char n = char_of (48 + n)"

fun show_usize :: "nat \<Rightarrow> string" where
  "show_usize n = (if n < 10 then [digit_char n] else show_usize (n div 10) @ [digit_char (n mod 10)])"

declare show_usize.simps [simp del]

section \<open>Updating one element of a list\<close>

text \<open>\<open>if let Some(x) = xs.iter_mut().find(p) { f(x) }\<close>: the first match is updated.\<close>

fun update_first :: "('a \<Rightarrow> bool) \<Rightarrow> ('a \<Rightarrow> 'a) \<Rightarrow> 'a list \<Rightarrow> 'a list" where
  "update_first p f [] = []"
| "update_first p f (x # xs) = (if p x then f x # xs else x # update_first p f xs)"

text \<open>\<open>for x in &mut xs { if p(x) { f(x) } }\<close>\<close>

definition update_all :: "('a \<Rightarrow> bool) \<Rightarrow> ('a \<Rightarrow> 'a) \<Rightarrow> 'a list \<Rightarrow> 'a list" where
  "update_all p f xs = map (\<lambda>x. if p x then f x else x) xs"

lemma length_update_first [simp]: "length (update_first p f xs) = length xs"
  by (induction xs) auto

lemma map_update_first:
  "(\<And>x. g (f x) = g x) \<Longrightarrow> map g (update_first p f xs) = map g xs"
  by (induction xs) auto

lemma find_update_first:
  "(\<And>x. p (f x) = p x) \<Longrightarrow>
     List.find p (update_first p f xs) = map_option f (List.find p xs)"
  by (induction xs) auto

lemma find_update_first_other:
  "(\<And>x. p x \<Longrightarrow> \<not> q x) \<Longrightarrow> (\<And>x. p x \<Longrightarrow> \<not> q (f x)) \<Longrightarrow>
     List.find q (update_first p f xs) = List.find q xs"
  by (induction xs) auto

lemma update_first_none: "List.find p xs = None \<Longrightarrow> update_first p f xs = xs"
  by (induction xs) (auto split: if_splits)

lemma set_update_first: "set (update_first p f xs) \<subseteq> set xs \<union> f ` {x \<in> set xs. p x}"
  by (induction xs) auto

lemma update_all_simps [simp]:
  "update_all p f [] = []"
  "update_all p f (x # xs) = (if p x then f x else x) # update_all p f xs"
  by (simp_all add: update_all_def)

lemma length_update_all [simp]: "length (update_all p f xs) = length xs"
  by (simp add: update_all_def)

lemma map_update_all: "(\<And>x. p x \<Longrightarrow> g (f x) = g x) \<Longrightarrow> map g (update_all p f xs) = map g xs"
  by (induction xs) auto

section \<open>Facts about the counts\<close>

lemma stats_count_fields:
  "sst_kind (stats_count s d) = sst_kind s"
  "sst_total (stats_count s d) = sst_total s + 1"
  "sst_included (stats_count s d) = sst_included s + (if is_included d then 1 else 0)"
  "sst_excluded (stats_count s d) = sst_excluded s + (if d = Actionable False then 1 else 0)"
  "sst_advisory (stats_count s d) = sst_advisory s + (if is_actionable d then 0 else 1)"
  by (cases d; (cases "d = Actionable True"; cases "d = Actionable False")?; auto simp: Let_def split: bool.splits)+

end
