(* ===== verification/RepoIndex.thy ===== *)
theory RepoIndex
  imports RefineTypes
begin

text \<open>
  The index of a session's repositories (\<open>crates/refine/src/repo_index.rs\<close>). A
  \<open>BTreeMap<RepoId, V>\<close> is an association list in the order of \<open>Ord for RepoId\<close>, which
  folds ASCII case: an entry is found under any spelling of its key and keeps the spelling
  of its first insertion.
\<close>

section \<open>Maps keyed by RepoId\<close>

text \<open>\<open>*m.entry(k).or_insert(d)\<close> updated by \<open>f\<close>; \<open>m.insert(k, v)\<close> is the constant \<open>f\<close>.\<close>

fun rid_entry :: "repo_id \<Rightarrow> 'v \<Rightarrow> ('v \<Rightarrow> 'v) \<Rightarrow> (repo_id \<times> 'v) list \<Rightarrow> (repo_id \<times> 'v) list" where
  "rid_entry k d f [] = [(k, f d)]"
| "rid_entry k d f ((k', v) # m) =
     (case repo_id_cmp k k' of
        Less \<Rightarrow> (k, f d) # (k', v) # m
      | Equal \<Rightarrow> (k', f v) # m
      | Greater \<Rightarrow> (k', v) # rid_entry k d f m)"

fun rid_get :: "repo_id \<Rightarrow> (repo_id \<times> 'v) list \<Rightarrow> 'v option" where
  "rid_get k [] = None"
| "rid_get k ((k', v) # m) = (if repo_id_eq k k' then Some v else rid_get k m)"

text \<open>\<open>BTreeSet<RepoId>::insert\<close> and \<open>contains\<close>.\<close>

definition rid_add :: "repo_id \<Rightarrow> (repo_id \<times> unit) list \<Rightarrow> (repo_id \<times> unit) list" where
  "rid_add k s = rid_entry k () (\<lambda>u. u) s"

text \<open>\<open>*m.entry(k).or_default()\<close> updated by \<open>f\<close> for a \<open>BTreeMap\<close> with an ordered key.\<close>

fun btree_entry :: "'k::linorder \<Rightarrow> 'v \<Rightarrow> ('v \<Rightarrow> 'v) \<Rightarrow> ('k \<times> 'v) list \<Rightarrow> ('k \<times> 'v) list" where
  "btree_entry k d f [] = [(k, f d)]"
| "btree_entry k d f ((k', v) # m) =
     (if k < k' then (k, f d) # (k', v) # m
      else if k = k' then (k', f v) # m
      else (k', v) # btree_entry k d f m)"

section \<open>The index\<close>

record repo_index =
  ri_packages_by_repo :: "(repo_id \<times> string list) list"
  ri_repo_file_by_section :: "(repo_id \<times> string list) list"
  ri_gpg_keys_by_section :: "(repo_id \<times> string list) list"
  ri_sections_by_gpg_key :: "(string \<times> (repo_id \<times> unit) list) list"
  ri_provenance_map :: "(repo_id \<times> repo_provenance) list"

definition repo_index_empty :: repo_index where
  "repo_index_empty = \<lparr> ri_packages_by_repo = [], ri_repo_file_by_section = [],
     ri_gpg_keys_by_section = [], ri_sections_by_gpg_key = [], ri_provenance_map = [] \<rparr>"

text \<open>The state of the loop over the sections of the repo files.\<close>

record index_loop =
  il_files :: "(repo_id \<times> string list) list"
  il_keys :: "(repo_id \<times> string list) list"
  il_by_key :: "(string \<times> (repo_id \<times> unit) list) list"
  il_defs :: "(repo_id \<times> repo_section_def) list"

definition index_key :: "repo_id \<Rightarrow> index_loop \<Rightarrow> string \<Rightarrow> index_loop" where
  "index_key sid st key_path =
     st\<lparr>il_keys := rid_entry sid [] (\<lambda>ps. ps @ [key_path]) (il_keys st),
        il_by_key := btree_entry key_path [] (rid_add sid) (il_by_key st)\<rparr>"

definition index_section :: "string \<Rightarrow> index_loop \<Rightarrow> repo_section_def \<Rightarrow> index_loop" where
  "index_section path st sec =
     (let st1 = st\<lparr>il_files := rid_entry (rs_id sec) [] (\<lambda>ps. ps @ [path]) (il_files st)\<rparr>;
          st2 = foldl (index_key (rs_id sec)) st1 (rs_gpg_key_paths sec)
      in st2\<lparr>il_defs := rid_entry (rs_id sec) sec (\<lambda>_. sec) (il_defs st2)\<rparr>)"

definition index_file :: "index_loop \<Rightarrow> repo_file \<Rightarrow> index_loop" where
  "index_file st f = foldl (index_section (rf_path f)) st (parse_repo_sections (rf_content f))"

definition index_files :: "repo_file list \<Rightarrow> index_loop" where
  "index_files files =
     foldl index_file \<lparr> il_files = [], il_keys = [], il_by_key = [], il_defs = [] \<rparr> files"

definition index_package ::
  "(repo_id \<times> string list) list \<Rightarrow> package_entry \<Rightarrow> (repo_id \<times> string list) list" where
  "index_package m pkg =
     (if pe_source_repo pkg \<noteq> []
      then rid_entry (RepoId (pe_source_repo pkg)) [] (\<lambda>ns. ns @ [pe_name pkg]) m
      else m)"

definition section_provenance :: "string set \<Rightarrow> repo_section_def \<Rightarrow> repo_provenance" where
  "section_provenance captured sec =
     (if \<not> rs_enabled sec then ProvDisabled
      else if rs_has_source sec \<and> (\<forall>p \<in> set (rs_gpg_key_paths sec). p \<in> captured)
      then ProvVerified
      else ProvIncomplete)"

definition provenance_table ::
  "string set \<Rightarrow> (repo_id \<times> repo_section_def) list \<Rightarrow> (repo_id \<times> string list) list \<Rightarrow>
   (repo_id \<times> repo_provenance) list" where
  "provenance_table captured defs pkgs =
     foldl (\<lambda>m (i, ns). rid_entry i ProvStale (\<lambda>p. p) m)
       (foldl (\<lambda>m (i, sec). rid_entry i (section_provenance captured sec)
                  (\<lambda>_. section_provenance captured sec) m) [] defs)
       pkgs"

definition repo_index_build :: "inspection_snapshot \<Rightarrow> repo_index" where
  "repo_index_build snap =
     (case snap_rpm snap of
        None \<Rightarrow> repo_index_empty
      | Some rpm \<Rightarrow>
          let st = index_files (rpm_repo_files rpm);
              pkgs = foldl index_package [] (rpm_packages_added rpm);
              captured = set (map rf_path (rpm_gpg_keys rpm))
          in \<lparr> ri_packages_by_repo = pkgs,
               ri_repo_file_by_section = il_files st,
               ri_gpg_keys_by_section = il_keys st,
               ri_sections_by_gpg_key = il_by_key st,
               ri_provenance_map = provenance_table captured (il_defs st) pkgs \<rparr>)"

definition repo_provenance_of :: "repo_index \<Rightarrow> repo_id \<Rightarrow> repo_provenance" where
  "repo_provenance_of idx i =
     (if repo_id_str i = [] \<or> to_ascii_lowercase (repo_id_str i) = ''@commandline''
      then ProvUnknown
      else case rid_get i (ri_provenance_map idx) of None \<Rightarrow> ProvUnknown | Some p \<Rightarrow> p)"

definition is_distro_repo :: "string \<Rightarrow> bool" where
  "is_distro_repo section_id \<longleftrightarrow> repo_tier_of section_id = TierDistro"

section \<open>Lookup after an update\<close>

abbreviation rid_key :: "repo_id \<Rightarrow> string" where
  "rid_key k \<equiv> to_ascii_lowercase (repo_id_str k)"

text \<open>The invariant of the maps: strictly increasing folded keys.\<close>

fun rid_keys :: "(repo_id \<times> 'v) list \<Rightarrow> string set" where
  "rid_keys [] = {}"
| "rid_keys ((k, v) # m) = insert (rid_key k) (rid_keys m)"

fun rid_ok :: "(repo_id \<times> 'v) list \<Rightarrow> bool" where
  "rid_ok [] = True"
| "rid_ok ((k, v) # m) = ((\<forall>x \<in> rid_keys m. rid_key k < x) \<and> rid_ok m)"

lemma rid_keys_entry [simp]: "rid_keys (rid_entry k d f m) = insert (rid_key k) (rid_keys m)"
  by (induction m) (auto simp: repo_id_cmp_def cmp_of_def split: ordering.splits if_splits)

lemma rid_ok_entry: "rid_ok m \<Longrightarrow> rid_ok (rid_entry k d f m)"
  by (induction m)
    (auto simp: repo_id_cmp_def cmp_of_def not_less_iff_gr_or_eq split: ordering.splits,
      meson less_trans)

lemma rid_get_None_iff: "rid_get k m = None \<longleftrightarrow> rid_key k \<notin> rid_keys m"
  by (induction m) (auto simp: repo_id_eq_def split: if_splits)

lemma rid_get_cong: "repo_id_eq j k \<Longrightarrow> rid_get j m = rid_get k m"
  by (induction m) (auto simp: repo_id_eq_def)

lemma rid_get_entry:
  assumes "rid_ok m"
  shows "rid_get j (rid_entry k d f m) =
    (if repo_id_eq j k then Some (f (case rid_get k m of None \<Rightarrow> d | Some v \<Rightarrow> v))
     else rid_get j m)"
  using assms
proof (induction m)
  case (Cons p m)
  obtain k' v where p: "p = (k', v)" by (cases p)
  have none: "rid_get k m = None" if "rid_key k < rid_key k'"
    using Cons.prems that unfolding rid_get_None_iff by (auto simp: p)
  show ?case
    using Cons none
    by (auto simp: p repo_id_cmp_def cmp_of_def repo_id_eq_def split: option.splits)
qed simp

lemma rid_get_step:
  assumes "rid_ok m"
  shows "rid_get j (rid_entry k d (\<lambda>_. d) m) = (if repo_id_eq j k then Some d else rid_get j m)"
  using rid_get_entry [OF assms] by (simp split: option.splits)

section \<open>The sections of a list of files\<close>

definition sections_of :: "repo_file list \<Rightarrow> (string \<times> repo_section_def) list" where
  "sections_of files =
     concat (map (\<lambda>f. map (Pair (rf_path f)) (parse_repo_sections (rf_content f))) files)"

lemma index_file_eq:
  "index_file st f = foldl (\<lambda>st (p, s). index_section p st s) st
     (map (Pair (rf_path f)) (parse_repo_sections (rf_content f)))"
  by (simp add: index_file_def foldl_map)

lemma foldl_index_files:
  "foldl index_file st files = foldl (\<lambda>st (p, s). index_section p st s) st (sections_of files)"
  by (induction files arbitrary: st) (simp_all add: sections_of_def index_file_eq)

lemma index_files_sections:
  "index_files files = foldl (\<lambda>st (p, s). index_section p st s)
     \<lparr> il_files = [], il_keys = [], il_by_key = [], il_defs = [] \<rparr> (sections_of files)"
  by (simp add: index_files_def foldl_index_files)

lemma index_keys_fields [simp]:
  "il_files (foldl (index_key sid) st ks) = il_files st"
  "il_defs (foldl (index_key sid) st ks) = il_defs st"
  "il_keys (foldl (index_key sid) st ks) =
     foldl (\<lambda>m k. rid_entry sid [] (\<lambda>ps. ps @ [k]) m) (il_keys st) ks"
  "il_by_key (foldl (index_key sid) st ks) =
     foldl (\<lambda>m k. btree_entry k [] (rid_add sid) m) (il_by_key st) ks"
  by (induction ks arbitrary: st) (simp_all add: index_key_def)

lemma index_section_fields [simp]:
  "il_files (index_section p st s) = rid_entry (rs_id s) [] (\<lambda>ps. ps @ [p]) (il_files st)"
  "il_defs (index_section p st s) = rid_entry (rs_id s) s (\<lambda>_. s) (il_defs st)"
  "il_keys (index_section p st s) =
     foldl (\<lambda>m k. rid_entry (rs_id s) [] (\<lambda>ps. ps @ [k]) m) (il_keys st) (rs_gpg_key_paths s)"
  "il_by_key (index_section p st s) =
     foldl (\<lambda>m k. btree_entry k [] (rid_add (rs_id s)) m) (il_by_key st) (rs_gpg_key_paths s)"
  by (simp_all add: index_section_def Let_def)

text \<open>The loop over a sequence of sections, from the empty index.\<close>

abbreviation index_sections :: "(string \<times> repo_section_def) list \<Rightarrow> index_loop" where
  "index_sections ps \<equiv> foldl (\<lambda>st (p, s). index_section p st s)
     \<lparr> il_files = [], il_keys = [], il_by_key = [], il_defs = [] \<rparr> ps"

text \<open>The last section of an id is the one whose definition is kept.\<close>

lemma index_defs:
  "rid_ok (il_defs (index_sections ps)) \<and>
   rid_get i (il_defs (index_sections ps)) =
     List.find (\<lambda>s. repo_id_eq i (rs_id s)) (rev (map snd ps))"
  by (induction ps rule: rev_induct) (auto simp: rid_ok_entry rid_get_step split: prod.splits)

text \<open>Every path that defines an id is listed under it, once per section.\<close>

definition listed :: "'a list \<Rightarrow> 'a list option" where
  "listed xs = (if xs = [] then None else Some xs)"

lemma listed_push:
  "Some ((case listed xs of None \<Rightarrow> [] | Some v \<Rightarrow> v) @ [x]) = listed (xs @ [x])"
  by (simp add: listed_def)

lemma rid_get_push:
  assumes "rid_ok m" and "rid_get i m = listed xs"
  shows "rid_get i (rid_entry k [] (\<lambda>ps. ps @ [x]) m) = listed (xs @ (if repo_id_eq i k then [x] else []))"
  using assms rid_get_cong [of i k m] by (auto simp: rid_get_entry listed_push [symmetric])

lemma index_paths:
  "rid_ok (il_files (index_sections ps)) \<and>
   rid_get i (il_files (index_sections ps)) =
     listed (map fst (filter (\<lambda>q. repo_id_eq i (rs_id (snd q))) ps))"
proof (induction ps rule: rev_induct)
  case Nil
  show ?case by (simp add: listed_def)
next
  case (snoc x ps)
  show ?case
    using rid_get_push [OF conjunct1 [OF snoc.IH] conjunct2 [OF snoc.IH], of "rs_id (snd x)" "fst x"]
      conjunct1 [OF snoc.IH]
    by (cases x) (auto simp: rid_ok_entry)
qed

lemma rid_push_all:
  assumes "rid_ok m" and "rid_get i m = listed xs"
  shows "rid_ok (foldl (\<lambda>m k. rid_entry sid [] (\<lambda>ps. ps @ [k]) m) m ks) \<and>
    rid_get i (foldl (\<lambda>m k. rid_entry sid [] (\<lambda>ps. ps @ [k]) m) m ks) =
      listed (xs @ (if repo_id_eq i sid then ks else []))"
  using assms
proof (induction ks arbitrary: m xs)
  case (Cons k ks)
  show ?case
    using Cons.IH [OF rid_ok_entry [OF Cons.prems(1)] rid_get_push [OF Cons.prems]] by simp
qed simp

lemma index_gpg_keys:
  "rid_ok (il_keys (index_sections ps)) \<and>
   rid_get i (il_keys (index_sections ps)) =
     listed (concat (map (rs_gpg_key_paths \<circ> snd) (filter (\<lambda>q. repo_id_eq i (rs_id (snd q))) ps)))"
proof (induction ps rule: rev_induct)
  case Nil
  show ?case by (simp add: listed_def)
next
  case (snoc x ps)
  show ?case
    using rid_push_all [OF conjunct1 [OF snoc.IH] conjunct2 [OF snoc.IH],
        of "rs_id (snd x)" "rs_gpg_key_paths (snd x)"]
    by (cases x) auto
qed

section \<open>Provenance in closed form\<close>

lemma rid_get_insert_all:
  assumes "rid_ok xs" and "rid_ok m"
  shows "rid_ok (foldl (\<lambda>m (i, v). rid_entry i (g v) (\<lambda>_. g v) m) m xs) \<and>
    rid_get j (foldl (\<lambda>m (i, v). rid_entry i (g v) (\<lambda>_. g v) m) m xs) =
      (case rid_get j xs of None \<Rightarrow> rid_get j m | Some v \<Rightarrow> Some (g v))"
  using assms
proof (induction xs arbitrary: m)
  case (Cons x xs)
  obtain k v where x: "x = (k, v)" by (cases x)
  have "rid_get j xs = None" if "repo_id_eq j k"
    using Cons.prems(1) that unfolding rid_get_None_iff by (auto simp: x repo_id_eq_def)
  then show ?case
    using Cons.IH [of "rid_entry k (g v) (\<lambda>_. g v) m"] Cons.prems
    by (auto simp: x rid_ok_entry rid_get_step split: option.split)
qed simp

lemma rid_get_or_insert_all:
  assumes "rid_ok m"
  shows "rid_ok (foldl (\<lambda>m (i, v). rid_entry i d (\<lambda>p. p) m) m xs) \<and>
    rid_get j (foldl (\<lambda>m (i, v). rid_entry i d (\<lambda>p. p) m) m xs) =
      (case rid_get j m of Some p \<Rightarrow> Some p | None \<Rightarrow> if rid_get j xs = None then None else Some d)"
  using assms
proof (induction xs arbitrary: m)
  case (Cons x xs)
  obtain k v where x: "x = (k, v)" by (cases x)
  show ?case
    using Cons.IH [of "rid_entry k d (\<lambda>p. p) m"] Cons.prems rid_get_cong [of j k m]
    by (auto simp: x rid_ok_entry rid_get_entry split: option.splits)
qed (simp split: option.split)

lemma index_packages:
  "rid_ok (foldl index_package [] ps) \<and>
   rid_get i (foldl index_package [] ps) =
     listed (map pe_name (filter (\<lambda>p. pe_source_repo p \<noteq> [] \<and> repo_id_eq i (RepoId (pe_source_repo p))) ps))"
proof (induction ps rule: rev_induct)
  case Nil
  show ?case by (simp add: listed_def)
next
  case (snoc x ps)
  show ?case
    using rid_get_push [OF conjunct1 [OF snoc.IH] conjunct2 [OF snoc.IH],
        of "RepoId (pe_source_repo x)" "pe_name x"] conjunct1 [OF snoc.IH] conjunct2 [OF snoc.IH]
    by (simp add: index_package_def rid_ok_entry)
qed

definition has_section :: "repo_id \<Rightarrow> rpm_section \<Rightarrow> repo_section_def option" where
  "has_section i rpm =
     List.find (\<lambda>s. repo_id_eq i (rs_id s)) (rev (map snd (sections_of (rpm_repo_files rpm))))"

lemma repo_index_provenance_map:
  assumes "snap_rpm snap = Some rpm"
  shows "rid_get i (ri_provenance_map (repo_index_build snap)) =
    (case has_section i rpm of
       Some s \<Rightarrow> Some (section_provenance (set (map rf_path (rpm_gpg_keys rpm))) s)
     | None \<Rightarrow>
         if \<exists>p \<in> set (rpm_packages_added rpm). pe_source_repo p \<noteq> [] \<and>
              repo_id_eq i (RepoId (pe_source_repo p))
         then Some ProvStale else None)"
proof -
  let ?st = "index_files (rpm_repo_files rpm)"
  let ?c = "set (map rf_path (rpm_gpg_keys rpm))"
  let ?t = "foldl (\<lambda>m (i, sec). rid_entry i (section_provenance ?c sec)
      (\<lambda>_. section_provenance ?c sec) m) [] (il_defs ?st)"
  have defs: "rid_ok (il_defs ?st)" "rid_get i (il_defs ?st) = has_section i rpm"
    using index_defs [of "sections_of (rpm_repo_files rpm)" i]
    unfolding index_files_sections has_section_def by blast+
  have t: "rid_ok ?t" "rid_get i ?t = map_option (section_provenance ?c) (has_section i rpm)"
    using rid_get_insert_all [OF defs(1), of "[]" "section_provenance ?c" i]
    by (auto simp: defs(2) split: option.splits)
  have map_eq: "ri_provenance_map (repo_index_build snap) =
      foldl (\<lambda>m (i, ns). rid_entry i ProvStale (\<lambda>p. p) m) ?t
        (foldl index_package [] (rpm_packages_added rpm))"
    by (simp add: repo_index_build_def assms Let_def provenance_table_def)
  have pk: "rid_get i (foldl index_package [] (rpm_packages_added rpm)) = None \<longleftrightarrow>
      \<not> (\<exists>p \<in> set (rpm_packages_added rpm). pe_source_repo p \<noteq> [] \<and>
              repo_id_eq i (RepoId (pe_source_repo p)))"
    using index_packages [of "rpm_packages_added rpm" i] by (auto simp: listed_def filter_empty_conv)
  show ?thesis
    unfolding map_eq conjunct2 [OF rid_get_or_insert_all [OF t(1)]] t(2) pk
    by (simp split: option.split)
qed

end
