(* ===== verification/VariantOps.thy ===== *)
theory VariantOps
  imports RefineTypes SnapshotTypes
begin

text \<open>
  The variants of a path in a refine session (\<open>crates/refine/src/aggregate/variant_ops.rs\<close>):
  the state that replaying the operations builds, the validation of the operations, and the
  materialisation of that state into the snapshot. Maps and sets with a hasher are
  association lists and lists; what iterates over one reads it through \<open>env_order\<close>. A
  \<open>ContentHash\<close> key is its string.
\<close>

section \<open>HashMap operations\<close>

fun hm_put :: "string \<Rightarrow> 'v \<Rightarrow> (string \<times> 'v) list \<Rightarrow> (string \<times> 'v) list" where
  "hm_put k v [] = [(k, v)]"
| "hm_put k v ((k', v') # m) = (if k = k' then (k', v) # m else (k', v') # hm_put k v m)"

definition hm_del :: "string \<Rightarrow> (string \<times> 'v) list \<Rightarrow> (string \<times> 'v) list" where
  "hm_del k m = filter (\<lambda>p. fst p \<noteq> k) m"

definition hm_has :: "string \<Rightarrow> (string \<times> 'v) list \<Rightarrow> bool" where
  "hm_has k m = (map_of m k \<noteq> None)"

lemma map_of_hm_put [simp]: "map_of (hm_put k v m) j = (if j = k then Some v else map_of m j)"
  by (induction m) auto

lemma map_of_hm_del [simp]: "map_of (hm_del k m) j = (if j = k then None else map_of m j)"
  by (induction m) (auto simp: hm_del_def)

lemma fst_hm_put: "fst ` set (hm_put k v m) = insert k (fst ` set m)"
  unfolding dom_map_of_conv_image_fst [symmetric] by (auto split: if_splits)

lemma distinct_hm_put: "distinct (map fst m) \<Longrightarrow> distinct (map fst (hm_put k v m))"
  by (induction m) (auto simp: fst_hm_put)

lemma distinct_hm_del: "distinct (map fst m) \<Longrightarrow> distinct (map fst (hm_del k m))"
  unfolding hm_del_def by (induction m) auto

section \<open>The projection state\<close>

record variant_state =
  vs_user_variants :: "(string \<times> (string \<times> string) list) list"
  vs_discarded :: "(string \<times> string list) list"
  vs_selected :: "(string \<times> string) list"

definition variant_state_default :: variant_state where
  "variant_state_default = \<lparr> vs_user_variants = [], vs_discarded = [], vs_selected = [] \<rparr>"

text \<open>\<open>m.get(path).map(|x| x.contains(h)).unwrap_or(false)\<close> for the two nested maps.\<close>

definition user_has :: "variant_state \<Rightarrow> string \<Rightarrow> string \<Rightarrow> bool" where
  "user_has st path h =
     (case map_of (vs_user_variants st) path of None \<Rightarrow> False | Some m \<Rightarrow> hm_has h m)"

definition is_discarded :: "variant_state \<Rightarrow> string \<Rightarrow> string \<Rightarrow> bool" where
  "is_discarded st path h =
     (case map_of (vs_discarded st) path of None \<Rightarrow> False | Some d \<Rightarrow> h \<in> set d)"

fun item_path :: "item_id \<Rightarrow> string option" where
  "item_path (ItemConfig path) = Some path"
| "item_path (ItemDropIn path) = Some path"
| "item_path (ItemQuadlet path) = Some path"
| "item_path (ItemCompose path) = Some path"
| "item_path (ItemLanguageEnv _ path) = Some path"
| "item_path (ItemUnmanagedFile path) = Some path"
| "item_path _ = None"

section \<open>The pools of a snapshot\<close>

definition config_files_of :: "inspection_snapshot \<Rightarrow> config_file_entry list" where
  "config_files_of snap = (case snap_config snap of None \<Rightarrow> [] | Some c \<Rightarrow> cfg_files c)"

definition drop_ins_of :: "inspection_snapshot \<Rightarrow> systemd_drop_in list" where
  "drop_ins_of snap = (case snap_services snap of None \<Rightarrow> [] | Some s \<Rightarrow> svc_drop_ins s)"

definition quadlets_of :: "inspection_snapshot \<Rightarrow> quadlet_unit list" where
  "quadlets_of snap = (case snap_containers snap of None \<Rightarrow> [] | Some c \<Rightarrow> ctr_quadlet_units c)"

definition compose_files_of :: "inspection_snapshot \<Rightarrow> compose_file list" where
  "compose_files_of snap = (case snap_containers snap of None \<Rightarrow> [] | Some c \<Rightarrow> ctr_compose_files c)"

definition non_rpm_items_of :: "inspection_snapshot \<Rightarrow> non_rpm_item list" where
  "non_rpm_items_of snap = (case snap_non_rpm_software snap of None \<Rightarrow> [] | Some n \<Rightarrow> nrs_items n)"

definition unmanaged_items_of :: "inspection_snapshot \<Rightarrow> unmanaged_file list" where
  "unmanaged_items_of snap = (case snap_unmanaged_files snap of None \<Rightarrow> [] | Some u \<Rightarrow> ufs_items u)"

text \<open>
  Whether a host carries the content \<open>h\<close> at the item's path, for the three kinds whose
  content is text.
\<close>

fun host_has_text :: "env \<Rightarrow> inspection_snapshot \<Rightarrow> item_id \<Rightarrow> content_hash \<Rightarrow> bool" where
  "host_has_text E snap (ItemConfig path) h =
     (\<exists>e \<in> set (config_files_of snap). cf_path e = path \<and> content_hash_of E (cf_content e) = h)"
| "host_has_text E snap (ItemDropIn path) h =
     (\<exists>e \<in> set (drop_ins_of snap). di_path e = path \<and> content_hash_of E (di_content e) = h)"
| "host_has_text E snap (ItemQuadlet path) h =
     (\<exists>e \<in> set (quadlets_of snap). qu_path e = path \<and> content_hash_of E (qu_content e) = h)"
| "host_has_text E snap _ h = False"

section \<open>Applying the operations\<close>

definition apply_select :: "variant_state \<Rightarrow> item_id \<Rightarrow> content_hash \<Rightarrow> variant_state" where
  "apply_select st i target =
     (case item_path i of
        None \<Rightarrow> st
      | Some path \<Rightarrow> st\<lparr>vs_selected := hm_put path (hash_str target) (vs_selected st)\<rparr>)"

definition apply_edit ::
  "env \<Rightarrow> inspection_snapshot \<Rightarrow> variant_state \<Rightarrow> item_id \<Rightarrow> string \<Rightarrow> variant_state" where
  "apply_edit E snap st i content =
     (case item_path i of
        None \<Rightarrow> st
      | Some path \<Rightarrow>
          let h = hash_str (content_hash_of E content) in
          if host_has_text E snap i (ContentHash h) \<or> user_has st path h
          then st\<lparr>vs_selected := hm_put path h (vs_selected st)\<rparr>
          else st\<lparr>
            vs_user_variants := hm_put path
              (hm_put h content (case map_of (vs_user_variants st) path of None \<Rightarrow> [] | Some m \<Rightarrow> m))
              (vs_user_variants st),
            vs_discarded :=
              (case map_of (vs_discarded st) path of
                 None \<Rightarrow> vs_discarded st
               | Some d \<Rightarrow> hm_put path (removeAll h d) (vs_discarded st)),
            vs_selected := hm_put path h (vs_selected st)\<rparr>)"

definition apply_discard :: "variant_state \<Rightarrow> item_id \<Rightarrow> content_hash \<Rightarrow> variant_state" where
  "apply_discard st i variant =
     (case item_path i of
        None \<Rightarrow> st
      | Some path \<Rightarrow>
          let h = hash_str variant in
          st\<lparr>
            vs_user_variants :=
              (case map_of (vs_user_variants st) path of
                 None \<Rightarrow> vs_user_variants st
               | Some m \<Rightarrow> hm_put path (hm_del h m) (vs_user_variants st)),
            vs_discarded := hm_put path
              (List.insert h (case map_of (vs_discarded st) path of None \<Rightarrow> [] | Some d \<Rightarrow> d))
              (vs_discarded st),
            vs_selected :=
              (if map_of (vs_selected st) path = Some h then hm_del path (vs_selected st)
               else vs_selected st)\<rparr>)"

section \<open>Validation\<close>

fun path_in_section :: "inspection_snapshot \<Rightarrow> item_id \<Rightarrow> bool" where
  "path_in_section snap (ItemConfig path) = (\<exists>e \<in> set (config_files_of snap). cf_path e = path)"
| "path_in_section snap (ItemDropIn path) = (\<exists>e \<in> set (drop_ins_of snap). di_path e = path)"
| "path_in_section snap (ItemQuadlet path) = (\<exists>e \<in> set (quadlets_of snap). qu_path e = path)"
| "path_in_section snap (ItemCompose path) = (\<exists>e \<in> set (compose_files_of snap). cpf_path e = path)"
| "path_in_section snap (ItemLanguageEnv _ path) = (\<exists>e \<in> set (non_rpm_items_of snap). nri_path e = path)"
| "path_in_section snap (ItemUnmanagedFile path) = (\<exists>e \<in> set (unmanaged_items_of snap). uf_path e = path)"
| "path_in_section snap _ = False"

definition compose_hash :: "env \<Rightarrow> compose_file \<Rightarrow> content_hash" where
  "compose_hash E e = content_hash_of E (to_json E (PComposeImages (cpf_images e)))"

definition language_env_hash :: "env \<Rightarrow> non_rpm_item \<Rightarrow> content_hash option" where
  "language_env_hash E e =
     (case content_variant_key (non_rpm_ops E) e of None \<Rightarrow> None | Some k \<Rightarrow> content_hash_new k)"

definition unmanaged_hash :: "unmanaged_file \<Rightarrow> content_hash option" where
  "unmanaged_hash e = (if uf_content_hash e = [] then None else content_hash_new (uf_content_hash e))"

fun hash_in_snapshot :: "env \<Rightarrow> inspection_snapshot \<Rightarrow> item_id \<Rightarrow> content_hash \<Rightarrow> bool" where
  "hash_in_snapshot E snap (ItemCompose path) h =
     (\<exists>e \<in> set (compose_files_of snap). cpf_path e = path \<and> compose_hash E e = h)"
| "hash_in_snapshot E snap (ItemLanguageEnv ec path) h =
     (\<exists>e \<in> set (non_rpm_items_of snap). nri_path e = path \<and> language_env_hash E e = Some h)"
| "hash_in_snapshot E snap (ItemUnmanagedFile path) h =
     (\<exists>e \<in> set (unmanaged_items_of snap). uf_path e = path \<and> unmanaged_hash e = Some h)"
| "hash_in_snapshot E snap i h = host_has_text E snap i h"

definition variant_not_found :: "content_hash \<Rightarrow> string \<Rightarrow> refine_error" where
  "variant_not_found h path =
     UnknownTarget (''variant hash '' @ hash_str h @ '' not found for path '' @ path)"

definition validate_select ::
  "env \<Rightarrow> inspection_snapshot \<Rightarrow> variant_state \<Rightarrow> item_id \<Rightarrow> content_hash \<Rightarrow> unit refine_result" where
  "validate_select E snap st i target =
     (case item_path i of
        None \<Rightarrow> Inl (BadRequest ''SelectVariant only supported for Config/DropIn/Quadlet/Compose items'')
      | Some path \<Rightarrow>
          if \<not> path_in_section snap i then Inl (UnknownTarget path)
          else if (\<not> hash_in_snapshot E snap i target \<and> \<not> user_has st path (hash_str target))
                 \<or> is_discarded st path (hash_str target)
          then Inl (variant_not_found target path)
          else Inr ())"

fun is_compose_item :: "item_id \<Rightarrow> bool" where
  "is_compose_item (ItemCompose _) = True"
| "is_compose_item _ = False"

definition validate_discard ::
  "env \<Rightarrow> inspection_snapshot \<Rightarrow> variant_state \<Rightarrow> item_id \<Rightarrow> content_hash \<Rightarrow> unit refine_result" where
  "validate_discard E snap st i variant =
     (if is_compose_item i
      then Inl (BadRequest ''DiscardVariant not supported for Compose items (structured carrier)'')
      else case item_path i of
        None \<Rightarrow> Inl (BadRequest ''DiscardVariant only supported for Config/DropIn/Quadlet items'')
      | Some path \<Rightarrow>
          if user_has st path (hash_str variant) then Inr ()
          else if host_has_text E snap i variant
          then Inl (BadRequest (''cannot discard host-sourced variant '' @ hash_str variant @
                 '' for path '' @ path))
          else Inl (variant_not_found variant path))"

section \<open>Materialising the state\<close>

text \<open>
  What the materialisation does with an entry of a text pool: its path, the hash of its
  content, the entry a user variant becomes on the template of its path, and the selection.
\<close>

record 'a text_pool =
  tp_path :: "'a \<Rightarrow> string"
  tp_hash :: "'a \<Rightarrow> string"
  tp_user :: "string \<Rightarrow> 'a \<Rightarrow> 'a"
  tp_set :: "variant_selection \<Rightarrow> 'a \<Rightarrow> 'a"

text \<open>Add the user variants of one path, then of every path.\<close>

definition add_user_variant ::
  "'a text_pool \<Rightarrow> variant_state \<Rightarrow> string \<Rightarrow> 'a \<Rightarrow> 'a list \<Rightarrow> string \<times> string \<Rightarrow> 'a list" where
  "add_user_variant P st path template xs hc =
     (if is_discarded st path (fst hc) \<or> (\<exists>e \<in> set xs. tp_path P e = path \<and> tp_hash P e = fst hc)
      then xs
      else xs @ [tp_user P (snd hc) template])"

definition add_path_variants ::
  "env \<Rightarrow> 'a text_pool \<Rightarrow> variant_state \<Rightarrow> 'a list \<Rightarrow> string \<times> (string \<times> string) list \<Rightarrow> 'a list" where
  "add_path_variants E P st xs pm =
     (case List.find (\<lambda>e. tp_path P e = fst pm) xs of
        None \<Rightarrow> xs
      | Some template \<Rightarrow>
          foldl (add_user_variant P st (fst pm) template) xs (hm_iter (env_order E) (snd pm)))"

definition remove_discarded :: "'a text_pool \<Rightarrow> 'a list \<Rightarrow> string \<times> string list \<Rightarrow> 'a list" where
  "remove_discarded P xs pd =
     filter (\<lambda>e. tp_path P e \<noteq> fst pd \<or> tp_hash P e \<notin> set (snd pd)) xs"

text \<open>The entries of a path, by position, and the selection among them.\<close>

definition positions :: "('a \<Rightarrow> bool) \<Rightarrow> 'a list \<Rightarrow> nat list" where
  "positions p xs = filter (\<lambda>i. p (xs ! i)) [0..<length xs]"

definition update_at :: "('a \<Rightarrow> 'a) \<Rightarrow> 'a list \<Rightarrow> nat \<Rightarrow> 'a list" where
  "update_at f xs i = xs[i := f (xs ! i)]"

definition selection_of :: "string \<Rightarrow> string \<Rightarrow> variant_selection" where
  "selection_of selected h = (if h = selected then Selected else Alternative)"

definition select_variants :: "'a text_pool \<Rightarrow> variant_state \<Rightarrow> 'a list \<Rightarrow> string \<Rightarrow> 'a list" where
  "select_variants P st xs path =
     (let variants = positions (\<lambda>e. tp_path P e = path) xs in
      if variants = [] then xs
      else if length variants = 1 then update_at (tp_set P Only) xs (variants ! 0)
      else case map_of (vs_selected st) path of
        None \<Rightarrow> xs
      | Some selected \<Rightarrow>
          foldl (update_at (\<lambda>e. tp_set P (selection_of selected (tp_hash P e)) e)) xs variants)"

definition materialize_pool ::
  "env \<Rightarrow> 'a text_pool \<Rightarrow> variant_state \<Rightarrow> string list \<Rightarrow> 'a list \<Rightarrow> 'a list" where
  "materialize_pool E P st affected xs =
     (let added = foldl (add_path_variants E P st) xs (hm_iter (env_order E) (vs_user_variants st));
          kept = foldl (remove_discarded P) added (hm_iter (env_order E) (vs_discarded st))
      in foldl (select_variants P st) kept affected)"

definition config_pool :: "env \<Rightarrow> config_file_entry text_pool" where
  "config_pool E = \<lparr> tp_path = cf_path, tp_hash = (\<lambda>e. hash_str (content_hash_of E (cf_content e))),
     tp_user = (\<lambda>c e. e\<lparr>cf_content := c, cf_aggregate := None, cf_variant_selection := Alternative\<rparr>),
     tp_set = (\<lambda>v e. e\<lparr>cf_variant_selection := v\<rparr>) \<rparr>"

definition dropin_pool :: "env \<Rightarrow> systemd_drop_in text_pool" where
  "dropin_pool E = \<lparr> tp_path = di_path, tp_hash = (\<lambda>e. hash_str (content_hash_of E (di_content e))),
     tp_user = (\<lambda>c e. e\<lparr>di_content := c, di_aggregate := None, di_variant_selection := Alternative\<rparr>),
     tp_set = (\<lambda>v e. e\<lparr>di_variant_selection := v\<rparr>) \<rparr>"

definition quadlet_pool :: "env \<Rightarrow> quadlet_unit text_pool" where
  "quadlet_pool E = \<lparr> tp_path = qu_path, tp_hash = (\<lambda>e. hash_str (content_hash_of E (qu_content e))),
     tp_user = (\<lambda>c e. e\<lparr>qu_content := c, qu_aggregate := None, qu_variant_selection := Alternative\<rparr>),
     tp_set = (\<lambda>v e. e\<lparr>qu_variant_selection := v\<rparr>) \<rparr>"

definition materialize_config_variants ::
  "env \<Rightarrow> variant_state \<Rightarrow> string list \<Rightarrow> inspection_snapshot \<Rightarrow> inspection_snapshot" where
  "materialize_config_variants E st affected snap =
     snap\<lparr>snap_config := map_option
       (\<lambda>c. c\<lparr>cfg_files := materialize_pool E (config_pool E) st affected (cfg_files c)\<rparr>) (snap_config snap)\<rparr>"

definition materialize_dropin_variants ::
  "env \<Rightarrow> variant_state \<Rightarrow> string list \<Rightarrow> inspection_snapshot \<Rightarrow> inspection_snapshot" where
  "materialize_dropin_variants E st affected snap =
     snap\<lparr>snap_services := map_option
       (\<lambda>s. s\<lparr>svc_drop_ins := materialize_pool E (dropin_pool E) st affected (svc_drop_ins s)\<rparr>)
       (snap_services snap)\<rparr>"

definition materialize_quadlet_variants ::
  "env \<Rightarrow> variant_state \<Rightarrow> string list \<Rightarrow> inspection_snapshot \<Rightarrow> inspection_snapshot" where
  "materialize_quadlet_variants E st affected snap =
     snap\<lparr>snap_containers := map_option
       (\<lambda>c. c\<lparr>ctr_quadlet_units := materialize_pool E (quadlet_pool E) st affected (ctr_quadlet_units c)\<rparr>)
       (snap_containers snap)\<rparr>"

text \<open>The three kinds that can only be selected.\<close>

definition select_compose :: "env \<Rightarrow> variant_state \<Rightarrow> compose_file list \<Rightarrow> string \<Rightarrow> compose_file list" where
  "select_compose E st xs path =
     (let variants = positions (\<lambda>e. cpf_path e = path) xs in
      if variants = [] then xs
      else if length variants = 1
      then update_at (\<lambda>e. e\<lparr>cpf_variant_selection := Only\<rparr>) xs (variants ! 0)
      else case map_of (vs_selected st) path of
        None \<Rightarrow> xs
      | Some selected \<Rightarrow>
          foldl (update_at (\<lambda>e. e\<lparr>cpf_variant_selection :=
            selection_of selected (hash_str (compose_hash E e))\<rparr>)) xs variants)"

definition materialize_compose_variants ::
  "env \<Rightarrow> variant_state \<Rightarrow> string list \<Rightarrow> inspection_snapshot \<Rightarrow> inspection_snapshot" where
  "materialize_compose_variants E st affected snap =
     snap\<lparr>snap_containers := map_option
       (\<lambda>c. c\<lparr>ctr_compose_files := foldl (select_compose E st) (ctr_compose_files c) affected\<rparr>)
       (snap_containers snap)\<rparr>"

definition select_language_env :: "env \<Rightarrow> variant_state \<Rightarrow> non_rpm_item list \<Rightarrow> string \<Rightarrow> non_rpm_item list" where
  "select_language_env E st xs path =
     (let variants = positions (\<lambda>e. nri_path e = path \<and> nri_method e \<noteq> []) xs in
      if variants = [] then xs
      else if length variants = 1 then xs
      else case map_of (vs_selected st) path of
        None \<Rightarrow> xs
      | Some selected \<Rightarrow>
          foldl (update_at (\<lambda>e.
            if language_env_hash E e = Some (ContentHash selected)
            then e\<lparr>nri_disposition := fk_included\<rparr> else e)) xs variants)"

definition materialize_language_env_variants ::
  "env \<Rightarrow> variant_state \<Rightarrow> string list \<Rightarrow> inspection_snapshot \<Rightarrow> inspection_snapshot" where
  "materialize_language_env_variants E st affected snap =
     snap\<lparr>snap_non_rpm_software := map_option
       (\<lambda>n. n\<lparr>nrs_items := foldl (select_language_env E st) (nrs_items n) affected\<rparr>)
       (snap_non_rpm_software snap)\<rparr>"

definition select_unmanaged :: "variant_state \<Rightarrow> unmanaged_file list \<Rightarrow> string \<Rightarrow> unmanaged_file list" where
  "select_unmanaged st xs path =
     (let variants = positions (\<lambda>e. uf_path e = path \<and> uf_content_hash e \<noteq> []) xs in
      if variants = [] then xs
      else if length variants = 1
      then update_at (\<lambda>e. e\<lparr>uf_variant_selection := Only\<rparr>) xs (variants ! 0)
      else case map_of (vs_selected st) path of
        None \<Rightarrow> xs
      | Some selected \<Rightarrow>
          foldl (update_at (\<lambda>e.
            case content_hash_new (uf_content_hash e) of
              None \<Rightarrow> e
            | Some h \<Rightarrow> e\<lparr>uf_variant_selection := selection_of selected (hash_str h)\<rparr>)) xs variants)"

definition materialize_unmanaged_file_variants ::
  "variant_state \<Rightarrow> string list \<Rightarrow> inspection_snapshot \<Rightarrow> inspection_snapshot" where
  "materialize_unmanaged_file_variants st affected snap =
     snap\<lparr>snap_unmanaged_files := map_option
       (\<lambda>u. u\<lparr>ufs_items := foldl (select_unmanaged st) (ufs_items u) affected\<rparr>)
       (snap_unmanaged_files snap)\<rparr>"

definition affected_paths :: "env \<Rightarrow> variant_state \<Rightarrow> string list" where
  "affected_paths E st =
     env_order E (remdups (map fst (vs_user_variants st) @ map fst (vs_discarded st) @
       map fst (vs_selected st)))"

definition materialize_variants ::
  "env \<Rightarrow> variant_state \<Rightarrow> inspection_snapshot \<Rightarrow> inspection_snapshot" where
  "materialize_variants E st snap =
     (let affected = affected_paths E st in
      if affected = [] then snap
      else materialize_unmanaged_file_variants st affected
        (materialize_language_env_variants E st affected
        (materialize_compose_variants E st affected
        (materialize_quadlet_variants E st affected
        (materialize_dropin_variants E st affected
        (materialize_config_variants E st affected snap))))))"

end
