(* ===== verification/RepoEnabling.thy ===== *)
theory RepoEnabling
  imports RefineTypes SnapshotTypes
begin

text \<open>
  The export-time proof of a repo-enabling package
  (\<open>crates/pipeline/src/render/repo_enabling.rs\<close>): whether a section that serves it
  survives the include decisions of a projection, and the demotion of the packages that
  lost theirs.
\<close>

section \<open>The proof\<close>

definition YUM_REPOS_DIR :: string where
  "YUM_REPOS_DIR = ''/etc/yum.repos.d/''"

definition REPO_CONFIG_DIRS :: "string list" where
  "REPO_CONFIG_DIRS = [YUM_REPOS_DIR, ''/etc/pki/rpm-gpg/'']"

definition REPO_FILE_SUFFIX :: string where
  "REPO_FILE_SUFFIX = ''.repo''"

record serving_loss =
  sl_id :: repo_id
  sl_file :: "string option"

datatype enabling_export = NotEnabling | Served | Lost serving_loss

definition defining_file :: "rpm_section \<Rightarrow> repo_id \<Rightarrow> string option" where
  "defining_file rpm i =
     map_option rf_path
       (List.find (\<lambda>f. \<exists>s \<in> set (parse_repo_sections (rf_content f)). repo_id_eq (rs_id s) i)
         (rpm_repo_files rpm))"

definition keys_included :: "rpm_section \<Rightarrow> string list \<Rightarrow> bool" where
  "keys_included rpm paths \<longleftrightarrow>
     (\<forall>path \<in> set paths. \<exists>k \<in> set (rpm_gpg_keys rpm). is_included (rf_disposition k) \<and> rf_path k = path)"

definition section_survives :: "rpm_section \<Rightarrow> repo_id \<Rightarrow> bool" where
  "section_survives rpm i \<longleftrightarrow>
     (\<exists>f \<in> set (filter (\<lambda>f. is_included (rf_disposition f)) (rpm_repo_files rpm)).
        \<exists>s \<in> set (parse_repo_sections (rf_content f)).
          repo_id_eq (rs_id s) i \<and> rs_enabled s \<and> keys_included rpm (rs_gpg_key_paths s))"

definition dropped_owned_path :: "rpm_section \<Rightarrow> package_entry \<Rightarrow> string option" where
  "dropped_owned_path rpm pkg =
     (case List.find (\<lambda>e. fo_package_name e = pe_name pkg) (rpm_file_ownership rpm) of
        None \<Rightarrow> None
      | Some owned \<Rightarrow>
          List.find
            (\<lambda>path. \<not> (\<exists>f \<in> set (rpm_repo_files rpm @ rpm_gpg_keys rpm).
               rf_path f = path \<and> is_included (rf_disposition f)))
            (filter (\<lambda>path. \<exists>dir \<in> set REPO_CONFIG_DIRS. starts_with path dir) (fo_paths owned)))"

text \<open>\<open>find_map\<close> over the serving ids.\<close>

fun find_defined :: "rpm_section \<Rightarrow> repo_id list \<Rightarrow> (repo_id \<times> string option) option" where
  "find_defined rpm [] = None"
| "find_defined rpm (i # is) =
     (case defining_file rpm i of
        Some f \<Rightarrow> Some (i, Some f)
      | None \<Rightarrow> find_defined rpm is)"

definition repo_enabling_export :: "rpm_section \<Rightarrow> package_entry \<Rightarrow> enabling_export" where
  "repo_enabling_export rpm pkg =
     (case pe_repo_enabling_from pkg of
        [] \<Rightarrow> NotEnabling
      | first_id # _ \<Rightarrow>
          let named = (case find_defined rpm (pe_repo_enabling_from pkg) of
                         None \<Rightarrow> (first_id, None) | Some nf \<Rightarrow> nf)
          in case dropped_owned_path rpm pkg of
               Some dropped \<Rightarrow> Lost \<lparr> sl_id = fst named, sl_file = Some dropped \<rparr>
             | None \<Rightarrow>
                 if \<exists>i \<in> set (pe_repo_enabling_from pkg). section_survives rpm i then Served
                 else Lost \<lparr> sl_id = fst named, sl_file = snd named \<rparr>)"

text \<open>The last piece of a path.\<close>

definition file_name_of :: "string \<Rightarrow> string" where
  "file_name_of path = last (split_on (\<lambda>c. c = CHR ''/'') path)"

definition owned_repo_file_name :: "rpm_section \<Rightarrow> package_entry \<Rightarrow> string option" where
  "owned_repo_file_name rpm pkg =
     (case List.find (\<lambda>e. fo_package_name e = pe_name pkg) (rpm_file_ownership rpm) of
        None \<Rightarrow> None
      | Some owned \<Rightarrow>
          (case sort (filter (\<lambda>path. starts_with path YUM_REPOS_DIR \<and> ends_with path REPO_FILE_SUFFIX)
                  (fo_paths owned)) of
             [] \<Rightarrow> None
           | path # _ \<Rightarrow> Some (file_name_of path)))"

section \<open>The demotion\<close>

definition demotion_text :: "package_entry \<Rightarrow> repo_id \<Rightarrow> string" where
  "demotion_text pkg i =
     ''No repo source: the repo that served '' @ pe_name pkg @ '' ('' @ repo_id_str i @
     '') is not carried by this export''"

definition demotions :: "rpm_section \<Rightarrow> (nat \<times> string) list" where
  "demotions rpm =
     concat (map
       (\<lambda>(i, pkg). case repo_enabling_export rpm pkg of
           Lost loss \<Rightarrow> [(i, demotion_text pkg (sl_id loss))]
         | Served \<Rightarrow> []
         | NotEnabling \<Rightarrow> [])
       (filter (\<lambda>(i, pkg). is_included (pe_disposition pkg))
         (zip [0..<length (rpm_packages_added rpm)] (rpm_packages_added rpm))))"

definition annotate_package :: "package_entry list \<Rightarrow> nat \<times> string \<Rightarrow> package_entry list" where
  "annotate_package ps ia =
     ps[fst ia := (ps ! fst ia)\<lparr>pe_repoless_annotation := snd ia\<rparr>]"

definition demote_rpm :: "rpm_section \<Rightarrow> rpm_section" where
  "demote_rpm rpm =
     rpm\<lparr>rpm_packages_added := foldl annotate_package (rpm_packages_added rpm) (demotions rpm)\<rparr>"

definition demote_unserved_repo_enabling :: "inspection_snapshot \<Rightarrow> inspection_snapshot" where
  "demote_unserved_repo_enabling snap = snap\<lparr>snap_rpm := map_option demote_rpm (snap_rpm snap)\<rparr>"

section \<open>What the demotion does to each package\<close>

definition demoted :: "rpm_section \<Rightarrow> package_entry \<Rightarrow> package_entry" where
  "demoted rpm pkg =
     (if is_included (pe_disposition pkg)
      then case repo_enabling_export rpm pkg of
          Lost loss \<Rightarrow> pkg\<lparr>pe_repoless_annotation := demotion_text pkg (sl_id loss)\<rparr>
        | _ \<Rightarrow> pkg
      else pkg)"

lemma annotate_append:
  "\<forall>ia \<in> set as. fst ia < length ps \<Longrightarrow>
     foldl annotate_package (ps @ qs) as = foldl annotate_package ps as @ qs"
  by (induction "as" arbitrary: ps) (auto simp: annotate_package_def nth_append list_update_append)

lemma annotate_last:
  "length qs = n \<Longrightarrow> annotate_package (qs @ [p]) (n, s) = qs @ [p\<lparr>pe_repoless_annotation := s\<rparr>]"
  by (auto simp: annotate_package_def)

lemma length_annotate [simp]: "length (foldl annotate_package ps as) = length ps"
  by (induction "as" arbitrary: ps) (auto simp: annotate_package_def)

lemma annotate_all:
  "foldl annotate_package ps (concat (map
       (\<lambda>(i, pkg). case repo_enabling_export rpm pkg of
           Lost loss \<Rightarrow> [(i, demotion_text pkg (sl_id loss))]
         | Served \<Rightarrow> []
         | NotEnabling \<Rightarrow> [])
       (filter (\<lambda>(i, pkg). is_included (pe_disposition pkg)) (zip [0..<length ps] ps)))) =
   map (demoted rpm) ps"
proof (induction ps rule: rev_induct)
  case (snoc p ps)
  let ?d = "\<lambda>ps. concat (map
       (\<lambda>(i, pkg). case repo_enabling_export rpm pkg of
           Lost loss \<Rightarrow> [(i, demotion_text pkg (sl_id loss))]
         | Served \<Rightarrow> []
         | NotEnabling \<Rightarrow> [])
       (filter (\<lambda>(i, pkg). is_included (pe_disposition pkg)) (zip [0..<length ps] ps)))"
  let ?last = "if is_included (pe_disposition p) then
      (case repo_enabling_export rpm p of
           Lost loss \<Rightarrow> [(length ps, demotion_text p (sl_id loss))]
         | Served \<Rightarrow> []
         | NotEnabling \<Rightarrow> []) else []"
  have split: "?d (ps @ [p]) = ?d ps @ ?last"
    by (simp add: zip_append)
  have bound: "\<forall>ia \<in> set (?d ps). fst ia < length ps"
    by (auto simp: set_zip split: enabling_export.splits)
  have "foldl annotate_package (ps @ [p]) (?d (ps @ [p])) =
      foldl annotate_package (map (demoted rpm) ps @ [p]) ?last"
    unfolding split foldl_append annotate_append [OF bound] snoc.IH ..
  also have "\<dots> = map (demoted rpm) (ps @ [p])"
    by (simp add: demoted_def annotate_last split: enabling_export.split)
  finally show ?case .
qed simp

lemma demote_rpm_packages: "rpm_packages_added (demote_rpm rpm) = map (demoted rpm) (rpm_packages_added rpm)"
  by (simp add: demote_rpm_def demotions_def annotate_all)

lemma demoted_fields [simp]:
  "pe_name (demoted rpm p) = pe_name p" "pe_arch (demoted rpm p) = pe_arch p"
  "pe_disposition (demoted rpm p) = pe_disposition p" "pe_locked (demoted rpm p) = pe_locked p"
  "pe_source_repo (demoted rpm p) = pe_source_repo p"
  "pe_repo_enabling_from (demoted rpm p) = pe_repo_enabling_from p"
  by (auto simp: demoted_def split: enabling_export.split)

text \<open>When the proof survives, in closed form.\<close>

lemma repo_enabling_served:
  "repo_enabling_export rpm pkg = Served \<longleftrightarrow>
     dropped_owned_path rpm pkg = None \<and>
     (\<exists>i \<in> set (pe_repo_enabling_from pkg). section_survives rpm i)"
  by (auto simp: repo_enabling_export_def Let_def split: list.splits option.splits if_splits)

end
