(* ===== verification/Projection.thy ===== *)
theory Projection
  imports RepoIndex VariantOps RepoEnabling
begin

text \<open>
  The projection of a session (\<open>crates/refine/src/session.rs\<close>, \<open>project_snapshot\<close>): the
  active operations replayed on the original snapshot, the variants materialised, the
  sensitivity flags raised, every locked item clamped to excluded, and the repo-enabling
  packages that lost their proof demoted.
\<close>

section \<open>Sections of a snapshot\<close>

definition on_rpm :: "(rpm_section \<Rightarrow> rpm_section) \<Rightarrow> inspection_snapshot \<Rightarrow> inspection_snapshot" where
  "on_rpm f snap = snap\<lparr>snap_rpm := map_option f (snap_rpm snap)\<rparr>"

definition on_config :: "(config_section \<Rightarrow> config_section) \<Rightarrow> inspection_snapshot \<Rightarrow> inspection_snapshot" where
  "on_config f snap = snap\<lparr>snap_config := map_option f (snap_config snap)\<rparr>"

definition on_services :: "(service_section \<Rightarrow> service_section) \<Rightarrow> inspection_snapshot \<Rightarrow> inspection_snapshot" where
  "on_services f snap = snap\<lparr>snap_services := map_option f (snap_services snap)\<rparr>"

definition on_containers :: "(container_section \<Rightarrow> container_section) \<Rightarrow> inspection_snapshot \<Rightarrow> inspection_snapshot" where
  "on_containers f snap = snap\<lparr>snap_containers := map_option f (snap_containers snap)\<rparr>"

definition on_kernel_boot :: "(kernel_boot_section \<Rightarrow> kernel_boot_section) \<Rightarrow> inspection_snapshot \<Rightarrow> inspection_snapshot" where
  "on_kernel_boot f snap = snap\<lparr>snap_kernel_boot := map_option f (snap_kernel_boot snap)\<rparr>"

definition on_users :: "(user_group_section \<Rightarrow> user_group_section) \<Rightarrow> inspection_snapshot \<Rightarrow> inspection_snapshot" where
  "on_users f snap = snap\<lparr>snap_users_groups := map_option f (snap_users_groups snap)\<rparr>"

definition on_non_rpm :: "(non_rpm_software_section \<Rightarrow> non_rpm_software_section) \<Rightarrow> inspection_snapshot \<Rightarrow> inspection_snapshot" where
  "on_non_rpm f snap = snap\<lparr>snap_non_rpm_software := map_option f (snap_non_rpm_software snap)\<rparr>"

lemmas on_section_defs = on_rpm_def on_config_def on_services_def on_containers_def
  on_kernel_boot_def on_users_def on_non_rpm_def

section \<open>Locks\<close>

text \<open>\<open>section.and_then(|s| s.items.find(p)).map(|x| x.locked).unwrap_or(false)\<close>\<close>

definition found_locked :: "'a list \<Rightarrow> ('a \<Rightarrow> bool) \<Rightarrow> ('a \<Rightarrow> bool) \<Rightarrow> bool" where
  "found_locked xs p locked = (case List.find p xs of None \<Rightarrow> False | Some x \<Rightarrow> locked x)"

definition packages_of :: "inspection_snapshot \<Rightarrow> package_entry list" where
  "packages_of snap = (case snap_rpm snap of None \<Rightarrow> [] | Some r \<Rightarrow> rpm_packages_added r)"

definition state_changes_of :: "inspection_snapshot \<Rightarrow> service_state_change list" where
  "state_changes_of snap = (case snap_services snap of None \<Rightarrow> [] | Some s \<Rightarrow> svc_state_changes s)"

definition flatpaks_of :: "inspection_snapshot \<Rightarrow> flatpak_app list" where
  "flatpaks_of snap = (case snap_containers snap of None \<Rightarrow> [] | Some c \<Rightarrow> ctr_flatpak_apps c)"

definition fstab_of :: "inspection_snapshot \<Rightarrow> fstab_entry list" where
  "fstab_of snap = (case snap_storage snap of None \<Rightarrow> [] | Some s \<Rightarrow> sto_fstab_entries s)"

definition sysctls_of :: "inspection_snapshot \<Rightarrow> sysctl_override list" where
  "sysctls_of snap = (case snap_kernel_boot snap of None \<Rightarrow> [] | Some k \<Rightarrow> kb_sysctl_overrides k)"

definition users_of :: "inspection_snapshot \<Rightarrow> json list" where
  "users_of snap = (case snap_users_groups snap of None \<Rightarrow> [] | Some u \<Rightarrow> ug_users u)"

abbreviation is_package :: "string \<Rightarrow> string \<Rightarrow> package_entry \<Rightarrow> bool" where
  "is_package name arch \<equiv> (\<lambda>e. pe_name e = name \<and> pe_arch e = arch)"

abbreviation is_flatpak :: "string \<Rightarrow> string \<Rightarrow> string \<Rightarrow> flatpak_app \<Rightarrow> bool" where
  "is_flatpak app_id remote branch \<equiv>
     (\<lambda>f. fa_app_id f = app_id \<and> fa_remote f = remote \<and> fa_branch f = branch)"

fun is_item_locked :: "inspection_snapshot \<Rightarrow> item_id \<Rightarrow> bool" where
  "is_item_locked snap (ItemPackage name arch) = found_locked (packages_of snap) (is_package name arch) pe_locked"
| "is_item_locked snap (ItemConfig path) = found_locked (config_files_of snap) (\<lambda>e. cf_path e = path) cf_locked"
| "is_item_locked snap (ItemService u) = found_locked (state_changes_of snap) (\<lambda>s. ssc_unit s = u) ssc_locked"
| "is_item_locked snap (ItemDropIn path) = found_locked (drop_ins_of snap) (\<lambda>d. di_path d = path) di_locked"
| "is_item_locked snap (ItemQuadlet path) = found_locked (quadlets_of snap) (\<lambda>q. qu_path q = path) qu_locked"
| "is_item_locked snap (ItemFlatpak a r b) = found_locked (flatpaks_of snap) (is_flatpak a r b) fa_locked"
| "is_item_locked snap (ItemFstab mp) = found_locked (fstab_of snap) (\<lambda>e. fe_mount_point e = mp) fe_locked"
| "is_item_locked snap (ItemSysctl k) = found_locked (sysctls_of snap) (\<lambda>s. so_key s = k) so_locked"
| "is_item_locked snap _ = False"

section \<open>Clamping\<close>

definition clamp_rpm :: "rpm_section \<Rightarrow> rpm_section" where
  "clamp_rpm r = r\<lparr>
     rpm_packages_added := update_all pe_locked (\<lambda>x. x\<lparr>pe_disposition := fk_excluded\<rparr>) (rpm_packages_added r),
     rpm_module_streams := update_all ms_locked (\<lambda>x. x\<lparr>ms_disposition := fk_excluded\<rparr>) (rpm_module_streams r),
     rpm_version_locks := update_all vl_locked (\<lambda>x. x\<lparr>vl_disposition := fk_excluded\<rparr>) (rpm_version_locks r),
     rpm_repo_files := update_all rf_locked (\<lambda>x. x\<lparr>rf_disposition := fk_excluded\<rparr>) (rpm_repo_files r)\<rparr>"

definition clamp_config :: "config_section \<Rightarrow> config_section" where
  "clamp_config c = c\<lparr>
     cfg_files := update_all cf_locked (\<lambda>x. x\<lparr>cf_disposition := fk_excluded\<rparr>) (cfg_files c)\<rparr>"

definition clamp_services :: "service_section \<Rightarrow> service_section" where
  "clamp_services s = s\<lparr>
     svc_state_changes := update_all ssc_locked (\<lambda>x. x\<lparr>ssc_disposition := fk_excluded\<rparr>) (svc_state_changes s),
     svc_drop_ins := update_all di_locked (\<lambda>x. x\<lparr>di_disposition := fk_excluded\<rparr>) (svc_drop_ins s)\<rparr>"

definition clamp_containers :: "container_section \<Rightarrow> container_section" where
  "clamp_containers c = c\<lparr>
     ctr_quadlet_units := update_all qu_locked (\<lambda>x. x\<lparr>qu_disposition := fk_excluded\<rparr>) (ctr_quadlet_units c),
     ctr_compose_files := update_all cpf_locked (\<lambda>x. x\<lparr>cpf_disposition := fk_excluded\<rparr>) (ctr_compose_files c),
     ctr_running_containers := update_all rc_locked (\<lambda>x. x\<lparr>rc_disposition := fk_excluded\<rparr>) (ctr_running_containers c),
     ctr_flatpak_apps := update_all fa_locked (\<lambda>x. x\<lparr>fa_disposition := fk_excluded\<rparr>) (ctr_flatpak_apps c)\<rparr>"

definition clamp_storage :: "storage_section \<Rightarrow> storage_section" where
  "clamp_storage s = s\<lparr>
     sto_fstab_entries := update_all fe_locked (\<lambda>x. x\<lparr>fe_disposition := fk_excluded\<rparr>) (sto_fstab_entries s)\<rparr>"

definition clamp_kernel_boot :: "kernel_boot_section \<Rightarrow> kernel_boot_section" where
  "clamp_kernel_boot k = k\<lparr>
     kb_sysctl_overrides := update_all so_locked (\<lambda>x. x\<lparr>so_disposition := fk_excluded\<rparr>) (kb_sysctl_overrides k)\<rparr>"

definition clamp_network :: "network_section \<Rightarrow> network_section" where
  "clamp_network n = n\<lparr>
     net_connections := update_all (\<lambda>x. nm_locked x \<and> \<not> is_inventory (nm_disposition x))
       (\<lambda>x. x\<lparr>nm_disposition := fk_excluded\<rparr>) (net_connections n),
     net_firewall_zones := update_all (\<lambda>x. fz_locked x \<and> \<not> is_inventory (fz_disposition x))
       (\<lambda>x. x\<lparr>fz_disposition := fk_excluded\<rparr>) (net_firewall_zones n),
     net_firewall_direct_rules := update_all (\<lambda>x. fdr_locked x \<and> \<not> is_inventory (fdr_disposition x))
       (\<lambda>x. x\<lparr>fdr_disposition := fk_excluded\<rparr>) (net_firewall_direct_rules n)\<rparr>"

definition clamp_scheduled :: "scheduled_task_section \<Rightarrow> scheduled_task_section" where
  "clamp_scheduled s = s\<lparr>
     sch_cron_jobs := update_all cj_locked (\<lambda>x. x\<lparr>cj_disposition := fk_excluded\<rparr>) (sch_cron_jobs s),
     sch_systemd_timers := update_all tm_locked (\<lambda>x. x\<lparr>tm_disposition := fk_excluded\<rparr>) (sch_systemd_timers s),
     sch_at_jobs := update_all aj_locked (\<lambda>x. x\<lparr>aj_disposition := fk_excluded\<rparr>) (sch_at_jobs s),
     sch_generated_timer_units := update_all gt_locked (\<lambda>x. x\<lparr>gt_disposition := fk_excluded\<rparr>)
       (sch_generated_timer_units s)\<rparr>"

definition clamp_selinux :: "selinux_section \<Rightarrow> selinux_section" where
  "clamp_selinux s = s\<lparr>
     sel_port_labels := update_all pl_locked (\<lambda>x. x\<lparr>pl_disposition := fk_excluded\<rparr>) (sel_port_labels s)\<rparr>"

definition clamp_non_rpm :: "non_rpm_software_section \<Rightarrow> non_rpm_software_section" where
  "clamp_non_rpm n = n\<lparr>
     nrs_items := update_all nri_locked (\<lambda>x. x\<lparr>nri_disposition := fk_excluded\<rparr>) (nrs_items n)\<rparr>"

definition clamp_locked_items :: "inspection_snapshot \<Rightarrow> inspection_snapshot" where
  "clamp_locked_items snap = snap\<lparr>
     snap_rpm := map_option clamp_rpm (snap_rpm snap),
     snap_config := map_option clamp_config (snap_config snap),
     snap_services := map_option clamp_services (snap_services snap),
     snap_containers := map_option clamp_containers (snap_containers snap),
     snap_storage := map_option clamp_storage (snap_storage snap),
     snap_kernel_boot := map_option clamp_kernel_boot (snap_kernel_boot snap),
     snap_network := map_option clamp_network (snap_network snap),
     snap_scheduled_tasks := map_option clamp_scheduled (snap_scheduled_tasks snap),
     snap_selinux := map_option clamp_selinux (snap_selinux snap),
     snap_non_rpm_software := map_option clamp_non_rpm (snap_non_rpm_software snap)\<rparr>"

section \<open>Replaying a SetInclude\<close>

text \<open>What replay reads besides the snapshot: the session's original and its repo index.\<close>

record replay_context =
  rx_original :: inspection_snapshot
  rx_index :: repo_index
  rx_active :: "timeline_entry list"

fun entry_ops :: "timeline_entry \<Rightarrow> refinement_op list" where
  "entry_ops (OpEntry p) = [p]"
| "entry_ops (ViewEntry _) = []"
| "entry_ops (BatchEntry ps) = ps"

definition active_ops :: "timeline_entry list \<Rightarrow> refinement_op list" where
  "active_ops es = concat (map entry_ops es)"

text \<open>\<open>excluded_sections_at\<close>: a set of \<open>RepoId\<close>, whose equality folds case.\<close>

fun excluded_step :: "repo_id list \<Rightarrow> refinement_op \<Rightarrow> repo_id list" where
  "excluded_step ex (SetInclude (ItemRepo section_id) include) =
     (let i = RepoId section_id in
      if include then filter (\<lambda>j. \<not> repo_id_eq i j) ex
      else if \<exists>j \<in> set ex. repo_id_eq i j then ex else ex @ [i])"
| "excluded_step ex _ = ex"

definition excluded_sections_at :: "timeline_entry list \<Rightarrow> repo_id list" where
  "excluded_sections_at es = foldl excluded_step [] (active_ops es)"

definition section_excluded :: "repo_id list \<Rightarrow> repo_id \<Rightarrow> bool" where
  "section_excluded ex i \<longleftrightarrow> (\<exists>j \<in> set ex. repo_id_eq i j)"

definition same_repo :: "string \<Rightarrow> string \<Rightarrow> bool" where
  "same_repo a b \<longleftrightarrow> to_ascii_lowercase a = to_ascii_lowercase b"

definition cascade_repo_packages :: "string \<Rightarrow> bool \<Rightarrow> rpm_section \<Rightarrow> rpm_section" where
  "cascade_repo_packages section_id include rpm = rpm\<lparr>
     rpm_packages_added := update_all
       (\<lambda>p. same_repo (pe_source_repo p) section_id \<and> \<not> pe_locked p)
       (\<lambda>p. p\<lparr>pe_disposition := fk_from_bool include\<rparr>) (rpm_packages_added rpm)\<rparr>"

definition set_repo_file :: "finding_kind \<Rightarrow> repo_file list \<Rightarrow> string \<Rightarrow> repo_file list" where
  "set_repo_file d fs path = update_first (\<lambda>r. rf_path r = path) (\<lambda>r. r\<lparr>rf_disposition := d\<rparr>) fs"

definition paths_at :: "repo_id \<Rightarrow> (repo_id \<times> string list) list \<Rightarrow> string list" where
  "paths_at i m = (case rid_get i m of None \<Rightarrow> [] | Some ps \<Rightarrow> ps)"

definition all_sections_excluded :: "repo_index \<Rightarrow> repo_id list \<Rightarrow> string \<Rightarrow> bool" where
  "all_sections_excluded idx ex file_path \<longleftrightarrow>
     (\<forall>(sid, paths) \<in> set (ri_repo_file_by_section idx). file_path \<in> set paths \<longrightarrow> section_excluded ex sid)"

definition exclude_key :: "repo_index \<Rightarrow> repo_id list \<Rightarrow> repo_file list \<Rightarrow> string \<Rightarrow> repo_file list" where
  "exclude_key idx ex ks key_path =
     (case map_of (ri_sections_by_gpg_key idx) key_path of
        None \<Rightarrow> ks
      | Some refs \<Rightarrow>
          if \<forall>(sid, _) \<in> set refs. section_excluded ex sid
          then set_repo_file fk_excluded ks key_path else ks)"

definition exclude_repo :: "replay_context \<Rightarrow> string \<Rightarrow> rpm_section \<Rightarrow> rpm_section" where
  "exclude_repo X section_id rpm =
     (let i = RepoId section_id;
          ex = excluded_sections_at (rx_active X);
          r1 = cascade_repo_packages section_id False rpm;
          r2 = r1\<lparr>rpm_repo_files := foldl
                 (\<lambda>fs path. if all_sections_excluded (rx_index X) ex path
                    then set_repo_file fk_excluded fs path else fs)
                 (rpm_repo_files r1) (paths_at i (ri_repo_file_by_section (rx_index X)))\<rparr>
      in r2\<lparr>rpm_gpg_keys := foldl (exclude_key (rx_index X) ex) (rpm_gpg_keys r2)
             (paths_at i (ri_gpg_keys_by_section (rx_index X)))\<rparr>)"

definition include_repo :: "replay_context \<Rightarrow> string \<Rightarrow> rpm_section \<Rightarrow> rpm_section" where
  "include_repo X section_id rpm =
     (let i = RepoId section_id;
          r1 = cascade_repo_packages section_id True rpm;
          r2 = r1\<lparr>rpm_repo_files := foldl (set_repo_file fk_included) (rpm_repo_files r1)
                 (paths_at i (ri_repo_file_by_section (rx_index X)))\<rparr>
      in r2\<lparr>rpm_gpg_keys := foldl (set_repo_file fk_included) (rpm_gpg_keys r2)
             (paths_at i (ri_gpg_keys_by_section (rx_index X)))\<rparr>)"

definition installed_groups :: "inspection_snapshot \<Rightarrow> installed_group list" where
  "installed_groups snap =
     (case snap_rpm snap of
        None \<Rightarrow> []
      | Some r \<Rightarrow> (case rpm_installed_groups r of None \<Rightarrow> [] | Some gs \<Rightarrow> gs))"

definition group_members_of :: "inspection_snapshot \<Rightarrow> string \<Rightarrow> string list" where
  "group_members_of original name =
     (case List.find (\<lambda>g. ig_name g = name) (installed_groups original) of
        None \<Rightarrow> []
      | Some g \<Rightarrow> ig_members g)"

definition toggle_group :: "string list \<Rightarrow> bool \<Rightarrow> rpm_section \<Rightarrow> rpm_section" where
  "toggle_group member_names include rpm = rpm\<lparr>
     rpm_packages_added := update_all
       (\<lambda>p. pe_name p \<in> set member_names \<and> \<not> (include \<and> pe_locked p))
       (\<lambda>p. p\<lparr>pe_disposition := fk_from_bool include\<rparr>) (rpm_packages_added rpm)\<rparr>"

definition toggle_service :: "string \<Rightarrow> bool \<Rightarrow> service_section \<Rightarrow> service_section" where
  "toggle_service u include s = s\<lparr>
     svc_state_changes := update_first (\<lambda>c. ssc_unit c = u)
       (\<lambda>c. c\<lparr>ssc_disposition := fk_from_bool include\<rparr>) (svc_state_changes s),
     svc_drop_ins := update_all (\<lambda>d. di_unit d = u)
       (\<lambda>d. d\<lparr>di_disposition := fk_from_bool include\<rparr>) (svc_drop_ins s)\<rparr>"

fun set_include_item ::
  "replay_context \<Rightarrow> item_id \<Rightarrow> bool \<Rightarrow> inspection_snapshot \<Rightarrow> inspection_snapshot" where
  "set_include_item X (ItemPackage name arch) include snap =
     on_rpm (\<lambda>r. r\<lparr>rpm_packages_added := update_first (is_package name arch)
       (\<lambda>p. p\<lparr>pe_disposition := fk_from_bool include\<rparr>) (rpm_packages_added r)\<rparr>) snap"
| "set_include_item X (ItemConfig path) include snap =
     on_config (\<lambda>c. c\<lparr>cfg_files := update_first (\<lambda>e. cf_path e = path)
       (\<lambda>e. e\<lparr>cf_disposition := with_include (cf_disposition e) include\<rparr>) (cfg_files c)\<rparr>) snap"
| "set_include_item X (ItemRepo section_id) include snap =
     (if \<not> include then on_rpm (exclude_repo X section_id) snap
      else on_rpm (include_repo X section_id) snap)"
| "set_include_item X (ItemService u) include snap = on_services (toggle_service u include) snap"
| "set_include_item X (ItemDropIn path) include snap =
     on_services (\<lambda>s. s\<lparr>svc_drop_ins := update_first (\<lambda>d. di_path d = path)
       (\<lambda>d. d\<lparr>di_disposition := fk_from_bool include\<rparr>) (svc_drop_ins s)\<rparr>) snap"
| "set_include_item X (ItemQuadlet path) include snap =
     on_containers (\<lambda>c. c\<lparr>ctr_quadlet_units := update_first (\<lambda>q. qu_path q = path)
       (\<lambda>q. q\<lparr>qu_disposition := fk_from_bool include\<rparr>) (ctr_quadlet_units c)\<rparr>) snap"
| "set_include_item X (ItemFlatpak a r b) include snap =
     on_containers (\<lambda>c. c\<lparr>ctr_flatpak_apps := update_first (is_flatpak a r b)
       (\<lambda>f. f\<lparr>fa_disposition := fk_from_bool include\<rparr>) (ctr_flatpak_apps c)\<rparr>) snap"
| "set_include_item X (ItemSysctl k) include snap =
     on_kernel_boot (\<lambda>kb. kb\<lparr>kb_sysctl_overrides := update_first (\<lambda>s. so_key s = k)
       (\<lambda>s. s\<lparr>so_disposition := fk_from_bool include\<rparr>) (kb_sysctl_overrides kb)\<rparr>) snap"
| "set_include_item X (ItemTunedSelection profile) include snap =
     on_kernel_boot (\<lambda>kb. if kb_tuned_active kb = profile
       then kb\<lparr>kb_tuned_disposition := fk_from_bool include\<rparr> else kb) snap"
| "set_include_item X (ItemGroup name) include snap =
     on_rpm (toggle_group (group_members_of (rx_original X) name) include) snap"
| "set_include_item X _ include snap = snap"

section \<open>Replaying the user and pin operations\<close>

definition user_named :: "string \<Rightarrow> json \<Rightarrow> bool" where
  "user_named username u \<longleftrightarrow>
     (case json_get ''name'' u of None \<Rightarrow> False | Some v \<Rightarrow> json_as_str v = Some username)"

fun json_remove :: "string \<Rightarrow> json \<Rightarrow> json" where
  "json_remove k (JObj kvs) = JObj (filter (\<lambda>kv. fst kv \<noteq> k) kvs)"
| "json_remove k j = j"

definition on_user :: "string \<Rightarrow> (json \<Rightarrow> json) \<Rightarrow> inspection_snapshot \<Rightarrow> inspection_snapshot" where
  "on_user username f snap =
     on_users (\<lambda>ug. ug\<lparr>ug_users := update_first (user_named username) f (ug_users ug)\<rparr>) snap"

text \<open>\<open>serde_json::to_value(strategy)\<close>: the variant's name in snake case.\<close>

fun strategy_json :: "containerfile_strategy \<Rightarrow> json" where
  "strategy_json StrategySkip = JStr ''skip''"
| "strategy_json StrategyUseradd = JStr ''useradd''"

definition original_hash :: "inspection_snapshot \<Rightarrow> string \<Rightarrow> string option" where
  "original_hash original username =
     (case List.find (user_named username) (users_of original) of
        None \<Rightarrow> None
      | Some u \<Rightarrow> (case json_get ''password_hash'' u of None \<Rightarrow> None | Some v \<Rightarrow> json_as_str v))"

fun apply_password ::
  "inspection_snapshot \<Rightarrow> user_password_op \<Rightarrow> inspection_snapshot \<Rightarrow> inspection_snapshot" where
  "apply_password original (PasswordNew username h) snap =
     on_user username (\<lambda>u.
       let u1 = json_insert ''password_choice'' (JStr ''new'') u
       in case h of None \<Rightarrow> u1 | Some x \<Rightarrow> json_insert ''password_hash'' (JStr x) u1) snap"
| "apply_password original (PasswordNone username) snap =
     on_user username (\<lambda>u.
       json_remove ''password_hash'' (json_insert ''password_choice'' (JStr ''none'') u)) snap"
| "apply_password original (PasswordPreserve username) snap =
     on_user username (\<lambda>u.
       let u1 = json_insert ''password_choice'' (JStr ''preserve'') u
       in case original_hash original username of
            Some x \<Rightarrow> json_insert ''password_hash'' (JStr x) u1
          | None \<Rightarrow> json_remove ''password_hash'' u1) snap"

abbreviation is_env :: "string \<Rightarrow> string \<Rightarrow> non_rpm_item \<Rightarrow> bool" where
  "is_env ecosystem env_path \<equiv> (\<lambda>i. nri_lang i = ecosystem \<and> nri_path i = env_path)"

definition on_env ::
  "string \<Rightarrow> string \<Rightarrow> (language_package list \<Rightarrow> language_package list) \<Rightarrow>
   inspection_snapshot \<Rightarrow> inspection_snapshot" where
  "on_env ecosystem env_path f snap =
     on_non_rpm (\<lambda>n. n\<lparr>nrs_items := update_first (is_env ecosystem env_path)
       (\<lambda>i. i\<lparr>nri_packages := f (nri_packages i)\<rparr>) (nrs_items n)\<rparr>) snap"

fun set_package_pin :: "item_id \<Rightarrow> bool \<Rightarrow> inspection_snapshot \<Rightarrow> inspection_snapshot" where
  "set_package_pin (ItemLanguagePackage ecosystem env_path package) pinned snap =
     on_env ecosystem env_path
       (update_first (\<lambda>p. lp_name p = package) (\<lambda>p. p\<lparr>lp_pinned := pinned\<rparr>)) snap"
| "set_package_pin _ pinned snap = snap"

section \<open>One operation, and the replay\<close>

fun replay_op ::
  "env \<Rightarrow> replay_context \<Rightarrow> inspection_snapshot \<times> variant_state \<Rightarrow> refinement_op \<Rightarrow>
   inspection_snapshot \<times> variant_state" where
  "replay_op E X (snap, vs) (SetInclude i include) =
     (if include \<and> is_item_locked (rx_original X) i then (snap, vs)
      else (set_include_item X i include snap, vs))"
| "replay_op E X (snap, vs) (UserStrategy username strategy) =
     (on_user username (json_insert ''containerfile_strategy'' (strategy_json strategy)) snap, vs)"
| "replay_op E X (snap, vs) (UserPassword p) = (apply_password (rx_original X) p snap, vs)"
| "replay_op E X (snap, vs) (SelectVariant i target) = (snap, apply_select vs i target)"
| "replay_op E X (snap, vs) (EditVariant i content _) = (snap, apply_edit E (rx_original X) vs i content)"
| "replay_op E X (snap, vs) (DiscardVariant i variant) = (snap, apply_discard vs i variant)"
| "replay_op E X (snap, vs) (SetPackagePin i pinned) = (set_package_pin i pinned snap, vs)"
| "replay_op E X (snap, vs) (SetBulkPackagePin ecosystem env_path pinned) =
     (on_env ecosystem env_path (map (\<lambda>p. p\<lparr>lp_pinned := pinned\<rparr>)) snap, vs)"

definition replay :: "env \<Rightarrow> replay_context \<Rightarrow> inspection_snapshot \<times> variant_state" where
  "replay E X = foldl (replay_op E X) (rx_original X, variant_state_default) (active_ops (rx_active X))"

section \<open>Sensitivity\<close>

definition user_str :: "string \<Rightarrow> json \<Rightarrow> string" where
  "user_str k u = (case json_get k u of
     None \<Rightarrow> []
   | Some v \<Rightarrow> (case json_as_str v of None \<Rightarrow> [] | Some s \<Rightarrow> s))"

definition has_new_password :: "inspection_snapshot \<Rightarrow> bool" where
  "has_new_password snap \<longleftrightarrow>
     (\<exists>u \<in> set (users_of snap). user_str ''password_choice'' u = ''new'' \<and>
        user_str ''password_hash'' u \<noteq> [])"

fun retain_sensitive :: "redaction_state option \<Rightarrow> redaction_state option" where
  "retain_sensitive (Some (FullyRedacted redacted_by config_hash)) =
     Some (SensitiveRetained redacted_by config_hash 0 [])"
| "retain_sensitive (Some (PartiallyRedacted redacted_by config_hash unresolved_count unresolved_hints)) =
     Some (SensitiveRetained redacted_by config_hash unresolved_count unresolved_hints)"
| "retain_sensitive s = s"

definition raise_sensitivity :: "inspection_snapshot \<Rightarrow> inspection_snapshot \<Rightarrow> inspection_snapshot" where
  "raise_sensitivity original snap =
     (if \<not> snap_sensitive_snapshot original \<and> has_new_password snap
      then snap\<lparr>snap_sensitive_snapshot := True,
                snap_redaction_state := retain_sensitive (snap_redaction_state snap)\<rparr>
      else snap)"

section \<open>The projection\<close>

definition project_snapshot :: "env \<Rightarrow> replay_context \<Rightarrow> inspection_snapshot" where
  "project_snapshot E X =
     (let (snap, vs) = replay E X
      in demote_unserved_repo_enabling
           (clamp_locked_items
             (raise_sensitivity (rx_original X) (materialize_variants E vs snap))))"

end
