(* ===== verification/GroupState.thy ===== *)
theory GroupState
  imports RefineTypes
begin

text \<open>
  The rendering state of an installed group (\<open>crates/refine/src/group_state.rs\<close>,
  \<open>crates/core/src/types/group_render.rs\<close>) and the specification it meets.
\<close>

section \<open>States\<close>

datatype degradation_reason = MemberExcluded | MemberOverridden | MultilibConflict

datatype group_render_state =
  Renderable
| GroupExcluded
| Ungrouped
| Degraded degradation_reason
| Inert

record group_eval_context =
  gc_group :: installed_group
  gc_effective_packages :: "package_entry list"
  gc_ungrouped :: bool
  gc_group_excluded :: bool
  gc_divergent_overrides :: "string set"

section \<open>Effective members\<close>

definition is_actionable_package :: "package_entry \<Rightarrow> bool" where
  "is_actionable_package p = is_actionable (pe_disposition p)"

definition is_effective_member :: "package_entry \<Rightarrow> bool" where
  "is_effective_member p \<longleftrightarrow> is_actionable_package p \<and> \<not> pe_locked p"

definition effective_members :: "package_entry list \<Rightarrow> string list \<Rightarrow> package_entry list" where
  "effective_members packages_added members =
     filter is_effective_member (filter (\<lambda>p. pe_name p \<in> set members) packages_added)"

section \<open>The derivation\<close>

text \<open>The flags of the loop, and the loop itself: \<open>Inl\<close> is an early return.\<close>

record member_flags =
  mf_any_excluded :: bool
  mf_all_excluded :: bool
  mf_has_non_locked :: bool

fun scan_members ::
  "group_eval_context \<Rightarrow> member_flags \<Rightarrow> string list \<Rightarrow> group_render_state + member_flags" where
  "scan_members ctx fl [] = Inr fl"
| "scan_members ctx fl (m # ms) =
     (case filter (\<lambda>p. pe_name p = m) (gc_effective_packages ctx) of
        [] \<Rightarrow> scan_members ctx fl ms
      | pkg # rest \<Rightarrow>
          if rest \<noteq> [] then Inl (Degraded MultilibConflict)
          else if pe_locked pkg then scan_members ctx fl ms
          else let fl' = fl\<lparr>mf_has_non_locked := True\<rparr> in
            if pe_name pkg \<in> gc_divergent_overrides ctx then Inl (Degraded MemberOverridden)
            else if is_included (pe_disposition pkg)
              then scan_members ctx (fl'\<lparr>mf_all_excluded := False\<rparr>) ms
              else scan_members ctx (fl'\<lparr>mf_any_excluded := True\<rparr>) ms)"

definition derive_group_state :: "group_eval_context \<Rightarrow> group_render_state" where
  "derive_group_state ctx =
     (if gc_ungrouped ctx then Ungrouped
      else case scan_members ctx
          \<lparr> mf_any_excluded = False, mf_all_excluded = True, mf_has_non_locked = False \<rparr>
          (ig_members (gc_group ctx)) of
        Inl s \<Rightarrow> s
      | Inr fl \<Rightarrow>
          if \<not> mf_has_non_locked fl then Inert
          else if gc_group_excluded ctx \<and> mf_all_excluded fl then GroupExcluded
          else if mf_any_excluded fl then Degraded MemberExcluded
          else Renderable)"

section \<open>Reading the state back\<close>

text \<open>The packages of the pool that a list of members names.\<close>

definition pool_of :: "group_eval_context \<Rightarrow> string list \<Rightarrow> package_entry list" where
  "pool_of ctx ms = concat (map (\<lambda>m. filter (\<lambda>p. pe_name p = m) (gc_effective_packages ctx)) ms)"

definition unlocked :: "package_entry list \<Rightarrow> package_entry list" where
  "unlocked ps = filter (\<lambda>p. \<not> pe_locked p) ps"

definition no_conflict :: "group_eval_context \<Rightarrow> string list \<Rightarrow> bool" where
  "no_conflict ctx ms \<longleftrightarrow>
     (\<forall>m \<in> set ms. length (filter (\<lambda>p. pe_name p = m) (gc_effective_packages ctx)) \<le> 1)"

definition no_override :: "group_eval_context \<Rightarrow> string list \<Rightarrow> bool" where
  "no_override ctx ms \<longleftrightarrow> (\<forall>p \<in> set (unlocked (pool_of ctx ms)). pe_name p \<notin> gc_divergent_overrides ctx)"

lemma pool_of_simps [simp]:
  "pool_of ctx [] = []"
  "pool_of ctx (m # ms) = filter (\<lambda>p. pe_name p = m) (gc_effective_packages ctx) @ pool_of ctx ms"
  by (simp_all add: pool_of_def)

lemma unlocked_simps [simp]:
  "unlocked [] = []"
  "unlocked (p # ps) = (if pe_locked p then unlocked ps else p # unlocked ps)"
  "unlocked (ps @ qs) = unlocked ps @ unlocked qs"
  by (simp_all add: unlocked_def)

lemma scan_members_Inr:
  "scan_members ctx fl ms = Inr fl' \<longleftrightarrow>
     no_conflict ctx ms \<and> no_override ctx ms \<and>
     fl' = fl\<lparr>mf_any_excluded := mf_any_excluded fl \<or>
                 (\<exists>p \<in> set (unlocked (pool_of ctx ms)). \<not> is_included (pe_disposition p)),
              mf_all_excluded := mf_all_excluded fl \<and>
                 (\<forall>p \<in> set (unlocked (pool_of ctx ms)). \<not> is_included (pe_disposition p)),
              mf_has_non_locked := mf_has_non_locked fl \<or> unlocked (pool_of ctx ms) \<noteq> []\<rparr>"
proof (induction ms arbitrary: fl)
  case Nil
  show ?case by (auto simp: no_conflict_def no_override_def)
next
  case (Cons m ms)
  show ?case
  proof (cases "filter (\<lambda>p. pe_name p = m) (gc_effective_packages ctx)")
    case Nil
    then show ?thesis using Cons.IH by (simp add: no_conflict_def no_override_def)
  next
    case (Cons pkg rest)
    show ?thesis
    proof (cases "rest = []")
      case False
      then show ?thesis using Cons by (cases rest) (auto simp: no_conflict_def)
    next
      case True
      with Cons have "filter (\<lambda>p. pe_name p = m) (gc_effective_packages ctx) = [pkg]" by simp
      then show ?thesis
        using Cons.IH by (auto simp: no_conflict_def no_override_def Let_def)
    qed
  qed
qed

lemma scan_members_Inl:
  "scan_members ctx fl ms = Inl s \<Longrightarrow> s = Degraded MultilibConflict \<or> s = Degraded MemberOverridden"
  by (induction ms arbitrary: fl) (auto simp: Let_def split: list.splits if_splits)

text \<open>When a group is rendered as one, in terms of the unlocked packages of its members.\<close>

lemma renderable_iff:
  "derive_group_state ctx = Renderable \<longleftrightarrow>
     (let ms = ig_members (gc_group ctx); ps = unlocked (pool_of ctx ms)
      in \<not> gc_ungrouped ctx \<and> no_conflict ctx ms \<and> no_override ctx ms \<and> ps \<noteq> [] \<and>
         (\<forall>p \<in> set ps. is_included (pe_disposition p)))"
proof (cases "scan_members ctx
    \<lparr> mf_any_excluded = False, mf_all_excluded = True, mf_has_non_locked = False \<rparr> (ig_members (gc_group ctx))")
  case (Inl s)
  then have "\<not> (no_conflict ctx (ig_members (gc_group ctx)) \<and> no_override ctx (ig_members (gc_group ctx)))"
    using scan_members_Inr [of ctx "\<lparr> mf_any_excluded = False, mf_all_excluded = True, mf_has_non_locked = False \<rparr>"
        "ig_members (gc_group ctx)"] by auto
  then show ?thesis
    using Inl scan_members_Inl [OF Inl] by (auto simp: derive_group_state_def Let_def)
next
  case (Inr fl)
  then show ?thesis
    unfolding derive_group_state_def Inr
    using iffD1 [OF scan_members_Inr Inr] by (cases "unlocked (pool_of ctx (ig_members (gc_group ctx)))")
      (auto simp: Let_def)
qed

end
