(* ===== verification/Session.thy ===== *)
theory Session
  imports Projection GroupState
begin

text \<open>
  The refine session (\<open>crates/refine/src/session.rs\<close>): the timeline of recorded entries
  with its cursor, the validation of an operation, the refusals and no-ops, and the
  mutating operations \<open>apply\<close>, \<open>apply_directive\<close>, \<open>apply_batch\<close>, \<open>undo\<close>, \<open>redo\<close> and
  \<open>reset\<close>. A mutating operation returns its \<open>Result\<close> beside the session after it.

  The state holds the original snapshot, the repo index, the timeline, the cursor, the
  generation counter and the one part of the cached view that the operations read back, the
  effective counts per repository.
\<close>

section \<open>The state\<close>

record refine_session =
  ses_original :: inspection_snapshot
  ses_repo_index :: repo_index
  ses_timeline :: "timeline_entry list"
  ses_cursor :: nat
  ses_generation :: "64 word"
  ses_repo_effective :: "(repo_id \<times> repo_effective) list"

definition active_entries :: "refine_session \<Rightarrow> timeline_entry list" where
  "active_entries s = take (ses_cursor s) (ses_timeline s)"

definition replay_context_of :: "refine_session \<Rightarrow> replay_context" where
  "replay_context_of s =
     \<lparr> rx_original = ses_original s, rx_index = ses_repo_index s, rx_active = active_entries s \<rparr>"

definition snapshot_projected :: "env \<Rightarrow> refine_session \<Rightarrow> inspection_snapshot" where
  "snapshot_projected E s = project_snapshot E (replay_context_of s)"

section \<open>The effective counts of the view\<close>

definition canonical_package_id :: "string \<Rightarrow> string \<Rightarrow> string" where
  "canonical_package_id name arch = name @ ''.'' @ arch"

text \<open>
  The classified packages stand one for one for \<open>packages_added\<close>; their include and lock
  states are restored from the first projected entry of the same name and architecture.
\<close>

definition classified_state :: "package_entry list \<Rightarrow> (string \<times> bool \<times> bool) list" where
  "classified_state ps =
     map (\<lambda>p. let e = (case List.find (is_package (pe_name p) (pe_arch p)) ps of None \<Rightarrow> p | Some e \<Rightarrow> e)
              in (canonical_package_id (pe_name p) (pe_arch p), is_included (pe_disposition e), pe_locked e)) ps"

definition sync_classified :: "package_entry list \<Rightarrow> package_entry list" where
  "sync_classified ps =
     (let state_map = foldl (\<lambda>m (k, v). m(k \<mapsto> v)) Map.empty (classified_state ps)
      in map (\<lambda>p. case state_map (canonical_package_id (pe_name p) (pe_arch p)) of
             None \<Rightarrow> p
           | Some (include, locked) \<Rightarrow> p\<lparr>pe_disposition := fk_from_bool include, pe_locked := locked\<rparr>) ps)"

definition effective_packages :: "inspection_snapshot \<Rightarrow> package_entry list" where
  "effective_packages projected = filter is_effective_member (sync_classified (packages_of projected))"

definition count_effective ::
  "(repo_id \<times> repo_effective) list \<Rightarrow> package_entry \<Rightarrow> (repo_id \<times> repo_effective) list" where
  "count_effective m pkg =
     (if pe_source_repo pkg = [] then m
      else rid_entry (RepoId (pe_source_repo pkg)) repo_effective_default
        (\<lambda>c. c\<lparr>re_member_count := re_member_count c + 1,
               re_included := re_included c + (if is_included (pe_disposition pkg) then 1 else 0)\<rparr>) m)"

definition repo_effective_of :: "inspection_snapshot \<Rightarrow> (repo_id \<times> repo_effective) list" where
  "repo_effective_of projected = foldl count_effective [] (effective_packages projected)"

definition recompute_view :: "env \<Rightarrow> refine_session \<Rightarrow> refine_session" where
  "recompute_view E s = s\<lparr>ses_repo_effective := repo_effective_of (snapshot_projected E s)\<rparr>"

text \<open>The session at the end of its constructor, on the normalised snapshot and its index.\<close>

definition session_start :: "env \<Rightarrow> inspection_snapshot \<Rightarrow> repo_index \<Rightarrow> refine_session" where
  "session_start E original idx = recompute_view E
     \<lparr> ses_original = original, ses_repo_index = idx, ses_timeline = [], ses_cursor = 0,
       ses_generation = 0, ses_repo_effective = [] \<rparr>"

definition repo_effective :: "refine_session \<Rightarrow> repo_id \<Rightarrow> repo_effective" where
  "repo_effective s i =
     (case rid_get i (ses_repo_effective s) of None \<Rightarrow> repo_effective_default | Some c \<Rightarrow> c)"

section \<open>Validation\<close>

fun provenance_text :: "repo_provenance \<Rightarrow> string" where
  "provenance_text ProvVerified = ''Verified''"
| "provenance_text ProvIncomplete = ''Incomplete''"
| "provenance_text ProvDisabled = ''Disabled''"
| "provenance_text ProvStale = ''Stale''"
| "provenance_text ProvUnknown = ''Unknown''"

text \<open>A text in single quotes.\<close>

definition quoted :: "string \<Rightarrow> string" where
  "quoted t = [CHR 0x27] @ t @ [CHR 0x27]"

definition require :: "bool \<Rightarrow> refine_error \<Rightarrow> unit refine_result" where
  "require b e = (if b then Inr () else Inl e)"

definition validate_repo :: "refine_session \<Rightarrow> string \<Rightarrow> bool \<Rightarrow> unit refine_result" where
  "validate_repo s section_id include =
     (if is_distro_repo section_id
      then Inl (BadRequest (''cannot toggle distro repo: '' @ section_id))
      else let prov = repo_provenance_of (ses_repo_index s) (RepoId section_id) in
        if prov \<in> {ProvVerified, ProvIncomplete} then Inr ()
        else Inl (BadRequest (''cannot '' @ (if include then ''include'' else ''exclude'') @ '' repo '' @
               quoted section_id @ '': provenance is '' @ provenance_text prov)))"

definition validate_config :: "refine_session \<Rightarrow> string \<Rightarrow> unit refine_result" where
  "validate_config s path =
     (case List.find (\<lambda>e. cf_path e = path) (config_files_of (ses_original s)) of
        None \<Rightarrow> Inl (UnknownTarget path)
      | Some e \<Rightarrow>
          if is_advisory (cf_disposition e) then Inl (AdvisoryNotToggleable path)
          else if is_inventory (cf_disposition e) then Inl (InventoryNotToggleable path)
          else Inr ())"

text \<open>A drop-in whose unit is explicitly excluded in the projection may not be included.\<close>

definition parent_excluded :: "inspection_snapshot \<Rightarrow> string \<Rightarrow> bool" where
  "parent_excluded projected path =
     (case List.find (\<lambda>d. di_path d = path) (drop_ins_of projected) of
        None \<Rightarrow> False
      | Some dropin \<Rightarrow> \<exists>c \<in> set (state_changes_of projected).
          ssc_unit c = di_unit dropin \<and> ssc_disposition c = Actionable False)"

definition validate_drop_in :: "env \<Rightarrow> refine_session \<Rightarrow> string \<Rightarrow> bool \<Rightarrow> unit refine_result" where
  "validate_drop_in E s path include =
     (if \<not> (\<exists>d \<in> set (drop_ins_of (ses_original s)). di_path d = path) then Inl (UnknownTarget path)
      else if include \<and> parent_excluded (snapshot_projected E s) path
      then Inl (BadRequest ''cannot include drop-in when parent service is excluded'')
      else Inr ())"

definition tuned_is :: "inspection_snapshot \<Rightarrow> string \<Rightarrow> bool" where
  "tuned_is snap profile =
     (case snap_kernel_boot snap of None \<Rightarrow> False | Some kb \<Rightarrow> kb_tuned_active kb = profile)"

fun validate_include :: "refine_env \<Rightarrow> refine_session \<Rightarrow> item_id \<Rightarrow> bool \<Rightarrow> unit refine_result" where
  "validate_include R s (ItemPackage name arch) include =
     require (\<exists>e \<in> set (packages_of (ses_original s)). pe_name e = name \<and> pe_arch e = arch)
       (UnknownTarget (name @ ''.'' @ arch))"
| "validate_include R s (ItemConfig path) include = validate_config s path"
| "validate_include R s (ItemRepo section_id) include = validate_repo s section_id include"
| "validate_include R s (ItemService u) include =
     require (\<exists>c \<in> set (state_changes_of (ses_original s)). ssc_unit c = u) (UnknownTarget u)"
| "validate_include R s (ItemDropIn path) include = validate_drop_in (core_env R) s path include"
| "validate_include R s (ItemQuadlet path) include =
     require (\<exists>q \<in> set (quadlets_of (ses_original s)). qu_path q = path) (UnknownTarget path)"
| "validate_include R s (ItemFlatpak a r b) include =
     require (\<exists>f \<in> set (flatpaks_of (ses_original s)). is_flatpak a r b f)
       (UnknownTarget (a @ '' ('' @ r @ ''/'' @ b @ '')''))"
| "validate_include R s (ItemSysctl k) include =
     require (\<exists>x \<in> set (sysctls_of (ses_original s)). so_key x = k) (UnknownTarget k)"
| "validate_include R s (ItemTunedSelection profile) include =
     require (tuned_is (ses_original s) profile) (UnknownTarget profile)"
| "validate_include R s (ItemNMConnection path) include =
     Inl (InventoryNotToggleable (debug_item R (ItemNMConnection path)))"
| "validate_include R s (ItemFirewallZone path) include =
     Inl (InventoryNotToggleable (debug_item R (ItemFirewallZone path)))"
| "validate_include R s (ItemGroup name) include =
     require (\<exists>g \<in> set (installed_groups (ses_original s)). ig_name g = name) (UnknownTarget name)"
| "validate_include R s _ include = Inr ()"

definition user_exists :: "refine_session \<Rightarrow> string \<Rightarrow> bool" where
  "user_exists s username \<longleftrightarrow> (\<exists>u \<in> set (users_of (ses_original s)). user_named username u)"

fun password_user :: "user_password_op \<Rightarrow> string" where
  "password_user (PasswordNew username _) = username"
| "password_user (PasswordNone username) = username"
| "password_user (PasswordPreserve username) = username"

text \<open>\<open>build_variant_state\<close>: the variant operations of the active entries alone.\<close>

fun variant_step :: "env \<Rightarrow> inspection_snapshot \<Rightarrow> variant_state \<Rightarrow> refinement_op \<Rightarrow> variant_state" where
  "variant_step E original vs (SelectVariant i target) = apply_select vs i target"
| "variant_step E original vs (EditVariant i content _) = apply_edit E original vs i content"
| "variant_step E original vs (DiscardVariant i variant) = apply_discard vs i variant"
| "variant_step E original vs _ = vs"

definition build_variant_state :: "env \<Rightarrow> refine_session \<Rightarrow> variant_state" where
  "build_variant_state E s =
     foldl (variant_step E (ses_original s)) variant_state_default (active_ops (active_entries s))"

fun edit_target :: "refine_env \<Rightarrow> refine_session \<Rightarrow> item_id \<Rightarrow> unit refine_result" where
  "edit_target R s (ItemConfig path) =
     require (path_in_section (ses_original s) (ItemConfig path)) (UnknownTarget path)"
| "edit_target R s (ItemDropIn path) =
     require (path_in_section (ses_original s) (ItemDropIn path)) (UnknownTarget path)"
| "edit_target R s (ItemQuadlet path) =
     require (path_in_section (ses_original s) (ItemQuadlet path)) (UnknownTarget path)"
| "edit_target R s (ItemCompose path) =
     Inl (BadRequest ''EditVariant not supported for Compose items (structured carrier)'')"
| "edit_target R s i = Inl (BadRequest (''EditVariant not supported for '' @ debug_item R i))"

definition validate_edit ::
  "refine_env \<Rightarrow> refine_session \<Rightarrow> item_id \<Rightarrow> content_hash option \<Rightarrow> unit refine_result" where
  "validate_edit R s i based_on =
     (case edit_target R s i of
        Inl e \<Rightarrow> Inl e
      | Inr _ \<Rightarrow>
          (case based_on of
             None \<Rightarrow> Inr ()
           | Some h \<Rightarrow>
               let vs = build_variant_state (core_env R) s;
                   in_user = (case item_path i of None \<Rightarrow> False | Some p \<Rightarrow> user_has vs p (hash_str h));
                   in_host = host_has_text (core_env R) (ses_original s) i h
               in if \<not> in_user \<and> \<not> in_host
                  then Inl (BadRequest (''based_on hash '' @ hash_str h @ '' not found in variant pool''))
                  else Inr ()))"

definition find_env :: "inspection_snapshot \<Rightarrow> string \<Rightarrow> string \<Rightarrow> non_rpm_item option" where
  "find_env snap ecosystem env_path = List.find (is_env ecosystem env_path) (non_rpm_items_of snap)"

definition find_env_package ::
  "inspection_snapshot \<Rightarrow> string \<Rightarrow> string \<Rightarrow> string \<Rightarrow> language_package option" where
  "find_env_package snap ecosystem env_path package =
     (case find_env snap ecosystem env_path of
        None \<Rightarrow> None
      | Some i \<Rightarrow> List.find (\<lambda>p. lp_name p = package) (nri_packages i))"

fun validate_pin :: "refine_env \<Rightarrow> refine_session \<Rightarrow> item_id \<Rightarrow> unit refine_result" where
  "validate_pin R s (ItemLanguagePackage ecosystem env_path package) =
     require (find_env_package (ses_original s) ecosystem env_path package \<noteq> None)
       (UnknownTarget (ecosystem @ '':'' @ env_path @ '':'' @ package))"
| "validate_pin R s i =
     Inl (BadRequest (''SetPackagePin requires LanguagePackage item_id, got '' @ debug_item R i))"

fun validate_target :: "refine_env \<Rightarrow> refine_session \<Rightarrow> refinement_op \<Rightarrow> unit refine_result" where
  "validate_target R s (SetInclude i include) = validate_include R s i include"
| "validate_target R s (UserStrategy username _) = require (user_exists s username) (UnknownTarget username)"
| "validate_target R s (UserPassword p) =
     require (user_exists s (password_user p)) (UnknownTarget (password_user p))"
| "validate_target R s (SelectVariant i target) =
     validate_select (core_env R) (ses_original s) (build_variant_state (core_env R) s) i target"
| "validate_target R s (EditVariant i _ based_on) = validate_edit R s i based_on"
| "validate_target R s (DiscardVariant i variant) =
     validate_discard (core_env R) (ses_original s) (build_variant_state (core_env R) s) i variant"
| "validate_target R s (SetPackagePin i _) = validate_pin R s i"
| "validate_target R s (SetBulkPackagePin ecosystem env_path _) =
     require (find_env (ses_original s) ecosystem env_path \<noteq> None)
       (UnknownTarget (ecosystem @ '':'' @ env_path))"

section \<open>Refusals and no-ops\<close>

definition already_text :: "bool \<Rightarrow> string" where
  "already_text include = (if include then ''included'' else ''excluded'')"

text \<open>The refusal of an empty effective set.\<close>

definition nothing_to_decide :: "string \<Rightarrow> nat \<Rightarrow> refine_error" where
  "nothing_to_decide name present_count =
     NoopTarget (''nothing to decide in '' @ quoted name @ '': '' @
       (if present_count > 0 then ''all '' @ show_usize present_count @ '' members are locked''
        else ''no package is attributed to it''))"

definition already_decided :: "nat \<Rightarrow> string \<Rightarrow> bool \<Rightarrow> refine_error" where
  "already_decided n name include =
     NoopTarget (''all '' @ show_usize n @ '' effective members of '' @ quoted name @
       '' are already '' @ already_text include)"

definition check_group_noop :: "env \<Rightarrow> refine_session \<Rightarrow> string \<Rightarrow> bool \<Rightarrow> unit refine_result" where
  "check_group_noop E s name include =
     (case List.find (\<lambda>g. ig_name g = name) (installed_groups (ses_original s)) of
        None \<Rightarrow> Inr ()
      | Some g \<Rightarrow>
          let added = packages_of (snapshot_projected E s);
              effective = effective_members added (ig_members g)
          in if effective = [] then
               Inl (nothing_to_decide name (length (filter is_actionable_package
                 (filter (\<lambda>p. pe_name p \<in> set (ig_members g)) added))))
             else if \<forall>p \<in> set effective. is_included (pe_disposition p) = include then
               Inl (already_decided (length effective) name include)
             else Inr ())"

definition check_repo_noop :: "env \<Rightarrow> refine_session \<Rightarrow> string \<Rightarrow> bool \<Rightarrow> unit refine_result" where
  "check_repo_noop E s section_id include =
     (let c = repo_effective s (RepoId section_id) in
      if re_member_count c = 0 then
        Inl (nothing_to_decide section_id (length (filter is_actionable_package
          (filter (\<lambda>p. same_repo (pe_source_repo p) section_id) (packages_of (snapshot_projected E s))))))
      else if (include \<and> re_included c = re_member_count c) \<or> (\<not> include \<and> re_included c = 0) then
        Inl (already_decided (re_member_count c) section_id include)
      else Inr ())"

text \<open>\<open>find(p).map(|x| x.included == include).unwrap_or(false)\<close>\<close>

definition found_included :: "'a list \<Rightarrow> ('a \<Rightarrow> bool) \<Rightarrow> ('a \<Rightarrow> finding_kind) \<Rightarrow> bool \<Rightarrow> bool" where
  "found_included xs p disp include =
     (case List.find p xs of None \<Rightarrow> False | Some x \<Rightarrow> is_included (disp x) = include)"

definition include_noop :: "env \<Rightarrow> refine_session \<Rightarrow> item_id \<Rightarrow> bool \<Rightarrow> bool" where
  "include_noop E s i include =
     (case i of
        ItemPackage name arch \<Rightarrow>
          found_included (packages_of (snapshot_projected E s)) (is_package name arch) pe_disposition include
      | ItemConfig path \<Rightarrow>
          found_included (config_files_of (snapshot_projected E s)) (\<lambda>e. cf_path e = path) cf_disposition include
      | _ \<Rightarrow> False)"

definition pin_noop :: "env \<Rightarrow> refine_session \<Rightarrow> item_id \<Rightarrow> bool \<Rightarrow> bool" where
  "pin_noop E s i pinned =
     (case i of
        ItemLanguagePackage ecosystem env_path package \<Rightarrow>
          (case find_env_package (snapshot_projected E s) ecosystem env_path package of
             None \<Rightarrow> False
           | Some p \<Rightarrow> lp_pinned p = pinned)
      | _ \<Rightarrow> False)"

fun is_op_noop :: "env \<Rightarrow> refine_session \<Rightarrow> refinement_op \<Rightarrow> bool" where
  "is_op_noop E s (SetInclude i include) = include_noop E s i include"
| "is_op_noop E s (SetPackagePin i pinned) = pin_noop E s i pinned"
| "is_op_noop E s (SetBulkPackagePin ecosystem env_path pinned) =
     (case find_env (snapshot_projected E s) ecosystem env_path of
        None \<Rightarrow> False
      | Some i \<Rightarrow> \<forall>p \<in> set (nri_packages i). lp_pinned p = pinned)"
| "is_op_noop E s _ = False"

fun is_directive_noop :: "refine_session \<Rightarrow> view_directive \<Rightarrow> bool" where
  "is_directive_noop s (UngroupGroup g) = (ViewEntry (UngroupGroup g) \<in> set (active_entries s))"

section \<open>The mutating operations\<close>

text \<open>Record an entry: the redo tail goes, the cursor and the generation move, the view is rebuilt.\<close>

definition record_entry :: "env \<Rightarrow> timeline_entry \<Rightarrow> refine_session \<Rightarrow> refine_session" where
  "record_entry E entry s = recompute_view E
     (s\<lparr>ses_timeline := take (ses_cursor s) (ses_timeline s) @ [entry],
        ses_cursor := ses_cursor s + 1,
        ses_generation := ses_generation s + 1\<rparr>)"

fun reincludes_locked :: "refine_session \<Rightarrow> refinement_op \<Rightarrow> bool" where
  "reincludes_locked s (SetInclude i True) = is_item_locked (ses_original s) i"
| "reincludes_locked s _ = False"

text \<open>The refusal of a group or repo operation that changes nothing.\<close>

fun refuse_noop :: "env \<Rightarrow> refine_session \<Rightarrow> refinement_op \<Rightarrow> unit refine_result" where
  "refuse_noop E s (SetInclude i include) =
     (case i of
        ItemGroup name \<Rightarrow> check_group_noop E s name include
      | ItemRepo section_id \<Rightarrow> check_repo_noop E s section_id include
      | _ \<Rightarrow> Inr ())"
| "refuse_noop E s _ = Inr ()"

definition apply_op :: "refine_env \<Rightarrow> refinement_op \<Rightarrow> refine_session \<Rightarrow> unit refine_result \<times> refine_session" where
  "apply_op R p s =
     (case validate_target R s p of
        Inl e \<Rightarrow> (Inl e, s)
      | Inr _ \<Rightarrow>
          if reincludes_locked s p then (Inr (), s)
          else case refuse_noop (core_env R) s p of
            Inl e \<Rightarrow> (Inl e, s)
          | Inr _ \<Rightarrow>
              if is_op_noop (core_env R) s p then (Inr (), s)
              else (Inr (), record_entry (core_env R) (OpEntry p) s))"

fun apply_directive :: "env \<Rightarrow> view_directive \<Rightarrow> refine_session \<Rightarrow> unit refine_result \<times> refine_session" where
  "apply_directive E (UngroupGroup g) s =
     (if \<not> (\<exists>ig \<in> set (installed_groups (ses_original s)). ig_name ig = g)
      then (Inl (BadRequest (''unknown group: '' @ g)), s)
      else if is_directive_noop s (UngroupGroup g) then (Inr (), s)
      else (Inr (), record_entry E (ViewEntry (UngroupGroup g)) s))"

definition apply_batch :: "env \<Rightarrow> refinement_op list \<Rightarrow> refine_session \<Rightarrow> unit refine_result \<times> refine_session" where
  "apply_batch E ps s =
     (let valid_ops = filter (\<lambda>p. \<not> reincludes_locked s p) ps in
      if valid_ops = [] then (Inr (), s)
      else (Inr (), record_entry E (BatchEntry valid_ops) s))"

definition undo :: "env \<Rightarrow> refine_session \<Rightarrow> unit refine_result \<times> refine_session" where
  "undo E s =
     (if ses_cursor s = 0 then (Inl NothingToUndo, s)
      else (Inr (), recompute_view E
        (s\<lparr>ses_cursor := ses_cursor s - 1, ses_generation := ses_generation s + 1\<rparr>)))"

definition redo :: "env \<Rightarrow> refine_session \<Rightarrow> unit refine_result \<times> refine_session" where
  "redo E s =
     (if ses_cursor s \<ge> length (ses_timeline s) then (Inl NothingToRedo, s)
      else (Inr (), recompute_view E
        (s\<lparr>ses_cursor := ses_cursor s + 1, ses_generation := ses_generation s + 1\<rparr>)))"

definition reset :: "env \<Rightarrow> refine_session \<Rightarrow> unit refine_result \<times> refine_session" where
  "reset E s =
     (if ses_timeline s = [] then (Inl NothingToUndo, s)
      else (Inr (), recompute_view E
        (s\<lparr>ses_timeline := [], ses_cursor := 0, ses_generation := ses_generation s + 1\<rparr>)))"

section \<open>Histories\<close>

definition flag_entries :: "refine_session \<Rightarrow> (timeline_entry \<times> bool) list" where
  "flag_entries s = map (\<lambda>(i, e). (e, i < ses_cursor s)) (enumerate 0 (ses_timeline s))"

definition ops_history :: "refine_session \<Rightarrow> (refinement_op \<times> bool) list" where
  "ops_history s = concat (map (\<lambda>(e, active). map (\<lambda>p. (p, active)) (entry_ops e)) (flag_entries s))"

definition timeline_history :: "refine_session \<Rightarrow> (timeline_entry \<times> bool) list" where
  "timeline_history s = concat (map (\<lambda>(e, active). case e of
      BatchEntry ps \<Rightarrow> map (\<lambda>p. (OpEntry p, active)) ps
    | _ \<Rightarrow> [(e, active)]) (flag_entries s))"

definition can_undo :: "refine_session \<Rightarrow> bool" where
  "can_undo s \<longleftrightarrow> ses_cursor s > 0"

definition can_redo :: "refine_session \<Rightarrow> bool" where
  "can_redo s \<longleftrightarrow> ses_cursor s < length (ses_timeline s)"

section \<open>Group states of the view\<close>

text \<open>The backward scan stops at the first entry, from the cursor, with an operation on the group.\<close>

fun group_op :: "string \<Rightarrow> refinement_op \<Rightarrow> bool option" where
  "group_op g (SetInclude i include) =
     (case i of ItemGroup name \<Rightarrow> if name = g then Some include else None | _ \<Rightarrow> None)"
| "group_op g _ = None"

fun first_group_op :: "string \<Rightarrow> refinement_op list \<Rightarrow> bool option" where
  "first_group_op g [] = None"
| "first_group_op g (p # ps) = (case group_op g p of None \<Rightarrow> first_group_op g ps | Some b \<Rightarrow> Some b)"

fun last_group_entry :: "string \<Rightarrow> (nat \<times> timeline_entry) list \<Rightarrow> (nat \<times> bool) option" where
  "last_group_entry g [] = None"
| "last_group_entry g ((i, e) # rest) =
     (case first_group_op g (entry_ops e) of
        None \<Rightarrow> last_group_entry g rest
      | Some include \<Rightarrow> Some (i, include))"

fun divergent_name :: "installed_group \<Rightarrow> bool \<Rightarrow> refinement_op \<Rightarrow> string list" where
  "divergent_name g last_include (SetInclude i include) =
     (case i of
        ItemPackage name _ \<Rightarrow>
          if name \<in> set (ig_members g) \<and> include \<noteq> last_include then [name] else []
      | _ \<Rightarrow> [])"
| "divergent_name g last_include _ = []"

definition group_context :: "refine_session \<Rightarrow> package_entry list \<Rightarrow> installed_group \<Rightarrow> group_eval_context" where
  "group_context s effective g =
     (let es = active_entries s;
          found = last_group_entry (ig_name g) (rev (enumerate 0 es))
      in \<lparr> gc_group = g,
           gc_effective_packages = effective,
           gc_ungrouped = (ViewEntry (UngroupGroup (ig_name g)) \<in> set es),
           gc_group_excluded = (case found of None \<Rightarrow> False | Some (_, include) \<Rightarrow> \<not> include),
           gc_divergent_overrides = (case found of
               None \<Rightarrow> {}
             | Some (i, include) \<Rightarrow>
                 set (concat (map (divergent_name g include) (active_ops (drop (i + 1) es))))) \<rparr>)"

definition group_states :: "env \<Rightarrow> refine_session \<Rightarrow> (string \<times> group_render_state) list" where
  "group_states E s =
     (let effective = effective_packages (snapshot_projected E s)
      in foldl (\<lambda>m g. hm_put (ig_name g) (derive_group_state (group_context s effective g)) m) []
           (installed_groups (ses_original s)))"

end
