(* ===== verification/VariantFacts.thy ===== *)
theory VariantFacts
  imports VariantOps
begin

text \<open>
  What materialising the variants does: the laws of a text pool as a locale, the closed form
  of each of the three passes inside it, and their composition as one specification,
  \<open>pool_outcome\<close>, of the variants a path has afterwards. The locale is interpreted on the
  three pools of the code.
\<close>

section \<open>Updates by position\<close>

lemma positions_Nil [simp]: "positions p [] = []"
  by (simp add: positions_def)

lemma positions_snoc: "positions p (xs @ [x]) = positions p xs @ (if p x then [length xs] else [])"
proof -
  have "filter (\<lambda>i. p ((xs @ [x]) ! i)) [0..<length xs] = filter (\<lambda>i. p (xs ! i)) [0..<length xs]"
    by (rule filter_cong) (auto simp: nth_append)
  then show ?thesis by (simp add: positions_def)
qed

lemma length_positions: "length (positions p xs) = length (filter p xs)"
  by (induction xs rule: rev_induct) (auto simp: positions_snoc)

lemma positions_bound: "i \<in> set (positions p xs) \<Longrightarrow> i < length xs \<and> p (xs ! i)"
  by (auto simp: positions_def)

lemma update_at_append:
  "set is \<subseteq> {..<length xs} \<Longrightarrow> foldl (update_at f) (xs @ ys) is = foldl (update_at f) xs is @ ys"
  by (induction "is" arbitrary: xs) (auto simp: update_at_def nth_append list_update_append)

lemma length_update_at_fold [simp]: "length (foldl (update_at f) xs is) = length xs"
  by (induction "is" arbitrary: xs) (auto simp: update_at_def)

lemma update_at_last: "length ys = n \<Longrightarrow> update_at f (ys @ [x]) n = ys @ [f x]"
  by (auto simp: update_at_def)

lemma foldl_update_positions:
  "foldl (update_at f) xs (positions p xs) = map (\<lambda>e. if p e then f e else e) xs"
proof (induction xs rule: rev_induct)
  case (snoc x xs)
  have "foldl (update_at f) (xs @ [x]) (positions p xs) =
      map (\<lambda>e. if p e then f e else e) xs @ [x]"
    using snoc.IH positions_bound [of _ p xs] by (subst update_at_append) auto
  then show ?case by (simp add: positions_snoc update_at_last)
qed simp

lemma update_single_position:
  assumes "length (positions p xs) = 1"
  shows "update_at f xs (positions p xs ! 0) = map (\<lambda>e. if p e then f e else e) xs"
proof -
  obtain i where "positions p xs = [i]" using assms by (cases "positions p xs") auto
  then show ?thesis using foldl_update_positions [of f xs p] by simp
qed

section \<open>Well-formed states\<close>

text \<open>Keys occur once and a user variant is filed under the hash of its content.\<close>

definition user_map_ok :: "env \<Rightarrow> (string \<times> string) list \<Rightarrow> bool" where
  "user_map_ok E um \<longleftrightarrow> distinct (map fst um) \<and> (\<forall>hc \<in> set um. fst hc = sha256_hex E (snd hc))"

definition variant_state_ok :: "env \<Rightarrow> variant_state \<Rightarrow> bool" where
  "variant_state_ok E st \<longleftrightarrow>
     distinct (map fst (vs_user_variants st)) \<and> distinct (map fst (vs_discarded st)) \<and>
     distinct (map fst (vs_selected st)) \<and>
     (\<forall>pm \<in> set (vs_user_variants st). user_map_ok E (snd pm))"

definition user_hashes :: "variant_state \<Rightarrow> string \<Rightarrow> string set" where
  "user_hashes st p = {h. user_has st p h}"

definition touched :: "variant_state \<Rightarrow> string \<Rightarrow> bool" where
  "touched st p \<longleftrightarrow> p \<in> set (map fst (vs_user_variants st)) \<or> p \<in> set (map fst (vs_discarded st)) \<or>
     p \<in> set (map fst (vs_selected st))"

lemma set_affected_paths:
  "legal_env E \<Longrightarrow> set (affected_paths E st) = {p. touched st p} \<and> distinct (affected_paths E st)"
  by (auto simp: affected_paths_def legal_env_def legal_order_set legal_order_distinct touched_def)

lemma map_of_hm_iter:
  assumes "legal_order ord" and "distinct (map fst m)"
  shows "map_of (hm_iter ord m) k = map_of m k"
proof -
  have "map_of (hm_iter ord m) k = (if k \<in> set (map fst m) then Some (the (map_of m k)) else None)"
    using assms(1) by (simp add: hm_iter_def map_of_map_restrict restrict_map_def legal_order_set)
  moreover have "map_of m k = None \<longleftrightarrow> k \<notin> set (map fst m)"
    by (simp add: map_of_eq_None_iff)
  ultimately show ?thesis by (cases "map_of m k") auto
qed

text \<open>
  What a user sees of the variants of a path: their hashes and their selection.
\<close>

definition variant_view ::
  "'a text_pool \<Rightarrow> ('a \<Rightarrow> variant_selection) \<Rightarrow> string \<Rightarrow> 'a list \<Rightarrow> (string \<times> variant_selection) list" where
  "variant_view P sel p xs = map (\<lambda>e. (tp_hash P e, sel e)) (filter (\<lambda>e. tp_path P e = p) xs)"

text \<open>
  The specification: the variants of a path afterwards are the host's and the user's that
  are not discarded; a single one is \<open>Only\<close>; several are \<open>Selected\<close> exactly on the chosen
  hash; a path without operations keeps its variants.
\<close>

definition pool_outcome ::
  "variant_state \<Rightarrow> string \<Rightarrow> (string \<times> variant_selection) list \<Rightarrow>
   (string \<times> variant_selection) list \<Rightarrow> bool" where
  "pool_outcome st p before after \<longleftrightarrow>
     fst ` set after =
       (fst ` set before \<union> (if before = [] then {} else user_hashes st p)) - {h. is_discarded st p h} \<and>
     (distinct (map fst before) \<longrightarrow> distinct (map fst after)) \<and>
     (if \<not> touched st p then after = before
      else if length after = 1 then map snd after = [Only]
      else case map_of (vs_selected st) p of
        None \<Rightarrow> True
      | Some s \<Rightarrow> map snd after = map (selection_of s \<circ> fst) after)"

section \<open>The laws of a pool\<close>

locale text_pool_laws =
  fixes P :: "'a text_pool" and H :: "string \<Rightarrow> string" and sel :: "'a \<Rightarrow> variant_selection"
  assumes path_user [simp]: "tp_path P (tp_user P c e) = tp_path P e"
    and path_set [simp]: "tp_path P (tp_set P v e) = tp_path P e"
    and hash_set [simp]: "tp_hash P (tp_set P v e) = tp_hash P e"
    and hash_user [simp]: "tp_hash P (tp_user P c e) = H c"
    and sel_set [simp]: "sel (tp_set P v e) = v"
begin

definition at_path :: "string \<Rightarrow> 'a list \<Rightarrow> 'a list" where
  "at_path p xs = filter (\<lambda>e. tp_path P e = p) xs"

definition mark :: "variant_state \<Rightarrow> nat \<Rightarrow> 'a \<Rightarrow> 'a" where
  "mark st n e =
     (if n = 1 then tp_set P Only e
      else case map_of (vs_selected st) (tp_path P e) of
        None \<Rightarrow> e
      | Some s \<Rightarrow> tp_set P (selection_of s (tp_hash P e)) e)"

lemma path_mark [simp]: "tp_path P (mark st n e) = tp_path P e"
  by (simp add: mark_def split: option.split)

lemma hash_mark [simp]: "tp_hash P (mark st n e) = tp_hash P e"
  by (simp add: mark_def split: option.split)

text \<open>The selection of one path marks the entries of that path.\<close>

lemma select_variants_eq:
  "select_variants P st xs path =
     map (\<lambda>e. if tp_path P e = path then mark st (length (at_path path xs)) e else e) xs"
proof -
  let ?p = "\<lambda>e. tp_path P e = path"
  have len: "length (positions ?p xs) = length (at_path path xs)"
    by (simp add: length_positions at_path_def)
  consider "positions ?p xs = []" | "length (positions ?p xs) = 1" | "1 < length (positions ?p xs)"
    by (cases "positions ?p xs") auto
  then show ?thesis
  proof cases
    case 1
    then have "filter ?p xs = []" using len by (simp add: at_path_def)
    then have "map (\<lambda>e. if ?p e then mark st (length (at_path path xs)) e else e) xs = xs"
      by (intro map_idI) (auto simp: filter_empty_conv)
    then show ?thesis using 1 by (simp add: select_variants_def)
  next
    case 2
    have "select_variants P st xs path = update_at (tp_set P Only) xs (positions ?p xs ! 0)"
      using 2 by (auto simp: select_variants_def Let_def)
    also have "\<dots> = map (\<lambda>e. if ?p e then tp_set P Only e else e) xs"
      by (rule update_single_position [OF 2])
    finally show ?thesis using 2 len by (simp add: mark_def)
  next
    case 3
    have "select_variants P st xs path =
        (case map_of (vs_selected st) path of
           None \<Rightarrow> map (\<lambda>e. if ?p e then e else e) xs
         | Some s \<Rightarrow> map (\<lambda>e. if ?p e then tp_set P (selection_of s (tp_hash P e)) e else e) xs)"
      using 3 by (auto simp: select_variants_def Let_def foldl_update_positions split: option.split)
    then show ?thesis
      using 3 len by (auto simp: mark_def split: option.split intro!: map_cong map_idI [symmetric])
  qed
qed

lemma at_path_map:
  "(\<And>e. tp_path P (f e) = tp_path P e) \<Longrightarrow> at_path p (map f xs) = map f (at_path p xs)"
  by (induction xs) (auto simp: at_path_def)

lemma select_all_eq:
  assumes "distinct affected"
  shows "foldl (select_variants P st) xs affected =
     map (\<lambda>e. if tp_path P e \<in> set affected then mark st (length (at_path (tp_path P e) xs)) e else e) xs"
  using assms
proof (induction affected rule: rev_induct)
  case (snoc p ps)
  let ?f = "\<lambda>e. if tp_path P e \<in> set ps then mark st (length (at_path (tp_path P e) xs)) e else e"
  have IH: "foldl (select_variants P st) xs ps = map ?f xs" and p: "p \<notin> set ps"
    using snoc by auto
  have len: "length (at_path p (map ?f xs)) = length (at_path p xs)"
    by (subst at_path_map) auto
  have "foldl (select_variants P st) xs (ps @ [p]) = select_variants P st (map ?f xs) p"
    by (simp only: foldl_append IH foldl.simps)
  also have "\<dots> = map (\<lambda>e. if tp_path P e = p then mark st (length (at_path p xs)) e else e) (map ?f xs)"
    unfolding select_variants_eq len ..
  finally show ?case using p by auto
qed simp

text \<open>Discarding removes exactly the discarded hashes.\<close>

lemma remove_all_eq:
  "foldl (remove_discarded P) xs ds =
     filter (\<lambda>e. \<forall>d \<in> set ds. fst d = tp_path P e \<longrightarrow> tp_hash P e \<notin> set (snd d)) xs"
  by (induction ds arbitrary: xs) (auto simp: remove_discarded_def filter_filter intro!: filter_cong)

lemma remove_discarded_eq:
  assumes "legal_order ord" and "distinct (map fst (vs_discarded st))"
  shows "foldl (remove_discarded P) xs (hm_iter ord (vs_discarded st)) =
     filter (\<lambda>e. \<not> is_discarded st (tp_path P e) (tp_hash P e)) xs"
proof -
  have "set (hm_iter ord (vs_discarded st)) = set (vs_discarded st)"
    using assms by (rule hm_iter_set)
  then show ?thesis
    unfolding remove_all_eq is_discarded_def using assms(2)
    by (auto intro!: filter_cong dest: map_of_SomeD split: option.splits)
qed

text \<open>Adding the user variants appends, per path, those that are new and not discarded.\<close>

definition new_variants :: "variant_state \<Rightarrow> string \<Rightarrow> 'a list \<Rightarrow> (string \<times> string) list \<Rightarrow> 'a list" where
  "new_variants st p here um =
     (if here = [] then []
      else map (\<lambda>hc. tp_user P (snd hc) (hd here))
        (filter (\<lambda>hc. \<not> is_discarded st p (fst hc) \<and> fst hc \<notin> tp_hash P ` set here) um))"

lemma find_at_path:
  "List.find (\<lambda>e. tp_path P e = p) xs =
     (if at_path p xs = [] then None else Some (hd (at_path p xs)))"
  by (induction xs) (auto simp: at_path_def)

lemma at_path_append: "at_path p (xs @ ys) = at_path p xs @ at_path p ys"
  by (simp add: at_path_def)

lemma in_at_path: "e \<in> set (at_path p xs) \<longleftrightarrow> e \<in> set xs \<and> tp_path P e = p"
  by (auto simp: at_path_def)

lemma add_user_fold:
  assumes "\<forall>hc \<in> set um. fst hc = H (snd hc)" and "distinct (map fst um)" and "tp_path P t = p"
  shows "foldl (add_user_variant P st p t) xs um =
     xs @ map (\<lambda>hc. tp_user P (snd hc) t)
       (filter (\<lambda>hc. \<not> is_discarded st p (fst hc) \<and> fst hc \<notin> tp_hash P ` set (at_path p xs)) um)"
  using assms
proof (induction um arbitrary: xs)
  case (Cons hc um)
  let ?new = "\<lambda>xs hc. \<not> is_discarded st p (fst hc) \<and> fst hc \<notin> tp_hash P ` set (at_path p xs)"
  show ?case
  proof (cases "?new xs hc")
    case False
    then have "add_user_variant P st p t xs hc = xs"
      by (auto simp: add_user_variant_def in_at_path image_iff)
    then show ?thesis using Cons False by simp
  next
    case True
    let ?xs = "xs @ [tp_user P (snd hc) t]"
    have step: "add_user_variant P st p t xs hc = ?xs"
      using True by (auto simp: add_user_variant_def at_path_def image_iff)
    have "tp_hash P ` set (at_path p ?xs) = insert (fst hc) (tp_hash P ` set (at_path p xs))"
      using Cons.prems by (simp add: at_path_def)
    moreover have "\<forall>y \<in> set um. fst y \<noteq> fst hc"
      using Cons.prems(2) by (auto simp: image_iff)
    ultimately have "filter (?new ?xs) um = filter (?new xs) um"
      by (intro filter_cong) auto
    then show ?thesis
      using Cons.IH [of ?xs] Cons.prems True by (simp add: step)
  qed
qed simp

lemma at_path_users: "tp_path P t = p \<Longrightarrow>
  at_path q (map (\<lambda>hc. tp_user P (snd hc) t) um) = (if q = p then map (\<lambda>hc. tp_user P (snd hc) t) um else [])"
  by (auto simp: at_path_def filter_empty_conv filter_id_conv)

lemma add_path_at:
  assumes "legal_env E" and "\<forall>hc \<in> set um. fst hc = H (snd hc)" and "distinct (map fst um)"
  shows "at_path q (add_path_variants E P st xs (p, um)) =
     at_path q xs @ (if q = p then new_variants st p (at_path p xs) (hm_iter (env_order E) um) else [])"
proof (cases "at_path p xs")
  case Nil
  then show ?thesis by (simp add: add_path_variants_def find_at_path new_variants_def)
next
  case (Cons t ts)
  have t: "tp_path P t = p" using Cons in_at_path [of t p xs] by simp
  have um: "\<forall>hc \<in> set (hm_iter (env_order E) um). fst hc = H (snd hc)"
    "distinct (map fst (hm_iter (env_order E) um))"
    using assms legal_order_distinct [of "env_order E" "map fst um"]
    by (simp_all add: legal_env_def hm_iter_set) (simp add: hm_iter_def comp_def)
  have "add_path_variants E P st xs (p, um) =
      foldl (add_user_variant P st p t) xs (hm_iter (env_order E) um)"
    using Cons by (simp add: add_path_variants_def find_at_path)
  then show ?thesis
    using Cons t by (simp add: add_user_fold [OF um t] at_path_append at_path_users new_variants_def)
qed

lemma add_all_at:
  assumes "legal_env E" and "distinct (map fst pms)"
    and "\<forall>pm \<in> set pms. distinct (map fst (snd pm)) \<and> (\<forall>hc \<in> set (snd pm). fst hc = H (snd hc))"
  shows "at_path q (foldl (add_path_variants E P st) xs pms) =
     at_path q xs @ (case map_of pms q of
       None \<Rightarrow> []
     | Some um \<Rightarrow> new_variants st q (at_path q xs) (hm_iter (env_order E) um))"
  using assms(2,3)
proof (induction pms arbitrary: xs)
  case (Cons pm pms)
  obtain p um where pm: "pm = (p, um)" by (cases pm)
  have step: "at_path q (add_path_variants E P st xs pm) =
     at_path q xs @ (if q = p then new_variants st p (at_path p xs) (hm_iter (env_order E) um) else [])"
    unfolding pm using Cons.prems(2) by (intro add_path_at [OF assms(1)]) (simp_all add: pm)
  have fresh: "map_of pms p = None" using Cons.prems(1) by (simp add: pm map_of_eq_None_iff)
  show ?case
    using Cons.IH [of "add_path_variants E P st xs pm"] Cons.prems fresh
    by (auto simp: step [unfolded pm] pm split: option.split)
qed simp

lemma new_variants_hashes:
  assumes "\<forall>hc \<in> set um. fst hc = H (snd hc)"
  shows "map (tp_hash P) (new_variants st p here um) =
    (if here = [] then []
     else map fst (filter (\<lambda>hc. \<not> is_discarded st p (fst hc) \<and> fst hc \<notin> tp_hash P ` set here) um))"
  using assms by (auto simp: new_variants_def)

text \<open>The three passes together, on one path.\<close>

lemma materialize_at:
  assumes "legal_env E" and "variant_state_ok E st" and "H = sha256_hex E"
  shows "\<exists>kept. at_path p (materialize_pool E P st (affected_paths E st) xs) =
      (if touched st p then map (mark st (length kept)) kept else kept) \<and>
    kept = filter (\<lambda>e. \<not> is_discarded st p (tp_hash P e))
      (at_path p xs @ (case map_of (vs_user_variants st) p of
         None \<Rightarrow> []
       | Some um \<Rightarrow> new_variants st p (at_path p xs) (hm_iter (env_order E) um)))"
proof -
  let ?uv = "hm_iter (env_order E) (vs_user_variants st)"
  let ?added = "foldl (add_path_variants E P st) xs ?uv"
  let ?kept = "filter (\<lambda>e. \<not> is_discarded st (tp_path P e) (tp_hash P e)) ?added"
  have leg: "legal_order (env_order E)" using assms(1) by (simp add: legal_env_def)
  have ok: "distinct (map fst (vs_user_variants st))" "distinct (map fst (vs_discarded st))"
    using assms(2) by (simp_all add: variant_state_ok_def)
  have uv: "distinct (map fst ?uv)"
    "\<forall>pm \<in> set ?uv. distinct (map fst (snd pm)) \<and> (\<forall>hc \<in> set (snd pm). fst hc = H (snd hc))"
    using assms(2,3) leg ok legal_order_distinct [OF leg]
    by (simp_all add: variant_state_ok_def user_map_ok_def hm_iter_set) (simp add: hm_iter_def comp_def)
  have aff: "set (affected_paths E st) = {p. touched st p}" "distinct (affected_paths E st)"
    using set_affected_paths [OF assms(1)] by auto
  have mat: "materialize_pool E P st (affected_paths E st) xs =
      map (\<lambda>e. if touched st (tp_path P e) then mark st (length (at_path (tp_path P e) ?kept)) e else e) ?kept"
    by (simp add: materialize_pool_def Let_def remove_discarded_eq [OF leg ok(2)]
        select_all_eq [OF aff(2)] aff(1))
  have filt: "at_path p ?kept = filter (\<lambda>e. \<not> is_discarded st p (tp_hash P e)) (at_path p ?added)"
    unfolding at_path_def filter_filter by (rule filter_cong) auto
  have "at_path p (map (\<lambda>e. if touched st (tp_path P e) then mark st (length (at_path (tp_path P e) ?kept)) e else e) ?kept) =
      map (\<lambda>e. if touched st (tp_path P e) then mark st (length (at_path (tp_path P e) ?kept)) e else e) (at_path p ?kept)"
    by (rule at_path_map) simp
  also have "\<dots> = (if touched st p then map (mark st (length (at_path p ?kept))) (at_path p ?kept) else at_path p ?kept)"
    by (auto simp: in_at_path intro!: map_cong map_idI)
  finally show ?thesis
    unfolding mat using filt
    by (simp add: add_all_at [OF assms(1) uv] map_of_hm_iter [OF leg ok(1)])
qed

lemma outcome_hashes:
  assumes "legal_env E" and "variant_state_ok E st" and "H = sha256_hex E"
    and "kept = filter (\<lambda>e. \<not> is_discarded st p (tp_hash P e))
      (here @ (case map_of (vs_user_variants st) p of
         None \<Rightarrow> []
       | Some um \<Rightarrow> new_variants st p here (hm_iter (env_order E) um)))"
  shows "tp_hash P ` set kept =
      (tp_hash P ` set here \<union> (if here = [] then {} else user_hashes st p)) - {h. is_discarded st p h}"
    and "distinct (map (tp_hash P) here) \<Longrightarrow> distinct (map (tp_hash P) kept)"
proof -
  have leg: "legal_order (env_order E)" using assms(1) by (simp add: legal_env_def)
  define new where "new = (case map_of (vs_user_variants st) p of
         None \<Rightarrow> []
       | Some um \<Rightarrow> new_variants st p here (hm_iter (env_order E) um))"
  have new: "tp_hash P ` set new = (if here = [] then {} else
        {h \<in> user_hashes st p. \<not> is_discarded st p h \<and> h \<notin> tp_hash P ` set here}) \<and>
      distinct (map (tp_hash P) new)"
  proof (cases "map_of (vs_user_variants st) p")
    case None
    then show ?thesis by (auto simp: new_def user_hashes_def user_has_def)
  next
    case (Some um)
    then have um: "distinct (map fst um)" "\<forall>hc \<in> set um. fst hc = H (snd hc)"
      using assms(2,3) by (auto simp: variant_state_ok_def user_map_ok_def dest: map_of_SomeD)
    have it: "set (hm_iter (env_order E) um) = set um" "distinct (map fst (hm_iter (env_order E) um))"
      using leg um(1) legal_order_distinct [OF leg, of "map fst um"] by (simp_all add: hm_iter_set)
        (simp add: hm_iter_def comp_def)
    have uh: "user_hashes st p = fst ` set um"
      using Some by (auto simp: user_hashes_def user_has_def hm_has_def map_of_eq_None_iff)
    have m: "map (tp_hash P) new = (if here = [] then [] else map fst
        (filter (\<lambda>hc. \<not> is_discarded st p (fst hc) \<and> fst hc \<notin> tp_hash P ` set here) (hm_iter (env_order E) um)))"
      using um(2) it(1) Some by (simp add: new_def new_variants_hashes)
    have "set (map (tp_hash P) new) = (if here = [] then {} else
        {h \<in> user_hashes st p. \<not> is_discarded st p h \<and> h \<notin> tp_hash P ` set here})"
      unfolding m uh using it(1) by auto
    moreover have "distinct (map (tp_hash P) new)"
      unfolding m using it(2) by (simp add: distinct_map_filter)
    ultimately show ?thesis by simp
  qed
  have kept: "kept = filter (\<lambda>e. \<not> is_discarded st p (tp_hash P e)) (here @ new)"
    using assms(4) by (simp add: new_def)
  have hs: "tp_hash P ` set (filter (\<lambda>e. \<not> is_discarded st p (tp_hash P e)) ys) =
      tp_hash P ` set ys - {h. is_discarded st p h}" for ys
    by auto
  show "tp_hash P ` set kept =
      (tp_hash P ` set here \<union> (if here = [] then {} else user_hashes st p)) - {h. is_discarded st p h}"
    unfolding kept hs set_append image_Un using new by auto
  show "distinct (map (tp_hash P) kept)" if "distinct (map (tp_hash P) here)"
    unfolding kept using new that by (auto intro!: distinct_map_filter split: if_splits)
qed

lemma outcome:
  assumes "legal_env E" and "variant_state_ok E st" and "H = sha256_hex E"
  shows "pool_outcome st p (variant_view P sel p xs)
    (variant_view P sel p (materialize_pool E P st (affected_paths E st) xs))"
proof -
  let ?after = "at_path p (materialize_pool E P st (affected_paths E st) xs)"
  obtain kept where
    after: "?after = (if touched st p then map (mark st (length kept)) kept else kept)" and
    kept: "kept = filter (\<lambda>e. \<not> is_discarded st p (tp_hash P e))
      (at_path p xs @ (case map_of (vs_user_variants st) p of
         None \<Rightarrow> []
       | Some um \<Rightarrow> new_variants st p (at_path p xs) (hm_iter (env_order E) um)))"
    using materialize_at [OF assms] by blast
  note hashes = outcome_hashes [OF assms kept]
  have same: "map (tp_hash P) ?after = map (tp_hash P) kept"
    by (simp add: after)
  have img: "tp_hash P ` set ?after = tp_hash P ` set kept"
    using arg_cong [OF same, of set] by simp
  have path: "tp_path P e = p" if "e \<in> set kept" for e
  proof -
    have "(if touched st p then mark st (length kept) e else e) \<in> set ?after"
      using that by (simp add: after)
    then show ?thesis unfolding in_at_path by (auto split: if_splits)
  qed
  have untouched: "?after = at_path p xs" if "\<not> touched st p"
  proof -
    have "map_of (vs_user_variants st) p = None" "map_of (vs_discarded st) p = None"
      using that by (auto simp: touched_def map_of_eq_None_iff)
    then show ?thesis using that after kept by (simp add: is_discarded_def)
  qed
  have sel1: "map sel ?after = [Only]" if "touched st p" "length ?after = 1"
    using that by (auto simp: after mark_def length_Suc_conv)
  have sel2: "map sel ?after = map (\<lambda>e. selection_of s (tp_hash P e)) ?after"
    if "touched st p" "length ?after \<noteq> 1" "map_of (vs_selected st) p = Some s" for s
    using that path by (auto simp: after mark_def)
  have view: "variant_view P sel p ys = map (\<lambda>e. (tp_hash P e, sel e)) (at_path p ys)" for ys
    by (simp add: variant_view_def at_path_def)
  have fsts: "map fst (map (\<lambda>e. (tp_hash P e, sel e)) es) = map (tp_hash P) es"
    "fst ` set (map (\<lambda>e. (tp_hash P e, sel e)) es) = tp_hash P ` set es" for es
    by (auto simp: image_image)
  show ?thesis
    unfolding pool_outcome_def view fsts same img hashes(1)
    using hashes(2) untouched sel1 sel2 by (auto simp: comp_def split: option.split)
qed

end

section \<open>The three pools of the code\<close>

interpretation config_laws: text_pool_laws "config_pool E" "sha256_hex E" cf_variant_selection for E
  by unfold_locales (simp_all add: config_pool_def content_hash_of_def)

interpretation dropin_laws: text_pool_laws "dropin_pool E" "sha256_hex E" di_variant_selection for E
  by unfold_locales (simp_all add: dropin_pool_def content_hash_of_def)

interpretation quadlet_laws: text_pool_laws "quadlet_pool E" "sha256_hex E" qu_variant_selection for E
  by unfold_locales (simp_all add: quadlet_pool_def content_hash_of_def)

section \<open>The operations keep a state well-formed\<close>

lemma variant_ok_default [simp]: "variant_state_ok E variant_state_default"
  by (simp add: variant_state_ok_def variant_state_default_def)

lemma variant_ok_select: "variant_state_ok E st \<Longrightarrow> variant_state_ok E (apply_select st i h)"
  by (auto simp: variant_state_ok_def apply_select_def distinct_hm_put split: option.split)

lemma set_hm_put: "set (hm_put k v m) \<subseteq> insert (k, v) (set m)"
  by (induction m) (auto split: if_splits)

lemma user_maps_put:
  assumes "variant_state_ok E st" and "user_map_ok E um"
  shows "variant_state_ok E (st\<lparr>vs_user_variants := hm_put p um (vs_user_variants st)\<rparr>)"
proof -
  have "\<forall>pm \<in> set (hm_put p um (vs_user_variants st)). user_map_ok E (snd pm)"
    using assms set_hm_put [of p um "vs_user_variants st"] by (auto simp: variant_state_ok_def)
  then show ?thesis using assms(1) by (simp add: variant_state_ok_def distinct_hm_put)
qed

lemma user_map_of:
  "variant_state_ok E st \<Longrightarrow> map_of (vs_user_variants st) p = Some um \<Longrightarrow> user_map_ok E um"
  unfolding variant_state_ok_def by (drule map_of_SomeD) (metis snd_conv)

lemma user_map_put: "user_map_ok E m \<Longrightarrow> user_map_ok E (hm_put (sha256_hex E c) c m)"
  using set_hm_put [of "sha256_hex E c" c m] by (auto simp: user_map_ok_def distinct_hm_put)

lemma user_map_del: "user_map_ok E m \<Longrightarrow> user_map_ok E (hm_del h m)"
  by (simp add: user_map_ok_def distinct_hm_del) (simp add: hm_del_def)

lemma variant_ok_keys:
  assumes "variant_state_ok E st" and "distinct (map fst d)" and "distinct (map fst s)"
  shows "variant_state_ok E (st\<lparr>vs_discarded := d, vs_selected := s\<rparr>)"
  using assms by (simp add: variant_state_ok_def)

lemma variant_ok_parts:
  "variant_state_ok E st \<Longrightarrow> distinct (map fst (vs_discarded st)) \<and> distinct (map fst (vs_selected st))"
  by (simp add: variant_state_ok_def)

lemma variant_ok_edit:
  assumes "variant_state_ok E st"
  shows "variant_state_ok E (apply_edit E snap st i content)"
proof (cases "item_path i")
  case (Some path)
  let ?h = "sha256_hex E content"
  let ?m = "case map_of (vs_user_variants st) path of None \<Rightarrow> [] | Some m \<Rightarrow> m"
  let ?um = "hm_put ?h content ?m"
  have um: "user_map_ok E ?um"
    by (rule user_map_put) (auto simp: user_map_ok_def [of _ "[]"] intro: user_map_of [OF assms] split: option.split)
  note parts = variant_ok_parts [OF assms]
  note new = variant_ok_keys [OF user_maps_put [OF assms um], of
      "case map_of (vs_discarded st) path of None \<Rightarrow> vs_discarded st
         | Some d \<Rightarrow> hm_put path (removeAll ?h d) (vs_discarded st)"
      "hm_put path ?h (vs_selected st)" path]
  have disc: "distinct (map fst (case map_of (vs_discarded st) path of None \<Rightarrow> vs_discarded st
         | Some d \<Rightarrow> hm_put path (removeAll ?h d) (vs_discarded st)))"
    using parts by (simp add: distinct_hm_put split: option.split)
  have sel: "variant_state_ok E (st\<lparr>vs_selected := hm_put path ?h (vs_selected st)\<rparr>)"
    using assms by (simp add: variant_state_ok_def distinct_hm_put)
  show ?thesis
    using new [OF disc distinct_hm_put] parts sel Some
    by (simp add: apply_edit_def content_hash_of_def Let_def)
qed (simp add: apply_edit_def assms)

lemma variant_ok_discard:
  assumes "variant_state_ok E st"
  shows "variant_state_ok E (apply_discard st i v)"
proof (cases "item_path i")
  case (Some path)
  let ?h = "hash_str v"
  let ?uv = "case map_of (vs_user_variants st) path of None \<Rightarrow> vs_user_variants st
      | Some m \<Rightarrow> hm_put path (hm_del ?h m) (vs_user_variants st)"
  let ?d = "hm_put path (List.insert ?h (case map_of (vs_discarded st) path of None \<Rightarrow> [] | Some d \<Rightarrow> d))
      (vs_discarded st)"
  let ?s = "if map_of (vs_selected st) path = Some ?h then hm_del path (vs_selected st) else vs_selected st"
  have uv: "variant_state_ok E (st\<lparr>vs_user_variants := ?uv\<rparr>)"
  proof (cases "map_of (vs_user_variants st) path")
    case (Some m)
    have "variant_state_ok E (st\<lparr>vs_user_variants := hm_put path (hm_del ?h m) (vs_user_variants st)\<rparr>)"
      by (intro user_maps_put [OF assms] user_map_del user_map_of [OF assms Some])
    with Some show ?thesis by simp
  qed (simp add: assms)
  have "variant_state_ok E (st\<lparr>vs_user_variants := ?uv\<rparr>\<lparr>vs_discarded := ?d, vs_selected := ?s\<rparr>)"
    using variant_ok_parts [OF assms]
    by (intro variant_ok_keys [OF uv]) (simp_all add: distinct_hm_put distinct_hm_del)
  then show ?thesis using Some by (simp add: apply_discard_def Let_def)
qed (simp add: apply_discard_def assms)

end
