(* ===== verification/SessionFacts.thy ===== *)
theory SessionFacts
  imports Session VariantFacts
begin

text \<open>
  The facts of a session that its properties rest on: what the clamp guarantees, what the
  last steps of the projection leave alone, the replay of an extended timeline, and the
  step relation of a session with its invariant.
\<close>

section \<open>No locked item is included\<close>

definition clamped :: "('a \<Rightarrow> bool) \<Rightarrow> ('a \<Rightarrow> finding_kind) \<Rightarrow> 'a list \<Rightarrow> bool" where
  "clamped locked disp xs \<longleftrightarrow> (\<forall>x \<in> set xs. locked x \<longrightarrow> \<not> is_included (disp x))"

definition no_locked_included :: "inspection_snapshot \<Rightarrow> bool" where
  "no_locked_included snap \<longleftrightarrow>
     pred_option (\<lambda>r. clamped pe_locked pe_disposition (rpm_packages_added r) \<and>
       clamped ms_locked ms_disposition (rpm_module_streams r) \<and>
       clamped vl_locked vl_disposition (rpm_version_locks r) \<and>
       clamped rf_locked rf_disposition (rpm_repo_files r)) (snap_rpm snap) \<and>
     pred_option (\<lambda>c. clamped cf_locked cf_disposition (cfg_files c)) (snap_config snap) \<and>
     pred_option (\<lambda>s. clamped ssc_locked ssc_disposition (svc_state_changes s) \<and>
       clamped di_locked di_disposition (svc_drop_ins s)) (snap_services snap) \<and>
     pred_option (\<lambda>c. clamped qu_locked qu_disposition (ctr_quadlet_units c) \<and>
       clamped cpf_locked cpf_disposition (ctr_compose_files c) \<and>
       clamped rc_locked rc_disposition (ctr_running_containers c) \<and>
       clamped fa_locked fa_disposition (ctr_flatpak_apps c)) (snap_containers snap) \<and>
     pred_option (\<lambda>s. clamped fe_locked fe_disposition (sto_fstab_entries s)) (snap_storage snap) \<and>
     pred_option (\<lambda>k. clamped so_locked so_disposition (kb_sysctl_overrides k)) (snap_kernel_boot snap) \<and>
     pred_option (\<lambda>n. clamped nm_locked nm_disposition (net_connections n) \<and>
       clamped fz_locked fz_disposition (net_firewall_zones n) \<and>
       clamped fdr_locked fdr_disposition (net_firewall_direct_rules n)) (snap_network snap) \<and>
     pred_option (\<lambda>s. clamped cj_locked cj_disposition (sch_cron_jobs s) \<and>
       clamped tm_locked tm_disposition (sch_systemd_timers s) \<and>
       clamped aj_locked aj_disposition (sch_at_jobs s) \<and>
       clamped gt_locked gt_disposition (sch_generated_timer_units s)) (snap_scheduled_tasks snap) \<and>
     pred_option (\<lambda>s. clamped pl_locked pl_disposition (sel_port_labels s)) (snap_selinux snap) \<and>
     pred_option (\<lambda>n. clamped nri_locked nri_disposition (nrs_items n)) (snap_non_rpm_software snap)"

lemma not_included_excluded [simp]: "\<not> is_included fk_excluded"
  by (simp add: finding_defs)

lemma clamped_update_all:
  assumes "\<And>x. \<not> is_included (disp (f x))" and "\<And>x. locked x \<Longrightarrow> \<not> p x \<Longrightarrow> \<not> is_included (disp x)"
  shows "clamped locked disp (update_all p f xs)"
  using assms by (induction xs) (auto simp: clamped_def)

lemma inventory_not_included: "is_inventory d \<Longrightarrow> \<not> is_included d"
  by (cases d) auto

lemma pred_option_map_all: "(\<And>x. P (f x)) \<Longrightarrow> pred_option P (map_option f x)"
  by (cases x) auto

lemma clamp_no_locked: "no_locked_included (clamp_locked_items snap)"
  unfolding no_locked_included_def clamp_locked_items_def
  by (simp, intro conjI pred_option_map_all)
    (auto simp: clamp_rpm_def clamp_config_def clamp_services_def clamp_containers_def
      clamp_storage_def clamp_kernel_boot_def clamp_network_def clamp_scheduled_def
      clamp_selinux_def clamp_non_rpm_def inventory_not_included intro!: clamped_update_all)

lemma demote_rpm_fields [simp]:
  "rpm_module_streams (demote_rpm r) = rpm_module_streams r"
  "rpm_version_locks (demote_rpm r) = rpm_version_locks r"
  "rpm_repo_files (demote_rpm r) = rpm_repo_files r"
  "rpm_gpg_keys (demote_rpm r) = rpm_gpg_keys r"
  by (simp_all add: demote_rpm_def)

lemma clamped_demoted:
  "clamped pe_locked pe_disposition (rpm_packages_added (demote_rpm r)) =
   clamped pe_locked pe_disposition (rpm_packages_added r)"
  by (simp add: demote_rpm_packages clamped_def)

lemma demote_no_locked:
  "no_locked_included (demote_unserved_repo_enabling snap) = no_locked_included snap"
  by (cases "snap_rpm snap")
    (simp_all add: no_locked_included_def demote_unserved_repo_enabling_def clamped_demoted)

lemma project_no_locked: "no_locked_included (project_snapshot E X)"
  by (cases "replay E X") (simp add: project_snapshot_def demote_no_locked clamp_no_locked)

section \<open>What the last steps leave alone\<close>

lemma materialize_sections [simp]:
  "snap_rpm (materialize_variants E vs snap) = snap_rpm snap"
  "snap_users_groups (materialize_variants E vs snap) = snap_users_groups snap"
  "snap_kernel_boot (materialize_variants E vs snap) = snap_kernel_boot snap"
  by (simp_all add: materialize_variants_def Let_def materialize_config_variants_def
      materialize_dropin_variants_def materialize_quadlet_variants_def materialize_compose_variants_def
      materialize_language_env_variants_def materialize_unmanaged_file_variants_def)

lemma raise_sections [simp]:
  "snap_rpm (raise_sensitivity orig snap) = snap_rpm snap"
  "snap_users_groups (raise_sensitivity orig snap) = snap_users_groups snap"
  "snap_services (raise_sensitivity orig snap) = snap_services snap"
  "snap_config (raise_sensitivity orig snap) = snap_config snap"
  by (simp_all add: raise_sensitivity_def)

lemma project_rpm:
  "snap_rpm (project_snapshot E X) =
     map_option (\<lambda>r. demote_rpm (clamp_rpm r)) (snap_rpm (fst (replay E X)))"
  by (cases "replay E X")
    (simp add: project_snapshot_def demote_unserved_repo_enabling_def clamp_locked_items_def option.map_comp comp_def)

lemma project_users:
  "snap_users_groups (project_snapshot E X) = snap_users_groups (fst (replay E X))"
  by (cases "replay E X")
    (simp add: project_snapshot_def demote_unserved_repo_enabling_def clamp_locked_items_def)

definition clamp_package :: "package_entry \<Rightarrow> package_entry" where
  "clamp_package p = (if pe_locked p then p\<lparr>pe_disposition := fk_excluded\<rparr> else p)"

lemma clamp_rpm_packages: "rpm_packages_added (clamp_rpm r) = map clamp_package (rpm_packages_added r)"
  by (simp add: clamp_rpm_def update_all_def clamp_package_def)

text \<open>The packages of a projection, from those of the replay.\<close>

definition project_package :: "env \<Rightarrow> replay_context \<Rightarrow> package_entry \<Rightarrow> package_entry" where
  "project_package E X p =
     (case snap_rpm (fst (replay E X)) of
        None \<Rightarrow> p
      | Some r \<Rightarrow> demoted (clamp_rpm r) (clamp_package p))"

lemma project_packages:
  "packages_of (project_snapshot E X) = map (project_package E X) (packages_of (fst (replay E X)))"
  by (simp add: packages_of_def project_rpm demote_rpm_packages clamp_rpm_packages project_package_def
      split: option.split)

section \<open>Extending the timeline\<close>

lemma active_ops_append [simp]: "active_ops (es @ fs) = active_ops es @ active_ops fs"
  by (simp add: active_ops_def)

lemma active_ops_simps [simp]:
  "active_ops [] = []"
  "active_ops (e # es) = entry_ops e @ active_ops es"
  by (simp_all add: active_ops_def)

lemma recompute_fields [simp]:
  "ses_original (recompute_view E s) = ses_original s"
  "ses_repo_index (recompute_view E s) = ses_repo_index s"
  "ses_timeline (recompute_view E s) = ses_timeline s"
  "ses_cursor (recompute_view E s) = ses_cursor s"
  "ses_generation (recompute_view E s) = ses_generation s"
  by (simp_all add: recompute_view_def)

lemma active_recompute [simp]: "active_entries (recompute_view E s) = active_entries s"
  by (simp add: active_entries_def)

lemma context_recompute [simp]: "replay_context_of (recompute_view E s) = replay_context_of s"
  by (simp add: replay_context_of_def)

lemma projected_recompute [simp]: "snapshot_projected E (recompute_view E s) = snapshot_projected E s"
  by (simp add: snapshot_projected_def)

lemma record_entry_fields [simp]:
  "ses_original (record_entry E e s) = ses_original s"
  "ses_repo_index (record_entry E e s) = ses_repo_index s"
  "ses_timeline (record_entry E e s) = take (ses_cursor s) (ses_timeline s) @ [e]"
  "ses_cursor (record_entry E e s) = ses_cursor s + 1"
  "ses_generation (record_entry E e s) = ses_generation s + 1"
  by (simp_all add: record_entry_def)

lemma active_record:
  "ses_cursor s \<le> length (ses_timeline s) \<Longrightarrow> active_entries (record_entry E e s) = active_entries s @ [e]"
  by (simp add: active_entries_def)

section \<open>Steps and the invariant\<close>

text \<open>One call of a mutating operation, whatever it returns.\<close>

inductive session_step :: "refine_env \<Rightarrow> refine_session \<Rightarrow> refine_session \<Rightarrow> bool" for R where
  step_apply: "apply_op R p s = (r, s') \<Longrightarrow> session_step R s s'"
| step_directive: "apply_directive (core_env R) d s = (r, s') \<Longrightarrow> session_step R s s'"
| step_batch: "apply_batch (core_env R) ps s = (r, s') \<Longrightarrow> session_step R s s'"
| step_undo: "undo (core_env R) s = (r, s') \<Longrightarrow> session_step R s s'"
| step_redo: "redo (core_env R) s = (r, s') \<Longrightarrow> session_step R s s'"
| step_reset: "reset (core_env R) s = (r, s') \<Longrightarrow> session_step R s s'"

inductive session_reachable :: "refine_env \<Rightarrow> inspection_snapshot \<Rightarrow> repo_index \<Rightarrow> refine_session \<Rightarrow> bool"
  for R original idx where
  reach_start: "session_reachable R original idx (session_start (core_env R) original idx)"
| reach_step: "session_reachable R original idx s \<Longrightarrow> session_step R s s' \<Longrightarrow>
    session_reachable R original idx s'"

definition timeline_ops :: "refine_session \<Rightarrow> refinement_op list" where
  "timeline_ops s = active_ops (ses_timeline s)"

text \<open>
  The cursor stays within the timeline, the original and the index never change, the cached
  counts are those of the projection, and no recorded operation re-includes a locked item.
\<close>

definition session_ok :: "env \<Rightarrow> inspection_snapshot \<Rightarrow> repo_index \<Rightarrow> refine_session \<Rightarrow> bool" where
  "session_ok E original idx s \<longleftrightarrow>
     ses_original s = original \<and> ses_repo_index s = idx \<and>
     ses_cursor s \<le> length (ses_timeline s) \<and>
     ses_repo_effective s = repo_effective_of (snapshot_projected E s) \<and>
     (\<forall>p \<in> set (timeline_ops s). \<not> reincludes_locked s p)"

lemma reincludes_same_original:
  "ses_original s = ses_original t \<Longrightarrow> reincludes_locked s p = reincludes_locked t p"
  by (cases "(s, p)" rule: reincludes_locked.cases) auto

lemma cached_recompute: "ses_repo_effective (recompute_view E s) = repo_effective_of (snapshot_projected E s)"
  by (simp add: recompute_view_def)

lemma session_ok_recompute:
  assumes "session_ok E original idx s"
    and "ses_original t = ses_original s" "ses_repo_index t = ses_repo_index s"
    and "ses_cursor t \<le> length (ses_timeline t)"
    and "\<forall>p \<in> set (timeline_ops t). \<not> reincludes_locked s p"
  shows "session_ok E original idx (recompute_view E t)"
  using assms reincludes_same_original [of "recompute_view E t" s]
  by (simp add: session_ok_def cached_recompute timeline_ops_def)

lemma ops_take: "p \<in> set (active_ops (take n es)) \<Longrightarrow> p \<in> set (active_ops es)"
  by (auto simp: active_ops_def dest: in_set_takeD)

lemma session_ok_record:
  assumes "session_ok E original idx s" and "\<forall>p \<in> set (entry_ops e). \<not> reincludes_locked s p"
  shows "session_ok E original idx (record_entry E e s)"
  unfolding record_entry_def
  using assms by (intro session_ok_recompute [OF assms(1)])
    (auto simp: session_ok_def timeline_ops_def dest: ops_take)

lemma session_ok_step:
  assumes "session_step R s s'" and "session_ok (core_env R) original idx s"
  shows "session_ok (core_env R) original idx s'"
  using assms
proof cases
  case (step_apply p r)
  then have "s' = s \<or> (s' = record_entry (core_env R) (OpEntry p) s \<and> \<not> reincludes_locked s p)"
    by (auto simp: apply_op_def split: sum.splits if_splits)
  then show ?thesis using assms(2) session_ok_record [OF assms(2), of "OpEntry p"] by auto
next
  case (step_directive d r)
  then have "s' = s \<or> s' = record_entry (core_env R) (ViewEntry d) s"
    by (cases d) (auto split: if_splits)
  then show ?thesis using assms(2) session_ok_record [OF assms(2), of "ViewEntry d"] by auto
next
  case (step_batch ps r)
  then have "s' = s \<or> s' = record_entry (core_env R) (BatchEntry (filter (\<lambda>p. \<not> reincludes_locked s p) ps)) s"
    by (auto simp: apply_batch_def Let_def split: if_splits)
  then show ?thesis
    using assms(2) session_ok_record [OF assms(2), of "BatchEntry (filter (\<lambda>p. \<not> reincludes_locked s p) ps)"]
    by auto
next
  case (step_undo r)
  then show ?thesis
    using assms(2) by (auto simp: undo_def split: if_splits intro!: session_ok_recompute [OF assms(2)])
      (auto simp: session_ok_def timeline_ops_def)
next
  case (step_redo r)
  then show ?thesis
    using assms(2) by (auto simp: redo_def split: if_splits intro!: session_ok_recompute [OF assms(2)])
      (auto simp: session_ok_def timeline_ops_def)
next
  case (step_reset r)
  then show ?thesis
    using assms(2) by (auto simp: reset_def split: if_splits intro!: session_ok_recompute [OF assms(2)])
      (auto simp: timeline_ops_def)
qed

lemma session_ok_start: "session_ok E original idx (session_start E original idx)"
  by (simp add: session_ok_def session_start_def cached_recompute timeline_ops_def)

lemma session_ok_reachable:
  "session_reachable R original idx s \<Longrightarrow> session_ok (core_env R) original idx s"
  by (induction rule: session_reachable.induct) (auto intro: session_ok_start session_ok_step)

end
