(* ===== verification/ReplayFacts.thy ===== *)
theory ReplayFacts
  imports SessionFacts
begin

text \<open>
  Facts about replaying the operations: what every operation keeps of the packages and of
  the users, and what the operations on a package, a group and a repository do to the
  packages of the projection.
\<close>

section \<open>Only decisions change\<close>

text \<open>What no operation changes about a package.\<close>

definition package_key :: "package_entry \<Rightarrow> string \<times> string \<times> bool \<times> string" where
  "package_key p = (pe_name p, pe_arch p, pe_locked p, pe_source_repo p)"

abbreviation package_keys :: "inspection_snapshot \<Rightarrow> (string \<times> string \<times> bool \<times> string) list" where
  "package_keys snap \<equiv> map package_key (packages_of snap)"

lemma package_key_disposition [simp]: "package_key (p\<lparr>pe_disposition := d\<rparr>) = package_key p"
  by (simp add: package_key_def)

lemma packages_on_rpm:
  "(\<And>r. map package_key (rpm_packages_added (f r)) = map package_key (rpm_packages_added r)) \<Longrightarrow>
     package_keys (on_rpm f snap) = package_keys snap"
  by (simp add: packages_of_def on_rpm_def split: option.split)

lemma packages_on_other [simp]:
  "packages_of (on_config f1 snap) = packages_of snap"
  "packages_of (on_services f2 snap) = packages_of snap"
  "packages_of (on_containers f3 snap) = packages_of snap"
  "packages_of (on_kernel_boot f4 snap) = packages_of snap"
  "packages_of (on_users f5 snap) = packages_of snap"
  "packages_of (on_non_rpm f6 snap) = packages_of snap"
  by (simp_all add: packages_of_def on_section_defs)

lemma cascade_keys: "map package_key (rpm_packages_added (cascade_repo_packages i b r)) = map package_key (rpm_packages_added r)"
  by (simp add: cascade_repo_packages_def map_update_all)

lemma repo_packages [simp]:
  "rpm_packages_added (exclude_repo X i r) = rpm_packages_added (cascade_repo_packages i False r)"
  "rpm_packages_added (include_repo X i r) = rpm_packages_added (cascade_repo_packages i True r)"
  by (simp_all add: exclude_repo_def include_repo_def Let_def)

lemma set_include_keys: "package_keys (set_include_item X i b snap) = package_keys snap"
  by (cases i)
    (auto simp: map_update_first map_update_all cascade_keys toggle_group_def intro!: packages_on_rpm)

lemma on_user_packages [simp]: "packages_of (on_user u f snap) = packages_of snap"
  by (simp add: on_user_def)

lemma password_packages [simp]: "packages_of (apply_password orig p snap) = packages_of snap"
  by (cases p) simp_all

lemma on_env_packages [simp]: "packages_of (on_env a b f snap) = packages_of snap"
  by (simp add: on_env_def)

lemma pin_packages [simp]: "packages_of (set_package_pin i b snap) = packages_of snap"
  by (cases i) simp_all

lemma replay_op_keys: "package_keys (fst (replay_op E X st p)) = package_keys (fst st)"
  by (cases st; cases p) (simp_all add: set_include_keys)

lemma replay_fold_keys: "package_keys (fst (foldl (replay_op E X) st ps)) = package_keys (fst st)"
  by (induction ps arbitrary: st) (simp_all add: replay_op_keys)

lemma replay_keys: "package_keys (fst (replay E X)) = package_keys (rx_original X)"
  by (simp add: replay_def replay_fold_keys)

lemma key_project_package [simp]: "package_key (project_package E X p) = package_key p"
  by (simp add: project_package_def package_key_def clamp_package_def split: option.split)

lemma project_keys: "package_keys (project_snapshot E X) = package_keys (rx_original X)"
  by (simp add: project_packages comp_def replay_keys)

text \<open>
  The decision of a projected package is that of the replay, unless it is locked.
\<close>

lemma disposition_project_package:
  "p \<in> set (packages_of (fst (replay E X))) \<Longrightarrow>
     pe_disposition (project_package E X p) = (if pe_locked p then fk_excluded else pe_disposition p)"
  by (auto simp: project_package_def clamp_package_def packages_of_def split: option.splits)

section \<open>The last operation\<close>

text \<open>A session whose last active entry is one operation.\<close>

lemma replay_snoc:
  "rx_active X = es @ [OpEntry p] \<Longrightarrow>
     replay E X = replay_op E X (foldl (replay_op E X) (rx_original X, variant_state_default) (active_ops es)) p"
  by (simp add: replay_def)

lemma replay_recorded:
  assumes "ses_cursor s \<le> length (ses_timeline s)" and "s1 = record_entry E (OpEntry p) s"
  obtains snap vs where "replay E (replay_context_of s1) = replay_op E (replay_context_of s1) (snap, vs) p"
    and "package_keys snap = package_keys (ses_original s)"
    and "rx_original (replay_context_of s1) = ses_original s"
proof -
  let ?X = "replay_context_of s1"
  have active: "rx_active ?X = active_entries s @ [OpEntry p]"
    using active_record [OF assms(1)] by (simp add: assms(2) replay_context_of_def)
  have orig: "rx_original ?X = ses_original s" by (simp add: assms(2) replay_context_of_def)
  obtain snap vs where st: "foldl (replay_op E ?X) (rx_original ?X, variant_state_default)
      (active_ops (active_entries s)) = (snap, vs)" by fastforce
  have "replay E ?X = replay_op E ?X (snap, vs) p" using replay_snoc [OF active] st by metis
  moreover have "package_keys snap = package_keys (ses_original s)"
    using replay_fold_keys [of E ?X "(rx_original ?X, variant_state_default)" "active_ops (active_entries s)"]
    by (simp add: st [unfolded orig] orig)
  ultimately show thesis using that orig by blast
qed

lemma find_map:
  "(\<And>x. P (f x) = P x) \<Longrightarrow> List.find P (map f xs) = map_option f (List.find P xs)"
  by (induction xs) auto

lemma project_find_package:
  "List.find (is_package n a) (packages_of (project_snapshot E X)) =
     map_option (project_package E X) (List.find (is_package n a) (packages_of (fst (replay E X))))"
proof -
  have "is_package n a (project_package E X p) = is_package n a p" for p
    using key_project_package [of E X p] by (simp add: package_key_def)
  then show ?thesis unfolding project_packages by (rule find_map)
qed

lemma find_keys:
  assumes "map package_key xs = map package_key ys"
  shows "map_option package_key (List.find (is_package n a) xs) =
    map_option package_key (List.find (is_package n a) ys)"
  using assms by (induction xs ys rule: list_induct2') (auto simp: package_key_def)

section \<open>Users\<close>

lemma user_named_insert: "k \<noteq> ''name'' \<Longrightarrow> user_named u (json_insert k v j) = user_named u j"
  by (simp add: user_named_def json_get_insert_other)

lemma json_get_remove: "json_get k (json_remove k' j) = (if k = k' then None else json_get k j)"
proof (cases j)
  case (JObj kvs)
  have "map_of (filter (\<lambda>kv. fst kv \<noteq> k') kvs) k = (if k = k' then None else map_of kvs k)"
    by (induction kvs) auto
  then show ?thesis using JObj by simp
qed simp_all

lemma user_named_remove: "k \<noteq> ''name'' \<Longrightarrow> user_named u (json_remove k j) = user_named u j"
  by (simp add: user_named_def json_get_remove)

lemma users_on_user: "users_of (on_user u f snap) = update_first (user_named u) f (users_of snap)"
  by (simp add: users_of_def on_user_def on_users_def split: option.split)

lemma users_on_other [simp]:
  "users_of (on_rpm f0 snap) = users_of snap"
  "users_of (on_config f1 snap) = users_of snap"
  "users_of (on_services f2 snap) = users_of snap"
  "users_of (on_containers f3 snap) = users_of snap"
  "users_of (on_kernel_boot f4 snap) = users_of snap"
  "users_of (on_non_rpm f6 snap) = users_of snap"
  by (simp_all add: users_of_def on_section_defs)

lemma set_include_users [simp]: "users_of (set_include_item X i b snap) = users_of snap"
  by (cases i) simp_all

lemma on_env_users [simp]: "users_of (on_env a b f snap) = users_of snap"
  by (simp add: on_env_def)

lemma pin_users [simp]: "users_of (set_package_pin i b snap) = users_of snap"
  by (cases i) simp_all

text \<open>No operation renames a user.\<close>

abbreviation user_names :: "inspection_snapshot \<Rightarrow> json option list" where
  "user_names snap \<equiv> map (json_get ''name'') (users_of snap)"

lemma password_names: "user_names (apply_password orig p snap) = user_names snap"
  by (cases p)
    (auto simp: users_on_user Let_def json_get_insert_other json_get_remove
      intro!: map_update_first split: option.split)

lemma replay_op_names: "user_names (fst (replay_op E X st p)) = user_names (fst st)"
  by (cases st; cases p)
    (auto simp: password_names users_on_user json_get_insert_other intro!: map_update_first)

lemma replay_fold_names: "user_names (fst (foldl (replay_op E X) st ps)) = user_names (fst st)"
  by (induction ps arbitrary: st) (simp_all add: replay_op_names)

lemma find_names:
  assumes "map (json_get ''name'') xs = map (json_get ''name'') ys"
  shows "(List.find (user_named u) xs = None) = (List.find (user_named u) ys = None)"
  using assms by (induction xs ys rule: list_induct2') (auto simp: user_named_def)

lemma project_users_of: "users_of (project_snapshot E X) = users_of (fst (replay E X))"
  by (simp add: users_of_def project_users)

lemma user_named_object: "user_named u j \<Longrightarrow> \<exists>kvs. j = JObj kvs"
  by (cases j) (auto simp: user_named_def)

section \<open>Repository files\<close>

definition repo_files_of :: "inspection_snapshot \<Rightarrow> repo_file list" where
  "repo_files_of snap = (case snap_rpm snap of None \<Rightarrow> [] | Some r \<Rightarrow> rpm_repo_files r)"

abbreviation file_at :: "string \<Rightarrow> repo_file list \<Rightarrow> repo_file option" where
  "file_at path fs \<equiv> List.find (\<lambda>r. rf_path r = path) fs"

lemma file_at_set:
  "file_at q (set_repo_file d fs path) =
     (if q = path then map_option (\<lambda>r. r\<lparr>rf_disposition := d\<rparr>) (file_at q fs) else file_at q fs)"
  by (auto simp: set_repo_file_def find_update_first find_update_first_other)

lemma file_at_fold:
  "file_at q (foldl (\<lambda>fs path. if c path then set_repo_file d fs path else fs) fs paths) =
     (if q \<in> set paths \<and> c q then map_option (\<lambda>r. r\<lparr>rf_disposition := d\<rparr>) (file_at q fs) else file_at q fs)"
  by (induction paths arbitrary: fs) (auto simp: file_at_set option.map_comp comp_def)

lemma exclude_repo_file:
  "file_at q (rpm_repo_files (exclude_repo X i r)) =
     (if q \<in> set (paths_at (RepoId i) (ri_repo_file_by_section (rx_index X))) \<and>
         all_sections_excluded (rx_index X) (excluded_sections_at (rx_active X)) q
      then map_option (\<lambda>r. r\<lparr>rf_disposition := fk_excluded\<rparr>) (file_at q (rpm_repo_files r))
      else file_at q (rpm_repo_files r))"
  by (simp add: exclude_repo_def Let_def file_at_fold cascade_repo_packages_def)

lemma include_repo_file:
  "file_at q (rpm_repo_files (include_repo X i r)) =
     (if q \<in> set (paths_at (RepoId i) (ri_repo_file_by_section (rx_index X)))
      then map_option (\<lambda>r. r\<lparr>rf_disposition := fk_included\<rparr>) (file_at q (rpm_repo_files r))
      else file_at q (rpm_repo_files r))"
  using file_at_fold [of q "\<lambda>_. True" fk_included "rpm_repo_files r"]
  by (simp add: include_repo_def Let_def cascade_repo_packages_def)

lemma repo_files_on_other [simp]:
  "repo_files_of (on_config f1 snap) = repo_files_of snap"
  "repo_files_of (on_services f2 snap) = repo_files_of snap"
  "repo_files_of (on_containers f3 snap) = repo_files_of snap"
  "repo_files_of (on_kernel_boot f4 snap) = repo_files_of snap"
  "repo_files_of (on_users f5 snap) = repo_files_of snap"
  "repo_files_of (on_non_rpm f6 snap) = repo_files_of snap"
  by (simp_all add: repo_files_of_def on_section_defs)

lemma repo_files_on_rpm:
  "repo_files_of (on_rpm f snap) = (case snap_rpm snap of None \<Rightarrow> [] | Some r \<Rightarrow> rpm_repo_files (f r))"
  by (simp add: repo_files_of_def on_rpm_def split: option.split)

lemma on_user_repo_files [simp]: "repo_files_of (on_user u f snap) = repo_files_of snap"
  by (simp add: on_user_def)

lemma password_repo_files [simp]: "repo_files_of (apply_password orig p snap) = repo_files_of snap"
  by (cases p) simp_all

lemma on_env_repo_files [simp]: "repo_files_of (on_env a b f snap) = repo_files_of snap"
  by (simp add: on_env_def)

lemma pin_repo_files [simp]: "repo_files_of (set_package_pin i b snap) = repo_files_of snap"
  by (cases i) simp_all

text \<open>
  A file one of whose sections is in use at the end of the timeline is never excluded by an
  operation, at any point of the replay.
\<close>

definition file_kept :: "string \<Rightarrow> inspection_snapshot \<Rightarrow> bool" where
  "file_kept q snap \<longleftrightarrow> (\<exists>f. file_at q (repo_files_of snap) = Some f \<and> is_included (rf_disposition f) \<and> \<not> rf_locked f)"

lemma kept_on_other [simp]:
  "file_kept q (on_config f1 snap) = file_kept q snap"
  "file_kept q (on_services f2 snap) = file_kept q snap"
  "file_kept q (on_containers f3 snap) = file_kept q snap"
  "file_kept q (on_kernel_boot f4 snap) = file_kept q snap"
  by (simp_all add: file_kept_def)

lemma included_fk [simp]: "is_included fk_included"
  by (simp add: finding_defs)

lemma set_include_kept:
  assumes "\<not> all_sections_excluded (rx_index X) (excluded_sections_at (rx_active X)) q"
    and "file_kept q snap"
  shows "file_kept q (set_include_item X i b snap)"
proof -
  have rpm: "file_kept q (on_rpm f snap)"
    if "\<And>r. file_at q (rpm_repo_files (f r)) = file_at q (rpm_repo_files r) \<or>
       file_at q (rpm_repo_files (f r)) = map_option (\<lambda>r. r\<lparr>rf_disposition := fk_included\<rparr>) (file_at q (rpm_repo_files r))"
    for f
  proof (cases "snap_rpm snap")
    case None
    then show ?thesis using assms(2) by (simp add: file_kept_def repo_files_of_def)
  next
    case (Some r)
    then show ?thesis
      using assms(2) that [of r] by (auto simp: file_kept_def repo_files_on_rpm) (auto simp: repo_files_of_def)
  qed
  show ?thesis
    by (cases i)
      (auto simp: exclude_repo_file include_repo_file assms(1) toggle_group_def assms(2)
        intro!: rpm)
qed

lemma replay_op_kept:
  assumes "\<not> all_sections_excluded (rx_index X) (excluded_sections_at (rx_active X)) q"
    and "file_kept q (fst st)"
  shows "file_kept q (fst (replay_op E X st p))"
  using assms by (cases st; cases p) (auto simp: set_include_kept, auto simp: file_kept_def)

lemma replay_kept:
  assumes "\<not> all_sections_excluded (rx_index X) (excluded_sections_at (rx_active X)) q"
    and "file_kept q (fst st)"
  shows "file_kept q (fst (foldl (replay_op E X) st ps))"
  using assms(2) by (induction ps arbitrary: st) (simp_all add: replay_op_kept [OF assms(1)])

lemma project_repo_file:
  "file_at q (repo_files_of (project_snapshot E X)) =
     map_option (\<lambda>f. if rf_locked f then f\<lparr>rf_disposition := fk_excluded\<rparr> else f)
       (file_at q (repo_files_of (fst (replay E X))))"
  by (auto simp: repo_files_of_def project_rpm clamp_rpm_def update_all_def intro!: find_map split: option.split)

section \<open>Variants\<close>

text \<open>What no operation before the materialisation changes about the entries of a text pool.\<close>

definition config_key :: "config_file_entry \<Rightarrow> string \<times> string \<times> variant_selection" where
  "config_key e = (cf_path e, cf_content e, cf_variant_selection e)"

definition dropin_key :: "systemd_drop_in \<Rightarrow> string \<times> string \<times> variant_selection" where
  "dropin_key e = (di_path e, di_content e, di_variant_selection e)"

definition quadlet_key :: "quadlet_unit \<Rightarrow> string \<times> string \<times> variant_selection" where
  "quadlet_key e = (qu_path e, qu_content e, qu_variant_selection e)"

definition text_keys ::
  "inspection_snapshot \<Rightarrow> (string \<times> string \<times> variant_selection) list \<times>
   (string \<times> string \<times> variant_selection) list \<times> (string \<times> string \<times> variant_selection) list" where
  "text_keys snap = (map config_key (config_files_of snap), map dropin_key (drop_ins_of snap),
     map quadlet_key (quadlets_of snap))"

lemmas pools_of_def = config_files_of_def drop_ins_of_def quadlets_of_def

lemma key_dispositions [simp]:
  "config_key (e\<lparr>cf_disposition := d\<rparr>) = config_key e"
  "dropin_key (e'\<lparr>di_disposition := d\<rparr>) = dropin_key e'"
  "quadlet_key (e''\<lparr>qu_disposition := d\<rparr>) = quadlet_key e''"
  by (simp_all add: config_key_def dropin_key_def quadlet_key_def)

lemma text_keys_on_other [simp]:
  "text_keys (on_rpm f0 snap) = text_keys snap"
  "text_keys (on_kernel_boot f4 snap) = text_keys snap"
  "text_keys (on_users f5 snap) = text_keys snap"
  "text_keys (on_non_rpm f6 snap) = text_keys snap"
  by (simp_all add: text_keys_def pools_of_def on_section_defs)

lemma text_keys_on_pools:
  "(\<And>c. map config_key (cfg_files (f1 c)) = map config_key (cfg_files c)) \<Longrightarrow>
     text_keys (on_config f1 snap) = text_keys snap"
  "(\<And>s. map dropin_key (svc_drop_ins (f2 s)) = map dropin_key (svc_drop_ins s)) \<Longrightarrow>
     text_keys (on_services f2 snap) = text_keys snap"
  "(\<And>c. map quadlet_key (ctr_quadlet_units (f3 c)) = map quadlet_key (ctr_quadlet_units c)) \<Longrightarrow>
     text_keys (on_containers f3 snap) = text_keys snap"
  by (simp_all add: text_keys_def pools_of_def on_section_defs split: option.split)

lemma set_include_text: "text_keys (set_include_item X i b snap) = text_keys snap"
  by (cases i)
    (auto simp: map_update_first map_update_all toggle_service_def intro!: text_keys_on_pools)

lemma on_user_text [simp]: "text_keys (on_user u f snap) = text_keys snap"
  by (simp add: on_user_def)

lemma password_text [simp]: "text_keys (apply_password orig p snap) = text_keys snap"
  by (cases p) simp_all

lemma on_env_text [simp]: "text_keys (on_env a b f snap) = text_keys snap"
  by (simp add: on_env_def)

lemma pin_text [simp]: "text_keys (set_package_pin i b snap) = text_keys snap"
  by (cases i) simp_all

lemma replay_op_text: "text_keys (fst (replay_op E X st p)) = text_keys (fst st)"
  by (cases st; cases p) (simp_all add: set_include_text)

lemma replay_text: "text_keys (fst (replay E X)) = text_keys (rx_original X)"
proof -
  have "text_keys (fst (foldl (replay_op E X) st ps)) = text_keys (fst st)" for st ps
    by (induction ps arbitrary: st) (simp_all add: replay_op_text)
  then show ?thesis by (simp add: replay_def)
qed

lemma replay_variants_ok: "variant_state_ok E (snd (replay E X))"
proof -
  have step: "variant_state_ok E (snd st) \<Longrightarrow> variant_state_ok E (snd (replay_op E X st p))" for st p
    by (cases st; cases p) (auto simp: variant_ok_select variant_ok_edit variant_ok_discard)
  have "variant_state_ok E (snd (foldl (replay_op E X) st ps))" if "variant_state_ok E (snd st)" for st ps
    using that by (induction ps arbitrary: st) (simp_all add: step)
  then show ?thesis by (simp add: replay_def)
qed

text \<open>The steps after the materialisation leave the text pools alone.\<close>

lemma demote_text: "text_keys (demote_unserved_repo_enabling snap) = text_keys snap"
  by (simp add: demote_unserved_repo_enabling_def text_keys_def pools_of_def)

lemma raise_text: "text_keys (raise_sensitivity orig snap) = text_keys snap"
  by (simp add: raise_sensitivity_def text_keys_def pools_of_def)

lemma clamp_text: "text_keys (clamp_locked_items snap) = text_keys snap"
  by (simp add: clamp_locked_items_def text_keys_def pools_of_def clamp_config_def clamp_services_def
      clamp_containers_def map_update_all split: option.split)

lemma project_text:
  "text_keys (project_snapshot E X) =
     text_keys (materialize_variants E (snd (replay E X)) (fst (replay E X)))"
  by (cases "replay E X") (simp add: project_snapshot_def demote_text clamp_text raise_text)

lemma materialize_nothing:
  assumes "affected_paths E vs = []" and "legal_env E"
  shows "materialize_pool E P vs [] xs = xs"
proof -
  have none: "\<not> touched vs p" for p using set_affected_paths [OF assms(2), of vs] assms(1) by auto
  have "map fst (vs_user_variants vs) = []" "map fst (vs_discarded vs) = []"
    using none by (metis list.set_intros(1) neq_Nil_conv touched_def)+
  moreover have "env_order E [] = []"
    using assms(2) by (simp add: legal_env_def legal_order_def) (metis mset_zero_iff)
  ultimately show ?thesis by (simp add: materialize_pool_def hm_iter_def)
qed

lemma materialize_no_entries: "materialize_pool E P vs ps [] = []"
proof -
  have "foldl (add_path_variants E P vs) [] pms = []" for pms
    by (induction pms) (simp_all add: add_path_variants_def)
  moreover have "foldl (remove_discarded P) [] ds = []" for ds
    by (induction ds) (simp_all add: remove_discarded_def)
  moreover have "foldl (select_variants P vs) [] ps = []"
    by (induction ps) (simp_all add: select_variants_def)
  ultimately show ?thesis by (simp add: materialize_pool_def)
qed

lemma materialize_pools:
  assumes "legal_env E"
  shows "config_files_of (materialize_variants E vs snap) =
      materialize_pool E (config_pool E) vs (affected_paths E vs) (config_files_of snap)" (is ?c)
    and "drop_ins_of (materialize_variants E vs snap) =
      materialize_pool E (dropin_pool E) vs (affected_paths E vs) (drop_ins_of snap)" (is ?d)
    and "quadlets_of (materialize_variants E vs snap) =
      materialize_pool E (quadlet_pool E) vs (affected_paths E vs) (quadlets_of snap)" (is ?q)
proof -
  have "?c \<and> ?d \<and> ?q"
  proof (cases "affected_paths E vs = []")
    case True
    then show ?thesis
      by (simp add: materialize_variants_def True materialize_nothing [OF True assms])
  next
    case False
    then show ?thesis
      by (simp add: materialize_variants_def Let_def materialize_config_variants_def
          materialize_dropin_variants_def materialize_quadlet_variants_def materialize_compose_variants_def
          materialize_language_env_variants_def materialize_unmanaged_file_variants_def pools_of_def
          materialize_no_entries split: option.split)
  qed
  then show ?c ?d ?q by blast+
qed

text \<open>A view is a function of the keys.\<close>

definition key_view :: "env \<Rightarrow> string \<Rightarrow> (string \<times> string \<times> variant_selection) list \<Rightarrow> (string \<times> variant_selection) list" where
  "key_view E p ks = map (\<lambda>(_, c, v). (sha256_hex E c, v)) (filter (\<lambda>(q, _). q = p) ks)"

lemma views_of_keys:
  "variant_view (config_pool E) cf_variant_selection p cs = key_view E p (map config_key cs)"
  "variant_view (dropin_pool E) di_variant_selection p ds = key_view E p (map dropin_key ds)"
  "variant_view (quadlet_pool E) qu_variant_selection p qs = key_view E p (map quadlet_key qs)"
  by (simp_all add: variant_view_def key_view_def filter_map comp_def config_pool_def dropin_pool_def
      quadlet_pool_def config_key_def dropin_key_def quadlet_key_def content_hash_of_def)

end
