(* ===== verification/RefineProperties.thy ===== *)
theory RefineProperties
  imports ReplayFacts
begin

text \<open>
  The properties of a refine session: its invariant, undo and redo, the projection's
  guarantees, the operations on packages, groups, repositories, variants and passwords, and
  the provenance of a repository.
\<close>

section \<open>The session\<close>

text \<open>
  A small session for the witnesses: one package of a third-party repository, which a group
  declares as its member.
\<close>

definition small_package :: package_entry where
  "small_package = \<lparr> pe_name = ''tool'', pe_epoch = [], pe_version = ''1'', pe_release = ''1'', pe_arch = ''x86_64'',
     pe_state = PkgAdded, pe_disposition = Actionable True, pe_locked = False, pe_acknowledged = False,
     pe_source_repo = ''extra'', pe_repo_attribution = Unrecorded, pe_repo_enabling_from = [],
     pe_repoless_annotation = [], pe_repoless_cached = False, pe_uploaded = False, pe_cache_path = None,
     pe_uploaded_version = None, pe_aggregate = None \<rparr>"

definition small_rpm :: rpm_section where
  "small_rpm = \<lparr> rpm_packages_added = [small_package], rpm_base_image_only = [], rpm_rpm_va = [],
     rpm_repo_files = [], rpm_gpg_keys = [], rpm_dnf_history_removed = [], rpm_version_changes = [],
     rpm_leaf_packages = None, rpm_auto_packages = None, rpm_leaf_dep_tree = JNull,
     rpm_module_streams = [], rpm_version_locks = [], rpm_module_stream_conflicts = [],
     rpm_baseline_module_streams = None, rpm_versionlock_command_output = None,
     rpm_multiarch_packages = [], rpm_duplicate_packages = [], rpm_ostree_overrides = [],
     rpm_ostree_removals = [], rpm_base_image = None, rpm_baseline_suppressed = None,
     rpm_baseline_package_names = None, rpm_leaf_authority_hosts = None, rpm_leaf_total_hosts = None,
     rpm_file_ownership = [],
     rpm_installed_groups = Some [\<lparr> ig_name = ''g'', ig_members = [''tool''], ig_optional_installed = [] \<rparr>] \<rparr>"

definition small_snapshot :: inspection_snapshot where
  "small_snapshot = snapshot_new\<lparr>snap_rpm := Some small_rpm\<rparr>"

definition small_env :: env where
  "small_env = \<lparr> sha256_hex = (\<lambda>s. s), to_json = (\<lambda>_. []), env_order = (\<lambda>ks. ks), env_arch_order = (\<lambda>_ ks. ks) \<rparr>"

definition small_renv :: refine_env where
  "small_renv = \<lparr> core_env = small_env, debug_item = (\<lambda>_. []) \<rparr>"

abbreviation small_start :: refine_session where
  "small_start \<equiv> session_start small_env small_snapshot repo_index_empty"

lemma small_core [simp]: "core_env small_renv = small_env"
  by (simp add: small_renv_def)

lemma small_legal: "legal_env small_env"
  by (simp add: small_env_def legal_env_def)

definition drop_tool :: refinement_op where
  "drop_tool = SetInclude (ItemPackage ''tool'' ''x86_64'') False"


lemma small_reach_batch:
  "session_reachable small_renv small_snapshot repo_index_empty
     (snd (undo small_env (snd (apply_batch small_env [drop_tool] small_start))))"
proof -
  have start: "session_reachable small_renv small_snapshot repo_index_empty small_start"
    using reach_start [of small_renv small_snapshot repo_index_empty] by simp
  have batch: "session_step small_renv small_start (snd (apply_batch small_env [drop_tool] small_start))"
    by (rule step_batch [of _ "[drop_tool]" _ "fst (apply_batch small_env [drop_tool] small_start)"]) simp
  have un: "session_step small_renv s (snd (undo small_env s))" for s
    by (rule step_undo [of _ _ "fst (undo small_env s)"]) simp
  show ?thesis by (rule reach_step [OF reach_step [OF start batch] un])
qed


text \<open>C32. Undo takes back exactly one recorded operation: the projection, the cached counts, the
  cursor and the active entries are those from before it. Redo then restores the session
  after the operation; only the generation counter has moved on, by two.
\<close>

theorem undo_redo_roundtrip:
  assumes "session_reachable R original idx s"
    and "apply_op R p s = (Inr (), s1)" and "ses_generation s1 \<noteq> ses_generation s"
  shows "\<exists>s2. undo (core_env R) s1 = (Inr (), s2) \<and>
    snapshot_projected (core_env R) s2 = snapshot_projected (core_env R) s \<and>
    ses_repo_effective s2 = ses_repo_effective s \<and>
    ses_cursor s2 = ses_cursor s \<and> active_entries s2 = active_entries s \<and>
    redo (core_env R) s2 = (Inr (), s1\<lparr>ses_generation := ses_generation s1 + 2\<rparr>)"
proof -
  have ok: "session_ok (core_env R) original idx s" by (rule session_ok_reachable [OF assms(1)])
  have cur: "ses_cursor s \<le> length (ses_timeline s)" using ok by (simp add: session_ok_def)
  have s1: "s1 = record_entry (core_env R) (OpEntry p) s"
    using assms(2,3) by (auto simp: apply_op_def split: sum.splits if_splits)
  show ?thesis
    using cur ok unfolding s1
    by (simp add: undo_def redo_def record_entry_def recompute_view_def session_ok_def
        snapshot_projected_def replay_context_of_def active_entries_def)
qed

lemma small_active [simp]: "active_entries small_start = []"
  by (simp add: session_start_def active_entries_def)

lemma small_original [simp]: "ses_original small_start = small_snapshot"
  by (simp add: session_start_def)

lemma small_packages [simp]: "packages_of small_snapshot = [small_package]"
  by (simp add: packages_of_def small_snapshot_def small_rpm_def)

lemma small_projected [simp]: "packages_of (snapshot_projected small_env small_start) = [small_package]"
proof -
  have "replay small_env (replay_context_of small_start) = (small_snapshot, variant_state_default)"
    by (simp add: replay_def replay_context_of_def active_ops_def)
  then show ?thesis
    by (simp add: snapshot_projected_def project_packages)
      (simp add: project_package_def clamp_package_def demoted_def repo_enabling_export_def
        small_package_def split: option.split)
qed

lemma small_apply:
  "apply_op small_renv drop_tool small_start =
     (Inr (), record_entry small_env (OpEntry drop_tool) small_start)"
  by (simp add: apply_op_def drop_tool_def require_def include_noop_def found_included_def)
    (simp add: small_package_def)

theorem undo_redo_roundtrip_witness:
  "snapshot_projected small_env (snd (undo small_env (snd (apply_op small_renv drop_tool small_start)))) =
   snapshot_projected small_env small_start"
proof -
  have reach: "session_reachable small_renv small_snapshot repo_index_empty small_start"
    using reach_start [of small_renv small_snapshot repo_index_empty] by simp
  have "ses_generation (record_entry small_env (OpEntry drop_tool) small_start) \<noteq> ses_generation small_start"
    by simp
  then show ?thesis
    using undo_redo_roundtrip [OF reach small_apply] by (auto simp: small_apply)
qed

section \<open>The projection\<close>

text \<open>C9. Whatever the timeline holds, replayed in whatever order, a projection has no locked
  item that is included: packages, module streams, version locks, repo files, configuration
  files, services, drop-ins, quadlets, compose files, containers, flatpaks, fstab entries,
  sysctls, network items, scheduled tasks, port labels and software outside RPM.
\<close>

theorem locked_never_included: "no_locked_included (project_snapshot E X)"
  by (rule project_no_locked)

lemma group_members_found:
  "List.find (\<lambda>g. ig_name g = name) (installed_groups snap) = Some g \<Longrightarrow>
     group_members_of snap name = ig_members g"
  by (simp add: group_members_of_def)

lemma toggled_package:
  assumes "p \<in> set (packages_of (on_rpm (toggle_group ms b) snap))"
    and "pe_name p \<in> set ms" and "\<not> pe_locked p"
  shows "pe_disposition p = fk_from_bool b"
  using assms by (auto simp: packages_of_def on_rpm_def toggle_group_def update_all_def split: option.splits if_splits)

lemma group_op_run:
  assumes "List.find (\<lambda>g. ig_name g = name) (installed_groups (ses_original s)) = Some g"
  shows "apply_op R (SetInclude (ItemGroup name) b) s =
      (case check_group_noop (core_env R) s name b of
         Inl e \<Rightarrow> (Inl e, s)
       | Inr _ \<Rightarrow> (Inr (), record_entry (core_env R) (OpEntry (SetInclude (ItemGroup name) b)) s))"
proof -
  have "\<exists>g \<in> set (installed_groups (ses_original s)). ig_name g = name"
    using assms by (auto simp: find_Some_iff)
  moreover have "\<not> reincludes_locked s (SetInclude (ItemGroup name) b)" by (cases b) simp_all
  ultimately show ?thesis by (auto simp: apply_op_def require_def include_noop_def split: sum.split)
qed

text \<open>A recorded group operation reaches every unlocked member.\<close>

lemma group_op_projected:
  assumes "ses_cursor s \<le> length (ses_timeline s)"
    and "List.find (\<lambda>g. ig_name g = name) (installed_groups (ses_original s)) = Some g"
    and "p \<in> set (packages_of (snapshot_projected E
      (record_entry E (OpEntry (SetInclude (ItemGroup name) b)) s)))"
    and "pe_name p \<in> set (ig_members g)" and "\<not> pe_locked p"
  shows "pe_disposition p = Actionable b"
proof -
  define s1 where "s1 = record_entry E (OpEntry (SetInclude (ItemGroup name) b)) s"
  let ?X = "replay_context_of s1"
  obtain snap vs where rec: "replay E ?X = replay_op E ?X (snap, vs) (SetInclude (ItemGroup name) b)"
      "rx_original ?X = ses_original s"
    by (rule replay_recorded [OF assms(1) s1_def]) blast
  have rep: "fst (replay E ?X) = on_rpm (toggle_group (ig_members g) b) snap"
    using rec(2) group_members_found [OF assms(2)] by (simp add: rec(1))
  obtain q where q: "q \<in> set (packages_of (fst (replay E ?X)))" "p = project_package E ?X q"
    using assms(3) by (auto simp: project_packages snapshot_projected_def s1_def)
  have key: "pe_name q = pe_name p \<and> pe_locked q = pe_locked p"
    using key_project_package [of E ?X q] q(2) by (simp add: package_key_def)
  then have "pe_disposition q = fk_from_bool b"
    using toggled_package q(1) assms(4,5) unfolding rep by auto
  then show ?thesis
    using disposition_project_package [OF q(1)] q(2) assms(5) key by (simp add: finding_defs)
qed

text \<open>C31. A group operation is refused exactly when it would change no decision: for a session
  at a cursor within its timeline and a known group, \<open>apply\<close> records the operation if some
  effective member of the projection (actionable, not locked) has the other state, and
  returns \<open>NoopTarget\<close> with the session unchanged otherwise. Once recorded, every unlocked
  member carries the requested state.
\<close>

theorem group_op_exact:
  assumes "ses_cursor s \<le> length (ses_timeline s)"
    and "List.find (\<lambda>g. ig_name g = name) (installed_groups (ses_original s)) = Some g"
    and "apply_op R (SetInclude (ItemGroup name) b) s = (r, s')"
  shows "if \<exists>p \<in> set (packages_of (snapshot_projected (core_env R) s)).
           pe_name p \<in> set (ig_members g) \<and> is_effective_member p \<and> is_included (pe_disposition p) \<noteq> b
         then r = Inr () \<and> s' = record_entry (core_env R) (OpEntry (SetInclude (ItemGroup name) b)) s \<and>
           (\<forall>p \<in> set (packages_of (snapshot_projected (core_env R) s')).
              pe_name p \<in> set (ig_members g) \<and> \<not> pe_locked p \<longrightarrow> pe_disposition p = Actionable b)
         else s' = s \<and> (\<exists>m. r = Inl (NoopTarget m))"
proof -
  let ?E = "core_env R" and ?p = "SetInclude (ItemGroup name) b"
  let ?eff = "effective_members (packages_of (snapshot_projected ?E s)) (ig_members g)"
  note run = group_op_run [OF assms(2), of R b]
  have eff: "(\<exists>p \<in> set ?eff. is_included (pe_disposition p) \<noteq> b) \<longleftrightarrow>
      (\<exists>p \<in> set (packages_of (snapshot_projected ?E s)).
           pe_name p \<in> set (ig_members g) \<and> is_effective_member p \<and> is_included (pe_disposition p) \<noteq> b)"
    by (auto simp: effective_members_def)
  show ?thesis
  proof (cases "\<exists>p \<in> set ?eff. is_included (pe_disposition p) \<noteq> b")
    case True
    then have "?eff \<noteq> []" by auto
    with True have "check_group_noop ?E s name b = Inr ()"
      using assms(2) by (auto simp: check_group_noop_def Let_def)
    then have "r = Inr ()" "s' = record_entry ?E (OpEntry ?p) s" using assms(3) run by auto
    then show ?thesis
      using True group_op_projected [OF assms(1,2)] unfolding eff by auto
  next
    case False
    then have "\<exists>m. check_group_noop ?E s name b = Inl (NoopTarget m)"
      using assms(2) by (auto simp: check_group_noop_def Let_def nothing_to_decide_def already_decided_def)
    then obtain m where "check_group_noop ?E s name b = Inl (NoopTarget m)" by blast
    then have "r = Inl (NoopTarget m)" "s' = s" using assms(3) run by auto
    then show ?thesis using False unfolding eff by simp
  qed
qed

lemma small_group:
  "List.find (\<lambda>g. ig_name g = ''g'') (installed_groups (ses_original small_start)) =
     Some \<lparr> ig_name = ''g'', ig_members = [''tool''], ig_optional_installed = [] \<rparr>"
  unfolding small_original by (simp add: installed_groups_def small_snapshot_def small_rpm_def)

theorem group_op_exact_witness:
  "fst (apply_op small_renv (SetInclude (ItemGroup ''g'') False) small_start) = Inr () \<and>
   (\<exists>m. fst (apply_op small_renv (SetInclude (ItemGroup ''g'') True) small_start) = Inl (NoopTarget m))"
proof -
  have cur: "ses_cursor small_start \<le> length (ses_timeline small_start)"
    by (simp add: session_start_def)
  have pkg: "pe_name small_package = ''tool''" "is_effective_member small_package"
    "is_included (pe_disposition small_package)"
    by (simp_all add: small_package_def is_effective_member_def is_actionable_package_def)
  have on: "\<exists>p \<in> set (packages_of (snapshot_projected (core_env small_renv) small_start)).
      pe_name p \<in> set [''tool''] \<and> is_effective_member p \<and> is_included (pe_disposition p) \<noteq> False"
    using pkg by simp
  have off: "\<not> (\<exists>p \<in> set (packages_of (snapshot_projected (core_env small_renv) small_start)).
      pe_name p \<in> set [''tool''] \<and> is_effective_member p \<and> is_included (pe_disposition p) \<noteq> True)"
    using pkg by simp
  note run = group_op_exact [OF cur small_group prod.collapse [symmetric], unfolded installed_group.simps]
  show ?thesis
    using run [of small_renv False, unfolded if_P [OF on]] run [of small_renv True, unfolded if_not_P [OF off]]
    by blast
qed

section \<open>Packages\<close>

text \<open>What a recorded operation on a package does to the first package of that identity.\<close>

lemma package_op_projected:
  assumes "ses_cursor s \<le> length (ses_timeline s)"
    and "\<not> (b \<and> is_item_locked (ses_original s) (ItemPackage n a))"
    and "List.find (is_package n a) (packages_of (ses_original s)) \<noteq> None"
  shows "\<exists>q. List.find (is_package n a) (packages_of (snapshot_projected E
      (record_entry E (OpEntry (SetInclude (ItemPackage n a) b)) s))) = Some q \<and>
    is_included (pe_disposition q) = b"
proof -
  define s1 where "s1 = record_entry E (OpEntry (SetInclude (ItemPackage n a) b)) s"
  let ?X = "replay_context_of s1" and ?f = "\<lambda>p. p\<lparr>pe_disposition := fk_from_bool b\<rparr>"
  obtain snap vs where rec: "replay E ?X = replay_op E ?X (snap, vs) (SetInclude (ItemPackage n a) b)"
      "package_keys snap = package_keys (ses_original s)" "rx_original ?X = ses_original s"
    by (rule replay_recorded [OF assms(1) s1_def]) blast
  have rep: "packages_of (fst (replay E ?X)) = update_first (is_package n a) ?f (packages_of snap)"
    using assms(2) rec(3) by (auto simp: rec(1) packages_of_def on_rpm_def split: option.split)
  obtain e q where e: "List.find (is_package n a) (packages_of (ses_original s)) = Some e"
    and q: "List.find (is_package n a) (packages_of snap) = Some q" "package_key q = package_key e"
    using find_keys [OF rec(2), of n a] assms(3) by auto
  have found: "List.find (is_package n a) (packages_of (fst (replay E ?X))) = Some (?f q)"
    unfolding rep using q(1) by (subst find_update_first) simp_all
  then have mem: "?f q \<in> set (packages_of (fst (replay E ?X)))"
    by (auto simp: find_Some_iff)
  have lock: "pe_locked q = is_item_locked (ses_original s) (ItemPackage n a)"
    using q(2) by (simp add: e found_locked_def package_key_def)
  have "is_included (pe_disposition (project_package E ?X (?f q))) = b"
    using assms(2) lock unfolding disposition_project_package [OF mem]
    by (auto simp: finding_defs)
  then show ?thesis
    by (simp add: snapshot_projected_def project_find_package found flip: s1_def)
qed

text \<open>Applying an operation on a package a second time changes nothing: once \<open>apply\<close> has
  accepted an include or an exclude of a package, the same operation is accepted again and
  leaves the session as it is.
\<close>

theorem package_op_idempotent:
  assumes "ses_cursor s \<le> length (ses_timeline s)"
    and "apply_op R (SetInclude (ItemPackage n a) b) s = (Inr (), s1)"
  shows "apply_op R (SetInclude (ItemPackage n a) b) s1 = (Inr (), s1)"
proof -
  let ?E = "core_env R" and ?p = "SetInclude (ItemPackage n a) b"
  have valid: "validate_target R s ?p = Inr ()"
    using assms(2) by (auto simp: apply_op_def split: sum.splits)
  have ran: "apply_op R ?p t = (if reincludes_locked t ?p \<or> is_op_noop ?E t ?p then (Inr (), t)
      else (Inr (), record_entry ?E (OpEntry ?p) t))" if "ses_original t = ses_original s" for t
  proof -
    have "validate_target R t ?p = Inr ()" using valid that by simp
    then show ?thesis by (simp add: apply_op_def)
  qed
  show ?thesis
  proof (cases "s1 = s")
    case True
    then show ?thesis using assms(2) by simp
  next
    case False
    then have "\<not> reincludes_locked s ?p" and s1: "s1 = record_entry ?E (OpEntry ?p) s"
      using assms(2) ran [of s] by (auto split: if_splits)
    then have "\<not> (b \<and> is_item_locked (ses_original s) (ItemPackage n a))" by (cases b) simp_all
    moreover have "List.find (is_package n a) (packages_of (ses_original s)) \<noteq> None"
      using valid by (auto simp: require_def find_None_iff split: if_splits)
    ultimately have "is_op_noop ?E s1 ?p"
      using package_op_projected [OF assms(1), of b n a ?E]
      by (auto simp: include_noop_def found_included_def s1)
    then show ?thesis using ran [of s1] s1 by simp
  qed
qed

theorem package_op_idempotent_witness:
  "apply_op small_renv drop_tool (record_entry small_env (OpEntry drop_tool) small_start) =
     (Inr (), record_entry small_env (OpEntry drop_tool) small_start)"
proof -
  have cur: "ses_cursor small_start \<le> length (ses_timeline small_start)"
    by (simp add: session_start_def)
  show ?thesis
    using package_op_idempotent [OF cur small_apply [unfolded drop_tool_def]] by (simp add: drop_tool_def)
qed

section \<open>Repositories\<close>

lemma cascaded_package:
  assumes "p \<in> set (rpm_packages_added (cascade_repo_packages i b r))"
    and "same_repo (pe_source_repo p) i" and "\<not> pe_locked p"
  shows "pe_disposition p = fk_from_bool b"
  using assms by (auto simp: cascade_repo_packages_def update_all_def split: if_splits)

text \<open>When the last active operation includes or excludes a repository, every unlocked
  package recorded for it, in any spelling of its id, carries that decision in the
  projection, and so does every unlocked repo file that defines it, except that an exclusion
  spares a file one of whose sections is not excluded.
\<close>

theorem repo_op_effect:
  assumes "rx_active X = es @ [OpEntry (SetInclude (ItemRepo sid) b)]"
  shows "(\<forall>p \<in> set (packages_of (project_snapshot E X)).
      same_repo (pe_source_repo p) sid \<and> \<not> pe_locked p \<longrightarrow> pe_disposition p = Actionable b) \<and>
    (\<forall>path \<in> set (paths_at (RepoId sid) (ri_repo_file_by_section (rx_index X))).
      b \<or> all_sections_excluded (rx_index X) (excluded_sections_at (rx_active X)) path \<longrightarrow>
      (\<forall>f. file_at path (repo_files_of (project_snapshot E X)) = Some f \<and> \<not> rf_locked f \<longrightarrow>
         rf_disposition f = Actionable b))"
proof -
  let ?X = X
  obtain snap vs where st: "foldl (replay_op E X) (rx_original X, variant_state_default)
      (active_ops es) = (snap, vs)" by fastforce
  have rep: "fst (replay E X) = on_rpm (if b then include_repo X sid else exclude_repo X sid) snap"
    by (simp add: replay_snoc [OF assms] st)
  have pk: "pe_disposition p = Actionable b"
    if p: "p \<in> set (packages_of (project_snapshot E X))" "same_repo (pe_source_repo p) sid" "\<not> pe_locked p" for p
  proof -
    obtain q where q: "q \<in> set (packages_of (fst (replay E X)))" "p = project_package E X q"
      using p(1) by (auto simp: project_packages)
    have key: "pe_source_repo q = pe_source_repo p \<and> pe_locked q = pe_locked p"
      using key_project_package [of E X q] q(2) by (simp add: package_key_def)
    have "pe_disposition q = fk_from_bool b"
      using q(1) p(2,3) key unfolding rep
      by (cases b) (auto simp: packages_of_def on_rpm_def intro: cascaded_package split: option.splits)
    then show ?thesis
      using disposition_project_package [OF q(1)] q(2) p(3) key by (simp add: finding_defs)
  qed
  have fl: "rf_disposition f = Actionable b"
    if path: "path \<in> set (paths_at (RepoId sid) (ri_repo_file_by_section (rx_index X)))"
      and cond: "b \<or> all_sections_excluded (rx_index X) (excluded_sections_at (rx_active X)) path"
      and f: "file_at path (repo_files_of (project_snapshot E X)) = Some f" "\<not> rf_locked f" for path f
  proof -
    obtain g where g: "file_at path (repo_files_of (fst (replay E X))) = Some g"
      "f = (if rf_locked g then g\<lparr>rf_disposition := fk_excluded\<rparr> else g)"
      using f(1) by (auto simp: project_repo_file)
    then have "f = g" using f(2) by (auto split: if_splits)
    moreover have "rf_disposition g = fk_from_bool b"
      using g(1) path cond unfolding rep
      by (cases b) (auto simp: repo_files_on_rpm exclude_repo_file include_repo_file fk_from_bool_def
          split: option.splits)
    ultimately show ?thesis by (simp add: finding_defs)
  qed
  show ?thesis using pk fl by blast
qed

definition small_context :: "timeline_entry list \<Rightarrow> replay_context" where
  "small_context es = \<lparr> rx_original = small_snapshot, rx_index = repo_index_empty, rx_active = es \<rparr>"

theorem repo_op_effect_witness:
  "map pe_disposition (packages_of (project_snapshot small_env
       (small_context [OpEntry (SetInclude (ItemRepo ''EXTRA'') False)]))) = [Actionable False]"
proof -
  let ?X = "small_context [OpEntry (SetInclude (ItemRepo ''EXTRA'') False)]"
  have "rx_active ?X = [] @ [OpEntry (SetInclude (ItemRepo ''EXTRA'') False)]"
    by (simp add: small_context_def)
  note effect = conjunct1 [OF repo_op_effect [OF this, of small_env]]
  have "package_keys (project_snapshot small_env ?X) = [(''tool'', ''x86_64'', False, ''extra'')]"
    unfolding project_keys by (simp add: small_context_def package_key_def) (simp add: small_package_def)
  then obtain p where p: "packages_of (project_snapshot small_env ?X) = [p]"
    "pe_source_repo p = ''extra''" "\<not> pe_locked p"
    by (auto simp: package_key_def)
  have "same_repo ''extra'' ''EXTRA''" by code_simp
  then show ?thesis using effect p by simp
qed

text \<open>C30. A repo file is never lost while the export still needs it: if one of the sections the
  index lists it under is not excluded at the end of the timeline, then no sequence of operations, single or
  batched, turns an included and unlocked file into an excluded one.
\<close>

theorem shared_repo_file_kept:
  assumes "file_at path (repo_files_of (rx_original X)) = Some f"
    and "is_included (rf_disposition f)" and "\<not> rf_locked f"
    and "(sid, paths) \<in> set (ri_repo_file_by_section (rx_index X))" and "path \<in> set paths"
    and "\<not> section_excluded (excluded_sections_at (rx_active X)) sid"
  shows "\<exists>g. file_at path (repo_files_of (project_snapshot E X)) = Some g \<and> is_included (rf_disposition g)"
proof -
  have "\<not> all_sections_excluded (rx_index X) (excluded_sections_at (rx_active X)) path"
    using assms(4-6) by (auto simp: all_sections_excluded_def)
  then have "file_kept path (fst (replay E X))"
    unfolding replay_def using assms(1-3) by (intro replay_kept) (auto simp: file_kept_def)
  then show ?thesis by (auto simp: file_kept_def project_repo_file)
qed

text \<open>A file with two sections, one of which is excluded.\<close>

definition shared_file :: repo_file where
  "shared_file = \<lparr> rf_path = ''s.repo'', rf_content = ''[a]'' @ [CHR 0x0A] @ ''[b]'', rf_is_default_repo = False,
     rf_disposition = Actionable True, rf_locked = False, rf_aggregate = None \<rparr>"

definition shared_context :: replay_context where
  "shared_context =
     (let snap = snapshot_new\<lparr>snap_rpm := Some (small_rpm\<lparr>rpm_repo_files := [shared_file]\<rparr>)\<rparr>
      in \<lparr> rx_original = snap, rx_index = repo_index_build snap,
           rx_active = [BatchEntry [SetInclude (ItemRepo ''A'') False, SetInclude (ItemRepo ''b'') False,
             SetInclude (ItemRepo ''B'') True]] \<rparr>)"

lemma shared_sections:
  "ri_repo_file_by_section (rx_index shared_context) = [(RepoId ''a'', [''s.repo'']), (RepoId ''b'', [''s.repo''])]"
  by code_simp

lemma shared_excluded: "excluded_sections_at (rx_active shared_context) = [RepoId ''A'']"
  by code_simp

theorem shared_repo_file_kept_witness:
  "\<exists>g. file_at ''s.repo'' (repo_files_of (project_snapshot small_env shared_context)) = Some g \<and>
     is_included (rf_disposition g)"
proof (rule shared_repo_file_kept)
  show "file_at ''s.repo'' (repo_files_of (rx_original shared_context)) = Some shared_file"
    by (simp add: shared_context_def Let_def repo_files_of_def shared_file_def)
  show "is_included (rf_disposition shared_file)" "\<not> rf_locked shared_file"
    by (simp_all add: shared_file_def)
  show "(RepoId ''b'', [''s.repo'']) \<in> set (ri_repo_file_by_section (rx_index shared_context))"
    "''s.repo'' \<in> set [''s.repo'']"
    by (simp_all add: shared_sections)
  show "\<not> section_excluded (excluded_sections_at (rx_active shared_context)) (RepoId ''b'')"
    unfolding shared_excluded section_excluded_def by code_simp
qed

section \<open>Variants\<close>

text \<open>C29. The variants of a configuration file, a drop-in or a quadlet in a projection meet
  their specification against the original snapshot: their contents are the host's and the
  user's, less the discarded ones, without a repetition that was not there; a single variant
  of a path with operations is \<open>Only\<close>; among several, \<open>Selected\<close> stands exactly on the chosen
  content; a path without operations shows the host's variants.
\<close>

theorem variants_projected:
  assumes "legal_env E"
  shows "pool_outcome (snd (replay E X)) path
      (variant_view (config_pool E) cf_variant_selection path (config_files_of (rx_original X)))
      (variant_view (config_pool E) cf_variant_selection path (config_files_of (project_snapshot E X))) \<and>
    pool_outcome (snd (replay E X)) path
      (variant_view (dropin_pool E) di_variant_selection path (drop_ins_of (rx_original X)))
      (variant_view (dropin_pool E) di_variant_selection path (drop_ins_of (project_snapshot E X))) \<and>
    pool_outcome (snd (replay E X)) path
      (variant_view (quadlet_pool E) qu_variant_selection path (quadlets_of (rx_original X)))
      (variant_view (quadlet_pool E) qu_variant_selection path (quadlets_of (project_snapshot E X)))"
proof -
  let ?vs = "snd (replay E X)" and ?snap = "fst (replay E X)"
  note ok = replay_variants_ok [of E X]
  have before: "map config_key (config_files_of (rx_original X)) = map config_key (config_files_of ?snap)"
    "map dropin_key (drop_ins_of (rx_original X)) = map dropin_key (drop_ins_of ?snap)"
    "map quadlet_key (quadlets_of (rx_original X)) = map quadlet_key (quadlets_of ?snap)"
    using replay_text [of E X] by (simp_all add: text_keys_def)
  have after: "map config_key (config_files_of (project_snapshot E X)) =
      map config_key (materialize_pool E (config_pool E) ?vs (affected_paths E ?vs) (config_files_of ?snap))"
    "map dropin_key (drop_ins_of (project_snapshot E X)) =
      map dropin_key (materialize_pool E (dropin_pool E) ?vs (affected_paths E ?vs) (drop_ins_of ?snap))"
    "map quadlet_key (quadlets_of (project_snapshot E X)) =
      map quadlet_key (materialize_pool E (quadlet_pool E) ?vs (affected_paths E ?vs) (quadlets_of ?snap))"
    using project_text [of E X] by (simp_all add: text_keys_def materialize_pools [OF assms])
  have c: "pool_outcome ?vs path
      (variant_view (config_pool E) cf_variant_selection path (config_files_of (rx_original X)))
      (variant_view (config_pool E) cf_variant_selection path (config_files_of (project_snapshot E X)))"
    using config_laws.outcome [OF assms ok refl, where p = path and xs = "config_files_of ?snap"]
    unfolding views_of_keys before after by simp
  have d: "pool_outcome ?vs path
      (variant_view (dropin_pool E) di_variant_selection path (drop_ins_of (rx_original X)))
      (variant_view (dropin_pool E) di_variant_selection path (drop_ins_of (project_snapshot E X)))"
    using dropin_laws.outcome [OF assms ok refl, where p = path and xs = "drop_ins_of ?snap"]
    unfolding views_of_keys before after by simp
  have q: "pool_outcome ?vs path
      (variant_view (quadlet_pool E) qu_variant_selection path (quadlets_of (rx_original X)))
      (variant_view (quadlet_pool E) qu_variant_selection path (quadlets_of (project_snapshot E X)))"
    using quadlet_laws.outcome [OF assms ok refl, where p = path and xs = "quadlets_of ?snap"]
    unfolding views_of_keys before after by simp
  show ?thesis using c d q by blast
qed

definition small_config :: config_file_entry where
  "small_config = \<lparr> cf_path = ''/etc/c'', cf_kind = CfgUnowned, cf_category = CatOther, cf_content = ''h'',
     cf_rpm_va_flags = None, cf_package = None, cf_diff_against_rpm = None, cf_disposition = Actionable True,
     cf_locked = False, cf_variant_selection = Only, cf_aggregate = None, cf_attention_reason = None,
     cf_shadowed_by = None \<rparr>"

definition edit_context :: "timeline_entry list \<Rightarrow> replay_context" where
  "edit_context es = \<lparr> rx_original = snapshot_new\<lparr>snap_config := Some \<lparr> cfg_files = [small_config] \<rparr>\<rparr>,
     rx_index = repo_index_empty, rx_active = es \<rparr>"

abbreviation config_view :: "replay_context \<Rightarrow> (string \<times> variant_selection) list" where
  "config_view X \<equiv> variant_view (config_pool small_env) cf_variant_selection ''/etc/c''
     (config_files_of (project_snapshot small_env X))"

theorem variants_projected_witness:
  "let X = edit_context [OpEntry (EditVariant (ItemConfig ''/etc/c'') ''v'' None)] in
   pool_outcome (snd (replay small_env X)) ''/etc/c'' [(''h'', Only)] (config_view X)"
  using conjunct1 [OF variants_projected [OF small_legal,
      where X = "edit_context [OpEntry (EditVariant (ItemConfig ''/etc/c'') ''v'' None)]" and path = "''/etc/c''"]]
  by (simp add: Let_def edit_context_def variant_view_def config_files_of_def small_config_def config_pool_def
      content_hash_of_def small_env_def)

text \<open>
  A discard does not fall back to another variant: after two edits and the discard of the
  second, two variants remain, neither is \<open>Selected\<close>, and the host's still reads \<open>Only\<close>.
\<close>

lemma discard_leaves_none_selected:
  "config_view (edit_context [OpEntry (EditVariant (ItemConfig ''/etc/c'') ''v'' None),
      OpEntry (EditVariant (ItemConfig ''/etc/c'') ''w'' None),
      OpEntry (DiscardVariant (ItemConfig ''/etc/c'') (ContentHash ''w''))]) =
   [(''h'', Only), (''v'', Alternative)]"
  by code_simp

section \<open>Users\<close>

text \<open>A \<open>Preserve\<close> choice as the last operation gives the user the password hash of the
  original snapshot (or none, when there was none), whatever hashes earlier operations had
  set or removed, and records the choice.
\<close>

theorem preserve_restores_hash:
  assumes "rx_active X = es @ [OpEntry (UserPassword (PasswordPreserve u))]"
    and "List.find (user_named u) (users_of (rx_original X)) \<noteq> None"
  shows "\<exists>v. List.find (user_named u) (users_of (project_snapshot E X)) = Some v \<and>
    json_get ''password_choice'' v = Some (JStr ''preserve'') \<and>
    json_get ''password_hash'' v = map_option JStr (original_hash (rx_original X) u)"
proof -
  obtain snap vs where st: "foldl (replay_op E X) (rx_original X, variant_state_default)
      (active_ops es) = (snap, vs)" by fastforce
  have names: "user_names snap = user_names (rx_original X)"
    using replay_fold_names [of E X "(rx_original X, variant_state_default)" "active_ops es"] by (simp add: st)
  obtain j where j: "List.find (user_named u) (users_of snap) = Some j"
    using find_names [OF names, of u] assms(2) by auto
  then have "user_named u j" by (auto simp: find_Some_iff)
  then obtain kvs where kvs: "j = JObj kvs" using user_named_object by blast
  define f where "f = (\<lambda>x. let u1 = json_insert ''password_choice'' (JStr ''preserve'') x
      in case original_hash (rx_original X) u of
           Some h \<Rightarrow> json_insert ''password_hash'' (JStr h) u1
         | None \<Rightarrow> json_remove ''password_hash'' u1)"
  have same: "user_named u (f x) = user_named u x" for x
    by (simp add: f_def Let_def user_named_insert user_named_remove split: option.split)
  have "users_of (project_snapshot E X) = update_first (user_named u) f (users_of snap)"
    by (simp add: project_users_of replay_snoc [OF assms(1)] st users_on_user f_def)
  then have "List.find (user_named u) (users_of (project_snapshot E X)) = Some (f j)"
    using j by (simp add: find_update_first same)
  moreover have "json_get ''password_choice'' (f j) = Some (JStr ''preserve'')"
    "json_get ''password_hash'' (f j) = map_option JStr (original_hash (rx_original X) u)"
    by (simp_all add: f_def kvs Let_def json_get_insert_other json_get_remove map_of_btree_insert
        del: json_remove.simps split: option.split)
  ultimately show ?thesis by blast
qed

definition user_context :: "timeline_entry list \<Rightarrow> replay_context" where
  "user_context es = \<lparr> rx_original = snapshot_new\<lparr>snap_users_groups := Some
       \<lparr> ug_users = [JObj [(''name'', JStr ''ann''), (''password_hash'', JStr ''old'')]], ug_groups = [],
         ug_sudoers_rules = [], ug_ssh_authorized_keys_refs = [], ug_passwd_entries = [],
         ug_shadow_entries = [], ug_group_entries = [], ug_gshadow_entries = [],
         ug_subuid_entries = [], ug_subgid_entries = [] \<rparr>\<rparr>,
     rx_index = repo_index_empty, rx_active = es \<rparr>"

theorem preserve_restores_hash_witness:
  "\<exists>v. List.find (user_named ''ann'') (users_of (project_snapshot small_env (user_context
      [OpEntry (UserPassword (PasswordNew ''ann'' (Some ''new''))),
       OpEntry (UserPassword (PasswordPreserve ''ann''))]))) = Some v \<and>
    json_get ''password_hash'' v = Some (JStr ''old'')"
proof -
  let ?X = "user_context [OpEntry (UserPassword (PasswordNew ''ann'' (Some ''new''))),
       OpEntry (UserPassword (PasswordPreserve ''ann''))]"
  have "rx_active ?X = [OpEntry (UserPassword (PasswordNew ''ann'' (Some ''new'')))] @
      [OpEntry (UserPassword (PasswordPreserve ''ann''))]"
    by (simp add: user_context_def)
  moreover have "List.find (user_named ''ann'') (users_of (rx_original ?X)) \<noteq> None"
    "original_hash (rx_original ?X) ''ann'' = Some ''old''"
    by (simp_all add: user_context_def users_of_def user_named_def original_hash_def)
  ultimately show ?thesis
    using preserve_restores_hash [of ?X _ "''ann''" small_env] by force
qed

section \<open>Provenance\<close>

text \<open>The provenance of a repository id is decided by the last section of that id, in any
  spelling, over the repo files in their order: a disabled section is \<open>Disabled\<close>, one with a
  source whose keys were all captured is \<open>Verified\<close>, any other is \<open>Incomplete\<close>. Without a
  section an id that a package was recorded for is \<open>Stale\<close>, and any other id, like the empty
  one and \<open>@commandline\<close>, is \<open>Unknown\<close>. The paths listed under an id are those of its
  sections.
\<close>

theorem repo_index_correct:
  "repo_provenance_of (repo_index_build (snap\<lparr>snap_rpm := Some rpm\<rparr>)) i =
     (if repo_id_str i = [] \<or> to_ascii_lowercase (repo_id_str i) = ''@commandline'' then ProvUnknown
      else case has_section i rpm of
        Some s \<Rightarrow> section_provenance (set (map rf_path (rpm_gpg_keys rpm))) s
      | None \<Rightarrow>
          if \<exists>p \<in> set (rpm_packages_added rpm). pe_source_repo p \<noteq> [] \<and>
               repo_id_eq i (RepoId (pe_source_repo p))
          then ProvStale else ProvUnknown) \<and>
   paths_at i (ri_repo_file_by_section (repo_index_build (snap\<lparr>snap_rpm := Some rpm\<rparr>))) =
     map fst (filter (\<lambda>q. repo_id_eq i (rs_id (snd q))) (sections_of (rpm_repo_files rpm)))"
proof -
  let ?idx = "repo_index_build (snap\<lparr>snap_rpm := Some rpm\<rparr>)"
  have paths: "ri_repo_file_by_section ?idx = il_files (index_sections (sections_of (rpm_repo_files rpm)))"
    by (simp add: repo_index_build_def Let_def index_files_sections)
  show ?thesis
    using repo_index_provenance_map [of "snap\<lparr>snap_rpm := Some rpm\<rparr>" rpm i]
      index_paths [of "sections_of (rpm_repo_files rpm)" i]
    unfolding paths
    by (auto simp: repo_provenance_of_def paths_at_def listed_def split: option.split)
qed

section \<open>Divergences from the documentation\<close>

text \<open>
  A batch is recorded without validation: an operation on an unknown package passes, and
  after it the projection is what it was.
\<close>

lemma batch_records_anything:
  "apply_batch small_env [SetInclude (ItemPackage ''none'' ''none'') False] small_start =
     (Inr (), record_entry small_env
        (BatchEntry [SetInclude (ItemPackage ''none'' ''none'') False]) small_start)"
  by (simp add: apply_batch_def)

text \<open>
  The latest operation on a group is looked for entry by entry, but inside a batch the first
  one is taken: after a batch that includes and then excludes a group, the view reads the
  group as included.
\<close>

lemma batch_first_group_op:
  "last_group_entry ''g'' (rev (enumerate 0 [BatchEntry
      [SetInclude (ItemGroup ''g'') True, SetInclude (ItemGroup ''g'') False]])) = Some (0, True)"
  by simp

text \<open>The clamp does not reach unmanaged files, which have a lock of their own, nor GPG keys.\<close>

lemma clamp_skips_unmanaged:
  "snap_unmanaged_files (clamp_locked_items snap) = snap_unmanaged_files snap"
  "rpm_gpg_keys (clamp_rpm r) = rpm_gpg_keys r"
  by (simp_all add: clamp_locked_items_def clamp_rpm_def)

end
