(* ===== verification/Triage.thy ===== *)
theory Triage
  imports RefineTypes
begin

text \<open>
  The triage vocabulary of a refine session (\<open>crates/refine/src/types.rs\<close>) and the
  aggregate-aware triage of an item (\<open>crates/refine/src/aggregate/classify.rs\<close>).
\<close>

section \<open>Buckets, reasons, tags\<close>

datatype triage_bucket = BucketBaseline | BucketSite | BucketInvestigate

datatype aggregate_bucket = AggInvestigate | AggDivergent | AggPartial | AggUniversal

text \<open>The \<open>u32\<close> fields of \<open>Prevalence\<close>; every value written to them is a cast.\<close>

record prevalence =
  pv_count :: nat
  pv_total :: nat

datatype triage =
  SingleHost triage_bucket
| AggregateTriage aggregate_bucket prevalence

datatype triage_annotation =
  SensitivePath
| FirstBootProvisioned
| RequiresProjectedPackage string
| RuntimeOnlyObservation

datatype triage_reason =
  PackageBaselineMatch
| PackageUserAdded
| PackageVersionChanged
| PackageProvenanceUnavailable
| PackageLocalInstall
| PackageNoRepoSource
| PackageConfigCaptured
| ConfigDefault
| ConfigBaselineMatch
| ConfigModified
| ConfigUnowned
| ConfigOrphaned
| ServiceBaselineMatch
| ServiceNonDefaultState
| ServiceUnknownOrigin
| ServiceDropInPresent
| QuadletUserDeployed
| QuadletPresentInBaseImage
| FlatpakProvisionedOnFirstBoot
| FlatpakIncompleteProvenance
| SysctlBaselineMatch
| SysctlFileBackedOverride
| SysctlNoBaseline
| TunedBaselineMatch
| TunedNonDefaultProfile
| TunedCustomProfile
| TunedUnusualState
| SensitivePathReason
| PackagePlatformPlumbing
| PackageInstallerDefault
| PackageInstallerPromotedService
| PackageInstallerPromotedConfig
| PackageInstallerAmbiguous
| PackageInstallerEvidenceUnavailable
| CustomReason string

record triage_tag =
  tt_triage :: triage
  tt_primary_reason :: triage_reason
  tt_annotations :: "triage_annotation list"

fun agg_single :: "aggregate_bucket \<Rightarrow> triage_bucket" where
  "agg_single AggInvestigate = BucketInvestigate"
| "agg_single AggDivergent = BucketInvestigate"
| "agg_single AggPartial = BucketSite"
| "agg_single AggUniversal = BucketBaseline"

definition tag_bucket :: "triage_tag \<Rightarrow> triage_bucket" where
  "tag_bucket t = (case tt_triage t of
     SingleHost b \<Rightarrow> b
   | AggregateTriage b _ \<Rightarrow> agg_single b)"

abbreviation single_tag :: "triage_bucket \<Rightarrow> triage_reason \<Rightarrow> triage_annotation list \<Rightarrow> triage_tag" where
  "single_tag b r as \<equiv> \<lparr> tt_triage = SingleHost b, tt_primary_reason = r, tt_annotations = as \<rparr>"

section \<open>Classified items\<close>

record refined_package =
  rp_entry :: package_entry
  rp_triage :: triage_tag

record refined_config =
  rcf_entry :: config_file_entry
  rcf_triage :: triage_tag

record refined_service_state =
  rss_entry :: service_state_change
  rss_triage :: triage_tag

record refined_drop_in =
  rdi_entry :: systemd_drop_in
  rdi_triage :: triage_tag

record refined_quadlet =
  rqu_entry :: quadlet_unit
  rqu_triage :: triage_tag

record refined_flatpak =
  rfl_entry :: flatpak_app
  rfl_triage :: triage_tag

record refined_sysctl =
  rsy_entry :: sysctl_override
  rsy_triage :: triage_tag

record refined_tuned_selection =
  rtu_active_profile :: string
  rtu_custom_profiles :: "string list"
  rtu_triage :: triage_tag
  rtu_include :: bool

section \<open>The mode of a session\<close>

text \<open>
  The zones are a \<open>HashMap<ItemId, PrevalenceZone>\<close> that is only looked up, so a map.
\<close>

record aggregate_context =
  ac_aggregate_meta :: aggregate_snapshot_meta
  ac_zones :: "item_id \<rightharpoonup> prevalence_zone"
  ac_total_hosts :: nat
  ac_zones_active :: bool
  ac_repo_conflicts :: "string \<rightharpoonup> repo_source_entry list"

datatype refine_mode = SingleHostMode | AggregateMode aggregate_context

section \<open>Aggregate triage\<close>

definition aggregate_bucket_of ::
  "prevalence_zone option \<Rightarrow> triage_bucket \<Rightarrow> nat \<Rightarrow> nat \<Rightarrow> aggregate_bucket" where
  "aggregate_bucket_of zone single_host_bucket prevalence_count prevalence_total =
     (case zone of
        Some Divergent \<Rightarrow>
          if prevalence_count \<ge> prevalence_total then AggInvestigate else AggDivergent
      | Some NearConsensus \<Rightarrow> AggPartial
      | Some Consensus \<Rightarrow> AggUniversal
      | None \<Rightarrow>
          (case single_host_bucket of
             BucketInvestigate \<Rightarrow> AggInvestigate
           | BucketSite \<Rightarrow> AggDivergent
           | BucketBaseline \<Rightarrow> AggUniversal))"

definition classify_aggregate_bucket ::
  "aggregate_context \<Rightarrow> item_id \<Rightarrow> triage_bucket \<Rightarrow> triage_reason \<Rightarrow> nat \<Rightarrow> nat \<Rightarrow> triage_tag" where
  "classify_aggregate_bucket ctx i single_host_bucket single_host_reason prevalence_count prevalence_total =
     \<lparr> tt_triage = AggregateTriage
         (aggregate_bucket_of (ac_zones ctx i) single_host_bucket prevalence_count prevalence_total)
         \<lparr> pv_count = prevalence_count, pv_total = prevalence_total \<rparr>,
       tt_primary_reason = single_host_reason,
       tt_annotations = [] \<rparr>"

lemma tag_bucket_single [simp]: "tag_bucket (single_tag b r as) = b"
  by (simp add: tag_bucket_def)

end
