(* ===== verification/Classify.thy ===== *)
theory Classify
  imports Triage Projection
begin

text \<open>
  The classification of a snapshot's items into triage buckets
  (\<open>crates/refine/src/classify.rs\<close>): packages with the anaconda post-pass, configuration
  files, services, containers, sysctls and the tuned profile, and the synthesis of service
  entries for orphan full shadows.
\<close>

section \<open>Paths and names\<close>

definition SENSITIVE_PATHS :: "string list" where
  "SENSITIVE_PATHS = [''/etc/shadow'', ''/etc/gshadow'', ''/etc/ssh/'', ''/etc/pki/'', ''/etc/ssl/'',
     ''/etc/security/'']"

definition is_sensitive_path :: "string \<Rightarrow> bool" where
  "is_sensitive_path path = list_ex (starts_with path) SENSITIVE_PATHS"

definition OS_DEFAULT_SENSITIVE_PREFIXES :: "string list" where
  "OS_DEFAULT_SENSITIVE_PREFIXES = [''/etc/pki/ca-trust/'', ''/etc/pki/rpm-gpg/'', ''/etc/pki/fwupd/'',
     ''/etc/pki/fwupd-metadata/'', ''/etc/pki/nssdb/'', ''/etc/ssl/'', ''/etc/security/'',
     ''/etc/ssh/ssh_config.d/'', ''/etc/ssh/sshd_config.d/'']"

definition OS_DEFAULT_SENSITIVE_EXACT :: "string list" where
  "OS_DEFAULT_SENSITIVE_EXACT = [''/etc/ssh/moduli'', ''/etc/ssh/ssh_config'']"

definition is_os_default_sensitive :: "string \<Rightarrow> bool" where
  "is_os_default_sensitive path \<longleftrightarrow>
     list_ex (starts_with path) OS_DEFAULT_SENSITIVE_PREFIXES \<or> path \<in> set OS_DEFAULT_SENSITIVE_EXACT"

definition PLATFORM_PLUMBING_PREFIXES :: "string list" where
  "PLATFORM_PLUMBING_PREFIXES = [''grub2-'', ''grubby'', ''shim-'', ''efibootmgr'']"

definition INSTALLER_NOISE_PATTERNS :: "string list" where
  "INSTALLER_NOISE_PATTERNS = [''-fonts'', ''-fonts-common'', ''fonts-filesystem'', ''default-fonts-'',
     ''lshw'', ''lsscsi'', ''libsysfs'', ''initscripts-'', ''prefixdevname'', ''rootfiles'', ''kernel-tools'',
     ''dracut-config-rescue'', ''mtools'', ''biosdevname'']"

definition CONFIG_ONLY_PROMOTION :: "string list" where
  "CONFIG_ONLY_PROMOTION = [''sudo'', ''logrotate'', ''chrony'', ''sssd'', ''pam'']"

definition is_platform_plumbing :: "string \<Rightarrow> bool" where
  "is_platform_plumbing name =
     list_ex (\<lambda>p. starts_with name p \<or> name = p) PLATFORM_PLUMBING_PREFIXES"

definition is_installer_noise :: "string \<Rightarrow> bool" where
  "is_installer_noise name =
     list_ex (\<lambda>pattern.
         if starts_with pattern ''-'' then ends_with name pattern
         else if ends_with pattern ''-'' then starts_with name pattern
         else name = pattern \<or> starts_with name (pattern @ ''-'')) INSTALLER_NOISE_PATTERNS"

definition is_config_only_promotable :: "string \<Rightarrow> bool" where
  "is_config_only_promotable name \<longleftrightarrow> name \<in> set CONFIG_ONLY_PROMOTION"

section \<open>Evidence for the anaconda post-pass\<close>

definition file_ownership_of :: "inspection_snapshot \<Rightarrow> file_ownership_entry list" where
  "file_ownership_of snap = (case snap_rpm snap of None \<Rightarrow> [] | Some r \<Rightarrow> rpm_file_ownership r)"

definition user_enabled_owner :: "service_state_change \<Rightarrow> string option" where
  "user_enabled_owner svc =
     (if ssc_current_state svc = UnitEnabled \<and> ssc_default_state svc \<noteq> Some PresetEnable
      then ssc_owning_package svc else None)"

definition build_user_enabled_service_set :: "inspection_snapshot \<Rightarrow> string set" where
  "build_user_enabled_service_set snap = set (List.map_filter user_enabled_owner (state_changes_of snap))"

definition build_modified_config_set :: "inspection_snapshot \<Rightarrow> string set" where
  "build_modified_config_set snap =
     set (map fo_package_name (filter
       (\<lambda>own. \<exists>f \<in> set (config_files_of snap).
          cf_kind f = CfgRpmOwnedModified \<and> cf_path f \<in> set (fo_paths own)) (file_ownership_of snap)))"

record anaconda_evidence =
  ae_user_enabled :: "string set"
  ae_modified_config :: "string set"
  ae_has_services :: bool
  ae_has_config :: bool
  ae_degraded :: bool

definition anaconda_evidence_of :: "inspection_snapshot \<Rightarrow> anaconda_evidence" where
  "anaconda_evidence_of snap =
     (let has_config = (snap_config snap \<noteq> None \<and> file_ownership_of snap \<noteq> []);
          unattributed = (\<exists>s \<in> set (state_changes_of snap). ssc_owning_package s = None);
          owned_paths = set (concat (map fo_paths (file_ownership_of snap)));
          orphaned = (has_config \<and> (\<exists>f \<in> set (config_files_of snap).
             cf_kind f = CfgRpmOwnedModified \<and> cf_path f \<notin> owned_paths))
      in \<lparr> ae_user_enabled = build_user_enabled_service_set snap,
           ae_modified_config = build_modified_config_set snap,
           ae_has_services = (snap_services snap \<noteq> None),
           ae_has_config = has_config,
           ae_degraded = (unattributed \<or> orphaned) \<rparr>)"

section \<open>The anaconda post-pass\<close>

definition retag :: "triage_bucket \<Rightarrow> triage_reason \<Rightarrow> bool \<Rightarrow> refined_package \<Rightarrow> refined_package" where
  "retag b r include p = p\<lparr>
     rp_entry := (rp_entry p)\<lparr>pe_disposition := fk_from_bool include\<rparr>,
     rp_triage := single_tag b r []\<rparr>"

definition lock_package :: "refined_package \<Rightarrow> refined_package" where
  "lock_package p = p\<lparr>rp_entry := (rp_entry p)\<lparr>pe_locked := True\<rparr>\<rparr>"

definition anaconda_step :: "anaconda_evidence \<Rightarrow> refined_package \<Rightarrow> refined_package" where
  "anaconda_step ev p =
     (let name = pe_name (rp_entry p) in
      if pe_source_repo (rp_entry p) \<noteq> ''anaconda'' then p
      else if is_platform_plumbing name
      then lock_package (retag BucketBaseline PackagePlatformPlumbing False p)
      else if tt_primary_reason (rp_triage p) \<notin> {PackageUserAdded, PackageProvenanceUnavailable} then p
      else if \<not> ae_has_services ev \<or> \<not> ae_has_config ev then p
      else if name \<in> ae_user_enabled ev \<and> name \<in> ae_modified_config ev
      then retag BucketSite PackageInstallerPromotedService True p
      else if is_config_only_promotable name \<and> name \<in> ae_modified_config ev
      then retag BucketSite PackageInstallerPromotedConfig True p
      else if is_installer_noise name \<and> \<not> ae_degraded ev
      then retag BucketBaseline PackageInstallerDefault False p
      else retag BucketInvestigate
        (if ae_degraded ev \<and> is_installer_noise name then PackageInstallerEvidenceUnavailable
         else PackageInstallerAmbiguous) True p)"

definition apply_anaconda_classification ::
  "inspection_snapshot \<Rightarrow> refined_package list \<Rightarrow> refined_package list" where
  "apply_anaconda_classification snap packages = map (anaconda_step (anaconda_evidence_of snap)) packages"

section \<open>Packages\<close>

abbreviation ignore_case_eq :: "string \<Rightarrow> string \<Rightarrow> bool" where
  "ignore_case_eq a b \<equiv> to_ascii_lowercase a = to_ascii_lowercase b"

definition pkg_id :: "package_entry \<Rightarrow> string" where
  "pkg_id e = pe_name e @ ''.'' @ pe_arch e"

definition is_downgraded :: "version_change list \<Rightarrow> package_entry \<Rightarrow> bool" where
  "is_downgraded version_changes entry \<longleftrightarrow>
     (\<exists>vc \<in> set version_changes. vc_name vc = pe_name entry \<and> vc_arch vc = pe_arch entry
        \<and> vc_direction vc = Downgrade)"

text \<open>The names of the baseline are the keys of its packages.\<close>

definition classify_package ::
  "package_entry \<Rightarrow> string set option \<Rightarrow> version_change list \<Rightarrow> triage_tag" where
  "classify_package entry baseline version_changes =
     (if pe_state entry = PkgLocalInstall then single_tag BucketInvestigate PackageLocalInstall []
      else if pe_state entry = PkgNoRepo then single_tag BucketInvestigate PackageNoRepoSource []
      else if pe_source_repo entry = [] \<or> ignore_case_eq (pe_source_repo entry) ''@commandline''
      then single_tag BucketInvestigate PackageNoRepoSource []
      else if pe_state entry = PkgModified
      then (case baseline of
          Some _ \<Rightarrow>
            if is_downgraded version_changes entry
            then single_tag BucketInvestigate PackageVersionChanged []
            else single_tag BucketSite PackageVersionChanged []
        | None \<Rightarrow> single_tag BucketInvestigate PackageProvenanceUnavailable [])
      else (case baseline of
          Some names \<Rightarrow>
            if pkg_id entry \<in> names then single_tag BucketBaseline PackageBaselineMatch []
            else single_tag BucketSite PackageUserAdded []
        | None \<Rightarrow> single_tag BucketInvestigate PackageProvenanceUnavailable []))"

text \<open>\<open>collect::<HashMap<_, _>>()\<close> keeps the last entry of a package name.\<close>

definition ownership_map :: "file_ownership_entry list \<Rightarrow> (string \<rightharpoonup> string list)" where
  "ownership_map os = map_of (rev (map (\<lambda>e. (fo_package_name e, fo_paths e)) os))"

definition config_captured :: "(string \<rightharpoonup> string list) \<Rightarrow> string set \<Rightarrow> package_entry \<Rightarrow> bool" where
  "config_captured owned config_paths entry \<longleftrightarrow>
     ignore_case_eq (pe_source_repo entry) ''@commandline'' \<and>
     (case owned (pe_name entry) of
        None \<Rightarrow> False
      | Some owned_paths \<Rightarrow> owned_paths \<noteq> [] \<and>
          list_all (\<lambda>p. starts_with p ''/etc/'' \<and> p \<in> config_paths) owned_paths)"

definition set_of_option :: "string list option \<Rightarrow> string set" where
  "set_of_option v = (case v of None \<Rightarrow> {} | Some xs \<Rightarrow> set xs)"

definition classify_entry ::
  "inspection_snapshot \<Rightarrow> rpm_section \<Rightarrow> package_entry \<Rightarrow> refined_package" where
  "classify_entry snap rpm entry =
     (if pkg_id entry \<in> set_of_option (rpm_baseline_suppressed rpm)
      then \<lparr> rp_entry = entry, rp_triage = single_tag BucketBaseline PackageBaselineMatch [] \<rparr>
      else
        let tag = classify_package entry (map_option (\<lambda>b. dom (bd_packages b)) (snap_baseline snap))
                    (rpm_version_changes rpm);
            tag' = (if is_sensitive_path (pe_name entry)
                    then tag\<lparr>tt_annotations := tt_annotations tag @ [SensitivePath]\<rparr> else tag)
        in if config_captured (ownership_map (rpm_file_ownership rpm))
                (set (map cf_path (config_files_of snap))) entry
           then \<lparr> rp_entry = entry\<lparr>pe_disposition := fk_excluded\<rparr>,
                  rp_triage = single_tag BucketSite PackageConfigCaptured (tt_annotations tag') \<rparr>
           else \<lparr> rp_entry = entry, rp_triage = tag' \<rparr>)"

definition classify_packages :: "inspection_snapshot \<Rightarrow> refined_package list" where
  "classify_packages snap =
     (case snap_rpm snap of
        None \<Rightarrow> []
      | Some rpm \<Rightarrow>
          apply_anaconda_classification snap (map (classify_entry snap rpm) (rpm_packages_added rpm)))"

section \<open>Configuration files\<close>

fun config_kind_triage :: "config_file_kind \<Rightarrow> triage_bucket \<times> triage_reason" where
  "config_kind_triage CfgRpmOwnedDefault = (BucketBaseline, ConfigDefault)"
| "config_kind_triage CfgBaselineMatch = (BucketBaseline, ConfigBaselineMatch)"
| "config_kind_triage CfgUnowned = (BucketSite, ConfigUnowned)"
| "config_kind_triage CfgRpmOwnedModified = (BucketSite, ConfigModified)"
| "config_kind_triage CfgOrphaned = (BucketSite, ConfigOrphaned)"

definition classify_config :: "config_file_entry \<Rightarrow> refined_config" where
  "classify_config entry =
     (let (bucket, reason) = config_kind_triage (cf_kind entry) in
      \<lparr> rcf_entry = entry,
        rcf_triage = single_tag bucket reason
          (if is_sensitive_path (cf_path entry) \<and> \<not> is_os_default_sensitive (cf_path entry)
           then [SensitivePath] else []) \<rparr>)"

fun unresolved_hints_of :: "redaction_state option \<Rightarrow> redaction_hint list" where
  "unresolved_hints_of (Some (PartiallyRedacted _ _ _ hints)) = hints"
| "unresolved_hints_of (Some (SensitiveRetained _ _ _ hints)) = hints"
| "unresolved_hints_of _ = []"

definition surface_hint :: "refined_config list \<Rightarrow> redaction_hint \<Rightarrow> refined_config list" where
  "surface_hint configs hint =
     update_first (\<lambda>c. cf_path (rcf_entry c) = rh_path hint)
       (\<lambda>c. c\<lparr>rcf_triage := single_tag BucketInvestigate
            (CustomReason ''unresolved redaction hint'') (tt_annotations (rcf_triage c))\<rparr>) configs"

definition classify_configs :: "inspection_snapshot \<Rightarrow> refined_config list" where
  "classify_configs snap =
     foldl surface_hint (map classify_config (config_files_of snap))
       (unresolved_hints_of (snap_redaction_state snap))"

section \<open>Services\<close>

definition shadow_state :: "service_section \<Rightarrow> string \<Rightarrow> service_unit_state option" where
  "shadow_state s u =
     (if u \<in> set (svc_disabled_units s) then Some UnitDisabled
      else if u \<in> set (svc_enabled_units s) then Some UnitEnabled
      else None)"

definition synthesize_shadow :: "service_section \<Rightarrow> systemd_drop_in \<Rightarrow> service_state_change option" where
  "synthesize_shadow s d =
     (if di_shadow_type d = Some FullShadow \<and> di_unit d \<notin> set (map ssc_unit (svc_state_changes s))
      then map_option (\<lambda>state. \<lparr> ssc_unit = di_unit d, ssc_current_state = state, ssc_default_state = None,
          ssc_disposition = fk_included, ssc_locked = False, ssc_owning_package = None,
          ssc_aggregate = None, ssc_attention_reason = None, ssc_shadow_type = Some FullShadow,
          ssc_shadow_rationale = Some ''base image updates to this unit will be silently ignored'' \<rparr>)
        (shadow_state s (di_unit d))
      else None)"

definition synthesize_orphan_shadows :: "service_section \<Rightarrow> service_section" where
  "synthesize_orphan_shadows s = s\<lparr>
     svc_state_changes := svc_state_changes s @ List.map_filter (synthesize_shadow s) (svc_drop_ins s)\<rparr>"

definition classify_service :: "service_state_change \<Rightarrow> triage_tag" where
  "classify_service change =
     (if ssc_owning_package change = None then single_tag BucketInvestigate ServiceUnknownOrigin []
      else single_tag BucketSite ServiceNonDefaultState [])"

definition classify_dropin :: "systemd_drop_in \<Rightarrow> triage_tag" where
  "classify_dropin dropin = single_tag BucketSite ServiceDropInPresent []"

definition classify_services ::
  "inspection_snapshot \<Rightarrow> refined_service_state list \<times> refined_drop_in list" where
  "classify_services snap =
     (case snap_services snap of
        None \<Rightarrow> ([], [])
      | Some s \<Rightarrow>
          (map (\<lambda>c. \<lparr> rss_entry = c, rss_triage = classify_service c \<rparr>) (svc_state_changes s),
           map (\<lambda>d. \<lparr> rdi_entry = d, rdi_triage = classify_dropin d \<rparr>) (svc_drop_ins s)))"

section \<open>Containers\<close>

definition classify_flatpak :: "flatpak_app \<Rightarrow> refined_flatpak" where
  "classify_flatpak app =
     (if fa_remote app = [] \<or> fa_branch app = []
      then \<lparr> rfl_entry = app, rfl_triage = single_tag BucketInvestigate FlatpakIncompleteProvenance [] \<rparr>
      else \<lparr> rfl_entry = app,
             rfl_triage = single_tag BucketSite FlatpakProvisionedOnFirstBoot [FirstBootProvisioned] \<rparr>)"

definition classify_containers ::
  "inspection_snapshot \<Rightarrow> refined_quadlet list \<times> refined_flatpak list" where
  "classify_containers snap =
     (case snap_containers snap of
        None \<Rightarrow> ([], [])
      | Some c \<Rightarrow>
          (map (\<lambda>q. \<lparr> rqu_entry = q, rqu_triage = single_tag BucketSite QuadletUserDeployed [] \<rparr>)
             (ctr_quadlet_units c),
           map classify_flatpak (ctr_flatpak_apps c)))"

section \<open>Kernel parameters and the tuned profile\<close>

definition SYSCTL_DENY_LIST :: "string list" where
  "SYSCTL_DENY_LIST = [''vm.drop_caches'', ''vm.compact_memory'', ''kernel.sysrq'']"

definition is_file_backed :: "string \<Rightarrow> bool" where
  "is_file_backed source \<longleftrightarrow> starts_with source ''/etc/sysctl.d/'' \<or> source = ''/etc/sysctl.conf''"

definition classify_single_sysctl :: "sysctl_override \<Rightarrow> triage_tag" where
  "classify_single_sysctl s =
     (if is_file_backed (so_source s) then single_tag BucketSite SysctlFileBackedOverride []
      else single_tag BucketSite SysctlNoBaseline [RuntimeOnlyObservation])"

definition classify_sysctls :: "inspection_snapshot \<Rightarrow> refined_sysctl list" where
  "classify_sysctls snap =
     (case snap_kernel_boot snap of
        None \<Rightarrow> []
      | Some kb \<Rightarrow>
          map (\<lambda>s. \<lparr> rsy_entry = s, rsy_triage = classify_single_sysctl s \<rparr>)
            (filter (\<lambda>s. so_key s \<notin> set SYSCTL_DENY_LIST) (kb_sysctl_overrides kb)))"

definition classify_tuned :: "inspection_snapshot \<Rightarrow> refined_tuned_selection list" where
  "classify_tuned snap =
     (case snap_kernel_boot snap of
        None \<Rightarrow> []
      | Some kb \<Rightarrow>
          let active = kb_tuned_active kb in
          if active = [] then []
          else
            let custom_paths = map cf_path (filter (\<lambda>f. cf_category f = CatTuned) (config_files_of snap));
                installed = (\<exists>p \<in> set (packages_of snap). pe_name p = ''tuned'');
                tag =
                  (if \<not> installed
                   then single_tag BucketInvestigate TunedUnusualState [RequiresProjectedPackage ''tuned'']
                   else if custom_paths \<noteq> [] then single_tag BucketSite TunedCustomProfile []
                   else single_tag BucketSite TunedNonDefaultProfile [])
            in [\<lparr> rtu_active_profile = active, rtu_custom_profiles = custom_paths, rtu_triage = tag,
                  rtu_include = is_included (kb_tuned_disposition kb) \<rparr>])"

section \<open>What classification keeps of a package\<close>

lemma anaconda_step_entry:
  "pe_name (rp_entry (anaconda_step ev p)) = pe_name (rp_entry p)"
  "pe_arch (rp_entry (anaconda_step ev p)) = pe_arch (rp_entry p)"
  "pe_locked (rp_entry p) \<Longrightarrow> pe_locked (rp_entry (anaconda_step ev p))"
  by (simp_all add: anaconda_step_def Let_def lock_package_def retag_def)

lemma classify_entry_fields:
  "pe_name (rp_entry (classify_entry snap rpm e)) = pe_name e"
  "pe_arch (rp_entry (classify_entry snap rpm e)) = pe_arch e"
  "pe_source_repo (rp_entry (classify_entry snap rpm e)) = pe_source_repo e"
  "pe_locked (rp_entry (classify_entry snap rpm e)) = pe_locked e"
  by (simp_all add: classify_entry_def Let_def)

text \<open>The classification of one package of a snapshot with a package section.\<close>

definition classified :: "inspection_snapshot \<Rightarrow> rpm_section \<Rightarrow> package_entry \<Rightarrow> refined_package" where
  "classified snap rpm e = anaconda_step (anaconda_evidence_of snap) (classify_entry snap rpm e)"

lemma classify_packages_map:
  "snap_rpm snap = Some rpm \<Longrightarrow> classify_packages snap = map (classified snap rpm) (rpm_packages_added rpm)"
  by (simp add: classify_packages_def apply_anaconda_classification_def classified_def)

lemma classified_fields [simp]:
  "pe_name (rp_entry (classified snap rpm e)) = pe_name e"
  "pe_arch (rp_entry (classified snap rpm e)) = pe_arch e"
  by (simp_all add: classified_def anaconda_step_entry classify_entry_fields)

lemma length_classify_configs [simp]: "length (classify_configs snap) = length (config_files_of snap)"
proof -
  have "length (foldl surface_hint cs hs) = length cs" for cs hs
    by (induction hs arbitrary: cs) (simp_all add: surface_hint_def)
  then show ?thesis by (simp add: classify_configs_def)
qed

end
