(* ===== verification/Normalize.thy ===== *)
theory Normalize
  imports Classify
begin

text \<open>
  The defaults a snapshot gets before a session starts (\<open>crates/refine/src/normalize.rs\<close>):
  the presence-aware patch of the raw JSON, the locks on host state and incompatible
  services, and the include defaults of packages, configuration files, repository files and
  language environments. Parsing and printing of JSON (\<open>serde_json\<close>) are parameters.
\<close>

section \<open>The patch of the raw JSON\<close>

text \<open>\<open>if let Some(v) = value.get_mut(k) { f(v) }\<close>\<close>

fun json_update :: "string \<Rightarrow> (json \<Rightarrow> json) \<Rightarrow> json \<Rightarrow> json" where
  "json_update k f (JObj kvs) = JObj (map (\<lambda>(k', v). if k' = k then (k', f v) else (k', v)) kvs)"
| "json_update k f j = j"

definition default_disposition :: json where
  "default_disposition = JObj [(''include'', JBool True), (''kind'', JStr ''actionable'')]"

fun patch_entry :: "json \<Rightarrow> json" where
  "patch_entry (JObj kvs) =
     (if map_of kvs ''disposition'' = None
      then json_insert ''disposition'' default_disposition (JObj kvs) else JObj kvs)"
| "patch_entry j = j"

fun patch_entries :: "json \<Rightarrow> json" where
  "patch_entries (JArr entries) = JArr (map patch_entry entries)"
| "patch_entries j = j"

definition patch_array_includes :: "string \<Rightarrow> json \<Rightarrow> json" where
  "patch_array_includes array_key parent = json_update array_key patch_entries parent"

definition patch_missing_includes :: "json \<Rightarrow> json" where
  "patch_missing_includes value =
     json_update ''config'' (patch_array_includes ''files'')
       (json_update ''rpm''
         (\<lambda>rpm. patch_array_includes ''base_image_only'' (patch_array_includes ''packages_added'' rpm)) value)"

section \<open>Locks\<close>

definition INCOMPATIBLE_SERVICES :: "(string \<times> string) list" where
  "INCOMPATIBLE_SERVICES =
     [(''dnf-makecache.service'', ''package-manager service incompatible with immutable /usr''),
      (''dnf-makecache.timer'', ''package-manager timer incompatible with immutable /usr''),
      (''packagekit.service'', ''package-manager service incompatible with immutable /usr''),
      (''packagekit-offline-update.service'', ''package-manager service incompatible with immutable /usr'')]"

definition incompatible_unit :: "string \<Rightarrow> bool" where
  "incompatible_unit u \<longleftrightarrow> u \<in> set (map fst INCOMPATIBLE_SERVICES)"

definition lock_incompatible :: "service_section \<Rightarrow> service_section" where
  "lock_incompatible s = s\<lparr>
     svc_state_changes := update_all (\<lambda>c. incompatible_unit (ssc_unit c))
       (\<lambda>c. c\<lparr>ssc_disposition := fk_excluded, ssc_locked := True,
              ssc_attention_reason := Some ''service-image-mode-incompatible''\<rparr>) (svc_state_changes s),
     svc_drop_ins := update_all (\<lambda>d. incompatible_unit (di_unit d))
       (\<lambda>d. d\<lparr>di_disposition := fk_excluded, di_locked := True,
              di_attention_reason := Some ''parent service image-mode incompatible''\<rparr>) (svc_drop_ins s),
     svc_enabled_units := filter (\<lambda>u. \<not> incompatible_unit u) (svc_enabled_units s)\<rparr>"

definition normalize_incompatible_services :: "inspection_snapshot \<Rightarrow> inspection_snapshot" where
  "normalize_incompatible_services snap = on_services lock_incompatible snap"

text \<open>The dash in the reasons is U+2014, three bytes in UTF-8.\<close>

definition em_dash :: string where
  "em_dash = [CHR 0xE2, CHR 0x80, CHR 0x94]"

definition MERGE_HOSTILE_PATHS :: "string list" where
  "MERGE_HOSTILE_PATHS = [''/etc/fstab'', ''/etc/crypttab'']"

definition lock_fstab :: "storage_section \<Rightarrow> storage_section" where
  "lock_fstab s = s\<lparr>sto_fstab_entries := map
     (\<lambda>e. e\<lparr>fe_disposition := fk_excluded, fe_locked := True,
           fe_attention_reason := Some (''host state '' @ em_dash @ '' not image-portable'')\<rparr>)
     (sto_fstab_entries s)\<rparr>"

definition lock_merge_hostile :: "config_section \<Rightarrow> config_section" where
  "lock_merge_hostile c = c\<lparr>cfg_files := update_all (\<lambda>f. cf_path f \<in> set MERGE_HOSTILE_PATHS)
     (\<lambda>f. f\<lparr>cf_disposition := fk_excluded, cf_locked := True,
           cf_attention_reason :=
             Some (''merge-hostile '' @ em_dash @ '' fights bootc /etc 3-way merge'')\<rparr>) (cfg_files c)\<rparr>"

definition normalize_merge_hostile_configs :: "inspection_snapshot \<Rightarrow> inspection_snapshot" where
  "normalize_merge_hostile_configs snap =
     on_config lock_merge_hostile (snap\<lparr>snap_storage := map_option lock_fstab (snap_storage snap)\<rparr>)"

section \<open>Loading\<close>

fun snapshot_error_text :: "snapshot_error \<Rightarrow> string" where
  "snapshot_error_text (UnsupportedVersion v) =
     ''unsupported schema version: '' @ show_usize v @ '' (accepted: '' @ show_usize SCHEMA_VERSION @ '')''"
| "snapshot_error_text (JsonError e) = ''json error: '' @ e"

definition load_for_refine ::
  "(string \<Rightarrow> string + json) \<Rightarrow> (json \<Rightarrow> string + string) \<Rightarrow> (string \<Rightarrow> string + inspection_snapshot) \<Rightarrow>
   string \<Rightarrow> inspection_snapshot refine_result" where
  "load_for_refine parse to_str from_str raw_json =
     (case parse raw_json of
        Inl e \<Rightarrow> Inl (SnapshotLoad e)
      | Inr value \<Rightarrow>
          (case to_str (patch_missing_includes value) of
             Inl e \<Rightarrow> Inl (SnapshotLoad e)
           | Inr patched_json \<Rightarrow>
               (case snapshot_load from_str patched_json of
                  Inl e \<Rightarrow> Inl (SnapshotLoad (snapshot_error_text e))
                | Inr snap \<Rightarrow>
                    Inr (normalize_merge_hostile_configs (normalize_incompatible_services snap)))))"

section \<open>Packages\<close>

fun is_anaconda_classified :: "triage_reason \<Rightarrow> bool" where
  "is_anaconda_classified reason \<longleftrightarrow>
     reason \<in> {PackagePlatformPlumbing, PackageInstallerDefault, PackageInstallerPromotedService,
       PackageInstallerPromotedConfig, PackageInstallerAmbiguous, PackageInstallerEvidenceUnavailable}"

fun json_str_list :: "json list \<Rightarrow> string list" where
  "json_str_list [] = []"
| "json_str_list (j # js) = (case json_as_str j of None \<Rightarrow> json_str_list js | Some s \<Rightarrow> s # json_str_list js)"

fun dep_list_names :: "json \<Rightarrow> string list" where
  "dep_list_names (JArr arr) = json_str_list arr"
| "dep_list_names _ = []"

fun collect_dep_tree_names :: "json \<Rightarrow> string set" where
  "collect_dep_tree_names (JObj kvs) =
     {name \<in> set (concat (map (\<lambda>(leaf, deps). dep_list_names deps) kvs)). map_of kvs name = None}"
| "collect_dep_tree_names _ = {}"

definition leaf_set_of :: "rpm_section \<Rightarrow> string set option" where
  "leaf_set_of rpm =
     map_option (\<lambda>lp. set lp - collect_dep_tree_names (rpm_leaf_dep_tree rpm)) (rpm_leaf_packages rpm)"

definition below_full_prevalence :: "aggregate_prevalence option \<Rightarrow> bool" where
  "below_full_prevalence agg = (case agg of None \<Rightarrow> False | Some a \<Rightarrow> ap_count a < ap_total a)"

definition bucket_default :: "string set option \<Rightarrow> triage_bucket \<Rightarrow> package_entry \<Rightarrow> finding_kind" where
  "bucket_default leaf_set bucket p =
     (case bucket of
        BucketBaseline \<Rightarrow> fk_included
      | BucketSite \<Rightarrow>
          fk_from_bool (case leaf_set of None \<Rightarrow> True | Some s \<Rightarrow> pkg_id p \<in> s)
      | BucketInvestigate \<Rightarrow> fk_excluded)"

definition normalize_package :: "string set option \<Rightarrow> refined_package \<Rightarrow> package_entry \<Rightarrow> package_entry" where
  "normalize_package leaf_set refined p =
     (let p1 = (if is_anaconda_classified (tt_primary_reason (rp_triage refined))
                then p\<lparr>pe_disposition := pe_disposition (rp_entry refined),
                       pe_locked := pe_locked (rp_entry refined)\<rparr>
                else p\<lparr>pe_disposition := bucket_default leaf_set (tag_bucket (rp_triage refined)) p\<rparr>);
          p2 = (if below_full_prevalence (pe_aggregate p1) then p1\<lparr>pe_disposition := fk_excluded\<rparr> else p1)
      in if pe_repoless_annotation p2 \<noteq> [] then p2\<lparr>pe_disposition := fk_excluded\<rparr> else p2)"

text \<open>The loop over the classified items, stopped at the end of the section's list.\<close>

fun zip_update :: "('r \<Rightarrow> 'a \<Rightarrow> 'a) \<Rightarrow> 'r list \<Rightarrow> 'a list \<Rightarrow> 'a list" where
  "zip_update f (r # rs) (x # xs) = f r x # zip_update f rs xs"
| "zip_update f _ xs = xs"

definition normalize_package_defaults ::
  "refined_package list \<Rightarrow> inspection_snapshot \<Rightarrow> inspection_snapshot" where
  "normalize_package_defaults packages snap =
     on_rpm (\<lambda>rpm. rpm\<lparr>rpm_packages_added :=
       zip_update (normalize_package (leaf_set_of rpm)) packages (rpm_packages_added rpm)\<rparr>) snap"

section \<open>Configuration and repository files\<close>

definition INSPECTAH_COPR_MARKER :: string where
  "INSPECTAH_COPR_MARKER = ''inspectah''"

definition is_inspectah_repo_file :: "string \<Rightarrow> bool" where
  "is_inspectah_repo_file path \<longleftrightarrow>
     starts_with path ''/etc/yum.repos.d/'' \<and>
     (let filename = last (split_on (\<lambda>c. c = CHR ''/'') path) in
      starts_with filename ''_copr'' \<and> str_contains filename INSPECTAH_COPR_MARKER)"

definition normalize_config :: "refined_config \<Rightarrow> config_file_entry \<Rightarrow> config_file_entry" where
  "normalize_config refined f =
     (if is_inspectah_repo_file (cf_path f)
      then f\<lparr>cf_disposition := fk_excluded, cf_locked := True\<rparr>
      else if \<not> is_actionable (cf_disposition f) then f
      else
        let d = (case tag_bucket (rcf_triage refined) of
                   BucketBaseline \<Rightarrow> fk_excluded
                 | BucketSite \<Rightarrow> fk_from_bool (cf_kind f \<noteq> CfgOrphaned)
                 | BucketInvestigate \<Rightarrow> fk_included)
        in f\<lparr>cf_disposition := if below_full_prevalence (cf_aggregate f) then fk_excluded else d\<rparr>)"

definition normalize_config_defaults ::
  "refined_config list \<Rightarrow> inspection_snapshot \<Rightarrow> inspection_snapshot" where
  "normalize_config_defaults configs snap =
     on_config (\<lambda>c. c\<lparr>cfg_files := zip_update normalize_config configs (cfg_files c)\<rparr>) snap"

definition normalize_inspectah_repo_files :: "inspection_snapshot \<Rightarrow> inspection_snapshot" where
  "normalize_inspectah_repo_files snap =
     on_rpm (\<lambda>rpm. rpm\<lparr>rpm_repo_files := update_all (\<lambda>rf. is_inspectah_repo_file (rf_path rf))
       (\<lambda>rf. rf\<lparr>rf_disposition := fk_excluded\<rparr>) (rpm_repo_files rpm)\<rparr>) snap"

section \<open>Language environments\<close>

definition is_pip_env :: "non_rpm_item \<Rightarrow> bool" where
  "is_pip_env i \<longleftrightarrow> nri_method i = ''python venv'' \<or> nri_method i = ''pip dist-info''"

definition is_npm_env :: "non_rpm_item \<Rightarrow> bool" where
  "is_npm_env i \<longleftrightarrow> nri_method i = ''npm lockfile'' \<or> nri_method i = ''npm manifest''"

definition is_npm_global_env :: "non_rpm_item \<Rightarrow> bool" where
  "is_npm_global_env i \<longleftrightarrow> nri_method i = ''npm global''"

definition is_gem_env :: "non_rpm_item \<Rightarrow> bool" where
  "is_gem_env i \<longleftrightarrow> nri_method i = ''gem lockfile'' \<or> nri_method i = ''gem system''"

definition is_language_env :: "non_rpm_item \<Rightarrow> bool" where
  "is_language_env i \<longleftrightarrow> is_pip_env i \<or> is_npm_env i \<or> is_npm_global_env i \<or> is_gem_env i"

definition normalize_language_env_defaults :: "inspection_snapshot \<Rightarrow> inspection_snapshot" where
  "normalize_language_env_defaults snap =
     on_non_rpm (\<lambda>n. n\<lparr>nrs_items := update_all (\<lambda>i. is_language_env i \<and> nri_confidence i \<noteq> ''high'')
       (\<lambda>i. i\<lparr>nri_disposition := fk_excluded\<rparr>) (nrs_items n)\<rparr>) snap"

section \<open>Facts\<close>

lemma length_zip_update [simp]: "length (zip_update f rs xs) = length xs"
  by (induction f rs xs rule: zip_update.induct) auto

lemma zip_update_map: "zip_update f (map g xs) xs = map (\<lambda>x. f (g x) x) xs"
  by (induction xs) auto

lemma zip_update_nth:
  "length rs = length xs \<Longrightarrow> i < length xs \<Longrightarrow> zip_update f rs xs ! i = f (rs ! i) (xs ! i)"
proof (induction f rs xs arbitrary: i rule: zip_update.induct)
  case (1 f r rs x xs)
  then show ?case by (cases i) auto
qed auto

lemma normalize_package_fields [simp]:
  "pe_name (normalize_package L r p) = pe_name p"
  "pe_arch (normalize_package L r p) = pe_arch p"
  "pe_state (normalize_package L r p) = pe_state p"
  "pe_source_repo (normalize_package L r p) = pe_source_repo p"
  "pe_aggregate (normalize_package L r p) = pe_aggregate p"
  "pe_repoless_annotation (normalize_package L r p) = pe_repoless_annotation p"
  by (simp_all add: normalize_package_def Let_def)

lemma normalize_config_fields [simp]:
  "cf_path (normalize_config r f) = cf_path f"
  "cf_kind (normalize_config r f) = cf_kind f"
  "cf_category (normalize_config r f) = cf_category f"
  "cf_aggregate (normalize_config r f) = cf_aggregate f"
  by (simp_all add: normalize_config_def Let_def)

end
