(* ===== verification/SessionNew.thy ===== *)
theory SessionNew
  imports Session Normalize
begin

text \<open>
  The constructor of a refine session and the parts of its view that carry decisions
  (\<open>crates/refine/src/session.rs\<close>, \<open>RefineSession::new\<close> and \<open>recompute_view\<close>).

  The review state adds to the timeline state what the constructor fixes for good, the mode
  and whether a baseline is available, and the set of viewed ids. The view is a function of
  that state. The Containerfile preview and the verification of staged uploads are not
  modelled.
\<close>

section \<open>The zones of an aggregate\<close>

text \<open>\<open>*sum += count\<close> on \<open>i32\<close>, with the wrap-around of the release build.\<close>

definition i32_add :: "int \<Rightarrow> int \<Rightarrow> int" where
  "i32_add a b = (a + b + 2 ^ 31) mod 2 ^ 32 - 2 ^ 31"

definition config_zone_step ::
  "(string \<rightharpoonup> prevalence_zone) \<Rightarrow> config_file_entry \<Rightarrow> (string \<rightharpoonup> prevalence_zone)" where
  "config_zone_step m e =
     (case cf_aggregate e of
        None \<Rightarrow> m
      | Some p \<Rightarrow> m(cf_path e \<mapsto>
          (case m (cf_path e) of
             None \<Rightarrow> classify_zone p
           | Some current \<Rightarrow> min current (classify_zone p))))"

definition config_zones :: "config_file_entry list \<Rightarrow> (string \<rightharpoonup> prevalence_zone)" where
  "config_zones files = foldl config_zone_step Map.empty files"

definition package_zones :: "package_entry list \<Rightarrow> (string \<times> string \<rightharpoonup> prevalence_zone)" where
  "package_zones ps = foldl (\<lambda>m e. case pe_aggregate e of
      None \<Rightarrow> m
    | Some p \<Rightarrow> m((pe_name e, pe_arch e) \<mapsto> classify_zone p)) Map.empty ps"

definition path_sums :: "(string \<times> aggregate_prevalence option) list \<Rightarrow> (string \<rightharpoonup> int \<times> int)" where
  "path_sums entries = foldl (\<lambda>m (path, agg). case agg of
      None \<Rightarrow> m
    | Some p \<Rightarrow> m(path \<mapsto>
        (case m path of
           None \<Rightarrow> (ap_count p, ap_total p)
         | Some (n, t) \<Rightarrow> (i32_add n (ap_count p), t)))) Map.empty entries"

definition sum_zone :: "int \<times> int \<Rightarrow> prevalence_zone" where
  "sum_zone s = classify_zone \<lparr> ap_count = fst s, ap_total = snd s, ap_hosts = [],
     ap_aggregate_count = None, ap_aggregate_hosts = None \<rparr>"

fun zones_of :: "inspection_snapshot \<Rightarrow> item_id \<Rightarrow> prevalence_zone option" where
  "zones_of snap (ItemConfig path) = config_zones (config_files_of snap) path"
| "zones_of snap (ItemPackage name arch) = package_zones (packages_of snap) (name, arch)"
| "zones_of snap (ItemDropIn path) =
     map_option sum_zone (path_sums (map (\<lambda>d. (di_path d, di_aggregate d)) (drop_ins_of snap)) path)"
| "zones_of snap (ItemQuadlet path) =
     map_option sum_zone (path_sums (map (\<lambda>q. (qu_path q, qu_aggregate q)) (quadlets_of snap)) path)"
| "zones_of snap _ = None"

definition refine_mode_of :: "inspection_snapshot \<Rightarrow> refine_mode" where
  "refine_mode_of snap =
     (case snap_aggregate_meta snap of
        None \<Rightarrow> SingleHostMode
      | Some meta \<Rightarrow> AggregateMode
          \<lparr> ac_aggregate_meta = meta, ac_zones = zones_of snap, ac_total_hosts = am_host_count meta,
            ac_zones_active = (am_host_count meta \<ge> 3), ac_repo_conflicts = snap_rpm_repo_conflicts snap \<rparr>)"

section \<open>The constructor\<close>

definition clear_leaves :: "inspection_snapshot \<Rightarrow> inspection_snapshot" where
  "clear_leaves snap =
     (if snap_aggregate_meta snap \<noteq> None then on_rpm (\<lambda>r. r\<lparr>rpm_leaf_packages := None\<rparr>) snap else snap)"

definition initial_snapshot :: "inspection_snapshot \<Rightarrow> inspection_snapshot" where
  "initial_snapshot snapshot =
     (let snap = clear_leaves snapshot;
          pkgs = classify_packages snap;
          configs = classify_configs snap
      in on_services synthesize_orphan_shadows
           (normalize_language_env_defaults
             (normalize_inspectah_repo_files
               (normalize_config_defaults configs
                 (normalize_package_defaults pkgs snap)))))"

record review_session =
  rv_session :: refine_session
  rv_mode :: refine_mode
  rv_baseline_available :: bool
  rv_viewed :: "string set"

definition baseline_names_present :: "inspection_snapshot \<Rightarrow> bool" where
  "baseline_names_present snap =
     (case snap_rpm snap of None \<Rightarrow> False | Some r \<Rightarrow> rpm_baseline_package_names r \<noteq> None)"

definition session_new :: "env \<Rightarrow> inspection_snapshot \<Rightarrow> review_session" where
  "session_new E snapshot =
     (let original = initial_snapshot snapshot in
      \<lparr> rv_session = session_start E original (repo_index_build snapshot),
        rv_mode = refine_mode_of original,
        rv_baseline_available = baseline_names_present snapshot,
        rv_viewed = {} \<rparr>)"

section \<open>The classified items of the view\<close>

text \<open>The projected include and lock states replace those of the classifier.\<close>

definition restore_projected :: "inspection_snapshot \<Rightarrow> refined_package \<Rightarrow> refined_package" where
  "restore_projected projected p =
     (case List.find (is_package (pe_name (rp_entry p)) (pe_arch (rp_entry p))) (packages_of projected) of
        None \<Rightarrow> p
      | Some e \<Rightarrow> p\<lparr>rp_entry := (rp_entry p)\<lparr>pe_disposition := pe_disposition e, pe_locked := pe_locked e\<rparr>\<rparr>)"

definition u32_count :: "aggregate_prevalence option \<Rightarrow> nat" where
  "u32_count agg = (case agg of None \<Rightarrow> 0 | Some f \<Rightarrow> nat (max 0 (ap_count f)))"

definition u32_total :: "aggregate_context \<Rightarrow> aggregate_prevalence option \<Rightarrow> nat" where
  "u32_total ctx agg =
     (case agg of None \<Rightarrow> as_u32 (ac_total_hosts ctx) | Some f \<Rightarrow> nat (max 0 (ap_total f)))"

definition aggregate_tag ::
  "aggregate_context \<Rightarrow> item_id \<Rightarrow> aggregate_prevalence option \<Rightarrow> triage_tag \<Rightarrow> triage_tag" where
  "aggregate_tag ctx i agg t = t\<lparr>tt_triage := tt_triage
     (classify_aggregate_bucket ctx i (tag_bucket t) (tt_primary_reason t) (u32_count agg) (u32_total ctx agg))\<rparr>"

fun triage_package :: "refine_mode \<Rightarrow> refined_package \<Rightarrow> refined_package" where
  "triage_package SingleHostMode p = p"
| "triage_package (AggregateMode ctx) p = p\<lparr>rp_triage :=
     aggregate_tag ctx (ItemPackage (pe_name (rp_entry p)) (pe_arch (rp_entry p)))
       (pe_aggregate (rp_entry p)) (rp_triage p)\<rparr>"

fun triage_config :: "refine_mode \<Rightarrow> refined_config \<Rightarrow> refined_config" where
  "triage_config SingleHostMode c = c"
| "triage_config (AggregateMode ctx) c = c\<lparr>rcf_triage :=
     aggregate_tag ctx (ItemConfig (cf_path (rcf_entry c))) (cf_aggregate (rcf_entry c)) (rcf_triage c)\<rparr>"

definition all_packages :: "refine_mode \<Rightarrow> inspection_snapshot \<Rightarrow> refined_package list" where
  "all_packages mode projected =
     map (triage_package mode)
       (if snap_rpm projected = None then classify_packages projected
        else map (restore_projected projected) (classify_packages projected))"

definition view_configs :: "refine_mode \<Rightarrow> inspection_snapshot \<Rightarrow> refined_config list" where
  "view_configs mode projected = map (triage_config mode) (classify_configs projected)"

section \<open>The filters of the view\<close>

definition is_aggregate_mode :: "refine_mode \<Rightarrow> bool" where
  "is_aggregate_mode mode \<longleftrightarrow> mode \<noteq> SingleHostMode"

definition hidden_deps :: "refine_mode \<Rightarrow> inspection_snapshot \<Rightarrow> (string \<times> string) set" where
  "hidden_deps mode original =
     set (map (\<lambda>p. (pe_name p, pe_arch p)) (filter
       (\<lambda>p. \<not> is_included (pe_disposition p) \<and>
          \<not> (is_aggregate_mode mode \<and> below_full_prevalence (pe_aggregate p))) (packages_of original)))"

definition original_package_includes :: "inspection_snapshot \<Rightarrow> (string \<times> string \<rightharpoonup> bool)" where
  "original_package_includes original =
     map_of (rev (map (\<lambda>p. ((pe_name p, pe_arch p), is_included (pe_disposition p))) (packages_of original)))"

definition shown_package :: "(string \<times> string) set \<Rightarrow> refined_package \<Rightarrow> bool" where
  "shown_package hidden p \<longleftrightarrow>
     tt_primary_reason (rp_triage p) \<noteq> PackagePlatformPlumbing \<and>
     \<not> (\<not> is_included (pe_disposition (rp_entry p)) \<and>
        (pe_name (rp_entry p), pe_arch (rp_entry p)) \<in> hidden \<and>
        tag_bucket (rp_triage p) \<noteq> BucketInvestigate)"

definition ungrouped_member_names :: "refine_session \<Rightarrow> string set" where
  "ungrouped_member_names s =
     set (concat (map ig_members (filter
       (\<lambda>g. ViewEntry (UngroupGroup (ig_name g)) \<in> set (active_entries s))
       (installed_groups (ses_original s)))))"

definition leaf_shown ::
  "string list \<Rightarrow> (string \<times> string \<rightharpoonup> bool) \<Rightarrow> string set \<Rightarrow> refined_package \<Rightarrow> bool" where
  "leaf_shown leaf_names original_includes ungrouped p \<longleftrightarrow>
     (let included = is_included (pe_disposition (rp_entry p));
          original_include =
            (case original_includes (pe_name (rp_entry p), pe_arch (rp_entry p)) of
               None \<Rightarrow> included | Some b \<Rightarrow> b)
      in canonical_package_id (pe_name (rp_entry p)) (pe_arch (rp_entry p)) \<in> set leaf_names
         \<or> tag_bucket (rp_triage p) = BucketInvestigate
         \<or> included \<noteq> original_include
         \<or> pe_name (rp_entry p) \<in> ungrouped)"

definition leaf_filtered :: "review_session \<Rightarrow> rpm_section \<Rightarrow> refined_package list \<Rightarrow> refined_package list" where
  "leaf_filtered rv rpm ps =
     (case rpm_leaf_packages rpm of
        Some leaf_names \<Rightarrow>
          if is_aggregate_mode (rv_mode rv) then ps
          else filter (leaf_shown leaf_names (original_package_includes (ses_original (rv_session rv)))
                 (ungrouped_member_names (rv_session rv))) ps
      | None \<Rightarrow> ps)"

definition view_packages :: "review_session \<Rightarrow> inspection_snapshot \<Rightarrow> refined_package list" where
  "view_packages rv projected =
     (let packages = filter (shown_package (hidden_deps (rv_mode rv) (ses_original (rv_session rv))))
            (all_packages (rv_mode rv) projected)
      in case snap_rpm projected of
           None \<Rightarrow> packages
         | Some rpm \<Rightarrow>
             let suppressed = set_of_option (rpm_baseline_suppressed rpm);
                 kept = filter (\<lambda>p. canonical_package_id (pe_name (rp_entry p)) (pe_arch (rp_entry p))
                     \<notin> suppressed) packages
             in leaf_filtered rv rpm kept)"

section \<open>Counts of the view\<close>

record refine_stats =
  rst_sections :: "section_stats list"
  rst_needs_review_count :: nat
  rst_ops_applied :: nat
  rst_can_undo :: bool
  rst_can_redo :: bool
  rst_baseline_available :: bool

record refined_view =
  vw_packages :: "refined_package list"
  vw_config_files :: "refined_config list"
  vw_stats :: refine_stats
  vw_repo_effective :: "(repo_id \<times> repo_effective) list"
  vw_repo_unlisted :: "(repo_id \<times> nat) list"
  vw_generation :: "64 word"

text \<open>The third count of a repository, beside those of \<^const>\<open>repo_effective_of\<close>.\<close>

definition count_unlisted ::
  "string set \<Rightarrow> (repo_id \<times> nat) list \<Rightarrow> package_entry \<Rightarrow> (repo_id \<times> nat) list" where
  "count_unlisted visible_ids m pkg =
     (if pe_source_repo pkg = [] then m
      else rid_entry (RepoId (pe_source_repo pkg)) 0
        (\<lambda>c. if canonical_package_id (pe_name pkg) (pe_arch pkg) \<notin> visible_ids then c + 1 else c) m)"

definition refined_view_of :: "env \<Rightarrow> review_session \<Rightarrow> refined_view" where
  "refined_view_of E rv =
     (let projected = snapshot_projected E (rv_session rv);
          packages = view_packages rv projected;
          config_files = view_configs (rv_mode rv) projected;
          visible_ids = set (map (\<lambda>p. canonical_package_id (pe_name (rp_entry p)) (pe_arch (rp_entry p))) packages)
      in \<lparr> vw_packages = packages,
           vw_config_files = config_files,
           vw_stats = \<lparr>
             rst_sections =
               [stats_from_dispositions SecPackage (map (\<lambda>p. pe_disposition (rp_entry p)) packages),
                stats_from_dispositions SecConfig (map (\<lambda>c. cf_disposition (rcf_entry c)) config_files)],
             rst_needs_review_count =
               length (filter (\<lambda>p. tag_bucket (rp_triage p) = BucketInvestigate) packages) +
               length (filter (\<lambda>c. tag_bucket (rcf_triage c) = BucketInvestigate) config_files),
             rst_ops_applied = ses_cursor (rv_session rv),
             rst_can_undo = can_undo (rv_session rv),
             rst_can_redo = can_redo (rv_session rv),
             rst_baseline_available = rv_baseline_available rv \<rparr>,
           vw_repo_effective = repo_effective_of projected,
           vw_repo_unlisted = foldl (count_unlisted visible_ids) [] (effective_packages projected),
           vw_generation = ses_generation (rv_session rv) \<rparr>)"

section \<open>The counts of the session and the classified view\<close>

lemma triage_package_entry [simp]: "rp_entry (triage_package mode p) = rp_entry p"
  by (cases mode) simp_all

text \<open>
  The include and lock states the code reads off the classified packages are those of the
  projection, as the timeline's own definition of the counts has them.
\<close>

lemma classified_state_of_view:
  assumes "snap_rpm projected = Some rpm"
  shows "map (\<lambda>p. (canonical_package_id (pe_name (rp_entry p)) (pe_arch (rp_entry p)),
      is_included (pe_disposition (rp_entry p)), pe_locked (rp_entry p))) (all_packages mode projected) =
    classified_state (packages_of projected)"
proof -
  have pk: "packages_of projected = rpm_packages_added rpm"
    using assms by (simp add: packages_of_def)
  have found: "\<exists>e. List.find (is_package (pe_name p) (pe_arch p)) (packages_of projected) = Some e"
    if "p \<in> set (rpm_packages_added rpm)" for p
    using that by (cases "List.find (is_package (pe_name p) (pe_arch p)) (packages_of projected)")
      (auto simp: find_None_iff pk)
  show ?thesis
    unfolding all_packages_def classified_state_def classify_packages_map [OF assms] pk
    using assms found
    by (auto simp: restore_projected_def Let_def packages_of_def dest!: found)
qed

end
