(* ===== verification/DefaultFacts.thy ===== *)
theory DefaultFacts
  imports SessionNew
begin

text \<open>
  Facts about the snapshot a session starts from: the default of each package and file in
  closed form, the rule a package's default follows, and the conditions under which
  normalising a normalised snapshot changes nothing.
\<close>

section \<open>The packages of the initial snapshot\<close>

definition default_package :: "inspection_snapshot \<Rightarrow> rpm_section \<Rightarrow> package_entry \<Rightarrow> package_entry" where
  "default_package snap rpm p = normalize_package (leaf_set_of rpm) (classified snap rpm p) p"

definition initial_rpm :: "inspection_snapshot \<Rightarrow> rpm_section \<Rightarrow> rpm_section" where
  "initial_rpm snap rpm = rpm\<lparr>
     rpm_packages_added := map (default_package snap rpm) (rpm_packages_added rpm),
     rpm_repo_files := update_all (\<lambda>rf. is_inspectah_repo_file (rf_path rf))
       (\<lambda>rf. rf\<lparr>rf_disposition := fk_excluded\<rparr>) (rpm_repo_files rpm)\<rparr>"

definition initial_config :: "inspection_snapshot \<Rightarrow> config_section \<Rightarrow> config_section" where
  "initial_config snap c = c\<lparr>cfg_files := zip_update normalize_config (classify_configs snap) (cfg_files c)\<rparr>"

definition initial_non_rpm :: "non_rpm_software_section \<Rightarrow> non_rpm_software_section" where
  "initial_non_rpm n = n\<lparr>nrs_items := update_all (\<lambda>i. is_language_env i \<and> nri_confidence i \<noteq> ''high'')
     (\<lambda>i. i\<lparr>nri_disposition := fk_excluded\<rparr>) (nrs_items n)\<rparr>"

text \<open>The constructor, section by section.\<close>

lemma initial_snapshot_sections:
  fixes snapshot :: inspection_snapshot
  defines "snap \<equiv> clear_leaves snapshot"
  shows "initial_snapshot snapshot = snap\<lparr>
    snap_rpm := map_option (initial_rpm snap) (snap_rpm snap),
    snap_config := map_option (initial_config snap) (snap_config snap),
    snap_services := map_option synthesize_orphan_shadows (snap_services snap),
    snap_non_rpm_software := map_option initial_non_rpm (snap_non_rpm_software snap)\<rparr>"
proof -
  have "normalize_package_defaults (classify_packages snap) snap = snap\<lparr>snap_rpm := map_option
      (\<lambda>rpm. rpm\<lparr>rpm_packages_added := map (default_package snap rpm) (rpm_packages_added rpm)\<rparr>) (snap_rpm snap)\<rparr>"
    by (cases "snap_rpm snap")
      (simp_all add: normalize_package_defaults_def on_rpm_def classify_packages_map zip_update_map
        default_package_def [abs_def])
  then show ?thesis
    unfolding initial_snapshot_def Let_def snap_def
    by (simp add: normalize_config_defaults_def normalize_inspectah_repo_files_def
        normalize_language_env_defaults_def on_section_defs option.map_comp comp_def
        initial_rpm_def [abs_def] initial_config_def [abs_def] initial_non_rpm_def [abs_def])
qed

lemma clear_leaves_fields [simp]:
  "snap_config (clear_leaves s) = snap_config s" "snap_services (clear_leaves s) = snap_services s"
  "snap_baseline (clear_leaves s) = snap_baseline s" "snap_aggregate_meta (clear_leaves s) = snap_aggregate_meta s"
  "snap_redaction_state (clear_leaves s) = snap_redaction_state s"
  "snap_storage (clear_leaves s) = snap_storage s"
  "snap_containers (clear_leaves s) = snap_containers s"
  "snap_non_rpm_software (clear_leaves s) = snap_non_rpm_software s"
  "snap_rpm_repo_conflicts (clear_leaves s) = snap_rpm_repo_conflicts s"
  by (simp_all add: clear_leaves_def on_rpm_def)

lemma clear_leaves_rpm:
  "snap_rpm (clear_leaves s) =
     map_option (\<lambda>r. if snap_aggregate_meta s \<noteq> None then r\<lparr>rpm_leaf_packages := None\<rparr> else r) (snap_rpm s)"
  by (cases "snap_rpm s") (simp_all add: clear_leaves_def on_rpm_def)

lemma default_package_fields [simp]:
  "pe_name (default_package snap rpm p) = pe_name p"
  "pe_arch (default_package snap rpm p) = pe_arch p"
  "pe_state (default_package snap rpm p) = pe_state p"
  "pe_source_repo (default_package snap rpm p) = pe_source_repo p"
  "pe_aggregate (default_package snap rpm p) = pe_aggregate p"
  "pe_repoless_annotation (default_package snap rpm p) = pe_repoless_annotation p"
  by (simp_all add: default_package_def)

section \<open>The rule of a package's default\<close>

definition baseline_names :: "inspection_snapshot \<Rightarrow> string set option" where
  "baseline_names snap = map_option (\<lambda>b. dom (bd_packages b)) (snap_baseline snap)"

definition is_leaf :: "rpm_section \<Rightarrow> package_entry \<Rightarrow> bool" where
  "is_leaf rpm p = (case leaf_set_of rpm of None \<Rightarrow> True | Some s \<Rightarrow> pkg_id p \<in> s)"

definition captured :: "inspection_snapshot \<Rightarrow> rpm_section \<Rightarrow> package_entry \<Rightarrow> bool" where
  "captured snap rpm p =
     config_captured (ownership_map (rpm_file_ownership rpm)) (set (map cf_path (config_files_of snap))) p"

definition unknown_origin :: "package_entry \<Rightarrow> bool" where
  "unknown_origin p \<longleftrightarrow> pe_state p = PkgLocalInstall \<or> pe_state p = PkgNoRepo \<or> pe_source_repo p = []
     \<or> ignore_case_eq (pe_source_repo p) ''@commandline''"

text \<open>What the installer's packages get when the evidence is there.\<close>

definition installer_rule :: "anaconda_evidence \<Rightarrow> string \<Rightarrow> bool" where
  "installer_rule ev name \<longleftrightarrow>
     (name \<in> ae_modified_config ev \<and> (name \<in> ae_user_enabled ev \<or> is_config_only_promotable name))
     \<or> \<not> (is_installer_noise name \<and> \<not> ae_degraded ev)"

definition package_rule :: "inspection_snapshot \<Rightarrow> rpm_section \<Rightarrow> package_entry \<Rightarrow> bool" where
  "package_rule snap rpm p \<longleftrightarrow>
     (let ev = anaconda_evidence_of snap;
          by_installer = (pe_source_repo p = ''anaconda'')
      in if pe_repoless_annotation p \<noteq> [] \<or> below_full_prevalence (pe_aggregate p) then False
         else if by_installer \<and> is_platform_plumbing (pe_name p) then False
         else if pkg_id p \<in> set_of_option (rpm_baseline_suppressed rpm) then True
         else if captured snap rpm p then is_leaf rpm p
         else if unknown_origin p then False
         else (case baseline_names snap of
             None \<Rightarrow> by_installer \<and> ae_has_services ev \<and> ae_has_config ev \<and> installer_rule ev (pe_name p)
           | Some names \<Rightarrow>
               if pe_state p = PkgModified then \<not> is_downgraded (rpm_version_changes rpm) p \<and> is_leaf rpm p
               else if pkg_id p \<in> names then True
               else if by_installer \<and> ae_has_services ev \<and> ae_has_config ev then installer_rule ev (pe_name p)
               else is_leaf rpm p))"

lemma captured_commandline: "captured snap rpm p \<Longrightarrow> pe_source_repo p \<noteq> ''anaconda''"
  by (auto simp: captured_def config_captured_def to_ascii_lowercase_def lower_char_def)

lemma default_gated:
  "pe_repoless_annotation p \<noteq> [] \<or> below_full_prevalence (pe_aggregate p) \<Longrightarrow>
     pe_disposition (default_package snap rpm p) = fk_excluded"
  by (auto simp: default_package_def normalize_package_def Let_def)

text \<open>Without the two gates, the default is the retagged decision or the bucket's.\<close>

lemma default_ungated:
  "pe_repoless_annotation p = [] \<Longrightarrow> \<not> below_full_prevalence (pe_aggregate p) \<Longrightarrow>
     pe_disposition (default_package snap rpm p) =
       (let r = classified snap rpm p in
        if is_anaconda_classified (tt_primary_reason (rp_triage r)) then pe_disposition (rp_entry r)
        else bucket_default (leaf_set_of rpm) (tag_bucket (rp_triage r)) p)"
  by (simp add: default_package_def normalize_package_def Let_def)

lemma bucket_default_simps [simp]:
  "bucket_default (leaf_set_of rpm) BucketBaseline p = fk_from_bool True"
  "bucket_default (leaf_set_of rpm) BucketSite p = fk_from_bool (is_leaf rpm p)"
  "bucket_default (leaf_set_of rpm) BucketInvestigate p = fk_from_bool False"
  by (simp_all add: bucket_default_def is_leaf_def finding_defs)

text \<open>The tag before the post-pass.\<close>

definition plain_tag :: "inspection_snapshot \<Rightarrow> rpm_section \<Rightarrow> package_entry \<Rightarrow> triage_bucket \<times> triage_reason" where
  "plain_tag snap rpm p =
     (if pkg_id p \<in> set_of_option (rpm_baseline_suppressed rpm) then (BucketBaseline, PackageBaselineMatch)
      else if captured snap rpm p then (BucketSite, PackageConfigCaptured)
      else let t = classify_package p (baseline_names snap) (rpm_version_changes rpm)
        in (tag_bucket t, tt_primary_reason t))"

lemma classify_entry_tag:
  "tag_bucket (rp_triage (classify_entry snap rpm p)) = fst (plain_tag snap rpm p)"
  "tt_primary_reason (rp_triage (classify_entry snap rpm p)) = snd (plain_tag snap rpm p)"
  by (simp_all add: classify_entry_def plain_tag_def captured_def baseline_names_def Let_def tag_bucket_def)

lemma plain_not_anaconda: "\<not> is_anaconda_classified (snd (plain_tag snap rpm p))"
  by (auto simp: plain_tag_def classify_package_def Let_def split: option.split)

text \<open>The installer's packages, in terms of the tag before the post-pass.\<close>

lemma installer_default:
  assumes "pe_source_repo p = ''anaconda''"
    and "pe_repoless_annotation p = []" "\<not> below_full_prevalence (pe_aggregate p)"
  shows "pe_disposition (default_package snap rpm p) =
    (let ev = anaconda_evidence_of snap in
     if is_platform_plumbing (pe_name p) then fk_from_bool False
     else if snd (plain_tag snap rpm p) \<notin> {PackageUserAdded, PackageProvenanceUnavailable}
        \<or> \<not> ae_has_services ev \<or> \<not> ae_has_config ev
     then bucket_default (leaf_set_of rpm) (fst (plain_tag snap rpm p)) p
     else fk_from_bool (installer_rule ev (pe_name p)))"
proof -
  let ?ev = "anaconda_evidence_of snap" and ?e = "classify_entry snap rpm p"
  have fields: "pe_name (rp_entry ?e) = pe_name p" "pe_source_repo (rp_entry ?e) = pe_source_repo p"
    by (simp_all add: classify_entry_fields)
  have retagged: "pe_disposition (rp_entry (retag b r i x)) = fk_from_bool i"
    "tt_primary_reason (rp_triage (retag b r i x)) = r" "pe_disposition (rp_entry (lock_package x)) = pe_disposition (rp_entry x)"
    "rp_triage (lock_package x) = rp_triage x" for b r i x
    by (simp_all add: retag_def lock_package_def)
  have kept: "\<not> is_anaconda_classified (tt_primary_reason (rp_triage ?e))"
    unfolding classify_entry_tag by (rule plain_not_anaconda)
  show ?thesis
  proof (cases "is_platform_plumbing (pe_name p) \<or>
      snd (plain_tag snap rpm p) \<notin> {PackageUserAdded, PackageProvenanceUnavailable}
        \<or> \<not> ae_has_services ?ev \<or> \<not> ae_has_config ?ev")
    case True
    then show ?thesis
      using assms kept
      by (auto simp: default_ungated Let_def classified_def anaconda_step_def fields classify_entry_tag retagged)
  next
    case False
    then show ?thesis
      using assms
      by (auto simp: default_ungated Let_def classified_def anaconda_step_def fields classify_entry_tag
          retagged installer_rule_def)
  qed
qed

lemma default_rule:
  "pe_disposition (default_package snap rpm p) = fk_from_bool (package_rule snap rpm p)"
proof (cases "pe_repoless_annotation p \<noteq> [] \<or> below_full_prevalence (pe_aggregate p)")
  case True
  then show ?thesis using default_gated [OF True] by (auto simp: package_rule_def Let_def finding_defs)
next
  case False
  then have no: "pe_repoless_annotation p = []" "\<not> below_full_prevalence (pe_aggregate p)" by auto
  let ?ev = "anaconda_evidence_of snap" and ?e = "classify_entry snap rpm p"
  have fields: "pe_name (rp_entry ?e) = pe_name p" "pe_source_repo (rp_entry ?e) = pe_source_repo p"
    by (simp_all add: classify_entry_fields)
  show ?thesis
  proof (cases "pe_source_repo p = ''anaconda''")
    case inst: False
    then have "classified snap rpm p = ?e"
      by (simp add: classified_def anaconda_step_def fields Let_def)
    then have "pe_disposition (default_package snap rpm p) =
        bucket_default (leaf_set_of rpm) (fst (plain_tag snap rpm p)) p"
      using plain_not_anaconda [of snap rpm p]
      by (simp only: default_ungated [OF no] Let_def classify_entry_tag if_False)
    also have "\<dots> = fk_from_bool (package_rule snap rpm p)"
      using inst no
      by (simp add: plain_tag_def classify_package_def package_rule_def Let_def unknown_origin_def
          split: option.split)
    finally show ?thesis .
  next
    case inst: True
    have known: "\<not> captured snap rpm p" "\<not> ignore_case_eq (pe_source_repo p) ''@commandline''" "pe_source_repo p \<noteq> []"
      using captured_commandline [of snap rpm p] inst by (auto simp: to_ascii_lowercase_def lower_char_def)
    show ?thesis
      unfolding installer_default [OF inst no] Let_def
      using inst no known
      by (auto simp: package_rule_def Let_def plain_tag_def classify_package_def unknown_origin_def
          split: option.split)
  qed
qed

end
