(* ===== verification/ReviewState.thy ===== *)
theory ReviewState
  imports SessionNew
begin

text \<open>
  What a review session reports (\<open>crates/refine/src/session.rs\<close>, \<open>baseline_summary.rs\<close>,
  \<open>projection/decisions.rs\<close>, \<open>aggregate/mod.rs\<close>): the pending changes against the original,
  the viewed ids, the sensitivity flag, the baseline summary, the repo groups, the decision
  projection and the variant summary; and the saved state of a session (\<open>autosave.rs\<close>) with
  \<open>resume_from\<close>.
\<close>

section \<open>Pending changes\<close>

record section_change_summary =
  scs_kind :: section_kind
  scs_included :: "item_id list"
  scs_excluded :: "item_id list"

record changes_summary =
  chg_sections :: "section_change_summary list"
  chg_variants_changed :: nat
  chg_is_dirty :: bool

text \<open>The ids whose include state changed to \<open>include\<close>, over the two lists in step.\<close>

definition toggled ::
  "('a \<Rightarrow> finding_kind) \<Rightarrow> ('a \<Rightarrow> item_id) \<Rightarrow> bool \<Rightarrow> 'a list \<Rightarrow> 'a list \<Rightarrow> item_id list" where
  "toggled disp ident include origs projs =
     map (\<lambda>(orig, proj). ident orig)
       (filter (\<lambda>(orig, proj). is_included (disp orig) \<noteq> is_included (disp proj)
            \<and> is_included (disp proj) = include) (zip origs projs))"

definition zip_sections :: "'s option \<Rightarrow> 's option \<Rightarrow> ('s \<Rightarrow> 'a list) \<Rightarrow> 'a list \<times> 'a list" where
  "zip_sections a b items =
     (case (a, b) of (Some x, Some y) \<Rightarrow> (items x, items y) | _ \<Rightarrow> ([], []))"

definition package_item :: "package_entry \<Rightarrow> item_id" where
  "package_item p = ItemPackage (pe_name p) (pe_arch p)"

definition package_changes :: "bool \<Rightarrow> inspection_snapshot \<Rightarrow> inspection_snapshot \<Rightarrow> item_id list" where
  "package_changes include orig proj =
     (let (os, ps) = zip_sections (snap_rpm orig) (snap_rpm proj) rpm_packages_added in
      toggled pe_disposition package_item include os ps)"

definition config_changes :: "bool \<Rightarrow> inspection_snapshot \<Rightarrow> inspection_snapshot \<Rightarrow> item_id list" where
  "config_changes include orig proj =
     (let (os, ps) = zip_sections (snap_config orig) (snap_config proj) cfg_files in
      toggled cf_disposition (\<lambda>e. ItemConfig (cf_path e)) include os ps)"

text \<open>The iteration order of the set of excluded repositories is the environment's.\<close>

definition repo_changes :: "env \<Rightarrow> timeline_entry list \<Rightarrow> item_id list" where
  "repo_changes E es = map ItemRepo (env_order E (map repo_id_str (excluded_sections_at es)))"

definition change_section :: "section_kind \<Rightarrow> item_id list \<Rightarrow> item_id list \<Rightarrow> section_change_summary list" where
  "change_section kind inc exc =
     (if inc \<noteq> [] \<or> exc \<noteq> []
      then [\<lparr> scs_kind = kind, scs_included = inc, scs_excluded = exc \<rparr>] else [])"

text \<open>
  The originals whose projected counterpart is missing or selected otherwise, and the
  projected entries that no original matches and that are not the only variant.
\<close>

definition changed_originals ::
  "('a \<Rightarrow> 'a \<Rightarrow> bool) \<Rightarrow> ('a \<Rightarrow> variant_selection) \<Rightarrow> 'a list \<Rightarrow> 'a list \<Rightarrow> nat" where
  "changed_originals same sel origs projs =
     length (filter (\<lambda>o1. case List.find (\<lambda>e. same e o1) projs of
         Some p \<Rightarrow> sel p \<noteq> sel o1 | None \<Rightarrow> True) origs)"

definition added_variants ::
  "('a \<Rightarrow> 'a \<Rightarrow> bool) \<Rightarrow> ('a \<Rightarrow> variant_selection) \<Rightarrow> 'a list \<Rightarrow> 'a list \<Rightarrow> nat" where
  "added_variants same sel origs projs =
     length (filter (\<lambda>p. \<not> (\<exists>e \<in> set origs. same e p) \<and> sel p \<noteq> Only) projs)"

definition variant_changes ::
  "('a \<Rightarrow> 'a \<Rightarrow> bool) \<Rightarrow> ('a \<Rightarrow> variant_selection) \<Rightarrow> 'a list \<times> 'a list \<Rightarrow> nat" where
  "variant_changes same sel vs =
     changed_originals same sel (fst vs) (snd vs) + added_variants same sel (fst vs) (snd vs)"

definition same_config :: "env \<Rightarrow> config_file_entry \<Rightarrow> config_file_entry \<Rightarrow> bool" where
  "same_config E a b \<longleftrightarrow>
     cf_path a = cf_path b \<and> content_hash_of E (cf_content a) = content_hash_of E (cf_content b)"

definition same_drop_in :: "env \<Rightarrow> systemd_drop_in \<Rightarrow> systemd_drop_in \<Rightarrow> bool" where
  "same_drop_in E a b \<longleftrightarrow>
     di_path a = di_path b \<and> content_hash_of E (di_content a) = content_hash_of E (di_content b)"

definition same_quadlet :: "env \<Rightarrow> quadlet_unit \<Rightarrow> quadlet_unit \<Rightarrow> bool" where
  "same_quadlet E a b \<longleftrightarrow>
     qu_path a = qu_path b \<and> content_hash_of E (qu_content a) = content_hash_of E (qu_content b)"

definition same_compose :: "env \<Rightarrow> compose_file \<Rightarrow> compose_file \<Rightarrow> bool" where
  "same_compose E a b \<longleftrightarrow> cpf_path a = cpf_path b \<and> compose_hash E a = compose_hash E b"

definition variants_changed :: "env \<Rightarrow> inspection_snapshot \<Rightarrow> inspection_snapshot \<Rightarrow> nat" where
  "variants_changed E orig proj =
     variant_changes (same_config E) cf_variant_selection
       (zip_sections (snap_config orig) (snap_config proj) cfg_files)
     + variant_changes (same_drop_in E) di_variant_selection
       (zip_sections (snap_services orig) (snap_services proj) svc_drop_ins)
     + variant_changes (same_quadlet E) qu_variant_selection
       (zip_sections (snap_containers orig) (snap_containers proj) ctr_quadlet_units)
     + (let (os, ps) = zip_sections (snap_containers orig) (snap_containers proj) ctr_compose_files
        in changed_originals (same_compose E) cpf_variant_selection os ps)"

fun is_view_entry :: "timeline_entry \<Rightarrow> bool" where
  "is_view_entry (ViewEntry _) = True"
| "is_view_entry _ = False"

definition pending_changes :: "env \<Rightarrow> refine_session \<Rightarrow> changes_summary" where
  "pending_changes E s =
     (let orig = ses_original s;
          projected = snapshot_projected E s;
          sections =
            change_section SecPackage (package_changes True orig projected) (package_changes False orig projected)
            @ change_section SecConfig (config_changes True orig projected) (config_changes False orig projected)
            @ change_section SecRepo [] (repo_changes E (active_entries s));
          variants = variants_changed E orig projected
      in \<lparr> chg_sections = sections,
           chg_variants_changed = variants,
           chg_is_dirty =
             list_ex (\<lambda>sec. scs_included sec \<noteq> [] \<or> scs_excluded sec \<noteq> []) sections
             \<or> variants > 0 \<or> list_ex is_view_entry (active_entries s) \<rparr>)"

definition is_dirty :: "env \<Rightarrow> refine_session \<Rightarrow> bool" where
  "is_dirty E s = chg_is_dirty (pending_changes E s)"

definition change_section_of :: "changes_summary \<Rightarrow> section_kind \<Rightarrow> section_change_summary option" where
  "change_section_of c kind = List.find (\<lambda>s. scs_kind s = kind) (chg_sections c)"

definition repos_excluded :: "changes_summary \<Rightarrow> string list" where
  "repos_excluded c =
     (case change_section_of c SecRepo of
        None \<Rightarrow> []
      | Some s \<Rightarrow> List.map_filter (\<lambda>i. case i of ItemRepo path \<Rightarrow> Some path | _ \<Rightarrow> None) (scs_excluded s))"

section \<open>Viewed ids and sensitivity\<close>

definition VALID_SECTIONS :: "string list" where
  "VALID_SECTIONS = [''packages'', ''configs'', ''services'', ''containers'', ''users_groups'', ''network'',
     ''storage'', ''scheduled_tasks'', ''non_rpm_software'', ''kernel_boot'', ''selinux'']"

text \<open>The \<open>Debug\<close> text of a list of plain words.\<close>

definition debug_words :: "string list \<Rightarrow> string" where
  "debug_words ws =
     ''['' @ str_join '', '' (map (\<lambda>w. [CHR 0x22] @ w @ [CHR 0x22]) ws) @ '']''"

definition validate_viewed_id :: "string \<Rightarrow> unit refine_result" where
  "validate_viewed_id i =
     (case split_once (CHR '':'') i of
        None \<Rightarrow> Inl (BadRequest (''invalid viewed ID format: expected '' @ quoted ''section:item_id'' @
            '', got '' @ quoted i))
      | Some (section, item) \<Rightarrow>
          if item = [] then Inl (BadRequest (''invalid viewed ID: item_id is empty in '' @ quoted i))
          else if section \<notin> set VALID_SECTIONS
          then Inl (BadRequest (''invalid viewed ID section '' @ quoted section @ '': must be one of '' @
            debug_words VALID_SECTIONS))
          else Inr ())"

definition mark_viewed :: "string \<Rightarrow> review_session \<Rightarrow> unit refine_result \<times> review_session" where
  "mark_viewed i rv =
     (case validate_viewed_id i of
        Inl e \<Rightarrow> (Inl e, rv)
      | Inr _ \<Rightarrow> (Inr (), rv\<lparr>rv_viewed := insert i (rv_viewed rv)\<rparr>))"

definition is_viewed :: "review_session \<Rightarrow> string \<Rightarrow> bool" where
  "is_viewed rv i \<longleftrightarrow> i \<in> rv_viewed rv"

definition is_sensitive :: "env \<Rightarrow> refine_session \<Rightarrow> bool" where
  "is_sensitive E s =
     (let projected = snapshot_projected E s in
      snap_sensitive_snapshot projected \<or> has_new_password projected)"

section \<open>The baseline summary\<close>

record baseline_summary =
  bs_image_ref :: string
  bs_image_digest :: string
  bs_strategy :: string
  bs_baseline_count :: nat
  bs_user_added_count :: nat
  bs_review_count :: nat

text \<open>The serialised name of a strategy (\<open>rename_all = "kebab-case"\<close>), without its quotes.\<close>

fun strategy_name :: "resolution_strategy \<Rightarrow> string" where
  "strategy_name CliOverride = ''cli-override''"
| "strategy_name UniversalBlue = ''universal-blue''"
| "strategy_name BootcStatus = ''bootc-status''"
| "strategy_name FedoraAtomicDesktop = ''fedora-atomic-desktop''"
| "strategy_name StrategyOsRelease = ''os-release''"

definition derive_baseline_summary ::
  "inspection_snapshot \<Rightarrow> refined_package list \<Rightarrow> baseline_summary option" where
  "derive_baseline_summary snap packages =
     (case (snap_target_image snap, snap_baseline snap) of
        (Some target, Some baseline) \<Rightarrow> Some
          \<lparr> bs_image_ref = ti_image_ref target, bs_image_digest = bd_image_digest baseline,
            bs_strategy = strategy_name (ti_strategy target),
            bs_baseline_count =
              length (filter (\<lambda>p. tt_primary_reason (rp_triage p) = PackageBaselineMatch) packages),
            bs_user_added_count =
              length (filter (\<lambda>p. tt_primary_reason (rp_triage p) = PackageUserAdded) packages),
            bs_review_count =
              length (filter (\<lambda>p. tag_bucket (rp_triage p) = BucketInvestigate) packages) \<rparr>
      | _ \<Rightarrow> None)"

definition baseline_summary_of :: "env \<Rightarrow> review_session \<Rightarrow> baseline_summary option" where
  "baseline_summary_of E rv =
     derive_baseline_summary (ses_original (rv_session rv)) (vw_packages (refined_view_of E rv))"

section \<open>Repo groups and the decision projection\<close>

record repo_group =
  rg_section_id :: string
  rg_provenance :: repo_provenance
  rg_is_distro :: bool
  rg_tier :: repo_tier
  rg_package_count :: nat
  rg_enabled :: bool

definition repo_counts :: "refined_package list \<Rightarrow> repo_index \<Rightarrow> (string \<times> nat) list" where
  "repo_counts packages idx =
     foldl (\<lambda>m (sid, names). btree_entry (repo_id_str sid) 0 (\<lambda>n. n) m)
       (foldl (\<lambda>m p. btree_entry (pe_source_repo (rp_entry p)) 0 (\<lambda>n. n + 1) m) [] packages)
       (ri_packages_by_repo idx)"

definition repo_group_of :: "repo_index \<Rightarrow> string list \<Rightarrow> string \<times> nat \<Rightarrow> repo_group" where
  "repo_group_of idx excluded c =
     (let (section_id, package_count) = c in
      \<lparr> rg_section_id = section_id,
        rg_provenance = (if section_id = [] then ProvUnknown else repo_provenance_of idx (RepoId section_id)),
        rg_is_distro = (if section_id = [] then False else is_distro_repo section_id),
        rg_tier = repo_tier_of section_id,
        rg_package_count = package_count,
        rg_enabled = (section_id \<notin> set excluded) \<rparr>)"

text \<open>Distro repositories first; within each part the map's order is already by id.\<close>

definition build_repo_groups :: "env \<Rightarrow> review_session \<Rightarrow> repo_group list" where
  "build_repo_groups E rv =
     (let s = rv_session rv;
          groups = map (repo_group_of (ses_repo_index s) (repos_excluded (pending_changes E s)))
            (repo_counts (vw_packages (refined_view_of E rv)) (ses_repo_index s))
      in sort_key (\<lambda>g. (if rg_is_distro g then 0 else 1 :: nat)) (sort_key rg_section_id groups))"

record 'u decision_projection =
  dp_service_states :: "refined_service_state list"
  dp_service_dropins :: "refined_drop_in list"
  dp_quadlets :: "refined_quadlet list"
  dp_flatpaks :: "refined_flatpak list"
  dp_sysctls :: "refined_sysctl list"
  dp_tuned :: "refined_tuned_selection list"
  dp_repo_groups :: "repo_group list"
  dp_version_changes :: "version_change list"
  dp_users_groups :: "'u list"
  dp_is_sensitive :: bool
  dp_baseline_summary :: "baseline_summary option"

text \<open>Decoding a user decision (\<open>serde_json::from_value\<close>) is a parameter.\<close>

definition project_decisions ::
  "(json \<Rightarrow> 'u option) \<Rightarrow> env \<Rightarrow> review_session \<Rightarrow> 'u decision_projection" where
  "project_decisions decode E rv =
     (let snap = snapshot_projected E (rv_session rv);
          (states, dropins) = classify_services snap;
          (quadlets, flatpaks) = classify_containers snap
      in \<lparr> dp_service_states = states, dp_service_dropins = dropins,
           dp_quadlets = quadlets, dp_flatpaks = flatpaks,
           dp_sysctls = classify_sysctls snap, dp_tuned = classify_tuned snap,
           dp_repo_groups = build_repo_groups E rv,
           dp_version_changes = (case snap_rpm snap of None \<Rightarrow> [] | Some r \<Rightarrow> rpm_version_changes r),
           dp_users_groups = List.map_filter decode (users_of snap),
           dp_is_sensitive = is_sensitive E (rv_session rv),
           dp_baseline_summary = baseline_summary_of E rv \<rparr>)"

section \<open>The variant summary of an aggregate\<close>

record variant_info =
  vi_variant_count :: nat
  vi_host_split :: "nat list"

text \<open>The groups by path are a \<open>BTreeMap\<close>, so in the order of the paths.\<close>

definition paths_of :: "config_file_entry list \<Rightarrow> (string \<times> config_file_entry list) list" where
  "paths_of files = foldl (\<lambda>m e. btree_entry (cf_path e) [] (\<lambda>es. es @ [e]) m) [] files"

definition host_count :: "config_file_entry \<Rightarrow> nat" where
  "host_count e = (case cf_aggregate e of None \<Rightarrow> 0 | Some f \<Rightarrow> nat (max 0 (ap_count f)))"

definition variant_distribution :: "config_file_entry list \<Rightarrow> (string \<times> variant_info) list" where
  "variant_distribution files =
     map (\<lambda>(path, es). (path, \<lparr> vi_variant_count = length es,
           vi_host_split = rev (sort (map host_count es)) \<rparr>))
       (filter (\<lambda>(path, es). \<not> length es < 2) (paths_of files))"

definition variant_summary ::
  "inspection_snapshot \<Rightarrow> aggregate_context option \<Rightarrow> (nat \<times> (string \<times> variant_info) list) option" where
  "variant_summary snap ctx =
     (case (ctx, snap_config snap) of
        (Some _, Some c) \<Rightarrow>
          Some (length (variant_distribution (cfg_files c)), variant_distribution (cfg_files c))
      | _ \<Rightarrow> None)"

section \<open>Opening a tarball\<close>

text \<open>
  \<open>validate_provenance\<close> (\<open>tarball.rs\<close>) prints a warning on some states and accepts every
  one. Extraction is not modelled: \<open>raw_json\<close> is the snapshot file of the archive.
\<close>

definition validate_provenance :: "inspection_snapshot \<Rightarrow> unit refine_result" where
  "validate_provenance snap =
     (case snap_redaction_state snap of
        Some (FullyRedacted _ _) \<Rightarrow> Inr ()
      | Some (PartiallyRedacted _ _ _ _) \<Rightarrow> Inr ()
      | Some (SensitiveRetained _ _ _ _) \<Rightarrow> Inr ()
      | Some Raw \<Rightarrow> Inr ()
      | Some RedactionUnknown \<Rightarrow> Inr ()
      | None \<Rightarrow> if snap_aggregate_meta snap \<noteq> None then Inr () else Inr ())"

definition mark_raw_sensitive :: "inspection_snapshot \<Rightarrow> inspection_snapshot" where
  "mark_raw_sensitive snap =
     (if snap_redaction_state snap = Some Raw then snap\<lparr>snap_sensitive_snapshot := True\<rparr> else snap)"

definition load_tarball_snapshot ::
  "(string \<Rightarrow> string + json) \<Rightarrow> (json \<Rightarrow> string + string) \<Rightarrow> (string \<Rightarrow> string + inspection_snapshot) \<Rightarrow>
   string \<Rightarrow> inspection_snapshot refine_result" where
  "load_tarball_snapshot parse to_str from_str raw_json =
     (case load_for_refine parse to_str from_str raw_json of
        Inl e \<Rightarrow> Inl e
      | Inr snapshot \<Rightarrow>
          (case validate_provenance snapshot of
             Inl e \<Rightarrow> Inl e
           | Inr _ \<Rightarrow> Inr (mark_raw_sensitive snapshot)))"

section \<open>Saving and resuming\<close>

text \<open>
  The sidecar keeps the timeline and the cursor, beside the hash of the tarball. Its file is
  not modelled: what \<open>load_session\<close> decoded is an argument, in one of its two versions.
\<close>

record session_state =
  sst_schema_version :: nat
  sst_tarball_path :: string
  sst_tarball_hash :: content_hash
  sst_timeline :: "timeline_entry list"
  sst_cursor :: nat
  sst_saved_at :: string

record session_state_v2 =
  ss2_schema_version :: nat
  ss2_tarball_path :: string
  ss2_tarball_hash :: content_hash
  ss2_ops :: "refinement_op list"
  ss2_cursor :: nat
  ss2_saved_at :: string

definition migrate_v2 :: "session_state_v2 \<Rightarrow> session_state" where
  "migrate_v2 v2 = \<lparr> sst_schema_version = 3, sst_tarball_path = ss2_tarball_path v2,
     sst_tarball_hash = ss2_tarball_hash v2, sst_timeline = map OpEntry (ss2_ops v2),
     sst_cursor = ss2_cursor v2, sst_saved_at = ss2_saved_at v2 \<rparr>"

definition saved_state :: "string \<Rightarrow> content_hash \<Rightarrow> string \<Rightarrow> refine_session \<Rightarrow> session_state" where
  "saved_state path hash saved_at s = \<lparr> sst_schema_version = 3, sst_tarball_path = path,
     sst_tarball_hash = hash, sst_timeline = ses_timeline s, sst_cursor = ses_cursor s,
     sst_saved_at = saved_at \<rparr>"

text \<open>
  \<open>resume_from\<close>: the snapshot comes out of a fresh session, and a second session is built
  from it. The tarball's current hash and the snapshot loaded from it are arguments.
\<close>

definition restore_timeline :: "env \<Rightarrow> session_state \<Rightarrow> review_session \<Rightarrow> review_session" where
  "restore_timeline E saved rv = rv\<lparr>rv_session := recompute_view E
     ((rv_session rv)\<lparr>ses_timeline := sst_timeline saved,
        ses_cursor := min (sst_cursor saved) (length (sst_timeline saved))\<rparr>)\<rparr>"

definition resume_from ::
  "env \<Rightarrow> session_state option \<Rightarrow> content_hash \<Rightarrow> inspection_snapshot refine_result \<Rightarrow>
   review_session option refine_result" where
  "resume_from E saved current_hash loaded =
     (case saved of
        None \<Rightarrow> Inr None
      | Some st \<Rightarrow>
          if current_hash \<noteq> sst_tarball_hash st
          then Inl (StaleTarball (hash_str (sst_tarball_hash st)) (hash_str current_hash))
          else (case loaded of
              Inl e \<Rightarrow> Inl e
            | Inr snapshot \<Rightarrow>
                let fresh = session_new E snapshot;
                    session = session_new E (ses_original (rv_session fresh))
                in Inr (Some (restore_timeline E st session))))"

end
