(* ===== verification/LockFacts.thy ===== *)
theory LockFacts
  imports ReplayFacts DefaultFacts ReviewState
begin

text \<open>
  Locks through a session: what the load locks, what the constructor adds, and that no
  operation, no variant and no later step of the projection takes a lock away.
\<close>

section \<open>The locks of a snapshot\<close>

definition config_lock :: "config_file_entry \<Rightarrow> string \<times> bool" where
  "config_lock e = (cf_path e, cf_locked e)"

definition change_lock :: "service_state_change \<Rightarrow> string \<times> bool" where
  "change_lock c = (ssc_unit c, ssc_locked c)"

definition dropin_lock :: "systemd_drop_in \<Rightarrow> string \<times> bool" where
  "dropin_lock d = (di_unit d, di_locked d)"

lemmas lock_defs = config_lock_def change_lock_def dropin_lock_def

definition lock_keys ::
  "inspection_snapshot \<Rightarrow> (string \<times> bool) list \<times> (string \<times> bool) list \<times> (string \<times> bool) list \<times> bool list" where
  "lock_keys snap = (map config_lock (config_files_of snap), map change_lock (state_changes_of snap),
     map dropin_lock (drop_ins_of snap), map fe_locked (fstab_of snap))"

lemmas lock_lists_def = config_files_of_def state_changes_of_def drop_ins_of_def fstab_of_def

lemma lock_dispositions [simp]:
  "config_lock (e\<lparr>cf_disposition := d\<rparr>) = config_lock e"
  "change_lock (c\<lparr>ssc_disposition := d\<rparr>) = change_lock c"
  "dropin_lock (i\<lparr>di_disposition := d\<rparr>) = dropin_lock i"
  by (simp_all add: lock_defs)

lemma lock_keys_on_other [simp]:
  "lock_keys (on_rpm f0 snap) = lock_keys snap"
  "lock_keys (on_containers f3 snap) = lock_keys snap"
  "lock_keys (on_kernel_boot f4 snap) = lock_keys snap"
  "lock_keys (on_users f5 snap) = lock_keys snap"
  "lock_keys (on_non_rpm f6 snap) = lock_keys snap"
  by (simp_all add: lock_keys_def lock_lists_def on_section_defs)

lemma lock_keys_on_sections:
  "(\<And>c. map config_lock (cfg_files (f1 c)) = map config_lock (cfg_files c)) \<Longrightarrow>
     lock_keys (on_config f1 snap) = lock_keys snap"
  "(\<And>s. map change_lock (svc_state_changes (f2 s)) = map change_lock (svc_state_changes s)) \<Longrightarrow>
     (\<And>s. map dropin_lock (svc_drop_ins (f2 s)) = map dropin_lock (svc_drop_ins s)) \<Longrightarrow>
     lock_keys (on_services f2 snap) = lock_keys snap"
  by (simp_all add: lock_keys_def lock_lists_def on_section_defs split: option.split)

lemma set_include_locks: "lock_keys (set_include_item X i b snap) = lock_keys snap"
  by (cases i)
    (auto simp: map_update_first map_update_all toggle_service_def intro!: lock_keys_on_sections)

lemma on_user_locks [simp]: "lock_keys (on_user u f snap) = lock_keys snap"
  by (simp add: on_user_def)

lemma password_locks [simp]: "lock_keys (apply_password orig p snap) = lock_keys snap"
  by (cases p) simp_all

lemma on_env_locks [simp]: "lock_keys (on_env a b f snap) = lock_keys snap"
  by (simp add: on_env_def)

lemma pin_locks [simp]: "lock_keys (set_package_pin i b snap) = lock_keys snap"
  by (cases i) simp_all

lemma replay_op_locks: "lock_keys (fst (replay_op E X st p)) = lock_keys (fst st)"
  by (cases st; cases p) (simp_all add: set_include_locks)

lemma replay_locks: "lock_keys (fst (replay E X)) = lock_keys (rx_original X)"
proof -
  have "lock_keys (fst (foldl (replay_op E X) st ps)) = lock_keys (fst st)" for st ps
    by (induction ps arbitrary: st) (simp_all add: replay_op_locks)
  then show ?thesis by (simp add: replay_def)
qed

section \<open>Variants\<close>

text \<open>What a materialised pool satisfies when the user's variants and the selection keep it.\<close>

lemma update_at_pred: "(\<And>e. Q e \<Longrightarrow> Q (f e)) \<Longrightarrow> \<forall>e \<in> set xs. Q e \<Longrightarrow> i < length xs \<Longrightarrow> \<forall>e \<in> set (update_at f xs i). Q e"
  using set_update_subset_insert [of xs i "f (xs ! i)"] by (auto simp: update_at_def dest: subsetD)

lemma update_at_fold_pred:
  assumes "\<And>e. Q e \<Longrightarrow> Q (f e)" "\<forall>e \<in> set xs. Q e" "\<forall>i \<in> set is. i < length xs"
  shows "\<forall>e \<in> set (foldl (update_at f) xs is). Q e"
  using assms(2,3)
proof (induction "is" arbitrary: xs)
  case (Cons i "is")
  have "length (update_at f xs i) = length xs" by (simp add: update_at_def)
  moreover have "\<forall>e \<in> set (update_at f xs i). Q e" using Cons.prems by (intro update_at_pred assms(1)) auto
  ultimately show ?case using Cons by simp
qed simp

lemma foldl_keeps: "(\<And>s x. I s \<Longrightarrow> I (f s x)) \<Longrightarrow> I s \<Longrightarrow> I (foldl f s xs)"
  by (induction xs arbitrary: s) simp_all

lemma materialize_pred:
  assumes user: "\<And>c e. Q e \<Longrightarrow> Q (tp_user P c e)" and sel: "\<And>v e. Q e \<Longrightarrow> Q (tp_set P v e)"
    and all: "\<forall>e \<in> set xs. Q e"
  shows "\<forall>e \<in> set (materialize_pool E P st ps xs). Q e"
proof -
  let ?ok = "\<lambda>xs. \<forall>e \<in> set xs. Q e"
  have one: "?ok (foldl (add_user_variant P st q t) ys hcs)" if "?ok ys" "Q t" for q t ys hcs
    using that user by (intro foldl_keeps [where I = ?ok]) (auto simp: add_user_variant_def)
  have add: "?ok (add_path_variants E P st ys pm)" if "?ok ys" for ys pm
  proof (cases "List.find (\<lambda>e. tp_path P e = fst pm) ys")
    case None
    then show ?thesis using that by (simp add: add_path_variants_def)
  next
    case (Some t)
    then have "Q t" using that by (auto simp: find_Some_iff)
    then show ?thesis using one [OF that] Some by (simp add: add_path_variants_def)
  qed
  have select: "?ok (select_variants P st ys p)" if "?ok ys" for ys p
  proof -
    have "?ok (update_at (tp_set P Only) ys (positions (\<lambda>e. tp_path P e = p) ys ! 0))"
      if "positions (\<lambda>e. tp_path P e = p) ys \<noteq> []"
    proof -
      have "positions (\<lambda>e. tp_path P e = p) ys ! 0 \<in> set (positions (\<lambda>e. tp_path P e = p) ys)"
        using that by (simp add: hd_conv_nth [symmetric])
      then show ?thesis using positions_bound \<open>?ok ys\<close> by (intro update_at_pred sel) blast+
    qed
    moreover have "?ok (foldl (update_at (\<lambda>e. tp_set P (selection_of s (tp_hash P e)) e)) ys
        (positions (\<lambda>e. tp_path P e = p) ys))" for s
      using positions_bound \<open>?ok ys\<close> by (intro update_at_fold_pred sel) blast+
    ultimately show ?thesis using \<open>?ok ys\<close> by (simp add: select_variants_def Let_def split: option.split)
  qed
  have kept: "?ok (remove_discarded P ys d)" if "?ok ys" for ys d
    using that by (simp add: remove_discarded_def)
  have "?ok (foldl (add_path_variants E P st) xs pms)" for pms
    using add all by (rule foldl_keeps [where I = ?ok])
  from foldl_keeps [where I = ?ok, OF kept this]
  have "?ok (foldl (remove_discarded P) (foldl (add_path_variants E P st) xs pms) ds)" for pms ds .
  from foldl_keeps [where I = ?ok, OF select this] show ?thesis by (simp add: materialize_pool_def)
qed

text \<open>The locks of the projection are among those of the original.\<close>

lemma materialize_locks:
  assumes "legal_env E"
  shows "config_lock ` set (config_files_of (materialize_variants E vs snap)) \<subseteq> config_lock ` set (config_files_of snap)"
    and "dropin_lock ` set (drop_ins_of (materialize_variants E vs snap)) \<subseteq> dropin_lock ` set (drop_ins_of snap)"
  unfolding materialize_pools [OF assms] image_subset_iff
  by (rule materialize_pred; simp add: config_pool_def dropin_pool_def lock_defs)+

lemma materialize_storage [simp]:
  "snap_storage (materialize_variants E vs snap) = snap_storage snap"
  by (simp add: materialize_variants_def materialize_config_variants_def materialize_dropin_variants_def
      materialize_quadlet_variants_def materialize_compose_variants_def materialize_language_env_variants_def
      materialize_unmanaged_file_variants_def Let_def)

lemma materialize_changes [simp]:
  "state_changes_of (materialize_variants E vs snap) = state_changes_of snap"
  by (simp add: state_changes_of_def materialize_variants_def materialize_config_variants_def
      materialize_dropin_variants_def materialize_quadlet_variants_def materialize_compose_variants_def
      materialize_language_env_variants_def materialize_unmanaged_file_variants_def Let_def split: option.split)

lemma later_steps_locks:
  "lock_keys (demote_unserved_repo_enabling snap) = lock_keys snap"
  "lock_keys (raise_sensitivity orig snap) = lock_keys snap"
  "lock_keys (clamp_locked_items snap) = lock_keys snap"
proof -
  show "lock_keys (demote_unserved_repo_enabling snap) = lock_keys snap"
    by (simp add: demote_unserved_repo_enabling_def lock_keys_def lock_lists_def)
  show "lock_keys (raise_sensitivity orig snap) = lock_keys snap"
    by (simp add: raise_sensitivity_def lock_keys_def lock_lists_def)
  show "lock_keys (clamp_locked_items snap) = lock_keys snap"
    by (simp add: clamp_locked_items_def lock_keys_def lock_lists_def clamp_config_def clamp_services_def
        clamp_storage_def map_update_all split: option.split)
qed

lemma project_locks:
  assumes "legal_env E"
  shows "config_lock ` set (config_files_of (project_snapshot E X)) \<subseteq> config_lock ` set (config_files_of (rx_original X))"
    and "dropin_lock ` set (drop_ins_of (project_snapshot E X)) \<subseteq> dropin_lock ` set (drop_ins_of (rx_original X))"
    and "map change_lock (state_changes_of (project_snapshot E X)) = map change_lock (state_changes_of (rx_original X))"
    and "map fe_locked (fstab_of (project_snapshot E X)) = map fe_locked (fstab_of (rx_original X))"
proof -
  obtain snap vs where r: "replay E X = (snap, vs)" by fastforce
  have keys: "lock_keys (project_snapshot E X) = lock_keys (materialize_variants E vs snap)"
    by (simp add: project_snapshot_def r later_steps_locks)
  have orig: "lock_keys snap = lock_keys (rx_original X)" using replay_locks [of E X] by (simp add: r)
  show "config_lock ` set (config_files_of (project_snapshot E X)) \<subseteq> config_lock ` set (config_files_of (rx_original X))"
    "dropin_lock ` set (drop_ins_of (project_snapshot E X)) \<subseteq> dropin_lock ` set (drop_ins_of (rx_original X))"
    using keys orig materialize_locks [OF assms, of vs snap] unfolding lock_keys_def prod.inject set_map [symmetric] by metis+
  show "map change_lock (state_changes_of (project_snapshot E X)) = map change_lock (state_changes_of (rx_original X))"
    "map fe_locked (fstab_of (project_snapshot E X)) = map fe_locked (fstab_of (rx_original X))"
    using keys orig by (simp_all add: lock_keys_def fstab_of_def)
qed

section \<open>The locks of a loaded snapshot\<close>

definition host_locked :: "string set \<Rightarrow> inspection_snapshot \<Rightarrow> bool" where
  "host_locked us snap \<longleftrightarrow>
     (\<forall>f \<in> set (config_files_of snap). cf_path f \<in> set MERGE_HOSTILE_PATHS \<longrightarrow> cf_locked f) \<and>
     (\<forall>c \<in> set (state_changes_of snap). ssc_unit c \<in> us \<longrightarrow> ssc_locked c) \<and>
     (\<forall>d \<in> set (drop_ins_of snap). incompatible_unit (di_unit d) \<longrightarrow> di_locked d) \<and>
     (\<forall>e \<in> set (fstab_of snap). fe_locked e)"

text \<open>The incompatible units of the state changes of a snapshot.\<close>

definition hostile_units :: "inspection_snapshot \<Rightarrow> string set" where
  "hostile_units snap = {u \<in> set (map ssc_unit (state_changes_of snap)). incompatible_unit u}"

lemma in_update_all:
  "x \<in> set (update_all p f xs) \<longleftrightarrow> (\<exists>y \<in> set xs. x = (if p y then f y else y))"
  by (induction xs) auto

lemma loaded_host_locked:
  assumes "load_tarball_snapshot parse to_str from_str raw_json = Inr snap"
  shows "host_locked (hostile_units snap) snap"
proof -
  obtain s0 where "snap = mark_raw_sensitive (normalize_merge_hostile_configs (normalize_incompatible_services s0))"
    using assms by (auto simp: load_tarball_snapshot_def load_for_refine_def split: sum.splits)
  then have raw: "snap_config snap = map_option lock_merge_hostile (snap_config s0)"
    "snap_services snap = map_option lock_incompatible (snap_services s0)"
    "snap_storage snap = map_option lock_fstab (snap_storage s0)"
    by (simp_all add: mark_raw_sensitive_def normalize_merge_hostile_configs_def
        normalize_incompatible_services_def on_section_defs)
  show ?thesis
    unfolding host_locked_def hostile_units_def lock_lists_def raw
    by (cases "snap_config s0"; cases "snap_services s0"; cases "snap_storage s0")
      (auto simp: lock_fstab_def lock_merge_hostile_def lock_incompatible_def in_update_all)
qed

lemma initial_configs:
  assumes "f \<in> set (config_files_of (initial_snapshot snapshot))"
  obtains g where "g \<in> set (config_files_of snapshot)" "cf_path f = cf_path g" "cf_locked g \<Longrightarrow> cf_locked f"
proof -
  have step: "cf_path (normalize_config r g) = cf_path g \<and> (cf_locked g \<longrightarrow> cf_locked (normalize_config r g))" for r g
    by (simp add: normalize_config_def Let_def)
  have "\<exists>g \<in> set gs. cf_path f = cf_path g \<and> (cf_locked g \<longrightarrow> cf_locked f)"
    if "f \<in> set (zip_update normalize_config rs gs)" for rs gs
    using that by (induction "normalize_config" rs gs rule: zip_update.induct) (use step in auto)
  then show thesis
    using assms that by (auto simp: config_files_of_def initial_snapshot_sections initial_config_def split: option.splits)
qed

lemma initial_changes:
  "state_changes_of (initial_snapshot snapshot) = state_changes_of snapshot @ orphan_changes snapshot"
  if "orphan_changes = (\<lambda>snap. case snap_services snap of None \<Rightarrow> []
        | Some s \<Rightarrow> List.map_filter (synthesize_shadow s) (svc_drop_ins s))"
  by (simp add: that state_changes_of_def initial_snapshot_sections synthesize_orphan_shadows_def split: option.split)

lemma initial_host_locked:
  assumes "host_locked us snapshot" "us \<subseteq> set (map ssc_unit (state_changes_of snapshot))"
  shows "host_locked us (initial_snapshot snapshot)"
proof -
  have "\<forall>f \<in> set (config_files_of (initial_snapshot snapshot)). cf_path f \<in> set MERGE_HOSTILE_PATHS \<longrightarrow> cf_locked f"
    using assms(1) unfolding host_locked_def by (metis initial_configs)
  moreover have "ssc_unit c \<notin> us" if "synthesize_shadow s d = Some c" "snap_services snapshot = Some s" for s d c
    using that assms(2) by (auto simp: synthesize_shadow_def state_changes_of_def split: if_splits)
  then have "\<forall>c \<in> set (state_changes_of (initial_snapshot snapshot)). ssc_unit c \<in> us \<longrightarrow> ssc_locked c"
    using assms(1) unfolding host_locked_def initial_changes [OF refl]
    by (auto simp: map_filter_def split: option.splits)
  moreover have "drop_ins_of (initial_snapshot snapshot) = drop_ins_of snapshot"
    "fstab_of (initial_snapshot snapshot) = fstab_of snapshot"
    by (simp_all add: lock_lists_def initial_snapshot_sections synthesize_orphan_shadows_def split: option.split)
  ultimately show ?thesis using assms(1) unfolding host_locked_def by auto
qed

lemma projected_host_locked:
  assumes "legal_env E" "host_locked us (rx_original X)"
  shows "host_locked us (project_snapshot E X)"
proof -
  note p = project_locks [OF assms(1), of X]
  have "\<exists>g \<in> set (config_files_of (rx_original X)). config_lock f = config_lock g"
    if "f \<in> set (config_files_of (project_snapshot E X))" for f
    using p(1) that by blast
  moreover have "\<exists>g \<in> set (drop_ins_of (rx_original X)). dropin_lock f = dropin_lock g"
    if "f \<in> set (drop_ins_of (project_snapshot E X))" for f
    using p(2) that by blast
  moreover have "\<exists>g \<in> set (state_changes_of (rx_original X)). change_lock f = change_lock g"
    if "f \<in> set (state_changes_of (project_snapshot E X))" for f
    using arg_cong [OF p(3), of set] that by (metis imageE image_eqI set_map)
  moreover have "fe_locked e" if "e \<in> set (fstab_of (project_snapshot E X))" for e
    using arg_cong [OF p(4), of set] that assms(2) unfolding host_locked_def by (metis imageE image_eqI set_map)
  ultimately show ?thesis
    using assms(2) unfolding host_locked_def lock_defs prod.inject by metis
qed

text \<open>What a projection has locked, it has excluded.\<close>

lemma project_excluded:
  "f \<in> set (config_files_of (project_snapshot E X)) \<Longrightarrow> cf_locked f \<Longrightarrow> \<not> is_included (cf_disposition f)"
  "c \<in> set (state_changes_of (project_snapshot E X)) \<Longrightarrow> ssc_locked c \<Longrightarrow> \<not> is_included (ssc_disposition c)"
  "d \<in> set (drop_ins_of (project_snapshot E X)) \<Longrightarrow> di_locked d \<Longrightarrow> \<not> is_included (di_disposition d)"
  "e \<in> set (fstab_of (project_snapshot E X)) \<Longrightarrow> fe_locked e \<Longrightarrow> \<not> is_included (fe_disposition e)"
  "p \<in> set (packages_of (project_snapshot E X)) \<Longrightarrow> pe_locked p \<Longrightarrow> \<not> is_included (pe_disposition p)"
proof -
  note all = project_no_locked [of E X, unfolded no_locked_included_def clamped_def]
  show "f \<in> set (config_files_of (project_snapshot E X)) \<Longrightarrow> cf_locked f \<Longrightarrow> \<not> is_included (cf_disposition f)"
    using all by (cases "snap_config (project_snapshot E X)") (simp_all add: config_files_of_def)
  show "c \<in> set (state_changes_of (project_snapshot E X)) \<Longrightarrow> ssc_locked c \<Longrightarrow> \<not> is_included (ssc_disposition c)"
    using all by (cases "snap_services (project_snapshot E X)") (simp_all add: state_changes_of_def)
  show "d \<in> set (drop_ins_of (project_snapshot E X)) \<Longrightarrow> di_locked d \<Longrightarrow> \<not> is_included (di_disposition d)"
    using all by (cases "snap_services (project_snapshot E X)") (simp_all add: drop_ins_of_def)
  show "e \<in> set (fstab_of (project_snapshot E X)) \<Longrightarrow> fe_locked e \<Longrightarrow> \<not> is_included (fe_disposition e)"
    using all by (cases "snap_storage (project_snapshot E X)") (simp_all add: fstab_of_def)
  show "p \<in> set (packages_of (project_snapshot E X)) \<Longrightarrow> pe_locked p \<Longrightarrow> \<not> is_included (pe_disposition p)"
    using all by (cases "snap_rpm (project_snapshot E X)") (simp_all add: packages_of_def)
qed

end
