(* ===== verification/PendingFacts.thy ===== *)
theory PendingFacts
  imports ReplayFacts ReviewState
begin

text \<open>
  The pending changes of a session without active entries: what the projection of the bare
  original changes, and so what such a session reports.
\<close>

section \<open>The projection of the bare original\<close>

lemma no_affected: "legal_env E \<Longrightarrow> affected_paths E variant_state_default = []"
  using set_affected_paths [of E variant_state_default]
  by (auto simp: touched_def variant_state_default_def)

lemma materialize_default: "legal_env E \<Longrightarrow> materialize_variants E variant_state_default snap = snap"
  by (simp add: materialize_variants_def no_affected)

lemma project_bare:
  assumes "legal_env E" "active_ops (rx_active X) = []"
  shows "snap_rpm (project_snapshot E X) = map_option (\<lambda>r. demote_rpm (clamp_rpm r)) (snap_rpm (rx_original X))"
    and "snap_config (project_snapshot E X) = map_option clamp_config (snap_config (rx_original X))"
    and "snap_services (project_snapshot E X) = map_option clamp_services (snap_services (rx_original X))"
    and "snap_containers (project_snapshot E X) = map_option clamp_containers (snap_containers (rx_original X))"
    and "snap_baseline (project_snapshot E X) = snap_baseline (rx_original X)"
proof -
  have "replay E X = (rx_original X, variant_state_default)" by (simp add: replay_def assms(2))
  then have "project_snapshot E X = demote_unserved_repo_enabling (clamp_locked_items
      (raise_sensitivity (rx_original X) (rx_original X)))"
    by (simp add: project_snapshot_def materialize_default [OF assms(1)])
  then show "snap_rpm (project_snapshot E X) = map_option (\<lambda>r. demote_rpm (clamp_rpm r)) (snap_rpm (rx_original X))"
    "snap_config (project_snapshot E X) = map_option clamp_config (snap_config (rx_original X))"
    "snap_services (project_snapshot E X) = map_option clamp_services (snap_services (rx_original X))"
    "snap_containers (project_snapshot E X) = map_option clamp_containers (snap_containers (rx_original X))"
    "snap_baseline (project_snapshot E X) = snap_baseline (rx_original X)"
    by (simp_all add: demote_unserved_repo_enabling_def clamp_locked_items_def raise_sensitivity_def
        option.map_comp comp_def)
qed

section \<open>Changed decisions\<close>

definition locked_included :: "('a \<Rightarrow> bool) \<Rightarrow> ('a \<Rightarrow> finding_kind) \<Rightarrow> 'a \<Rightarrow> bool" where
  "locked_included locked disp x \<longleftrightarrow> locked x \<and> is_included (disp x)"

lemma toggled_clamp:
  assumes "\<And>x. disp (f x) = (if locked x then fk_excluded else disp x)"
  shows "toggled disp ident True xs (map f xs) = []"
    and "toggled disp ident False xs (map f xs) = map ident (filter (locked_included locked disp) xs)"
  by (induction xs) (auto simp: toggled_def assms locked_included_def finding_defs)

lemma clamp_config_files:
  "cfg_files (clamp_config c) = map (\<lambda>x. if cf_locked x then x\<lparr>cf_disposition := fk_excluded\<rparr> else x) (cfg_files c)"
  by (simp add: clamp_config_def update_all_def)

lemma toggled_packages:
  "toggled pe_disposition package_item True ps (map (\<lambda>p. demoted r (clamp_package p)) ps) = []"
  "toggled pe_disposition package_item False ps (map (\<lambda>p. demoted r (clamp_package p)) ps) =
     map package_item (filter (locked_included pe_locked pe_disposition) ps)"
  by (rule toggled_clamp [where locked = pe_locked]; simp add: clamp_package_def)+

lemma toggled_configs:
  "toggled cf_disposition i True (cfg_files c) (cfg_files (clamp_config c)) = []"
  "toggled cf_disposition i False (cfg_files c) (cfg_files (clamp_config c)) =
     map i (filter (locked_included cf_locked cf_disposition) (cfg_files c))"
  unfolding clamp_config_files by (rule toggled_clamp [where locked = cf_locked]; simp)+

lemma bare_changes:
  assumes "legal_env E" "active_ops (rx_active X) = []"
  shows "package_changes True (rx_original X) (project_snapshot E X) = []"
    and "package_changes False (rx_original X) (project_snapshot E X) =
      map package_item (filter (locked_included pe_locked pe_disposition) (packages_of (rx_original X)))"
    and "config_changes True (rx_original X) (project_snapshot E X) = []"
    and "config_changes False (rx_original X) (project_snapshot E X) =
      map (\<lambda>e. ItemConfig (cf_path e)) (filter (locked_included cf_locked cf_disposition) (config_files_of (rx_original X)))"
proof -
  have nil: "toggled d i b [] [] = []" for d :: "'a \<Rightarrow> finding_kind" and i b by (simp add: toggled_def)
  have "rpm_packages_added (demote_rpm (clamp_rpm r)) =
      map (\<lambda>p. demoted (clamp_rpm r) (clamp_package p)) (rpm_packages_added r)" for r
    by (simp add: demote_rpm_packages clamp_rpm_packages)
  then show "package_changes True (rx_original X) (project_snapshot E X) = []"
    "package_changes False (rx_original X) (project_snapshot E X) =
      map package_item (filter (locked_included pe_locked pe_disposition) (packages_of (rx_original X)))"
    unfolding package_changes_def packages_of_def project_bare(1) [OF assms] zip_sections_def
    by (cases "snap_rpm (rx_original X)"; simp add: nil toggled_packages)+
  show "config_changes True (rx_original X) (project_snapshot E X) = []"
    "config_changes False (rx_original X) (project_snapshot E X) =
      map (\<lambda>e. ItemConfig (cf_path e)) (filter (locked_included cf_locked cf_disposition) (config_files_of (rx_original X)))"
    unfolding config_changes_def config_files_of_def project_bare(2) [OF assms] zip_sections_def
    by (cases "snap_config (rx_original X)"; simp add: nil toggled_configs)+
qed

section \<open>Changed variants\<close>

text \<open>Entries of the same path and content agree on their selection with the first of them.\<close>

definition agree :: "('a \<Rightarrow> 'a \<Rightarrow> bool) \<Rightarrow> ('a \<Rightarrow> variant_selection) \<Rightarrow> 'a list \<Rightarrow> bool" where
  "agree same sel xs \<longleftrightarrow>
     (\<forall>x \<in> set xs. case List.find (\<lambda>e. same e x) xs of Some p \<Rightarrow> sel p = sel x | None \<Rightarrow> True)"

lemma changed_same:
  assumes "\<And>x y. same (f x) y = same x y" "\<And>x. same x x" "\<And>x. sel (f x) = sel x"
  shows "changed_originals same sel xs (map f xs) = 0 \<longleftrightarrow> agree same sel xs"
    and "added_variants same sel xs (map f xs) = 0"
proof -
  have find: "List.find (\<lambda>e. same e x) (map f xs) = map_option f (List.find (\<lambda>e. same e x) xs)" for x
    by (rule find_map) (rule assms(1))
  have found: "List.find (\<lambda>e. same e x) xs \<noteq> None" if "x \<in> set xs" for x
    using that assms(2) by (auto simp: find_None_iff)
  show "changed_originals same sel xs (map f xs) = 0 \<longleftrightarrow> agree same sel xs"
    unfolding changed_originals_def agree_def find length_0_conv filter_empty_conv
    using found assms(3) by (auto split: option.splits)
  have "\<exists>e \<in> set xs. same e (f x)" if "x \<in> set xs" for x
    using that assms(1,2) by metis
  then show "added_variants same sel xs (map f xs) = 0"
    by (auto simp: added_variants_def filter_empty_conv)
qed

definition variants_agree :: "env \<Rightarrow> inspection_snapshot \<Rightarrow> bool" where
  "variants_agree E snap \<longleftrightarrow>
     agree (same_config E) cf_variant_selection (config_files_of snap) \<and>
     agree (same_drop_in E) di_variant_selection (drop_ins_of snap) \<and>
     agree (same_quadlet E) qu_variant_selection (quadlets_of snap) \<and>
     agree (same_compose E) cpf_variant_selection (compose_files_of snap)"

lemma clamped_pools:
  "svc_drop_ins (clamp_services s) = map (\<lambda>x. if di_locked x then x\<lparr>di_disposition := fk_excluded\<rparr> else x) (svc_drop_ins s)"
  "ctr_quadlet_units (clamp_containers c) =
     map (\<lambda>x. if qu_locked x then x\<lparr>qu_disposition := fk_excluded\<rparr> else x) (ctr_quadlet_units c)"
  "ctr_compose_files (clamp_containers c) =
     map (\<lambda>x. if cpf_locked x then x\<lparr>cpf_disposition := fk_excluded\<rparr> else x) (ctr_compose_files c)"
  by (simp_all add: clamp_services_def clamp_containers_def update_all_def)

lemma pool_changes:
  "variant_changes (same_config E) cf_variant_selection (cfg_files c, cfg_files (clamp_config c)) = 0 \<longleftrightarrow>
     agree (same_config E) cf_variant_selection (cfg_files c)"
  "variant_changes (same_drop_in E) di_variant_selection (svc_drop_ins s, svc_drop_ins (clamp_services s)) = 0 \<longleftrightarrow>
     agree (same_drop_in E) di_variant_selection (svc_drop_ins s)"
  "variant_changes (same_quadlet E) qu_variant_selection (ctr_quadlet_units k, ctr_quadlet_units (clamp_containers k)) = 0
     \<longleftrightarrow> agree (same_quadlet E) qu_variant_selection (ctr_quadlet_units k)"
  "changed_originals (same_compose E) cpf_variant_selection (ctr_compose_files k) (ctr_compose_files (clamp_containers k)) = 0
     \<longleftrightarrow> agree (same_compose E) cpf_variant_selection (ctr_compose_files k)"
proof -
  note c = changed_same [where f = "\<lambda>x. if cf_locked x then x\<lparr>cf_disposition := fk_excluded\<rparr> else x"
      and same = "same_config E" and sel = cf_variant_selection and xs = "cfg_files c"]
  show "variant_changes (same_config E) cf_variant_selection (cfg_files c, cfg_files (clamp_config c)) = 0 \<longleftrightarrow>
     agree (same_config E) cf_variant_selection (cfg_files c)"
    unfolding variant_changes_def clamp_config_files fst_conv snd_conv add_is_0
    by (subst c(1), simp_all add: same_config_def, subst c(2), simp_all add: same_config_def)
  note d = changed_same [where f = "\<lambda>x. if di_locked x then x\<lparr>di_disposition := fk_excluded\<rparr> else x"
      and same = "same_drop_in E" and sel = di_variant_selection and xs = "svc_drop_ins s"]
  show "variant_changes (same_drop_in E) di_variant_selection (svc_drop_ins s, svc_drop_ins (clamp_services s)) = 0 \<longleftrightarrow>
     agree (same_drop_in E) di_variant_selection (svc_drop_ins s)"
    unfolding variant_changes_def clamped_pools fst_conv snd_conv add_is_0
    by (subst d(1), simp_all add: same_drop_in_def, subst d(2), simp_all add: same_drop_in_def)
  note q = changed_same [where f = "\<lambda>x. if qu_locked x then x\<lparr>qu_disposition := fk_excluded\<rparr> else x"
      and same = "same_quadlet E" and sel = qu_variant_selection and xs = "ctr_quadlet_units k"]
  show "variant_changes (same_quadlet E) qu_variant_selection (ctr_quadlet_units k, ctr_quadlet_units (clamp_containers k)) = 0
     \<longleftrightarrow> agree (same_quadlet E) qu_variant_selection (ctr_quadlet_units k)"
    unfolding variant_changes_def clamped_pools fst_conv snd_conv add_is_0
    by (subst q(1), simp_all add: same_quadlet_def, subst q(2), simp_all add: same_quadlet_def)
  note m = changed_same [where f = "\<lambda>x. if cpf_locked x then x\<lparr>cpf_disposition := fk_excluded\<rparr> else x"
      and same = "same_compose E" and sel = cpf_variant_selection and xs = "ctr_compose_files k"]
  show "changed_originals (same_compose E) cpf_variant_selection (ctr_compose_files k) (ctr_compose_files (clamp_containers k)) = 0
     \<longleftrightarrow> agree (same_compose E) cpf_variant_selection (ctr_compose_files k)"
    unfolding clamped_pools by (subst m(1), simp_all add: same_compose_def compose_hash_def)
qed

lemma no_variant_changes: "variant_changes same sel ([], []) = 0" "changed_originals same sel [] [] = 0" "agree same sel []"
  by (simp_all add: variant_changes_def changed_originals_def added_variants_def agree_def)

lemma bare_variants:
  assumes "legal_env E" "active_ops (rx_active X) = []"
  shows "variants_changed E (rx_original X) (project_snapshot E X) = 0 \<longleftrightarrow> variants_agree E (rx_original X)"
proof -
  let ?o = "rx_original X"
  have c: "variant_changes (same_config E) cf_variant_selection
      (zip_sections (snap_config ?o) (map_option clamp_config (snap_config ?o)) cfg_files) = 0 \<longleftrightarrow>
      agree (same_config E) cf_variant_selection (config_files_of ?o)"
    by (cases "snap_config ?o") (simp_all add: zip_sections_def config_files_of_def pool_changes no_variant_changes)
  have d: "variant_changes (same_drop_in E) di_variant_selection
      (zip_sections (snap_services ?o) (map_option clamp_services (snap_services ?o)) svc_drop_ins) = 0 \<longleftrightarrow>
      agree (same_drop_in E) di_variant_selection (drop_ins_of ?o)"
    by (cases "snap_services ?o") (simp_all add: zip_sections_def drop_ins_of_def pool_changes no_variant_changes)
  have q: "variant_changes (same_quadlet E) qu_variant_selection
      (zip_sections (snap_containers ?o) (map_option clamp_containers (snap_containers ?o)) ctr_quadlet_units) = 0 \<longleftrightarrow>
      agree (same_quadlet E) qu_variant_selection (quadlets_of ?o)"
    by (cases "snap_containers ?o") (simp_all add: zip_sections_def quadlets_of_def pool_changes no_variant_changes)
  have m: "(let (os, ps) = zip_sections (snap_containers ?o) (map_option clamp_containers (snap_containers ?o)) ctr_compose_files
      in changed_originals (same_compose E) cpf_variant_selection os ps) = 0 \<longleftrightarrow>
      agree (same_compose E) cpf_variant_selection (compose_files_of ?o)"
    by (cases "snap_containers ?o") (simp_all add: zip_sections_def compose_files_of_def pool_changes no_variant_changes)
  show ?thesis
    unfolding variants_changed_def variants_agree_def project_bare [OF assms] add_is_0 c d q m by blast
qed

section \<open>The changes of the session\<close>

lemma bare_pending:
  assumes "legal_env E" "active_entries s = []"
  shows "chg_sections (pending_changes E s) =
      change_section SecPackage []
        (map package_item (filter (locked_included pe_locked pe_disposition) (packages_of (ses_original s)))) @
      change_section SecConfig []
        (map (\<lambda>e. ItemConfig (cf_path e)) (filter (locked_included cf_locked cf_disposition) (config_files_of (ses_original s))))"
    and "chg_variants_changed (pending_changes E s) = 0 \<longleftrightarrow> variants_agree E (ses_original s)"
    and "is_dirty E s \<longleftrightarrow> chg_sections (pending_changes E s) \<noteq> [] \<or> \<not> variants_agree E (ses_original s)"
proof -
  let ?X = "replay_context_of s"
  have ops: "active_ops (rx_active ?X) = []" by (simp add: replay_context_of_def assms(2))
  have orig: "rx_original ?X = ses_original s" by (simp add: replay_context_of_def)
  note changes = bare_changes [OF assms(1) ops, unfolded orig] bare_variants [OF assms(1) ops, unfolded orig]
  have "env_order E [] = []"
    using assms(1) by (simp add: legal_env_def legal_order_def) (metis mset_zero_iff)
  then have repo: "change_section SecRepo [] (repo_changes E (active_entries s)) = []"
    by (simp add: repo_changes_def assms(2) excluded_sections_at_def active_ops_def change_section_def)
  have sections: "chg_sections (pending_changes E s) =
      change_section SecPackage []
        (map package_item (filter (locked_included pe_locked pe_disposition) (packages_of (ses_original s)))) @
      change_section SecConfig []
        (map (\<lambda>e. ItemConfig (cf_path e)) (filter (locked_included cf_locked cf_disposition) (config_files_of (ses_original s))))"
    and variants: "chg_variants_changed (pending_changes E s) = 0 \<longleftrightarrow> variants_agree E (ses_original s)"
    by (simp_all add: pending_changes_def Let_def snapshot_projected_def changes repo)
  show "chg_sections (pending_changes E s) =
      change_section SecPackage []
        (map package_item (filter (locked_included pe_locked pe_disposition) (packages_of (ses_original s)))) @
      change_section SecConfig []
        (map (\<lambda>e. ItemConfig (cf_path e)) (filter (locked_included cf_locked cf_disposition) (config_files_of (ses_original s))))"
    and "chg_variants_changed (pending_changes E s) = 0 \<longleftrightarrow> variants_agree E (ses_original s)"
    by (fact sections variants)+
  have "is_dirty E s \<longleftrightarrow>
      list_ex (\<lambda>sec. scs_included sec \<noteq> [] \<or> scs_excluded sec \<noteq> []) (chg_sections (pending_changes E s))
      \<or> chg_variants_changed (pending_changes E s) \<noteq> 0"
    by (simp add: is_dirty_def pending_changes_def Let_def assms(2))
  moreover have "list_ex (\<lambda>sec. scs_included sec \<noteq> [] \<or> scs_excluded sec \<noteq> []) (chg_sections (pending_changes E s))
      \<longleftrightarrow> chg_sections (pending_changes E s) \<noteq> []"
    unfolding sections by (simp add: change_section_def)
  ultimately show "is_dirty E s \<longleftrightarrow> chg_sections (pending_changes E s) \<noteq> [] \<or> \<not> variants_agree E (ses_original s)"
    using variants by (simp only:)
qed

end
