(* ===== verification/ResumeFacts.thy ===== *)
theory ResumeFacts
  imports DefaultFacts ReviewState ReplayFacts
begin

text \<open>
  Normalising a normalised snapshot. The constructor is idempotent on a snapshot without
  orphan full shadows; the entry it synthesises for one changes the evidence the next
  constructor sees.
\<close>

section \<open>What a package's default depends on\<close>

lemma normalize_package_locked:
  "pe_locked (normalize_package L r p) =
     (if is_anaconda_classified (tt_primary_reason (rp_triage r)) then pe_locked (rp_entry r) else pe_locked p)"
  by (simp add: normalize_package_def Let_def)

lemma normalize_package_eq:
  "normalize_package L r p = p\<lparr>pe_disposition := pe_disposition (normalize_package L r p),
     pe_locked := pe_locked (normalize_package L r p)\<rparr>"
  by (cases p) (simp add: normalize_package_def Let_def del: is_anaconda_classified.simps)

lemma anaconda_step_locked:
  "pe_locked (rp_entry (anaconda_step ev q)) \<longleftrightarrow>
     pe_locked (rp_entry q) \<or> (pe_source_repo (rp_entry q) = ''anaconda'' \<and> is_platform_plumbing (pe_name (rp_entry q)))"
  by (simp add: anaconda_step_def Let_def retag_def lock_package_def)

lemma default_locked:
  "pe_locked (default_package snap rpm p) \<longleftrightarrow>
     pe_locked p \<or> (pe_source_repo p = ''anaconda'' \<and> is_platform_plumbing (pe_name p))"
proof (cases "pe_source_repo p = ''anaconda'' \<and> is_platform_plumbing (pe_name p)")
  case True
  then have "tt_primary_reason (rp_triage (classified snap rpm p)) = PackagePlatformPlumbing"
    by (simp add: classified_def anaconda_step_def classify_entry_fields Let_def retag_def lock_package_def)
  then show ?thesis
    using True by (simp add: default_package_def normalize_package_locked)
      (simp add: classified_def anaconda_step_locked classify_entry_fields)
next
  case False
  then have "pe_locked (rp_entry (classified snap rpm p)) = pe_locked p"
    by (auto simp: classified_def anaconda_step_locked classify_entry_fields)
  then show ?thesis
    using False unfolding default_package_def normalize_package_locked by (simp only: if_cancel) auto
qed

lemma default_package_eq:
  "default_package snap rpm p = p\<lparr>
     pe_disposition := fk_from_bool (package_rule snap rpm p),
     pe_locked := pe_locked p \<or> (pe_source_repo p = ''anaconda'' \<and> is_platform_plumbing (pe_name p))\<rparr>"
proof -
  obtain d l where eq: "default_package snap rpm p = p\<lparr>pe_disposition := d, pe_locked := l\<rparr>"
    using normalize_package_eq unfolding default_package_def by blast
  have "d = fk_from_bool (package_rule snap rpm p)"
    "l = (pe_locked p \<or> (pe_source_repo p = ''anaconda'' \<and> is_platform_plumbing (pe_name p)))"
    using default_rule [of snap rpm p] default_locked [of snap rpm p] by (simp_all add: eq)
  then show ?thesis by (simp only: eq)
qed

text \<open>What the evidence reads.\<close>

definition config_facts :: "inspection_snapshot \<Rightarrow> (string \<times> config_file_kind) list" where
  "config_facts snap = map (\<lambda>f. (cf_path f, cf_kind f)) (config_files_of snap)"

lemma evidence_cong:
  assumes "config_facts a = config_facts b" "file_ownership_of a = file_ownership_of b"
    and "state_changes_of a = state_changes_of b" "snap_services a = None \<longleftrightarrow> snap_services b = None"
    and "snap_config a = None \<longleftrightarrow> snap_config b = None"
  shows "anaconda_evidence_of a = anaconda_evidence_of b"
proof -
  have ex: "(\<exists>f \<in> set (config_files_of s). P (cf_path f) (cf_kind f)) \<longleftrightarrow> (\<exists>(q, k) \<in> set (config_facts s). P q k)"
    for P s by (auto simp: config_facts_def)
  have "(\<exists>f \<in> set (config_files_of a). P (cf_path f) (cf_kind f)) \<longleftrightarrow>
      (\<exists>f \<in> set (config_files_of b). P (cf_path f) (cf_kind f))" for P
    unfolding ex assms(1) ..
  from this [of "\<lambda>q k. k = CfgRpmOwnedModified \<and> q \<in> S" for S] this [of "\<lambda>q k. k = CfgRpmOwnedModified \<and> q \<notin> S" for S]
  show ?thesis
    by (simp add: anaconda_evidence_of_def build_user_enabled_service_set_def build_modified_config_set_def assms)
qed

lemma config_paths_of: "map cf_path (config_files_of s) = map fst (config_facts s)"
  by (simp add: config_facts_def comp_def)

lemma rule_cong:
  assumes "anaconda_evidence_of a = anaconda_evidence_of b" "snap_baseline a = snap_baseline b"
    and "config_facts a = config_facts b"
    and "rpm_baseline_suppressed r = rpm_baseline_suppressed q" "rpm_file_ownership r = rpm_file_ownership q"
    and "rpm_version_changes r = rpm_version_changes q" "leaf_set_of r = leaf_set_of q"
  shows "package_rule a r (p\<lparr>pe_disposition := d, pe_locked := l\<rparr>) = package_rule b q p"
proof -
  let ?p = "p\<lparr>pe_disposition := d, pe_locked := l\<rparr>"
  have "pkg_id ?p = pkg_id p" by (simp add: pkg_id_def)
  moreover from this have "is_leaf r ?p = is_leaf q p" using assms(7) by (simp add: is_leaf_def split: option.split)
  moreover have "unknown_origin ?p = unknown_origin p" by (simp add: unknown_origin_def)
  moreover have "captured a r ?p = captured b q p"
    using assms(3,5) by (simp add: captured_def config_captured_def config_paths_of)
  moreover have "baseline_names a = baseline_names b" using assms(2) by (simp add: baseline_names_def)
  moreover have "is_downgraded (rpm_version_changes r) ?p = is_downgraded (rpm_version_changes q) p"
    using assms(6) by (simp add: is_downgraded_def)
  moreover have "pe_repoless_annotation ?p = pe_repoless_annotation p" "pe_aggregate ?p = pe_aggregate p"
    "pe_source_repo ?p = pe_source_repo p" "pe_name ?p = pe_name p" "pe_state ?p = pe_state p" by simp_all
  ultimately show ?thesis
    unfolding package_rule_def Let_def using assms(1,4) by (simp only:)
qed

section \<open>Configuration files\<close>

definition config_tag :: "refined_config \<Rightarrow> string \<times> triage_tag" where
  "config_tag c = (cf_path (rcf_entry c), rcf_triage c)"

lemma surface_hint_tags:
  "map config_tag cs = map config_tag ds \<Longrightarrow>
     map config_tag (surface_hint cs h) = map config_tag (surface_hint ds h)"
proof (induction cs ds rule: list_induct2')
  case (4 c cs d ds)
  then show ?case by (auto simp: surface_hint_def config_tag_def)
qed auto

lemma hints_tags:
  "map config_tag cs = map config_tag ds \<Longrightarrow>
     map config_tag (foldl surface_hint cs hs) = map config_tag (foldl surface_hint ds hs)"
proof (induction hs arbitrary: cs ds)
  case (Cons h hs)
  show ?case using Cons.IH [OF surface_hint_tags [OF Cons.prems]] by simp
qed simp

lemma classify_configs_tags:
  assumes "config_facts a = config_facts b" "snap_redaction_state a = snap_redaction_state b"
  shows "map rcf_triage (classify_configs a) = map rcf_triage (classify_configs b)"
proof -
  let ?tag = "\<lambda>(path, kind). (path, single_tag (fst (config_kind_triage kind)) (snd (config_kind_triage kind))
      (if is_sensitive_path path \<and> \<not> is_os_default_sensitive path then [SensitivePath] else []))"
  have "map config_tag (map classify_config (config_files_of s)) = map ?tag (config_facts s)" for s
    by (simp add: config_facts_def config_tag_def classify_config_def comp_def split_beta)
  then have "map config_tag (classify_configs a) = map config_tag (classify_configs b)"
    unfolding classify_configs_def assms(2) by (intro hints_tags) (simp only: assms(1))
  then have "map snd (map config_tag (classify_configs a)) = map snd (map config_tag (classify_configs b))"
    by (rule arg_cong)
  then show ?thesis by (simp add: config_tag_def comp_def)
qed

lemma normalize_config_twice:
  "rcf_triage r = rcf_triage r' \<Longrightarrow> normalize_config r' (normalize_config r f) = normalize_config r f"
  by (cases "tag_bucket (rcf_triage r')") (auto simp: normalize_config_def Let_def finding_defs)

lemma zip_update_twice:
  assumes "map rcf_triage rs = map rcf_triage qs"
  shows "zip_update normalize_config qs (zip_update normalize_config rs fs) = zip_update normalize_config rs fs"
  using assms
proof (induction rs qs arbitrary: fs rule: list_induct2')
  case (4 r rs q qs)
  then show ?case by (cases fs) (simp_all add: normalize_config_twice)
qed auto

lemma zip_update_facts:
  "map (\<lambda>f. (cf_path f, cf_kind f)) (zip_update normalize_config rs fs) = map (\<lambda>f. (cf_path f, cf_kind f)) fs"
  by (induction "normalize_config" rs fs rule: zip_update.induct) auto

section \<open>The constructor is idempotent\<close>

definition orphan_shadows :: "inspection_snapshot \<Rightarrow> service_state_change list" where
  "orphan_shadows snap =
     (case snap_services snap of None \<Rightarrow> [] | Some s \<Rightarrow> List.map_filter (synthesize_shadow s) (svc_drop_ins s))"

lemma update_all_twice: "(\<And>x. p x \<Longrightarrow> f (f x) = f x \<and> p (f x)) \<Longrightarrow> update_all p f (update_all p f xs) = update_all p f xs"
  by (induction xs) auto

lemma services_kept:
  "orphan_shadows snapshot = [] \<Longrightarrow> snap_services (initial_snapshot snapshot) = snap_services snapshot"
  by (auto simp: initial_snapshot_sections orphan_shadows_def synthesize_orphan_shadows_def split: option.splits)

lemma initial_leaves: "clear_leaves (initial_snapshot snapshot) = initial_snapshot snapshot"
proof (cases "snap_aggregate_meta snapshot")
  case None
  then have "snap_aggregate_meta (initial_snapshot snapshot) = None" by (simp add: initial_snapshot_sections)
  then show ?thesis by (simp add: clear_leaves_def [of "initial_snapshot snapshot"])
next
  case (Some meta)
  let ?i = "initial_snapshot snapshot"
  have "map_option (\<lambda>r. r\<lparr>rpm_leaf_packages := None\<rparr>) (snap_rpm ?i) = snap_rpm ?i"
    using Some by (cases "snap_rpm snapshot") (simp_all add: initial_snapshot_sections clear_leaves_rpm initial_rpm_def)
  then show ?thesis by (simp add: clear_leaves_def [of ?i] on_rpm_def)
qed

lemma initial_facts: "config_facts (initial_snapshot snapshot) = config_facts (clear_leaves snapshot)"
  by (simp add: config_facts_def config_files_of_def initial_snapshot_sections initial_config_def
      zip_update_facts split: option.split)

lemma initial_evidence:
  assumes "orphan_shadows snapshot = []"
  shows "anaconda_evidence_of (initial_snapshot snapshot) = anaconda_evidence_of (clear_leaves snapshot)"
  by (rule evidence_cong [OF initial_facts])
    (simp_all add: services_kept [OF assms] state_changes_of_def, simp_all add: initial_snapshot_sections
      file_ownership_of_def initial_rpm_def split: option.split)

lemma initial_rpm_twice:
  assumes no_shadows: "orphan_shadows snapshot = []" and "snap_rpm (clear_leaves snapshot) = Some r"
  shows "initial_rpm (initial_snapshot snapshot) (initial_rpm (clear_leaves snapshot) r) =
    initial_rpm (clear_leaves snapshot) r"
proof -
  have "package_rule (initial_snapshot snapshot) (initial_rpm (clear_leaves snapshot) r)
      (p\<lparr>pe_disposition := d, pe_locked := l\<rparr>) = package_rule (clear_leaves snapshot) r p" for p d l
    by (rule rule_cong [OF initial_evidence [OF no_shadows] _ initial_facts])
      (simp_all add: initial_rpm_def leaf_set_of_def, simp add: initial_snapshot_sections)
  then have "default_package (initial_snapshot snapshot) (initial_rpm (clear_leaves snapshot) r)
      (default_package (clear_leaves snapshot) r p) = default_package (clear_leaves snapshot) r p" for p
    by (simp add: default_package_eq)
  then show ?thesis
    by (simp add: initial_rpm_def [of "initial_snapshot snapshot"] update_all_twice)
      (simp add: initial_rpm_def update_all_twice)
qed

lemma initial_config_twice:
  assumes "snap_config snapshot = Some c"
  shows "initial_config (initial_snapshot snapshot) (initial_config (clear_leaves snapshot) c) =
    initial_config (clear_leaves snapshot) c"
proof -
  have "map rcf_triage (classify_configs (clear_leaves snapshot)) = map rcf_triage (classify_configs (initial_snapshot snapshot))"
    by (rule classify_configs_tags [OF initial_facts [symmetric]]) (simp add: initial_snapshot_sections)
  from zip_update_twice [OF this] show ?thesis by (simp add: initial_config_def)
qed

lemma initial_non_rpm_twice: "initial_non_rpm (initial_non_rpm n) = initial_non_rpm n"
  by (simp add: initial_non_rpm_def update_all_twice is_language_env_def is_pip_env_def is_npm_env_def
      is_npm_global_env_def is_gem_env_def)

lemma initial_twice:
  assumes no_shadows: "orphan_shadows snapshot = []"
  shows "initial_snapshot (initial_snapshot snapshot) = initial_snapshot snapshot"
proof -
  let ?i = "initial_snapshot snapshot" and ?s = "clear_leaves snapshot"
  have "snap_rpm ?i = map_option (initial_rpm ?s) (snap_rpm ?s)"
    "snap_config ?i = map_option (initial_config ?s) (snap_config snapshot)"
    "snap_non_rpm_software ?i = map_option initial_non_rpm (snap_non_rpm_software snapshot)"
    by (simp_all add: initial_snapshot_sections [of snapshot])
  then have "map_option (initial_rpm ?i) (snap_rpm ?i) = snap_rpm ?i"
    "map_option (initial_config ?i) (snap_config ?i) = snap_config ?i"
    "map_option initial_non_rpm (snap_non_rpm_software ?i) = snap_non_rpm_software ?i"
    using initial_rpm_twice [OF no_shadows] initial_config_twice
    by (cases "snap_rpm ?s"; cases "snap_config snapshot"; cases "snap_non_rpm_software snapshot";
        simp add: initial_non_rpm_twice)+
  moreover have "map_option synthesize_orphan_shadows (snap_services ?i) = snap_services ?i"
    using no_shadows unfolding services_kept [OF no_shadows]
    by (auto simp: orphan_shadows_def synthesize_orphan_shadows_def split: option.splits)
  ultimately show ?thesis
    unfolding initial_snapshot_sections [of ?i] initial_leaves by simp
qed

section \<open>The index and the rest of the session\<close>

lemma index_files_update:
  "index_files (update_all p (\<lambda>rf. rf\<lparr>rf_disposition := d\<rparr>) fs) = index_files fs"
proof -
  have "foldl index_file st (update_all p (\<lambda>rf. rf\<lparr>rf_disposition := d\<rparr>) fs) = foldl index_file st fs" for st
    by (induction fs arbitrary: st) (auto simp: index_file_def)
  then show ?thesis by (simp add: index_files_def)
qed

lemma index_packages_default:
  "foldl index_package m (map (default_package snap rpm) ps) = foldl index_package m ps"
  by (induction ps arbitrary: m) (simp_all add: index_package_def)

lemma index_of_initial: "repo_index_build (initial_snapshot snapshot) = repo_index_build snapshot"
  by (cases "snap_rpm snapshot")
    (simp_all add: repo_index_build_def initial_snapshot_sections clear_leaves_rpm initial_rpm_def
      index_files_update index_packages_default Let_def)

lemma baseline_names_of_initial: "baseline_names_present (initial_snapshot snapshot) = baseline_names_present snapshot"
  by (cases "snap_rpm snapshot")
    (simp_all add: baseline_names_present_def initial_snapshot_sections clear_leaves_rpm initial_rpm_def)

lemma original_of_new: "ses_original (rv_session (session_new E snapshot)) = initial_snapshot snapshot"
  by (simp add: session_new_def Let_def session_start_def)

lemma session_new_twice:
  "orphan_shadows snapshot = [] \<Longrightarrow> session_new E (initial_snapshot snapshot) = session_new E snapshot"
  by (simp add: session_new_def Let_def initial_twice index_of_initial baseline_names_of_initial)

text \<open>The session a saved state restores, from any session on the same original.\<close>

lemma restored_session:
  assumes "session_ok E (initial_snapshot snapshot) (repo_index_build snapshot) s"
  shows "rv_session (restore_timeline E (saved_state path hash at s) (session_new E snapshot)) = s\<lparr>ses_generation := 0\<rparr>"
  using assms
  by (cases s) (simp add: restore_timeline_def saved_state_def session_new_def session_start_def Let_def
      recompute_view_def session_ok_def snapshot_projected_def replay_context_of_def active_entries_def)

end
