(* ===== verification/ReviewProperties.thy ===== *)
theory ReviewProperties
  imports LockFacts PendingFacts ResumeFacts RefineProperties
begin

text \<open>
  The properties of a review session from its constructor on: the defaults of the packages,
  the locks that survive every operation, what the view shows, the pending changes, undoing
  everything, and resuming a saved session.
\<close>

section \<open>The defaults\<close>


text \<open>The bootloader's helper as the installer leaves it, beside a third-party package.\<close>

definition plumbing_package :: package_entry where
  "plumbing_package = small_package\<lparr>pe_name := ''grubby'', pe_source_repo := ''anaconda''\<rparr>"

definition plumbing_rpm :: rpm_section where
  "plumbing_rpm = small_rpm\<lparr>rpm_packages_added := [small_package, plumbing_package]\<rparr>"

definition plumbing_snapshot :: inspection_snapshot where
  "plumbing_snapshot = snapshot_new\<lparr>snap_rpm := Some plumbing_rpm\<rparr>"

lemma plumbing_fields [simp]:
  "snap_aggregate_meta plumbing_snapshot = None" "snap_rpm plumbing_snapshot = Some plumbing_rpm"
  "packages_of plumbing_snapshot = [small_package, plumbing_package]"
  by (simp_all add: plumbing_snapshot_def plumbing_rpm_def snapshot_new_def packages_of_def)

lemma plumbing_uncleared [simp]: "clear_leaves plumbing_snapshot = plumbing_snapshot"
  by (simp add: clear_leaves_def)

lemma plumbing_names: "is_platform_plumbing ''grubby''" "\<not> is_platform_plumbing ''tool''"
  by code_simp+


section \<open>Locks\<close>

text \<open>C12. The installer's platform plumbing never reaches the image: in every session a snapshot can
  reach, whatever operations are applied, undone or redone, no projected package that came from
  the installer and belongs to the boot chain is included.
\<close>

theorem plumbing_never_included:
  assumes "session_reachable R (initial_snapshot snapshot) idx s"
    and "p \<in> set (packages_of (snapshot_projected (core_env R) s))"
    and "pe_source_repo p = ''anaconda''" "is_platform_plumbing (pe_name p)"
  shows "\<not> is_included (pe_disposition p)"
proof -
  let ?X = "replay_context_of s"
  have orig: "rx_original ?X = initial_snapshot snapshot"
    using session_ok_reachable [OF assms(1)] by (simp add: session_ok_def replay_context_of_def)
  have "package_key p \<in> set (package_keys (initial_snapshot snapshot))"
    using assms(2) project_keys [of "core_env R" ?X] unfolding orig snapshot_projected_def
    by (metis image_eqI set_map)
  then obtain q where q: "q \<in> set (packages_of (initial_snapshot snapshot))" "package_key p = package_key q"
    by auto
  obtain rpm where rpm: "snap_rpm (clear_leaves snapshot) = Some rpm"
    using q(1) by (cases "snap_rpm (clear_leaves snapshot)") (simp_all add: packages_of_def initial_snapshot_sections)
  then obtain g where "q = default_package (clear_leaves snapshot) rpm g"
    using q(1) by (auto simp: packages_of_def initial_snapshot_sections initial_rpm_def)
  then have "pe_locked p"
    using q(2) assms(3,4) by (simp add: package_key_def default_locked)
  then show ?thesis using project_excluded(5) assms(2) unfolding snapshot_projected_def by blast
qed

text \<open>The projected plumbing package of the session that was asked to include it.\<close>

definition plumbing_start :: refine_session where
  "plumbing_start = rv_session (session_new small_env plumbing_snapshot)"

lemma plumbing_reach:
  "session_reachable small_renv (initial_snapshot plumbing_snapshot) (repo_index_build plumbing_snapshot) plumbing_start"
  using reach_start [of small_renv "initial_snapshot plumbing_snapshot" "repo_index_build plumbing_snapshot"]
  by (simp add: plumbing_start_def session_new_def Let_def)

lemma reach_batch:
  "session_reachable R original idx s \<Longrightarrow>
     session_reachable R original idx (snd (apply_batch (core_env R) ps s))"
  by (rule reach_step, assumption, rule step_batch) (rule prod.collapse [symmetric])

lemma projected_key_found:
  assumes "session_reachable R original idx s" "k \<in> set (package_keys original)"
  obtains p where "p \<in> set (packages_of (snapshot_projected (core_env R) s))" "package_key p = k"
proof -
  have "rx_original (replay_context_of s) = original"
    using session_ok_reachable [OF assms(1)] by (simp add: session_ok_def replay_context_of_def)
  then have "k \<in> set (package_keys (snapshot_projected (core_env R) s))"
    using assms(2) project_keys [of "core_env R" "replay_context_of s"] by (simp add: snapshot_projected_def)
  then show thesis using that by auto
qed

theorem plumbing_never_included_witness:
  "\<exists>p \<in> set (packages_of (snapshot_projected small_env
      (snd (apply_batch small_env [SetInclude (ItemPackage ''grubby'' ''x86_64'') True] plumbing_start)))).
    pe_name p = ''grubby'' \<and> \<not> is_included (pe_disposition p)"
proof -
  let ?s = "snd (apply_batch small_env [SetInclude (ItemPackage ''grubby'' ''x86_64'') True] plumbing_start)"
  have reach: "session_reachable small_renv (initial_snapshot plumbing_snapshot) (repo_index_build plumbing_snapshot) ?s"
    using reach_batch [OF plumbing_reach] by simp
  have "(''grubby'', ''x86_64'', True, ''anaconda'') \<in> set (package_keys (initial_snapshot plumbing_snapshot))"
    by (simp add: packages_of_def initial_snapshot_sections initial_rpm_def plumbing_rpm_def package_key_def
        default_locked) (simp add: plumbing_package_def plumbing_names small_package_def)
  from projected_key_found [OF reach this] obtain p where p: "p \<in> set (packages_of (snapshot_projected small_env ?s))"
      "package_key p = (''grubby'', ''x86_64'', True, ''anaconda'')" by auto
  then have "pe_name p = ''grubby''" "pe_source_repo p = ''anaconda''" by (simp_all add: package_key_def)
  then show ?thesis
    using plumbing_never_included [OF reach, of p] p(1) plumbing_names by auto
qed

text \<open>C10. What belongs to the host never reaches the image. For a snapshot as \<open>tarball.rs\<close> loads it,
  and whatever a session does with it, no configuration file that fights the merge of \<open>/etc\<close>,
  no \<open>fstab\<close> entry, no drop-in of a service that cannot work in image mode and no captured
  state change of such a service is ever included, also not through a variant a user adds.
\<close>

theorem host_state_never_included:
  assumes "load_tarball_snapshot parse to_str from_str raw_json = Inr snapshot"
    and "session_reachable R (initial_snapshot snapshot) idx s" and "legal_env (core_env R)"
  shows "(\<forall>f \<in> set (config_files_of (snapshot_projected (core_env R) s)).
      cf_path f \<in> set MERGE_HOSTILE_PATHS \<longrightarrow> \<not> is_included (cf_disposition f)) \<and>
    (\<forall>e \<in> set (fstab_of (snapshot_projected (core_env R) s)). \<not> is_included (fe_disposition e)) \<and>
    (\<forall>d \<in> set (drop_ins_of (snapshot_projected (core_env R) s)).
      incompatible_unit (di_unit d) \<longrightarrow> \<not> is_included (di_disposition d)) \<and>
    (\<forall>c \<in> set (state_changes_of (snapshot_projected (core_env R) s)).
      ssc_unit c \<in> hostile_units snapshot \<longrightarrow> \<not> is_included (ssc_disposition c))"
proof -
  have orig: "rx_original (replay_context_of s) = initial_snapshot snapshot"
    using session_ok_reachable [OF assms(2)] by (simp add: session_ok_def replay_context_of_def)
  have "host_locked (hostile_units snapshot) (initial_snapshot snapshot)"
    by (rule initial_host_locked [OF loaded_host_locked [OF assms(1)]]) (auto simp: hostile_units_def)
  then have "host_locked (hostile_units snapshot) (snapshot_projected (core_env R) s)"
    unfolding snapshot_projected_def using projected_host_locked [OF assms(3)] orig by metis
  then show ?thesis
    using project_excluded [where E = "core_env R" and X = "replay_context_of s"]
    unfolding host_locked_def snapshot_projected_def by blast
qed

text \<open>An archive with the two files a merge cannot carry.\<close>

definition crypttab :: config_file_entry where
  "crypttab = \<lparr> cf_path = ''/etc/crypttab'', cf_kind = CfgUnowned, cf_category = CatOther, cf_content = ''c'',
     cf_rpm_va_flags = None, cf_package = None, cf_diff_against_rpm = None, cf_disposition = Actionable True,
     cf_locked = False, cf_variant_selection = Only, cf_aggregate = None, cf_attention_reason = None,
     cf_shadowed_by = None \<rparr>"

definition root_mount :: fstab_entry where
  "root_mount = \<lparr> fe_device = ''/dev/sda1'', fe_mount_point = ''/data'', fe_fstype = ''xfs'', fe_options = ''defaults'',
     fe_disposition = Actionable True, fe_locked = False, fe_acknowledged = False, fe_aggregate = None,
     fe_attention_reason = None \<rparr>"

definition archived :: inspection_snapshot where
  "archived = snapshot_new\<lparr>snap_config := Some \<lparr>cfg_files = [crypttab]\<rparr>,
     snap_storage := Some \<lparr> sto_fstab_entries = [root_mount], sto_mount_points = [], sto_lvm_info = [],
       sto_var_directories = [], sto_credential_refs = [], sto_unbacked_var_advisory = None \<rparr>\<rparr>"

definition loaded :: inspection_snapshot where
  "loaded = normalize_merge_hostile_configs (normalize_incompatible_services archived)"

lemma archive_loads: "load_tarball_snapshot (\<lambda>_. Inr JNull) (\<lambda>_. Inr []) (\<lambda>_. Inr archived) [] = Inr loaded"
  by (simp add: load_tarball_snapshot_def load_for_refine_def snapshot_load_def archived_def snapshot_new_def
      MIN_SCHEMA_def SCHEMA_VERSION_def validate_provenance_def mark_raw_sensitive_def loaded_def
      normalize_merge_hostile_configs_def normalize_incompatible_services_def on_section_defs)

lemma projected_lists:
  assumes "session_reachable R (initial_snapshot snapshot) idx s" "legal_env (core_env R)"
  shows "length (fstab_of (snapshot_projected (core_env R) s)) = length (fstab_of snapshot)"
proof -
  have orig: "rx_original (replay_context_of s) = initial_snapshot snapshot"
    using session_ok_reachable [OF assms(1)] by (simp add: session_ok_def replay_context_of_def)
  have "fstab_of (initial_snapshot snapshot) = fstab_of snapshot"
    by (simp add: fstab_of_def initial_snapshot_sections)
  then show ?thesis
    using arg_cong [OF project_locks(4) [OF assms(2), of "replay_context_of s"], of length] orig
    by (simp add: snapshot_projected_def)
qed

definition loaded_start :: refine_session where
  "loaded_start = session_start small_env (initial_snapshot loaded) (repo_index_build loaded)"

lemma loaded_reach: "session_reachable small_renv (initial_snapshot loaded) (repo_index_build loaded) loaded_start"
  unfolding loaded_start_def
  using reach_start [of small_renv "initial_snapshot loaded" "repo_index_build loaded"] by simp

theorem host_state_never_included_witness:
  "\<exists>e. fstab_of (snapshot_projected small_env loaded_start) = [e] \<and> \<not> is_included (fe_disposition e)"
proof -
  have "length (fstab_of loaded) = 1"
    by (simp add: loaded_def archived_def normalize_merge_hostile_configs_def normalize_incompatible_services_def
        on_section_defs lock_fstab_def fstab_of_def)
  then have "length (fstab_of (snapshot_projected small_env loaded_start)) = Suc 0"
    using projected_lists [OF loaded_reach] small_legal by simp
  then obtain e where "fstab_of (snapshot_projected small_env loaded_start) = [e]"
    by (auto simp: length_Suc_conv)
  then show ?thesis
    using host_state_never_included [OF archive_loads loaded_reach] small_legal by simp
qed

section \<open>Pending changes\<close>

text \<open>A session without active operations reports no inclusion, and it is dirty exactly when a locked
  package or configuration file is still marked as included, or entries of the same path and
  content disagree on which variant is selected. So with locked items excluded and distinct
  variants an untouched session, or one whose every operation was undone, is never dirty.
\<close>

theorem untouched_session_dirty:
  assumes "legal_env E" "active_entries s = []"
  shows "(is_dirty E s \<longleftrightarrow>
      (\<exists>p \<in> set (packages_of (ses_original s)). pe_locked p \<and> is_included (pe_disposition p)) \<or>
      (\<exists>f \<in> set (config_files_of (ses_original s)). cf_locked f \<and> is_included (cf_disposition f)) \<or>
      \<not> variants_agree E (ses_original s)) \<and>
    list_all (\<lambda>sec. scs_included sec = []) (chg_sections (pending_changes E s))"
  unfolding bare_pending [OF assms]
  by (auto simp: change_section_def locked_included_def filter_empty_conv)

lemma small_variants: "variants_agree small_env small_snapshot"
  by (simp add: variants_agree_def agree_def config_files_of_def drop_ins_of_def quadlets_of_def compose_files_of_def
      small_snapshot_def snapshot_new_def)

lemma small_dropped: "snd (apply_batch small_env [drop_tool] small_start) = record_entry small_env (BatchEntry [drop_tool]) small_start"
  by (simp add: apply_batch_def drop_tool_def)

lemma undo_record:
  "ses_cursor s \<le> length (ses_timeline s) \<Longrightarrow> active_entries (snd (undo E (record_entry E e s))) = active_entries s"
  by (simp add: undo_def active_entries_def)

theorem untouched_session_dirty_witness:
  "\<not> is_dirty small_env (snd (undo small_env (snd (apply_batch small_env [drop_tool] small_start))))"
proof -
  let ?s = "snd (undo small_env (snd (apply_batch small_env [drop_tool] small_start)))"
  have orig: "ses_original ?s = small_snapshot"
    using session_ok_reachable [OF small_reach_batch] by (simp add: session_ok_def)
  have "active_entries ?s = []"
    unfolding small_dropped by (rule trans [OF undo_record small_active]) (simp add: session_start_def)
  from untouched_session_dirty [OF small_legal this] orig small_variants show ?thesis
    by (simp add: config_files_of_def) (simp add: small_package_def small_snapshot_def snapshot_new_def)
qed

section \<open>What the view shows\<close>

text \<open>The decision of a package differs from that of every original package of its name and architecture.\<close>

definition redecided :: "inspection_snapshot \<Rightarrow> package_entry \<Rightarrow> bool" where
  "redecided original p \<longleftrightarrow>
     (\<exists>q \<in> set (packages_of original). is_package (pe_name p) (pe_arch p) q) \<and>
     (\<forall>q \<in> set (packages_of original). is_package (pe_name p) (pe_arch p) q \<longrightarrow>
        is_included (pe_disposition q) \<noteq> is_included (pe_disposition p))"

definition suppressed_ids :: "inspection_snapshot \<Rightarrow> string set" where
  "suppressed_ids snap = (case snap_rpm snap of None \<Rightarrow> {} | Some r \<Rightarrow> set_of_option (rpm_baseline_suppressed r))"

lemma includes_of_redecided:
  assumes "redecided original p"
  shows "\<exists>b. original_package_includes original (pe_name p, pe_arch p) = Some b \<and> b \<noteq> is_included (pe_disposition p)"
proof -
  let ?kvs = "map (\<lambda>p. ((pe_name p, pe_arch p), is_included (pe_disposition p))) (packages_of original)"
  obtain q where "q \<in> set (packages_of original)" "is_package (pe_name p) (pe_arch p) q"
    using assms unfolding redecided_def by blast
  then have "(pe_name p, pe_arch p) \<in> fst ` set (rev ?kvs)"
    unfolding set_rev set_map image_image by (intro image_eqI [of _ _ q]) simp_all
  then obtain b where b: "map_of (rev ?kvs) (pe_name p, pe_arch p) = Some b"
    using map_of_eq_None_iff [of "rev ?kvs" "(pe_name p, pe_arch p)"] by blast
  from map_of_SomeD [OF this] obtain g where "g \<in> set (packages_of original)"
    "is_package (pe_name p) (pe_arch p) g" "b = is_included (pe_disposition g)" by auto
  then have "b \<noteq> is_included (pe_disposition p)" using assms unfolding redecided_def by blast
  then show ?thesis using b unfolding original_package_includes_def by blast
qed

lemma redecided_not_hidden:
  "redecided original p \<Longrightarrow> \<not> is_included (pe_disposition p) \<Longrightarrow> (pe_name p, pe_arch p) \<notin> hidden_deps mode original"
  by (auto simp: redecided_def hidden_deps_def)

text \<open>C33. The filters of the view never hide an open decision. A package that needs review, or whose
  decision the user has changed, is always in the view, unless it is platform plumbing or the
  baseline suppresses it; and the view shows nothing else than classified packages, so no
  plumbing and no suppressed package.
\<close>

theorem open_decisions_shown:
  assumes "proj = snapshot_projected E (rv_session rv)"
    and "p \<in> set (all_packages (rv_mode rv) proj)"
    and "tt_primary_reason (rp_triage p) \<noteq> PackagePlatformPlumbing"
    and "canonical_package_id (pe_name (rp_entry p)) (pe_arch (rp_entry p)) \<notin> suppressed_ids proj"
    and "tag_bucket (rp_triage p) = BucketInvestigate \<or> redecided (ses_original (rv_session rv)) (rp_entry p)"
  shows "p \<in> set (vw_packages (refined_view_of E rv)) \<and>
    list_all (\<lambda>q. q \<in> set (all_packages (rv_mode rv) proj) \<and>
        tt_primary_reason (rp_triage q) \<noteq> PackagePlatformPlumbing \<and>
        canonical_package_id (pe_name (rp_entry q)) (pe_arch (rp_entry q)) \<notin> suppressed_ids proj)
      (vw_packages (refined_view_of E rv))"
proof -
  have "shown_package (hidden_deps (rv_mode rv) (ses_original (rv_session rv))) p"
    using assms(3,5) redecided_not_hidden by (auto simp: shown_package_def)
  moreover have "leaf_shown names (original_package_includes (ses_original (rv_session rv))) us p" for names us
    using assms(5) includes_of_redecided [of "ses_original (rv_session rv)" "rp_entry p"]
    by (auto simp: leaf_shown_def Let_def)
  ultimately have "p \<in> set (view_packages rv proj)"
    using assms(2,4) by (auto simp: view_packages_def suppressed_ids_def leaf_filtered_def Let_def split: option.splits)
  moreover have "set (leaf_filtered rv rpm ps) \<subseteq> set ps" for rpm ps
    by (auto simp: leaf_filtered_def split: option.split)
  then have "q \<in> set (all_packages (rv_mode rv) proj) \<and>
        tt_primary_reason (rp_triage q) \<noteq> PackagePlatformPlumbing \<and>
        canonical_package_id (pe_name (rp_entry q)) (pe_arch (rp_entry q)) \<notin> suppressed_ids proj"
    if "q \<in> set (view_packages rv proj)" for q
    using that by (fastforce simp: view_packages_def suppressed_ids_def Let_def shown_package_def split: option.splits)
  ultimately show ?thesis by (simp add: refined_view_of_def Let_def assms(1) list_all_iff)
qed

definition small_review :: review_session where
  "small_review = \<lparr> rv_session = small_start, rv_mode = SingleHostMode, rv_baseline_available = False, rv_viewed = {} \<rparr>"

lemma small_rpm_projected:
  obtains r where "snap_rpm (snapshot_projected small_env small_start) = Some r"
    and "rpm_packages_added r = [small_package]" and "rpm_baseline_suppressed r = None"
    and "snap_baseline (snapshot_projected small_env small_start) = None"
proof -
  let ?X = "replay_context_of small_start"
  have ops: "active_ops (rx_active ?X) = []" by (simp add: replay_context_of_def)
  have orig: "rx_original ?X = small_snapshot" by (simp add: replay_context_of_def)
  note bare = project_bare [OF small_legal ops, unfolded orig]
  have r: "snap_rpm (snapshot_projected small_env small_start) = Some (demote_rpm (clamp_rpm small_rpm))"
    by (simp add: snapshot_projected_def bare(1)) (simp add: small_snapshot_def)
  then have "rpm_packages_added (demote_rpm (clamp_rpm small_rpm)) = [small_package]"
    using small_projected by (simp add: packages_of_def)
  then show thesis
    using that r bare(5) by (simp add: snapshot_projected_def demote_rpm_def clamp_rpm_def small_rpm_def
        small_snapshot_def snapshot_new_def)
qed

theorem open_decisions_shown_witness:
  "\<exists>p \<in> set (vw_packages (refined_view_of small_env small_review)). pe_name (rp_entry p) = ''tool''"
proof -
  let ?proj = "snapshot_projected small_env small_start"
  obtain r where r: "snap_rpm ?proj = Some r" "rpm_packages_added r = [small_package]" "rpm_baseline_suppressed r = None"
      "snap_baseline ?proj = None"
    by (rule small_rpm_projected)
  have tag: "plain_tag ?proj r small_package = (BucketInvestigate, PackageProvenanceUnavailable)"
    by (simp add: plain_tag_def r set_of_option_def captured_def config_captured_def baseline_names_def
        classify_package_def small_package_def Let_def tag_bucket_def to_ascii_lowercase_def lower_char_def)
  have "pe_source_repo small_package \<noteq> ''anaconda''" by (simp add: small_package_def)
  then have "classified ?proj r small_package = classify_entry ?proj r small_package"
    by (simp add: classified_def anaconda_step_def classify_entry_fields Let_def)
  note tags = this classify_entry_tag [of ?proj r small_package, unfolded tag] 
  let ?p = "restore_projected ?proj (classified ?proj r small_package)"
  have p: "rp_triage ?p = rp_triage (classify_entry ?proj r small_package)" "pe_name (rp_entry ?p) = ''tool''"
    by (simp_all add: restore_projected_def tags(1) classify_entry_fields split: option.split)
      (simp_all add: small_package_def)
  have "?p \<in> set (all_packages (rv_mode small_review) ?proj)"
    by (simp add: all_packages_def r classify_packages_map [OF r(1)] small_review_def)
  moreover have "suppressed_ids ?proj = {}" by (simp add: suppressed_ids_def r set_of_option_def)
  ultimately have "?p \<in> set (vw_packages (refined_view_of small_env small_review))"
    using open_decisions_shown [of ?proj small_env small_review ?p] tags(2,3) p by (simp add: small_review_def)
  then show ?thesis using p(2) by blast
qed

section \<open>Undoing everything\<close>

abbreviation undo_step :: "env \<Rightarrow> refine_session \<Rightarrow> refine_session" where
  "undo_step E s \<equiv> snd (undo E s)"

abbreviation redo_step :: "env \<Rightarrow> refine_session \<Rightarrow> refine_session" where
  "redo_step E s \<equiv> snd (redo E s)"

text \<open>A session moved to a cursor, with its counts rebuilt.\<close>

definition moved :: "env \<Rightarrow> refine_session \<Rightarrow> nat \<Rightarrow> 64 word \<Rightarrow> refine_session" where
  "moved E s c g = recompute_view E (s\<lparr>ses_cursor := c, ses_generation := g\<rparr>)"

lemma undo_moved: "undo E (moved E s (Suc c) g) = (Inr (), moved E s c (g + 1))"
  by (simp add: undo_def moved_def) (simp add: recompute_view_def snapshot_projected_def
      replay_context_of_def active_entries_def)

lemma redo_moved: "c < length (ses_timeline s) \<Longrightarrow> redo E (moved E s c g) = (Inr (), moved E s (Suc c) (g + 1))"
  by (simp add: redo_def moved_def) (simp add: recompute_view_def snapshot_projected_def
      replay_context_of_def active_entries_def)

lemma undo_many: "(undo_step E ^^ k) (moved E s (k + c) g) = moved E s c (g + of_nat k)"
proof (induction k arbitrary: g)
  case (Suc k)
  show ?case
    unfolding funpow_Suc_right comp_apply using Suc.IH [of "g + 1"] by (simp add: undo_moved add.assoc)
qed simp

lemma redo_many: "k + c \<le> length (ses_timeline s) \<Longrightarrow>
    (redo_step E ^^ k) (moved E s c g) = moved E s (k + c) (g + of_nat k)"
  by (induction k) (simp_all add: redo_moved algebra_simps)

lemma moved_self: "session_ok E original idx s \<Longrightarrow> moved E s (ses_cursor s) (ses_generation s) = s"
  by (simp add: moved_def recompute_view_def session_ok_def snapshot_projected_def replay_context_of_def active_entries_def)



section \<open>Resuming\<close>


lemma plumbing_shadows: "orphan_shadows plumbing_snapshot = []"
  by (simp add: orphan_shadows_def plumbing_snapshot_def snapshot_new_def)


end
