(* ===== verification/ReviewFindings.thy ===== *)
theory ReviewFindings
  imports ReviewProperties
begin

text \<open>
  Concrete runs of the constructor and of resuming where the outcome differs from what the
  code means to do: a change nobody made, a default that flips when a session is resumed, an
  incompatible service that comes back, and an exclusion the defaults undo.
\<close>

section \<open>A phantom change\<close>

text \<open>
  The constructor gives such a file the default of its kind although it is locked, so the
  projection excludes it again and the session reports a change nobody made.
\<close>

definition locked_crypttab :: config_file_entry where
  "locked_crypttab = crypttab\<lparr>cf_disposition := fk_excluded, cf_locked := True, cf_attention_reason :=
     Some (''merge-hostile '' @ em_dash @ '' fights bootc /etc 3-way merge'')\<rparr>"

lemma crypttab_tag: "tag_bucket (rcf_triage (classify_config locked_crypttab)) = BucketSite"
  by (simp add: classify_config_def locked_crypttab_def crypttab_def tag_bucket_def)

lemma loaded_crypttab:
  "config_files_of (initial_snapshot loaded) = [locked_crypttab\<lparr>cf_disposition := fk_included\<rparr>]"
proof -
  have files: "snap_config loaded = Some \<lparr>cfg_files = [locked_crypttab]\<rparr>" "snap_redaction_state loaded = None"
    by (simp_all add: loaded_def archived_def normalize_merge_hostile_configs_def normalize_incompatible_services_def
        on_section_defs lock_merge_hostile_def crypttab_def MERGE_HOSTILE_PATHS_def snapshot_new_def locked_crypttab_def)
  then have "classify_configs (clear_leaves loaded) = [classify_config locked_crypttab]"
    by (simp add: classify_configs_def config_files_of_def)
  moreover have "normalize_config (classify_config locked_crypttab) locked_crypttab =
      locked_crypttab\<lparr>cf_disposition := fk_included\<rparr>"
  proof -
    have "\<not> is_inspectah_repo_file ''/etc/crypttab''" by code_simp
    then show ?thesis
      unfolding normalize_config_def crypttab_tag Let_def
      by (simp add: locked_crypttab_def crypttab_def below_full_prevalence_def finding_defs)
  qed
  ultimately show ?thesis
    by (simp add: config_files_of_def initial_snapshot_sections files initial_config_def)
qed

lemma phantom_change:
  "is_dirty small_env loaded_start \<and>
    change_section_of (pending_changes small_env loaded_start) SecConfig =
      Some \<lparr> scs_kind = SecConfig, scs_included = [], scs_excluded = [ItemConfig ''/etc/crypttab''] \<rparr>"
proof -
  have start: "active_entries loaded_start = []" "ses_original loaded_start = initial_snapshot loaded"
    by (simp_all add: loaded_start_def session_start_def active_entries_def)
  have "snap_rpm loaded = None"
    by (simp add: loaded_def archived_def normalize_merge_hostile_configs_def normalize_incompatible_services_def
        on_section_defs snapshot_new_def)
  then have "packages_of (initial_snapshot loaded) = []"
    by (simp add: packages_of_def initial_snapshot_sections clear_leaves_rpm)
  then have "chg_sections (pending_changes small_env loaded_start) =
      [\<lparr> scs_kind = SecConfig, scs_included = [], scs_excluded = [ItemConfig ''/etc/crypttab''] \<rparr>]"
    by (simp add: bare_pending(1) [OF small_legal start(1)] start(2) loaded_crypttab locked_included_def
        change_section_def locked_crypttab_def crypttab_def)
  then show ?thesis
    by (simp add: bare_pending(3) [OF small_legal start(1)] change_section_of_def)
qed

section \<open>A default that changes on resume\<close>

text \<open>
  With an orphan shadow the roundtrip fails: the entry the first constructor synthesises has no
  owner, so the second constructor sees degraded evidence and includes the installer's noise.
\<close>

definition noise_package :: package_entry where
  "noise_package = small_package\<lparr>pe_name := ''lshw'', pe_source_repo := ''anaconda''\<rparr>"

definition shadow_drop_in :: systemd_drop_in where
  "shadow_drop_in = \<lparr> di_unit = ''a.service'', di_path = ''/etc/systemd/system/a.service'', di_content = [],
     di_disposition = Actionable True, di_locked = False, di_variant_selection = Only, di_aggregate = None,
     di_attention_reason = None, di_shadow_type = Some FullShadow, di_shadow_rationale = None \<rparr>"

definition shadowed_rpm :: rpm_section where
  "shadowed_rpm = small_rpm\<lparr>rpm_packages_added := [noise_package],
     rpm_file_ownership := [\<lparr> fo_package_name = ''p'', fo_paths = [] \<rparr>]\<rparr>"

definition shadowed_services :: service_section where
  "shadowed_services = \<lparr> svc_state_changes = [], svc_enabled_units = [], svc_disabled_units = [''a.service''],
     svc_drop_ins = [shadow_drop_in], svc_preset_matched_units = [] \<rparr>"

definition shadowed_snapshot :: inspection_snapshot where
  "shadowed_snapshot = snapshot_new\<lparr>snap_rpm := Some shadowed_rpm, snap_config := Some \<lparr>cfg_files = []\<rparr>,
     snap_services := Some shadowed_services\<rparr>"

lemma packages_of_initial:
  "snap_aggregate_meta snap = None \<Longrightarrow> snap_rpm snap = Some rpm \<Longrightarrow> rpm_packages_added rpm = [p] \<Longrightarrow>
     map pe_disposition (packages_of (initial_snapshot snap)) = [fk_from_bool (package_rule snap rpm p)]"
  by (simp add: packages_of_def initial_snapshot_sections clear_leaves_def initial_rpm_def default_package_eq)

lemma noise_rule:
  assumes "snap_baseline snap = None" "rpm_baseline_suppressed rpm = None" "snap_services snap \<noteq> None"
    and "snap_config snap = Some \<lparr>cfg_files = []\<rparr>" "file_ownership_of snap \<noteq> []"
    and "p = noise_package\<lparr>pe_disposition := d, pe_locked := l\<rparr>"
  shows "package_rule snap rpm p \<longleftrightarrow> ae_degraded (anaconda_evidence_of snap)"
proof -
  have "is_installer_noise ''lshw''" "\<not> is_platform_plumbing ''lshw''" "\<not> is_config_only_promotable ''lshw''"
    by code_simp+
  moreover have "ae_has_services (anaconda_evidence_of snap)" "ae_has_config (anaconda_evidence_of snap)"
    "ae_modified_config (anaconda_evidence_of snap) = {}"
    using assms(3-5) by (simp_all add: anaconda_evidence_of_def Let_def build_modified_config_set_def config_files_of_def)
  moreover have "\<not> captured snap rpm p" using captured_commandline [of snap rpm p]
    by (auto simp: assms(6) noise_package_def)
  moreover have "\<not> unknown_origin p"
    by (simp add: assms(6) unknown_origin_def noise_package_def small_package_def to_ascii_lowercase_def lower_char_def)
  ultimately show ?thesis
    using assms(1,2) by (simp add: package_rule_def Let_def assms(6) noise_package_def small_package_def
        below_full_prevalence_def set_of_option_def baseline_names_def installer_rule_def)
qed

lemma shadowed_defaults:
  "map pe_disposition (packages_of (initial_snapshot shadowed_snapshot)) = [fk_excluded]"
  "map pe_disposition (packages_of (initial_snapshot (initial_snapshot shadowed_snapshot))) = [fk_included]"
proof -
  let ?s = shadowed_snapshot and ?i = "initial_snapshot shadowed_snapshot"
  have s: "snap_aggregate_meta ?s = None" "snap_rpm ?s = Some shadowed_rpm" "snap_baseline ?s = None"
    "snap_config ?s = Some \<lparr>cfg_files = []\<rparr>" "snap_services ?s = Some shadowed_services"
    by (simp_all add: shadowed_snapshot_def snapshot_new_def)
  have r: "rpm_packages_added shadowed_rpm = [noise_package]" "rpm_baseline_suppressed shadowed_rpm = None"
    by (simp_all add: shadowed_rpm_def small_rpm_def)
  have "\<not> ae_degraded (anaconda_evidence_of ?s)"
    by (simp add: anaconda_evidence_of_def Let_def s state_changes_of_def shadowed_services_def config_files_of_def)
  then have out: "\<not> package_rule ?s shadowed_rpm noise_package"
    using noise_rule [where snap = ?s and rpm = shadowed_rpm and p = noise_package
        and d = "pe_disposition noise_package" and l = "pe_locked noise_package"] s r
    by (simp add: file_ownership_of_def shadowed_rpm_def)
  then show "map pe_disposition (packages_of ?i) = [fk_excluded]"
    using packages_of_initial [OF s(1,2) r(1)] by (simp add: finding_defs)
  have clear: "clear_leaves ?s = ?s" by (simp add: clear_leaves_def s)
  have i: "snap_aggregate_meta ?i = None" "snap_rpm ?i = Some (initial_rpm ?s shadowed_rpm)" "snap_baseline ?i = None"
    "snap_config ?i = Some \<lparr>cfg_files = []\<rparr>" "snap_services ?i = Some (synthesize_orphan_shadows shadowed_services)"
    by (simp_all add: initial_snapshot_sections clear s initial_config_def)
  have p: "rpm_packages_added (initial_rpm ?s shadowed_rpm) = [default_package ?s shadowed_rpm noise_package]"
    "rpm_baseline_suppressed (initial_rpm ?s shadowed_rpm) = None" "file_ownership_of ?i \<noteq> []"
    by (simp_all add: initial_rpm_def r file_ownership_of_def i) (simp add: shadowed_rpm_def)
  have "ae_degraded (anaconda_evidence_of ?i)"
    by (simp add: anaconda_evidence_of_def Let_def i state_changes_of_def synthesize_orphan_shadows_def
        synthesize_shadow_def shadowed_services_def shadow_drop_in_def shadow_state_def map_filter_simps)
  then have "package_rule ?i (initial_rpm ?s shadowed_rpm) (default_package ?s shadowed_rpm noise_package)"
    using noise_rule [OF i(3) p(2) _ i(4) p(3) default_package_eq] i(5) by simp
  then show "map pe_disposition (packages_of (initial_snapshot ?i)) = [fk_included]"
    using packages_of_initial [OF i(1,2) p(1)] by (simp add: finding_defs)
qed

lemma resume_changes_default:
  "map pe_disposition (packages_of (ses_original (rv_session (session_new E shadowed_snapshot)))) = [fk_excluded]"
  "map_option (\<lambda>rv. map pe_disposition (packages_of (ses_original (rv_session rv))))
     (case resume_from E (Some (saved_state [] h [] (rv_session (session_new E shadowed_snapshot)))) h
        (Inr shadowed_snapshot) of Inr rv \<Rightarrow> rv | Inl _ \<Rightarrow> None) = Some [fk_included]"
  using shadowed_defaults
  by (simp_all add: resume_from_def saved_state_def Let_def original_of_new restore_timeline_def)

section \<open>An incompatible service that comes back\<close>

text \<open>
  The load locks the drop-in of an incompatible unit, but not the state change the constructor
  synthesises for it when the unit has no state change of its own.
\<close>

definition cache_services :: service_section where
  "cache_services = shadowed_services\<lparr>svc_disabled_units := [''dnf-makecache.timer''],
     svc_drop_ins := [shadow_drop_in\<lparr>di_unit := ''dnf-makecache.timer''\<rparr>]\<rparr>"

lemma incompatible_shadow_included:
  "\<exists>c. svc_state_changes (synthesize_orphan_shadows (lock_incompatible cache_services)) = [c] \<and>
     incompatible_unit (ssc_unit c) \<and> ssc_disposition c = fk_included \<and> \<not> ssc_locked c \<and>
     list_all (\<lambda>d. di_locked d) (svc_drop_ins (synthesize_orphan_shadows (lock_incompatible cache_services)))"
  by (simp add: synthesize_orphan_shadows_def synthesize_shadow_def lock_incompatible_def cache_services_def
      shadowed_services_def shadow_drop_in_def shadow_state_def map_filter_simps incompatible_unit_def
      INCOMPATIBLE_SERVICES_def)

section \<open>An exclusion that is undone\<close>

text \<open>
  A package installed from a file whose files are all captured is classified as excluded, and
  the default of its bucket includes it again when it is a leaf.
\<close>

lemma captured_package_included:
  assumes "captured snap rpm p" "is_leaf rpm p" "pkg_id p \<notin> set_of_option (rpm_baseline_suppressed rpm)"
    and "pe_repoless_annotation p = []" "\<not> below_full_prevalence (pe_aggregate p)"
  shows "pe_disposition (rp_entry (classified snap rpm p)) = fk_excluded \<and>
    pe_disposition (default_package snap rpm p) = fk_included"
proof -
  have "pe_source_repo p \<noteq> ''anaconda''" by (rule captured_commandline [OF assms(1)])
  moreover from this have "classified snap rpm p = classify_entry snap rpm p"
    by (simp add: classified_def anaconda_step_def classify_entry_fields Let_def)
  moreover have "pe_disposition (rp_entry (classify_entry snap rpm p)) = fk_excluded"
    using assms(1,3) by (simp add: classify_entry_def captured_def Let_def)
  ultimately show ?thesis
    using assms by (simp add: default_rule package_rule_def Let_def finding_defs)
qed

end
