(* ===== verification/Redaction.thy ===== *)
theory Redaction
  imports RustStr
begin

text \<open>
  The scrubbing primitives of the core (\<open>crates/core/src/redaction.rs\<close>): the span of a value
  after a key that was already matched, and the scrubber of compose files built on it.

  A span is a pair of byte positions. \<open>to_uppercase\<close> folds the ASCII letters and keeps every
  other byte, like \<^const>\<open>to_lowercase\<close>.
\<close>

section \<open>The span of a value\<close>

datatype value_syntax = JsonMember | QuotedArgument | OptionArgument | Assignment

definition trim_start :: "string \<Rightarrow> string" where
  "trim_start s = trim_with ws_encodings s"

definition leading_whitespace :: "string \<Rightarrow> nat" where
  "leading_whitespace s = length s - length (trim_start s)"

text \<open>\<open>s.is_char_boundary(i)\<close> for a position within the string: no continuation byte there.\<close>

definition is_char_boundary :: "string \<Rightarrow> nat \<Rightarrow> bool" where
  "is_char_boundary s i \<longleftrightarrow> i = length s \<or>
     (i < length s \<and> \<not> (128 \<le> (of_char (s ! i) :: nat) \<and> (of_char (s ! i) :: nat) \<le> 191))"

definition quoted_run :: "string \<Rightarrow> nat \<Rightarrow> char list \<Rightarrow> (nat \<times> nat) option" where
  "quoted_run line start quotes =
     (let open_at = start + leading_whitespace (drop start line) in
      case drop open_at line of
        [] \<Rightarrow> None
      | quote # inner \<Rightarrow>
          if quote \<notin> set quotes then None
          else (case str_find [quote] inner of
              None \<Rightarrow> None
            | Some close \<Rightarrow> Some (open_at + 1, open_at + 1 + close)))"

text \<open>\<open>s.find(char::is_whitespace)\<close>\<close>

fun find_whitespace :: "string \<Rightarrow> nat option" where
  "find_whitespace [] = None"
| "find_whitespace (c # cs) =
     (if strip_one ws_encodings (c # cs) \<noteq> None then Some 0 else map_option Suc (find_whitespace cs))"

text \<open>The length of the first character when it is \<open>=\<close> or white space.\<close>

definition option_separator :: "string \<Rightarrow> nat option" where
  "option_separator rest =
     (case rest of
        [] \<Rightarrow> None
      | c # _ \<Rightarrow>
          if c = CHR ''='' then Some 1
          else map_option (\<lambda>r. length rest - length r) (strip_one ws_encodings rest))"

fun value_span_after_key :: "string \<Rightarrow> nat \<Rightarrow> value_syntax \<Rightarrow> (nat \<times> nat) option" where
  "value_span_after_key line key_end syn =
     (if key_end > length line \<or> \<not> is_char_boundary line key_end then None
      else let rest = drop key_end line in
        case syn of
          JsonMember \<Rightarrow>
            (case str_find '':'' rest of
               None \<Rightarrow> None
             | Some colon \<Rightarrow>
                 if str_trim (take colon rest) \<noteq> [] then None
                 else quoted_run line (key_end + colon + 1) [CHR 0x22])
        | QuotedArgument \<Rightarrow> quoted_run line key_end [CHR 0x22, CHR 0x27]
        | OptionArgument \<Rightarrow>
            (case option_separator rest of
               None \<Rightarrow> None
             | Some sep_len \<Rightarrow>
                 let after = key_end + sep_len;
                     start = after + leading_whitespace (drop after line)
                 in if start \<ge> length line then None
                    else Some (start, case find_whitespace (drop start line) of
                        None \<Rightarrow> length line
                      | Some p \<Rightarrow> start + p))
        | Assignment \<Rightarrow>
            (case rest of
               [] \<Rightarrow> None
             | sep # _ \<Rightarrow>
                 if sep \<noteq> CHR ''='' \<and> sep \<noteq> CHR '':'' then None
                 else let after = key_end + 1 in
                   Some (after + leading_whitespace (drop after line), length line)))"

section \<open>Compose files\<close>

definition upper_char :: "char \<Rightarrow> char" where
  "upper_char c = (if 97 \<le> (of_char c :: nat) \<and> (of_char c :: nat) \<le> 122
     then char_of ((of_char c :: nat) - 32) else c)"

definition to_uppercase :: "string \<Rightarrow> string" where
  "to_uppercase s = map upper_char s"

definition SECRET_PATTERNS :: "string list" where
  "SECRET_PATTERNS = [''PASSWORD'', ''PASSWD'', ''SECRET'', ''TOKEN'', ''API_KEY'', ''PRIVATE_KEY'',
     ''AUTH'', ''CREDENTIAL'']"

definition is_upper_byte :: "char \<Rightarrow> bool" where
  "is_upper_byte b \<longleftrightarrow> 65 \<le> (of_char b :: nat) \<and> (of_char b :: nat) \<le> 90"

definition is_digit_byte :: "char \<Rightarrow> bool" where
  "is_digit_byte b \<longleftrightarrow> 48 \<le> (of_char b :: nat) \<and> (of_char b :: nat) \<le> 57"

definition is_key_byte :: "char \<Rightarrow> bool" where
  "is_key_byte b \<longleftrightarrow> is_digit_byte b \<or> is_upper_byte b
     \<or> (97 \<le> (of_char b :: nat) \<and> (of_char b :: nat) \<le> 122)
     \<or> b = CHR ''_'' \<or> b = CHR ''.'' \<or> b = CHR ''-''"

definition upper_snake :: "string \<Rightarrow> bool" where
  "upper_snake key \<longleftrightarrow>
     list_all (\<lambda>b. is_upper_byte b \<or> is_digit_byte b \<or> b = CHR ''_'') key \<and> list_ex is_upper_byte key"

definition assignment_key_len :: "string \<Rightarrow> nat option" where
  "assignment_key_len body =
     (let len = length (takeWhile is_key_byte body) in
      if len = 0 \<or> len = length body then None
      else let sep = body ! len; key = take len body in
        if sep = CHR ''='' then Some len
        else if sep = CHR '':'' then
          (if \<not> upper_snake key then None
           else if str_trim (drop (len + 1) body) = [] then None
           else Some len)
        else None)"

definition has_url_credentials :: "string \<Rightarrow> bool" where
  "has_url_credentials value =
     (case str_find ''://'' value of
        None \<Rightarrow> False
      | Some e \<Rightarrow>
          let after_scheme = drop (e + 3) value in
          (case str_find ''@'' after_scheme of
             None \<Rightarrow> False
           | Some at_pos \<Rightarrow> str_contains (take at_pos after_scheme) '':''))"

definition scrub_url_credentials :: "string \<Rightarrow> string" where
  "scrub_url_credentials value =
     (case str_find ''://'' value of
        None \<Rightarrow> value
      | Some e \<Rightarrow>
          let scheme = take (e + 3) value; after_scheme = drop (e + 3) value in
          (case str_find ''@'' after_scheme of
             None \<Rightarrow> value
           | Some at_pos \<Rightarrow> scheme @ ''<REDACTED>:<REDACTED>'' @ drop at_pos after_scheme))"

definition matches_secret :: "string \<Rightarrow> bool" where
  "matches_secret trimmed \<longleftrightarrow> list_ex (str_contains (to_uppercase trimmed)) SECRET_PATTERNS"

definition replacement_for :: "string \<Rightarrow> string \<Rightarrow> string option" where
  "replacement_for trimmed value =
     (if has_url_credentials value then Some (scrub_url_credentials value)
      else if matches_secret trimmed then Some ''<REDACTED>''
      else None)"

text \<open>One line, without its line feed.\<close>

definition scrub_line :: "string \<Rightarrow> string" where
  "scrub_line line =
     (let trimmed = str_trim line in
      if trimmed = [] \<or> starts_with trimmed ''#'' then line
      else
        let indent = take (leading_whitespace line) line;
            dash = (if starts_with trimmed ''- '' then 2 else 0);
            body = drop dash trimmed
        in case (case assignment_key_len body of
                   None \<Rightarrow> None
                 | Some key_len \<Rightarrow> value_span_after_key body key_len Assignment) of
             None \<Rightarrow> line
           | Some (from_, to) \<Rightarrow>
               (case replacement_for trimmed (take (to - from_) (drop from_ body)) of
                  None \<Rightarrow> line
                | Some new_value \<Rightarrow> indent @ take dash trimmed @ take from_ body @ new_value))"

definition scrub_compose_secrets :: "string \<Rightarrow> string" where
  "scrub_compose_secrets content =
     (let result = concat (map (\<lambda>l. scrub_line l @ [CHR 0x0A]) (str_lines content)) in
      if \<not> ends_with content [CHR 0x0A] \<and> ends_with result [CHR 0x0A] then butlast result
      else result)"

section \<open>White space and trimming\<close>

text \<open>The printable ASCII characters other than the space.\<close>

definition is_graph :: "char \<Rightarrow> bool" where
  "is_graph c \<longleftrightarrow> 33 \<le> (of_char c :: nat) \<and> (of_char c :: nat) \<le> 126"

definition is_blank :: "char \<Rightarrow> bool" where
  "is_blank c \<longleftrightarrow> c = CHR 0x20 \<or> c = CHR 0x09"

lemma strip_one_None: "strip_one ps s = None \<longleftrightarrow> (\<forall>p \<in> set ps. p = [] \<or> \<not> starts_with s p)"
  by (induction ps) auto

lemma ws_not_graph:
  "list_all (\<lambda>p. p \<noteq> [] \<and> \<not> is_graph (hd p) \<and> \<not> is_graph (last p)) ws_encodings"
  by code_simp

lemma starts_with_hd: "p \<noteq> [] \<Longrightarrow> starts_with (c # s) p \<Longrightarrow> hd p = c"
  by (cases p) auto

lemma strip_one_graph:
  assumes "is_graph c"
  shows "strip_one ws_encodings (c # s) = None" "strip_one (map rev ws_encodings) (c # s) = None"
proof -
  have ws: "p \<noteq> [] \<and> hd p \<noteq> c \<and> hd (rev p) \<noteq> c" if "p \<in> set ws_encodings" for p
    using ws_not_graph that assms by (auto simp: list_all_iff hd_rev)
  then have "\<not> starts_with (c # s) p" "\<not> starts_with (c # s) (rev p)" if "p \<in> set ws_encodings" for p
    using that starts_with_hd [of p c s] starts_with_hd [of "rev p" c s] by (metis rev_is_Nil_conv)+
  then show "strip_one ws_encodings (c # s) = None" "strip_one (map rev ws_encodings) (c # s) = None"
    unfolding strip_one_None set_map by blast+
qed

lemma trim_with_graph:
  assumes "is_graph c"
  shows "trim_with ws_encodings (c # s) = c # s" "trim_with (map rev ws_encodings) (c # s) = c # s"
  by (subst trim_with.simps, simp only: strip_one_graph [OF assms] option.case)+

lemma strip_one_space: "strip_one ws_encodings (CHR 0x20 # s) = Some s"
  by (code_simp, simp)

lemma strip_one_tab: "strip_one ws_encodings (CHR 0x09 # s) = Some s"
  by (code_simp, simp)

lemma strip_one_blank: "is_blank c \<Longrightarrow> strip_one ws_encodings (c # s) = Some s"
  by (auto simp only: is_blank_def strip_one_space strip_one_tab)

lemma trim_with_blank: "is_blank c \<Longrightarrow> trim_with ws_encodings (c # s) = trim_with ws_encodings s"
  by (subst trim_with.simps, simp only: strip_one_blank option.case)

lemma trim_with_blanks: "list_all is_blank b \<Longrightarrow> trim_with ws_encodings (b @ s) = trim_with ws_encodings s"
  by (induction b) (simp_all add: trim_with_blank)

text \<open>A text that starts and ends with a printable character.\<close>

definition solid :: "string \<Rightarrow> bool" where
  "solid s \<longleftrightarrow> s \<noteq> [] \<and> is_graph (hd s) \<and> is_graph (last s)"

lemma trim_blanks_solid:
  assumes "list_all is_blank b" "solid s"
  shows "trim_with ws_encodings (b @ s) = s" "str_trim (b @ s) = s" "leading_whitespace (b @ s) = length b"
proof -
  obtain c s' where s: "s = c # s'" "is_graph c" using assms(2) by (cases s) (auto simp: solid_def)
  show front: "trim_with ws_encodings (b @ s) = s"
    using assms(1) s by (simp add: trim_with_blanks trim_with_graph)
  obtain d s'' where "rev s = d # s''" "is_graph d"
    using assms(2) by (cases s rule: rev_cases) (auto simp: solid_def)
  then show "str_trim (b @ s) = s"
    unfolding str_trim_def front by (simp add: trim_with_graph(2) flip: rev_swap)
  show "leading_whitespace (b @ s) = length b"
    by (simp add: leading_whitespace_def trim_start_def front)
qed

section \<open>A line that assigns a secret\<close>

text \<open>The part of a line before the value: its indentation, an optional dash, the key, the separator and a gap.\<close>

definition secret_prefix :: "string \<Rightarrow> string \<Rightarrow> string \<Rightarrow> char \<Rightarrow> string \<Rightarrow> bool" where
  "secret_prefix indent dash key sep gap \<longleftrightarrow>
     list_all is_blank indent \<and> (dash = [] \<or> dash = ''- '') \<and> key \<noteq> [] \<and> list_all is_key_byte key \<and>
     (sep = CHR ''='' \<or> sep = CHR '':'' \<and> upper_snake key) \<and> list_all is_blank gap \<and> matches_secret key"

definition plain_value :: "string \<Rightarrow> bool" where
  "plain_value v \<longleftrightarrow> solid v \<and> \<not> has_url_credentials v"

lemma key_byte_graph: "is_key_byte c \<Longrightarrow> is_graph c"
  by (auto simp: is_key_byte_def is_graph_def is_upper_byte_def is_digit_byte_def)

lemma matches_secret_append: "matches_secret k \<Longrightarrow> matches_secret (a @ k @ b)"
proof -
  have "str_contains (to_uppercase k) p \<Longrightarrow> str_contains (to_uppercase (a @ k @ b)) p" for p
    unfolding str_contains_iff to_uppercase_def by (auto, metis append.assoc)
  then show "matches_secret k \<Longrightarrow> matches_secret (a @ k @ b)"
    by (auto simp: matches_secret_def list_ex_iff)
qed

lemma assignment_key_len_known:
  assumes "key \<noteq> []" "list_all is_key_byte key" "sep = CHR ''='' \<or> sep = CHR '':'' \<and> upper_snake key"
    and "list_all is_blank gap" "solid v"
  shows "assignment_key_len (key @ sep # gap @ v) = Some (length key)"
proof -
  have sep: "\<not> is_key_byte sep"
    using assms(3) by (auto simp: is_key_byte_def is_upper_byte_def is_digit_byte_def)
  then have "takeWhile is_key_byte (key @ sep # gap @ v) = key"
    using assms(2) by (simp add: takeWhile_append2 list_all_iff)
  moreover have "str_trim (gap @ v) \<noteq> []"
    using trim_blanks_solid(2) [OF assms(4,5)] assms(5) by (simp add: solid_def)
  ultimately show ?thesis
    using assms(1,3) by (auto simp: assignment_key_len_def)
qed

lemma assignment_span:
  assumes "sep = CHR ''='' \<or> sep = CHR '':''" "list_all is_blank gap" "solid v"
  shows "value_span_after_key (key @ sep # gap @ v) (length key) Assignment =
    Some (length key + 1 + length gap, length (key @ sep # gap @ v))"
  using assms trim_blanks_solid(3) [OF assms(2,3)]
  by (auto simp: is_char_boundary_def)

lemma scrub_secret_line:
  assumes "secret_prefix indent dash key sep gap" "plain_value v"
  shows "scrub_line (indent @ dash @ key @ sep # gap @ v) = indent @ dash @ key @ sep # gap @ ''<REDACTED>''"
proof -
  define body where "body = key @ sep # gap @ v"
  have key: "key \<noteq> []" "list_all is_key_byte key" and gap: "list_all is_blank gap" and ind: "list_all is_blank indent"
    and sep: "sep = CHR ''='' \<or> sep = CHR '':'' \<and> upper_snake key" and dash: "dash = [] \<or> dash = ''- ''"
    and secret: "matches_secret key" and v: "solid v" "\<not> has_url_credentials v"
    using assms by (auto simp: secret_prefix_def plain_value_def)
  obtain k ks where k: "key = k # ks" "is_key_byte k" using key by (cases key) auto
  have "solid (dash @ body)"
    using v key_byte_graph [OF k(2)] dash by (auto simp: solid_def body_def k is_graph_def)
  note trim = trim_blanks_solid [OF ind this]
  have hash: "\<not> starts_with (dash @ body) ''#''"
    using dash k by (auto simp: body_def is_key_byte_def is_upper_byte_def is_digit_byte_def)
  have "ks = [] \<or> is_key_byte (hd ks)" using key k by (cases ks) auto
  then have no_dash: "\<not> starts_with body ''- ''"
    using sep by (cases ks) (auto simp: body_def k is_key_byte_def is_upper_byte_def is_digit_byte_def)
  have len: "(if starts_with (dash @ body) ''- '' then 2 else 0) = length dash"
    using dash no_dash by auto
  have span: "assignment_key_len body = Some (length key)"
    "value_span_after_key body (length key) Assignment = Some (length key + 1 + length gap, length body)"
    using assignment_key_len_known [OF key sep gap v(1)] assignment_span [OF _ gap v(1)] sep
    unfolding body_def by blast+
  have "matches_secret (dash @ body)"
    using matches_secret_append [OF secret] by (simp add: body_def)
  moreover have "take (length body - (length key + 1 + length gap)) (drop (length key + 1 + length gap) body) = v"
    "take (length key + 1 + length gap) body = key @ sep # gap" "length v = length body - Suc (length key + length gap)"
    by (simp_all add: body_def)
  moreover have "dash @ body \<noteq> []" by (simp add: body_def)
  ultimately have "scrub_line (indent @ dash @ body) = indent @ dash @ (key @ sep # gap) @ ''<REDACTED>''"
    unfolding scrub_line_def Let_def trim len using hash span v(2)
    by (simp add: replacement_for_def del: value_span_after_key.simps)
  then show ?thesis by (simp add: body_def)
qed

section \<open>Whole files\<close>

lemma lines_from_plain:
  "CHR 0x0A \<notin> set l \<Longrightarrow> lines_from acc (l @ CHR 0x0A # t) = strip_cr (rev acc @ l) # lines_from [] t"
  by (induction l arbitrary: acc) auto

text \<open>A line as an editor has it: no line feed inside and no carriage return at its end.\<close>

definition is_line :: "string \<Rightarrow> bool" where
  "is_line l \<longleftrightarrow> CHR 0x0A \<notin> set l \<and> (l = [] \<or> last l \<noteq> CHR 0x0D)"

definition unlines :: "string list \<Rightarrow> string" where
  "unlines ls = concat (map (\<lambda>l. l @ [CHR 0x0A]) ls)"

lemma unlines_simps [simp]: "unlines [] = []" "unlines (l # ls) = l @ CHR 0x0A # unlines ls"
  by (simp_all add: unlines_def)

lemma str_lines_unlines: "list_all is_line ls \<Longrightarrow> str_lines (unlines ls) = ls"
  by (induction ls) (auto simp: str_lines_def lines_from_plain is_line_def strip_cr_def)

lemma unlines_end: "ls \<noteq> [] \<Longrightarrow> \<exists>r. unlines ls = r @ [CHR 0x0A]"
  by (induction ls rule: rev_induct) (auto simp: unlines_def)

lemma ends_with_nl: "ends_with s [c] \<longleftrightarrow> s \<noteq> [] \<and> last s = c"
  by (cases s rule: rev_cases) (auto simp: ends_with_def)

lemma scrub_unlines:
  assumes "list_all is_line ls"
  shows "scrub_compose_secrets (unlines ls) = unlines (map scrub_line ls)"
proof (cases "ls = []")
  case False
  then obtain r where "unlines ls = r @ [CHR 0x0A]" using unlines_end by blast
  then have "ends_with (unlines ls) [CHR 0x0A]" by (simp add: ends_with_nl)
  then show ?thesis
    unfolding scrub_compose_secrets_def str_lines_unlines [OF assms] by (simp add: unlines_def comp_def)
qed (simp add: scrub_compose_secrets_def str_lines_def)

text \<open>The lines of a text without carriage returns, put together again.\<close>

lemma unlines_lines_from:
  assumes "CHR 0x0D \<notin> set s" "CHR 0x0D \<notin> set acc"
  shows "unlines (lines_from acc s) =
    (if s = [] then (if acc = [] then [] else rev acc @ [CHR 0x0A])
     else rev acc @ s @ (if last s = CHR 0x0A then [] else [CHR 0x0A]))"
  using assms
proof (induction acc s rule: lines_from.induct)
  case (2 acc c cs)
  have "strip_cr (rev acc) = rev acc"
    using 2(4) by (cases acc) (auto simp: strip_cr_def)
  with 2 show ?case by auto
qed auto

lemma unlines_str_lines:
  "CHR 0x0D \<notin> set s \<Longrightarrow>
     unlines (str_lines s) = (if s = [] \<or> last s = CHR 0x0A then s else s @ [CHR 0x0A])"
  by (auto simp: str_lines_def unlines_lines_from)

lemma scrub_unchanged:
  assumes "CHR 0x0D \<notin> set content" "list_all (\<lambda>l. scrub_line l = l) (str_lines content)"
  shows "scrub_compose_secrets content = content"
proof -
  have "map (\<lambda>l. scrub_line l @ [CHR 0x0A]) (str_lines content) = map (\<lambda>l. l @ [CHR 0x0A]) (str_lines content)"
    using assms(2) by (simp only: list_all_iff map_eq_conv) auto
  then have "concat (map (\<lambda>l. scrub_line l @ [CHR 0x0A]) (str_lines content)) =
      (if content = [] \<or> last content = CHR 0x0A then content else content @ [CHR 0x0A])"
    using unlines_str_lines [OF assms(1)] unfolding unlines_def by (simp only:)
  then show ?thesis
    unfolding scrub_compose_secrets_def Let_def ends_with_nl by (simp only:) auto
qed

text \<open>
  What the scrubber does not do: the key alone does not decide (the pattern may stand in the
  value), credentials in a URL win over a secret key name, only the part before the first
  at sign of a URL goes, and a quoted list entry is no assignment at all.
\<close>

lemma scrub_pattern_in_value: "scrub_line ''- NOTE=authored'' = ''- NOTE=<REDACTED>''"
  by code_simp

lemma scrub_secret_url_keeps_query:
  "scrub_line ''SECRET_URL=https://a:b@h?token=xyz'' = ''SECRET_URL=https://<REDACTED>:<REDACTED>@h?token=xyz''"
  by code_simp

lemma scrub_password_with_at: "scrub_line ''URL: x://a:p@ss@h'' = ''URL: x://<REDACTED>:<REDACTED>@ss@h''"
  by code_simp

lemma scrub_quoted_entry_kept:
  "scrub_line (''- '' @ CHR 0x22 # ''PASSWORD=x'' @ [CHR 0x22]) = ''- '' @ CHR 0x22 # ''PASSWORD=x'' @ [CHR 0x22]"
  by code_simp

end
