(* ===== verification/RpmFilename.thy ===== *)
theory RpmFilename
  imports RustStr
begin

text \<open>
  RPM file names (\<open>crates/core/src/rpm_filename.rs\<close>): the untrusted parse of a name into
  package, version and architecture, and the allowlist a staged name must pass. A string is
  its UTF-8 bytes, so a byte index of the code is a list position here.
\<close>

section \<open>Parsing\<close>

definition KNOWN_ARCHES :: "string list" where
  "KNOWN_ARCHES = [''x86_64'', ''aarch64'', ''ppc64le'', ''s390x'', ''i686'', ''i386'', ''armv7hl'',
     ''noarch'', ''src'']"

definition MAX_UPLOAD_FILENAME_LEN :: nat where
  "MAX_UPLOAD_FILENAME_LEN = 200"

record rpm_filename =
  rfn_name :: string
  rfn_arch :: string
  rfn_version_release :: "string option"

definition is_ascii_digit :: "char \<Rightarrow> bool" where
  "is_ascii_digit c \<longleftrightarrow> 48 \<le> (of_char c :: nat) \<and> (of_char c :: nat) \<le> 57"

definition is_ascii_alphanumeric :: "char \<Rightarrow> bool" where
  "is_ascii_alphanumeric c \<longleftrightarrow>
     is_ascii_digit c \<or> (65 \<le> (of_char c :: nat) \<and> (of_char c :: nat) \<le> 90)
       \<or> (97 \<le> (of_char c :: nat) \<and> (of_char c :: nat) \<le> 122)"

text \<open>
  \<open>s.get(split_at..)\<close> is \<open>None\<close> inside a multi-byte character. The byte there is then no
  dot, so the comparison of the bytes alone gives the same result.
\<close>

definition strip_rpm_suffix :: "string \<Rightarrow> string option" where
  "strip_rpm_suffix s =
     (if length s < 4 then None
      else let split_at = length s - 4 in
        if to_ascii_lowercase (drop split_at s) = ''.rpm'' then Some (take split_at s) else None)"

text \<open>The loop over the bytes: the first dash with a digit after it.\<close>

fun version_start :: "string \<Rightarrow> nat option" where
  "version_start (c # d # s) =
     (if c = CHR ''-'' \<and> is_ascii_digit d then Some 0
      else map_option Suc (version_start (d # s)))"
| "version_start _ = None"

definition has_arch_suffix :: "string \<Rightarrow> string \<Rightarrow> bool" where
  "has_arch_suffix stem a \<longleftrightarrow> ends_with stem (CHR ''.'' # a) \<or> ends_with stem (CHR ''_'' # a)"

definition parse_untrusted :: "string \<Rightarrow> rpm_filename option" where
  "parse_untrusted filename =
     (case strip_rpm_suffix filename of
        None \<Rightarrow> None
      | Some stem \<Rightarrow>
          (case List.find (has_arch_suffix stem) KNOWN_ARCHES of
             None \<Rightarrow> None
           | Some arch \<Rightarrow>
               let before_arch = take (length stem - length arch - 1) stem in
               if before_arch = [] then None
               else (case version_start before_arch of
                   Some pos \<Rightarrow>
                     let name = take pos before_arch; version = drop (pos + 1) before_arch in
                     if name = [] then None
                     else Some \<lparr> rfn_name = name, rfn_arch = arch, rfn_version_release = Some version \<rparr>
                 | None \<Rightarrow>
                     Some \<lparr> rfn_name = before_arch, rfn_arch = arch, rfn_version_release = None \<rparr>)))"

section \<open>The allowlist\<close>

definition is_allowed_name_byte :: "char \<Rightarrow> bool" where
  "is_allowed_name_byte b \<longleftrightarrow> is_ascii_alphanumeric b
     \<or> b \<in> {CHR ''.'', CHR ''_'', CHR ''+'', CHR ''~'', CHR ''^'', CHR ''-''}"

datatype name_error = NameEmpty | TooLong | BadFirstByte | BadByte nat | NotRpm

fun first_bad_byte :: "nat \<Rightarrow> string \<Rightarrow> nat option" where
  "first_bad_byte i [] = None"
| "first_bad_byte i (b # bs) = (if \<not> is_allowed_name_byte b then Some i else first_bad_byte (i + 1) bs)"

definition validate_staged_name :: "string \<Rightarrow> name_error + unit" where
  "validate_staged_name name =
     (if name = [] then Inl NameEmpty
      else if length name > MAX_UPLOAD_FILENAME_LEN then Inl TooLong
      else if strip_rpm_suffix name = None then Inl NotRpm
      else if \<not> is_ascii_alphanumeric (hd name) then Inl BadFirstByte
      else (case first_bad_byte 1 (tl name) of
          Some i \<Rightarrow> Inl (BadByte i)
        | None \<Rightarrow> Inr ()))"

datatype staged_name = StagedName (as_str: string)

definition staged_name_parse :: "string \<Rightarrow> name_error + staged_name" where
  "staged_name_parse name =
     (case validate_staged_name name of Inl e \<Rightarrow> Inl e | Inr _ \<Rightarrow> Inr (StagedName name))"

section \<open>Facts about the suffixes\<close>

lemma ends_with_iff: "ends_with s p \<longleftrightarrow> (\<exists>r. s = r @ p)"
proof
  assume "ends_with s p"
  then obtain r where "rev s = rev p @ r" by (auto simp: ends_with_def starts_with_iff)
  then have "s = rev r @ p" by (metis rev_append rev_rev_ident)
  then show "\<exists>r. s = r @ p" ..
qed (auto simp: ends_with_def)

lemma to_ascii_lowercase_length [simp]: "length (to_ascii_lowercase s) = length s"
  by (simp add: to_ascii_lowercase_def)

lemma strip_rpm_suffix_append [simp]:
  assumes "to_ascii_lowercase t = ''.rpm''"
  shows "strip_rpm_suffix (s @ t) = Some s"
proof -
  have "length t = 4" using arg_cong [OF assms, of length] by simp
  with assms show ?thesis by (simp add: strip_rpm_suffix_def)
qed

lemma strip_rpm_suffix_Some:
  "strip_rpm_suffix s = Some stem \<longleftrightarrow> (\<exists>t. s = stem @ t \<and> to_ascii_lowercase t = ''.rpm'')"
proof
  assume some: "strip_rpm_suffix s = Some stem"
  then have "stem = take (length s - 4) s" "to_ascii_lowercase (drop (length s - 4) s) = ''.rpm''"
    by (auto simp: strip_rpm_suffix_def Let_def split: if_splits)
  then show "\<exists>t. s = stem @ t \<and> to_ascii_lowercase t = ''.rpm''"
    by (metis append_take_drop_id)
qed auto

text \<open>No two known architectures are suffixes of one name.\<close>

lemma arch_suffix_table:
  "list_all (\<lambda>a. list_all (\<lambda>b. a = b \<or>
     list_all (\<lambda>c. list_all (\<lambda>d. \<not> ends_with (c # a) (d # b)) [CHR ''.'', CHR ''_''])
       [CHR ''.'', CHR ''_'']) KNOWN_ARCHES) KNOWN_ARCHES"
  by code_simp

lemma arch_suffix_unique:
  assumes "a \<in> set KNOWN_ARCHES" "b \<in> set KNOWN_ARCHES" "has_arch_suffix s a" "has_arch_suffix s b"
  shows "a = b"
proof -
  have split: "s1 @ p = s2 @ q \<Longrightarrow> ends_with p q \<or> ends_with q p" for s1 s2 p q :: string
    by (metis append_eq_append_conv2 ends_with_iff)
  obtain c d where "c \<in> {CHR ''.'', CHR ''_''}" "d \<in> {CHR ''.'', CHR ''_''}"
    and "ends_with (c # a) (d # b) \<or> ends_with (d # b) (c # a)"
    using assms(3,4) split unfolding has_arch_suffix_def ends_with_iff by (metis insertI1 insertI2)
  moreover have "\<not> ends_with (c # a) (d # b)" if "a \<noteq> b" "a \<in> set KNOWN_ARCHES" "b \<in> set KNOWN_ARCHES"
    "c \<in> {CHR ''.'', CHR ''_''}" "d \<in> {CHR ''.'', CHR ''_''}" for a b c d
    using arch_suffix_table that unfolding list_all_iff by (metis list.set(1,2))
  ultimately show ?thesis using assms(1,2) by metis
qed

lemma find_arch:
  assumes "a \<in> set KNOWN_ARCHES" "has_arch_suffix s a"
  shows "List.find (has_arch_suffix s) KNOWN_ARCHES = Some a"
proof (cases "List.find (has_arch_suffix s) KNOWN_ARCHES")
  case None
  with assms show ?thesis by (auto simp: find_None_iff)
next
  case (Some b)
  then have "b \<in> set KNOWN_ARCHES" "has_arch_suffix s b"
    by (auto simp: find_Some_iff)
  with Some assms arch_suffix_unique show ?thesis by blast
qed

lemma version_start_at:
  assumes "version_start name = None" "is_ascii_digit d"
  shows "version_start (name @ CHR ''-'' # d # v) = Some (length name)"
  using assms
  by (induction name rule: version_start.induct) (auto simp: is_ascii_digit_def split: if_splits)

lemma parse_untrusted_known:
  assumes "a \<in> set KNOWN_ARCHES" "c \<in> {CHR ''.'', CHR ''_''}" "to_ascii_lowercase t = ''.rpm''" "b \<noteq> []"
  shows "parse_untrusted (b @ c # a @ t) =
    (case version_start b of
       Some pos \<Rightarrow>
         if take pos b = [] then None
         else Some \<lparr> rfn_name = take pos b, rfn_arch = a, rfn_version_release = Some (drop (pos + 1) b) \<rparr>
     | None \<Rightarrow> Some \<lparr> rfn_name = b, rfn_arch = a, rfn_version_release = None \<rparr>)"
proof -
  have stem: "strip_rpm_suffix (b @ c # a @ t) = Some (b @ c # a)"
    using strip_rpm_suffix_append [OF assms(3), of "b @ c # a"] by simp
  have "has_arch_suffix (b @ c # a) a"
    using assms(2) by (auto simp: has_arch_suffix_def ends_with_iff)
  note find = find_arch [OF assms(1) this]
  show ?thesis
    unfolding parse_untrusted_def stem option.case find using assms(4)
    by (simp add: Let_def split: option.splits)
qed

section \<open>Facts about the allowlist\<close>

lemma first_bad_byte_None: "first_bad_byte i bs = None \<longleftrightarrow> list_all is_allowed_name_byte bs"
  by (induction bs arbitrary: i) auto

lemma first_bad_byte_Some:
  "first_bad_byte i bs = Some j \<longleftrightarrow>
     (\<exists>k. j = i + k \<and> k < length bs \<and> \<not> is_allowed_name_byte (bs ! k)
        \<and> list_all is_allowed_name_byte (take k bs))"
proof (induction bs arbitrary: i)
  case (Cons b bs)
  show ?case
  proof (cases "is_allowed_name_byte b")
    case True
    then have "first_bad_byte i (b # bs) = Some j \<longleftrightarrow>
        (\<exists>k. j = i + 1 + k \<and> k < length bs \<and> \<not> is_allowed_name_byte (bs ! k)
           \<and> list_all is_allowed_name_byte (take k bs))"
      by (simp add: Cons.IH)
    also have "\<dots> \<longleftrightarrow> (\<exists>k. j = i + k \<and> k < length (b # bs) \<and> \<not> is_allowed_name_byte ((b # bs) ! k)
           \<and> list_all is_allowed_name_byte (take k (b # bs)))" (is "?l = ?r")
    proof
      assume ?l
      then obtain k where "j = i + 1 + k \<and> k < length bs \<and> \<not> is_allowed_name_byte (bs ! k)
           \<and> list_all is_allowed_name_byte (take k bs)" ..
      then show ?r using True by (intro exI [of _ "Suc k"]) simp
    next
      assume ?r
      then obtain k where k: "j = i + k" "k < length (b # bs)" "\<not> is_allowed_name_byte ((b # bs) ! k)"
           "list_all is_allowed_name_byte (take k (b # bs))" by blast
      with True obtain m where "k = Suc m" by (cases k) auto
      with k show ?l by (intro exI [of _ m]) simp
    qed
    finally show ?thesis .
  next
    case False
    show ?thesis
    proof
      assume "first_bad_byte i (b # bs) = Some j"
      with False have "j = i" by simp
      with False show "\<exists>k. j = i + k \<and> k < length (b # bs) \<and> \<not> is_allowed_name_byte ((b # bs) ! k)
           \<and> list_all is_allowed_name_byte (take k (b # bs))"
        by (intro exI [of _ 0]) simp
    next
      assume "\<exists>k. j = i + k \<and> k < length (b # bs) \<and> \<not> is_allowed_name_byte ((b # bs) ! k)
           \<and> list_all is_allowed_name_byte (take k (b # bs))"
      then obtain k where k: "j = i + k" "list_all is_allowed_name_byte (take k (b # bs))" by blast
      with False have "k = 0" by (cases k) auto
      with False k show "first_bad_byte i (b # bs) = Some j" by simp
    qed
  qed
qed simp

text \<open>The specification: what an accepted name looks like.\<close>

definition safe_name :: "string \<Rightarrow> bool" where
  "safe_name name \<longleftrightarrow>
     list_all is_allowed_name_byte name \<and> name \<noteq> [] \<and> is_ascii_alphanumeric (hd name) \<and>
     (\<exists>stem t. name = stem @ t \<and> to_ascii_lowercase t = ''.rpm'') \<and>
     length name \<le> MAX_UPLOAD_FILENAME_LEN"

lemma strip_rpm_suffix_not_None:
  "strip_rpm_suffix s \<noteq> None \<longleftrightarrow> (\<exists>stem t. s = stem @ t \<and> to_ascii_lowercase t = ''.rpm'')"
  using strip_rpm_suffix_Some by auto

lemma validate_staged_name_iff: "validate_staged_name name = Inr () \<longleftrightarrow> safe_name name"
proof (cases name)
  case (Cons c cs)
  have "list_all is_allowed_name_byte name \<longleftrightarrow> list_all is_allowed_name_byte cs"
    if "is_ascii_alphanumeric c" using that by (simp add: Cons is_allowed_name_byte_def)
  then show ?thesis
    unfolding validate_staged_name_def safe_name_def
    using first_bad_byte_None [of "Suc 0" cs]
    by (auto simp: Cons strip_rpm_suffix_not_None simp del: not_None_eq split: option.splits)
qed (simp add: validate_staged_name_def safe_name_def)

end
