(* ===== verification/TextProperties.thy ===== *)
theory TextProperties
  imports Redaction RpmFilename
begin

text \<open>
  The properties of the core's text routines: what the scrubber of compose files hides and
  what it leaves alone, the parse of RPM file names, and the allowlist of staged names.
\<close>

section \<open>What the scrubber hides\<close>

text \<open>Two lines that differ at most in the value of a secret.\<close>

inductive same_but_secret :: "string \<Rightarrow> string \<Rightarrow> bool" where
  same_line: "same_but_secret l l"
| same_key: "secret_prefix indent dash key sep gap \<Longrightarrow> plain_value v \<Longrightarrow> plain_value w \<Longrightarrow>
    same_but_secret (indent @ dash @ key @ sep # gap @ v) (indent @ dash @ key @ sep # gap @ w)"

lemma same_but_secret_line: "same_but_secret l m \<Longrightarrow> scrub_line l = scrub_line m"
  by (induction rule: same_but_secret.induct) (simp_all add: scrub_secret_line)


lemma password_prefix: "secret_prefix ''    '' ''- '' ''DB_PASSWORD'' CHR ''='' []"
  unfolding secret_prefix_def by code_simp


section \<open>What the scrubber leaves alone\<close>

text \<open>Trimming takes a contiguous part of a text.\<close>

lemma strip_one_suffix: "strip_one ps s = Some r \<Longrightarrow> \<exists>p. s = p @ r"
  by (induction ps) (auto simp: starts_with_iff split: if_splits)

lemma trim_with_suffix: "\<exists>p. s = p @ trim_with ps s"
proof (induction ps s rule: trim_with.induct)
  case (1 ps s)
  show ?case
  proof (cases "strip_one ps s")
    case None
    then show ?thesis by (subst trim_with.simps) simp
  next
    case (Some r)
    then obtain p q where "s = p @ r" "r = q @ trim_with ps r"
      using strip_one_suffix [OF Some] 1 [OF Some] by blast
    moreover have "trim_with ps s = trim_with ps r" using Some by (subst trim_with.simps) simp
    ultimately show ?thesis by (metis append.assoc)
  qed
qed

lemma str_trim_part: "\<exists>a b. s = a @ str_trim s @ b"
proof -
  obtain a where a: "s = a @ trim_with ws_encodings s" using trim_with_suffix by blast
  obtain b where "rev (trim_with ws_encodings s) = b @ trim_with (map rev ws_encodings) (rev (trim_with ws_encodings s))"
    using trim_with_suffix by blast
  then have "trim_with ws_encodings s = str_trim s @ rev b"
    unfolding str_trim_def by (metis rev_append rev_rev_ident)
  then show ?thesis using a by metis
qed

definition secret_free :: "string \<Rightarrow> bool" where
  "secret_free l \<longleftrightarrow> \<not> matches_secret l \<and> CHR ''@'' \<notin> set l"

lemma secret_free_line:
  assumes "secret_free l"
  shows "scrub_line l = l"
proof -
  obtain a b where part: "l = a @ str_trim l @ b" using str_trim_part by blast
  have "\<not> matches_secret (str_trim l)"
    using matches_secret_append [of "str_trim l" a b] assms unfolding part [symmetric] secret_free_def by blast
  moreover have "\<not> has_url_credentials v" if "set v \<subseteq> set (str_trim l)" for v
  proof
    assume "has_url_credentials v"
    then obtain e where "str_contains (drop (e + 3) v) ''@''"
      by (auto simp: has_url_credentials_def Let_def str_contains_def split: option.splits)
    then have "CHR ''@'' \<in> set (drop (e + 3) v)" by (auto simp: str_contains_iff)
    then have "CHR ''@'' \<in> set (str_trim l)" using that in_set_dropD by fast
    then show False using assms part by (metis Un_iff secret_free_def set_append)
  qed
  moreover have "set (take n (drop k (drop d (str_trim l)))) \<subseteq> set (str_trim l)" for n k d
    by (meson set_drop_subset set_take_subset subset_trans)
  ultimately have "replacement_for (str_trim l) (take n (drop k (drop d (str_trim l)))) = None" for n k d
    by (simp add: replacement_for_def)
  then have no: "replacement_for (str_trim l) (take n (drop k (drop d (str_trim l)))) = None" for n k d
    by blast
  show ?thesis
    unfolding scrub_line_def Let_def no by (simp only: option.case split: option.split prod.split) simp
qed

text \<open>A compose file none of whose lines mentions a secret pattern or holds an at sign comes out of
  the scrubber byte for byte as it went in, with or without a final line feed.
\<close>

theorem scrub_keeps_secret_free:
  assumes "CHR 0x0D \<notin> set content" "list_all secret_free (str_lines content)"
  shows "scrub_compose_secrets content = content"
  using scrub_unchanged [OF assms(1)] assms(2) secret_free_line by (simp add: list_all_iff)

theorem scrub_keeps_secret_free_witness:
  "scrub_compose_secrets ''web:  PORT=80'' = ''web:  PORT=80''"
  by (rule scrub_keeps_secret_free) code_simp+

section \<open>RPM file names\<close>

definition dash_digit :: "string \<Rightarrow> bool" where
  "dash_digit s \<longleftrightarrow> (\<exists>u d w. s = u @ CHR ''-'' # d # w \<and> is_ascii_digit d)"

lemma dash_digit_Cons:
  "dash_digit (c # s) \<longleftrightarrow> (c = CHR ''-'' \<and> s \<noteq> [] \<and> is_ascii_digit (hd s)) \<or> dash_digit s"
proof
  assume "dash_digit (c # s)"
  then obtain u d w where u: "c # s = u @ CHR ''-'' # d # w" "is_ascii_digit d" by (auto simp: dash_digit_def)
  then show "(c = CHR ''-'' \<and> s \<noteq> [] \<and> is_ascii_digit (hd s)) \<or> dash_digit s"
    by (cases u) (auto simp: dash_digit_def)
next
  assume or: "(c = CHR ''-'' \<and> s \<noteq> [] \<and> is_ascii_digit (hd s)) \<or> dash_digit s"
  show "dash_digit (c # s)"
  proof (cases "dash_digit s")
    case True
    then obtain u d w where "s = u @ CHR ''-'' # d # w" "is_ascii_digit d" by (auto simp: dash_digit_def)
    then show ?thesis unfolding dash_digit_def by (intro exI [of _ "c # u"] exI [of _ d] exI [of _ w]) simp
  next
    case False
    with or obtain d w where "c = CHR ''-''" "s = d # w" "is_ascii_digit d" by (cases s) auto
    then show ?thesis unfolding dash_digit_def by (intro exI [of _ "[]"] exI [of _ d] exI [of _ w]) simp
  qed
qed

lemma version_start_None: "version_start s = None \<longleftrightarrow> \<not> dash_digit s"
  by (induction s rule: version_start.induct)
    (auto simp: dash_digit_Cons, auto simp: dash_digit_def)

text \<open>C36. An RPM file name parses back into its parts: for a known architecture, a name without a dash
  before a digit and a version that starts with a digit, the parser returns exactly the
  name, the architecture and the version, and without a version part it returns none.
\<close>

theorem rpm_filename_roundtrip:
  assumes "arch \<in> set KNOWN_ARCHES" "sep \<in> {CHR ''.'', CHR ''_''}" "to_ascii_lowercase suffix = ''.rpm''"
    and "name \<noteq> []" "\<not> dash_digit name" "is_ascii_digit (hd version)" "version \<noteq> []"
  shows "parse_untrusted (name @ CHR ''-'' # version @ sep # arch @ suffix) =
      Some \<lparr> rfn_name = name, rfn_arch = arch, rfn_version_release = Some version \<rparr> \<and>
    parse_untrusted (name @ sep # arch @ suffix) =
      Some \<lparr> rfn_name = name, rfn_arch = arch, rfn_version_release = None \<rparr>"
proof -
  obtain d v where v: "version = d # v" "is_ascii_digit d" using assms(6,7) by (cases version) auto
  have none: "version_start name = None" using assms(5) version_start_None by blast
  from version_start_at [OF none v(2), of v]
  have "version_start (name @ CHR ''-'' # version) = Some (length name)" by (simp add: v)
  then show ?thesis
    using parse_untrusted_known [OF assms(1-3), of "name @ CHR ''-'' # version"]
      parse_untrusted_known [OF assms(1-3), of name] assms(4) none by simp
qed

theorem rpm_filename_roundtrip_witness:
  "parse_untrusted ''vim-enhanced-9.1.el9.x86_64.RPM'' =
     Some \<lparr> rfn_name = ''vim-enhanced'', rfn_arch = ''x86_64'', rfn_version_release = Some ''9.1.el9'' \<rparr>"
proof -
  have "\<not> dash_digit ''vim-enhanced''" unfolding version_start_None [symmetric] by code_simp
  moreover have "to_ascii_lowercase ''.RPM'' = ''.rpm''" by code_simp
  ultimately show ?thesis
    using rpm_filename_roundtrip [of "''x86_64''" "CHR ''.''" "''.RPM''" "''vim-enhanced''" "''9.1.el9''"]
    by (simp add: KNOWN_ARCHES_def is_ascii_digit_def)
qed

section \<open>Staged names\<close>

definition alphabet_ok :: "string \<Rightarrow> bool" where
  "alphabet_ok name \<longleftrightarrow> CHR ''/'' \<notin> set name \<and> CHR 0x00 \<notin> set name \<and> hd name \<noteq> CHR ''.'' \<and> hd name \<noteq> CHR ''-''"

lemma safe_name_alphabet: "safe_name name \<Longrightarrow> alphabet_ok name"
proof -
  assume safe: "safe_name name"
  have bad: "\<not> is_allowed_name_byte (CHR ''/'')" "\<not> is_allowed_name_byte (CHR 0x00)"
    "\<not> is_ascii_alphanumeric (CHR ''.'')" "\<not> is_ascii_alphanumeric (CHR ''-'')"
    by (simp_all add: is_allowed_name_byte_def is_ascii_alphanumeric_def is_ascii_digit_def)
  show "alphabet_ok name"
    using safe bad unfolding safe_name_def alphabet_ok_def list_all_iff by metis
qed

text \<open>C35. A staged name is accepted exactly when it is safe: not empty, at most 200 bytes, ending in
  \<open>.rpm\<close> in any case, starting with an ASCII letter or digit and built from the allowed
  bytes. An accepted name has no slash, no NUL and no leading dot or dash, so it cannot leave
  its directory or read as an option, and the index an error reports is that of the first
  byte outside the allowlist.
\<close>

theorem staged_name_decision:
  "(staged_name_parse name = Inr (StagedName name) \<longleftrightarrow> safe_name name) \<and>
    (\<not> safe_name name \<longleftrightarrow> (\<exists>e. staged_name_parse name = Inl e)) \<and>
    (safe_name name \<longrightarrow> alphabet_ok name) \<and>
    (staged_name_parse name = Inl (BadByte i) \<longrightarrow>
      0 < i \<and> i < length name \<and> \<not> is_allowed_name_byte (name ! i) \<and>
      list_all is_allowed_name_byte (take i name))"
proof -
  have accept: "validate_staged_name name = Inr () \<longleftrightarrow> safe_name name" by (rule validate_staged_name_iff)
  have "staged_name_parse name = Inl (BadByte i) \<Longrightarrow>
      0 < i \<and> i < length name \<and> \<not> is_allowed_name_byte (name ! i) \<and> list_all is_allowed_name_byte (take i name)"
  proof -
    assume "staged_name_parse name = Inl (BadByte i)"
    then have v: "validate_staged_name name = Inl (BadByte i)"
      by (auto simp: staged_name_parse_def split: sum.splits)
    then obtain c cs where c: "name = c # cs" by (cases name) (auto simp: validate_staged_name_def)
    with v have first: "is_ascii_alphanumeric c" and "first_bad_byte 1 cs = Some i"
      by (auto simp: validate_staged_name_def split: if_splits option.splits)
    then obtain k where "i = 1 + k" "k < length cs" "\<not> is_allowed_name_byte (cs ! k)"
        "list_all is_allowed_name_byte (take k cs)"
      using first_bad_byte_Some [of 1 cs i] by blast
    then show ?thesis using c first by (simp add: is_allowed_name_byte_def)
  qed
  moreover have "staged_name_parse name = Inr (StagedName name)" if "safe_name name"
    using that accept by (simp add: staged_name_parse_def)
  moreover have "\<exists>e. staged_name_parse name = Inl e" if "\<not> safe_name name"
    using that accept by (cases "validate_staged_name name") (auto simp: staged_name_parse_def)
  ultimately show ?thesis using safe_name_alphabet [of name] by (metis sum.distinct(1))
qed

theorem staged_name_decision_witness:
  "staged_name_parse ''a/b.rpm'' = Inl (BadByte 1) \<and> \<not> is_allowed_name_byte (''a/b.rpm'' ! 1) \<and>
    staged_name_parse ''b.rpm'' = Inr (StagedName ''b.rpm'') \<and> alphabet_ok ''b.rpm''"
proof -
  have bad: "staged_name_parse ''a/b.rpm'' = Inl (BadByte 1)" by code_simp
  have good: "staged_name_parse ''b.rpm'' = Inr (StagedName ''b.rpm'')" by code_simp
  show ?thesis
    using staged_name_decision [of "''a/b.rpm''" 1] staged_name_decision [of "''b.rpm''" 0] bad good by blast
qed

end
