(* ===== verification/ExportSafety.thy ===== *)
theory ExportSafety
  imports RpmFilename
begin

text \<open>
  The safety checks of the renderers (\<open>crates/pipeline/src/render/safety.rs\<close>): which values
  may stand in a \<open>RUN\<close> line, which paths and fields in a build instruction, the escaping of
  HTML, and the kernel arguments an operator added. The regular expressions are classes of
  characters, written out here.
\<close>

section \<open>Shell values\<close>

definition SHELL_UNSAFE :: "char list" where
  "SHELL_UNSAFE = [CHR '';'', CHR ''&'', CHR ''|'', CHR ''$'', CHR 0x60, CHR 0x22, CHR 0x27, CHR 0x5C,
     CHR ''<'', CHR ''>'', CHR ''('', CHR '')'', CHR ''{'', CHR ''}'', CHR 0x0A, CHR 0x0D]"

definition shell_unsafe :: "string \<Rightarrow> bool" where
  "shell_unsafe val \<longleftrightarrow> list_ex (\<lambda>c. c \<in> set SHELL_UNSAFE) val \<or> has_whitespace val"

definition sanitize_shell_value :: "string \<Rightarrow> string option" where
  "sanitize_shell_value val = (if shell_unsafe val then None else Some val)"

definition is_valid_tuned_profile :: "string \<Rightarrow> bool" where
  "is_valid_tuned_profile name \<longleftrightarrow>
     name \<noteq> [] \<and> list_all (\<lambda>c. is_ascii_alphanumeric c \<or> c = CHR ''_'' \<or> c = CHR ''-'') name"

section \<open>Exported paths\<close>

definition MAX_EXPORT_PATH_LEN :: nat where
  "MAX_EXPORT_PATH_LEN = 4096"

definition is_allowed_path_byte :: "char \<Rightarrow> bool" where
  "is_allowed_path_byte b \<longleftrightarrow> is_ascii_alphanumeric b
     \<or> b \<in> {CHR ''.'', CHR ''_'', CHR ''+'', CHR ''~'', CHR ''^'', CHR ''@'', CHR '':'', CHR '','', CHR ''-'', CHR ''/''}"

datatype path_error = PathEmpty | PathTooLong | NotAbsolute | PathBadByte nat | RelativeComponent

text \<open>The loop over the bytes: the index of the first that fails.\<close>

fun first_refused :: "(char \<Rightarrow> bool) \<Rightarrow> nat \<Rightarrow> string \<Rightarrow> nat option" where
  "first_refused allowed i [] = None"
| "first_refused allowed i (b # bs) = (if \<not> allowed b then Some i else first_refused allowed (i + 1) bs)"

datatype export_path = ExportPath (path_str: string)

definition export_path_parse :: "string \<Rightarrow> path_error + export_path" where
  "export_path_parse path =
     (if path = [] then Inl PathEmpty
      else if length path > MAX_EXPORT_PATH_LEN then Inl PathTooLong
      else if \<not> starts_with path ''/'' then Inl NotAbsolute
      else (case first_refused is_allowed_path_byte 0 path of
          Some i \<Rightarrow> Inl (PathBadByte i)
        | None \<Rightarrow>
            if list_ex (\<lambda>c. c = ''.'' \<or> c = ''..'') (split_on (\<lambda>c. c = CHR ''/'') path)
            then Inl RelativeComponent
            else Inr (ExportPath path)))"

section \<open>Exported fields\<close>

definition MAX_EXPORT_TOKEN_LEN :: nat where
  "MAX_EXPORT_TOKEN_LEN = 256"

definition is_allowed_token_byte :: "char \<Rightarrow> bool" where
  "is_allowed_token_byte b \<longleftrightarrow> is_ascii_alphanumeric b \<or> b \<in> {CHR ''.'', CHR ''_'', CHR ''-''}"

datatype token_error = TokenEmpty | TokenTooLong | TokenBadByte nat

datatype export_token = ExportToken (token_str: string)

definition export_token_parse :: "string \<Rightarrow> token_error + export_token" where
  "export_token_parse value =
     (if value = [] then Inl TokenEmpty
      else if length value > MAX_EXPORT_TOKEN_LEN then Inl TokenTooLong
      else (case first_refused is_allowed_token_byte 0 value of
          Some i \<Rightarrow> Inl (TokenBadByte i)
        | None \<Rightarrow> Inr (ExportToken value)))"

section \<open>HTML\<close>

definition html_char :: "char \<Rightarrow> string" where
  "html_char ch =
     (if ch = CHR ''&'' then ''&amp;''
      else if ch = CHR ''<'' then ''&lt;''
      else if ch = CHR ''>'' then ''&gt;''
      else if ch = CHR 0x22 then ''&quot;''
      else if ch = CHR 0x27 then ''&#x27;''
      else [ch])"

definition html_escape :: "string \<Rightarrow> string" where
  "html_escape input = concat (map html_char input)"

section \<open>Kernel arguments\<close>

definition KARGS_BOOTLOADER_EXACT :: "string list" where
  "KARGS_BOOTLOADER_EXACT = [''ro'', ''rhgb'', ''quiet'', ''splash'', ''nosplash'', ''noplymouth'']"

definition KARGS_BOOTLOADER_PREFIXES :: "string list" where
  "KARGS_BOOTLOADER_PREFIXES = [''root='', ''rd.lvm.lv='', ''rd.luks.uuid='', ''resume='', ''BOOT_IMAGE='',
     ''initrd='', ''LANG='', ''console='', ''crashkernel='']"

definition is_bootloader_karg :: "string \<Rightarrow> bool" where
  "is_bootloader_karg karg \<longleftrightarrow>
     karg \<in> set KARGS_BOOTLOADER_EXACT \<or> list_ex (starts_with karg) KARGS_BOOTLOADER_PREFIXES"

text \<open>\<open>s.split_whitespace()\<close>: the pieces between white space that are not empty.\<close>

function words_from :: "string \<Rightarrow> string \<Rightarrow> string list" where
  "words_from acc s =
     (case s of
        [] \<Rightarrow> if acc = [] then [] else [rev acc]
      | c # cs \<Rightarrow>
          (case strip_one ws_encodings s of
             None \<Rightarrow> words_from (c # acc) cs
           | Some r \<Rightarrow> (if acc = [] then [] else [rev acc]) @ words_from [] r))"
  by pat_completeness auto
termination
  by (relation "measure (length \<circ> snd)") (auto dest!: strip_one_shorter)

declare words_from.simps [simp del]

definition split_whitespace :: "string \<Rightarrow> string list" where
  "split_whitespace s = words_from [] s"

definition operator_kargs :: "string \<Rightarrow> string list" where
  "operator_kargs cmdline =
     filter (\<lambda>karg. sanitize_shell_value karg \<noteq> None)
       (filter (\<lambda>karg. \<not> is_bootloader_karg karg) (split_whitespace cmdline))"

section \<open>Facts\<close>

lemma sanitize_Some: "sanitize_shell_value v = Some w \<longleftrightarrow> w = v \<and> \<not> shell_unsafe v"
  by (auto simp: sanitize_shell_value_def)

lemma sanitize_None: "sanitize_shell_value v = None \<longleftrightarrow> shell_unsafe v"
  by (simp add: sanitize_shell_value_def)

lemma first_refused_None: "first_refused allowed i bs = None \<longleftrightarrow> list_all allowed bs"
  by (induction bs arbitrary: i) auto

lemma first_refused_Some:
  "first_refused allowed i bs = Some j \<Longrightarrow>
     i \<le> j \<and> j - i < length bs \<and> \<not> allowed (bs ! (j - i)) \<and> list_all allowed (take (j - i) bs)"
proof (induction bs arbitrary: i)
  case (Cons b bs)
  show ?case
  proof (cases "allowed b")
    case True
    then have "first_refused allowed (i + 1) bs = Some j" using Cons.prems by simp
    from Cons.IH [OF this] have "i + 1 \<le> j" "j - (i + 1) < length bs" "\<not> allowed (bs ! (j - (i + 1)))"
      "list_all allowed (take (j - (i + 1)) bs)" by auto
    moreover from this(1) have "j - i = Suc (j - (i + 1))" by simp
    ultimately show ?thesis using True by simp
  next
    case False
    then show ?thesis using Cons.prems by auto
  qed
qed simp

text \<open>The bytes of an exported path or field are harmless in a shell.\<close>

lemma ws_not_alphanumeric:
  "list_all (\<lambda>w. w \<noteq> [] \<and> \<not> is_allowed_path_byte (hd w)) ws_encodings"
  by code_simp

lemma unsafe_not_path: "list_all (\<lambda>c. \<not> is_allowed_path_byte c) SHELL_UNSAFE"
  by code_simp

lemma token_path_byte: "is_allowed_token_byte b \<Longrightarrow> is_allowed_path_byte b"
  by (auto simp: is_allowed_token_byte_def is_allowed_path_byte_def)

lemma path_bytes_safe:
  assumes "list_all is_allowed_path_byte s"
  shows "\<not> shell_unsafe s"
proof -
  have "\<not> str_contains s w" if "w \<in> set ws_encodings" for w
  proof
    assume "str_contains s w"
    then obtain a b where "s = a @ w @ b" by (auto simp: str_contains_iff)
    moreover have "w \<noteq> []" "\<not> is_allowed_path_byte (hd w)"
      using ws_not_alphanumeric that by (auto simp: list_all_iff)
    ultimately show False using assms by (cases w) auto
  qed
  moreover have "\<not> list_ex (\<lambda>c. c \<in> set SHELL_UNSAFE) s"
    using assms unsafe_not_path by (auto simp: list_ex_iff list_all_iff)
  ultimately show ?thesis by (simp add: shell_unsafe_def has_whitespace_def)
qed

end
