(* ===== verification/ServiceIntent.thy ===== *)
theory ServiceIntent
  imports ExportSafety Classify
begin

text \<open>
  The services of the rendered image (\<open>crates/pipeline/src/render/service_intent.rs\<close>): which
  packages \<open>dnf\<close> can install, which services are emitted, omitted or annotated, and the
  \<open>systemctl\<close> lines. A rendered file is a list of lines; the renderers never push a line feed
  of their own.
\<close>

section \<open>Installability\<close>

datatype manual_reason = ManualLocalInstall | ManualNoRepo | ManualMissingSourceRepo

definition package_display_name :: "package_entry \<Rightarrow> string" where
  "package_display_name pkg = (if pe_arch pkg = [] then pe_name pkg else pe_name pkg @ ''.'' @ pe_arch pkg)"

text \<open>The serialised name of a state (\<open>rename_all = "snake_case"\<close>), without its quotes.\<close>

fun package_state_label :: "package_state \<Rightarrow> string" where
  "package_state_label PkgAdded = ''added''"
| "package_state_label PkgBaseImageOnly = ''base_image_only''"
| "package_state_label PkgModified = ''modified''"
| "package_state_label PkgLocalInstall = ''local_install''"
| "package_state_label PkgNoRepo = ''no_repo''"

definition COMMANDLINE_REPO :: string where
  "COMMANDLINE_REPO = ''@commandline''"

definition manual_follow_up_reason :: "package_entry \<Rightarrow> manual_reason option" where
  "manual_follow_up_reason pkg =
     (if pe_state pkg = PkgLocalInstall then Some ManualLocalInstall
      else if pe_state pkg = PkgNoRepo then Some ManualNoRepo
      else if pe_source_repo pkg = [] then Some ManualMissingSourceRepo
      else if ignore_case_eq (pe_source_repo pkg) COMMANDLINE_REPO \<and> pe_repo_enabling_from pkg = []
      then Some ManualNoRepo
      else None)"

text \<open>The dash is U+2014, three bytes in UTF-8.\<close>

definition long_dash :: string where
  "long_dash = [CHR 0xE2, CHR 0x80, CHR 0x94]"

definition quote1 :: "string \<Rightarrow> string" where
  "quote1 t = [CHR 0x27] @ t @ [CHR 0x27]"

definition manual_follow_up_line :: "package_entry \<Rightarrow> string option" where
  "manual_follow_up_line pkg =
     (let name = quote1 (package_display_name pkg); state = package_state_label (pe_state pkg) in
      case manual_follow_up_reason pkg of
        Some ManualLocalInstall \<Rightarrow>
          Some (''# TODO: '' @ name @ '' was installed locally (state: '' @ state @ '') '' @ long_dash @
            '' provide a .rpm or custom repo.'')
      | Some ManualNoRepo \<Rightarrow>
          Some (''# TODO: '' @ name @ '' has no repository source (state: '' @ state @ '') '' @ long_dash @
            '' provide a .rpm or custom repo.'')
      | Some ManualMissingSourceRepo \<Rightarrow>
          Some (''# TODO: '' @ name @ '' has no recorded repository source '' @ long_dash @
            '' verify how to reinstall it in the image.'')
      | None \<Rightarrow> None)"

definition is_package_installable :: "package_entry \<Rightarrow> bool" where
  "is_package_installable pkg \<longleftrightarrow> manual_follow_up_reason pkg = None"

text \<open>A \<open>BTreeSet\<close> that is only asked for membership.\<close>

definition effective_target_packages :: "rpm_section \<Rightarrow> string set" where
  "effective_target_packages rpm =
     set_of_option (rpm_baseline_package_names rpm) \<union>
     set (map pe_name (filter (\<lambda>pkg. is_included (pe_disposition pkg)) (rpm_packages_added rpm)))"

section \<open>The presence of a service\<close>

record service_omission =
  so_unit :: string
  so_owning_package :: string

datatype advisory_reason = PackageExcluded | PackageUnreachable | BaselineUnavailable

record service_advisory =
  sa_unit :: string
  sa_owning_package :: string
  sa_reasons :: "advisory_reason list"

record service_render_plan =
  srp_lines :: "string list"
  srp_omissions :: "service_omission list"
  srp_advisories :: "service_advisory list"

datatype presence_decision = Omit string | Emit "(string \<times> advisory_reason list) option"

definition systemctl_lines :: "string \<Rightarrow> string list \<Rightarrow> string list" where
  "systemctl_lines verb units =
     (''RUN systemctl '' @ verb @ '' '' @ [CHR 0x5C]) #
     map (\<lambda>(i, u). if i < length units - 1 then ''    '' @ u @ '' '' @ [CHR 0x5C] else ''    '' @ u)
       (enumerate 0 units)"

definition timer_units :: "systemd_timer \<Rightarrow> string list" where
  "timer_units t =
     (if tm_source t = ''local'' \<and> tm_name t \<noteq> [] then [tm_name t @ ''.timer'', tm_name t @ ''.service''] else [])"

definition generated_units :: "generated_timer_unit \<Rightarrow> string list" where
  "generated_units u =
     (if is_included (gt_disposition u) \<and> gt_name u \<noteq> []
      then (if gt_timer_content u \<noteq> [] then [gt_name u @ ''.timer''] else []) @
           (if gt_service_content u \<noteq> [] then [gt_name u @ ''.service''] else [])
      else [])"

definition config_tree_units :: "inspection_snapshot \<Rightarrow> string set" where
  "config_tree_units snap =
     (case snap_scheduled_tasks snap of
        None \<Rightarrow> {}
      | Some st \<Rightarrow> set (concat (map timer_units (sch_systemd_timers st))) \<union>
          set (concat (map generated_units (sch_generated_timer_units st))))"

definition with_baseline_reason :: "bool \<Rightarrow> advisory_reason \<Rightarrow> advisory_reason list" where
  "with_baseline_reason baseline_unavailable r =
     r # (if baseline_unavailable then [BaselineUnavailable] else [])"

definition classify_service_presence ::
  "service_state_change \<Rightarrow> rpm_section \<Rightarrow> string set \<Rightarrow> bool \<Rightarrow> presence_decision" where
  "classify_service_presence sc rpm target_packages baseline_unavailable =
     (case ssc_owning_package sc of
        None \<Rightarrow> Emit None
      | Some pkg_name \<Rightarrow>
          let matching = filter (\<lambda>p. pe_name p = pkg_name) (rpm_packages_added rpm) in
          if matching \<noteq> [] then
            (if list_ex (\<lambda>p. is_included (pe_disposition p) \<and> is_package_installable p) matching then Emit None
             else if list_ex (\<lambda>p. is_included (pe_disposition p) \<and> \<not> is_package_installable p) matching
             then Emit (Some (pkg_name, with_baseline_reason baseline_unavailable PackageUnreachable))
             else Emit (Some (pkg_name, with_baseline_reason baseline_unavailable PackageExcluded)))
          else if pkg_name \<in> target_packages then Emit None
          else if baseline_unavailable then Emit (Some (pkg_name, [BaselineUnavailable]))
          else Omit pkg_name)"

section \<open>The plan\<close>

text \<open>The vectors the loop over the included changes fills.\<close>

record service_loop =
  sl_omissions :: "service_omission list"
  sl_comments :: "string list"
  sl_advisories :: "service_advisory list"
  sl_enabled :: "string list"
  sl_disabled :: "string list"
  sl_masked :: "string list"
  sl_deferred :: "string list"

definition service_loop_start :: service_loop where
  "service_loop_start = \<lparr> sl_omissions = [], sl_comments = [], sl_advisories = [], sl_enabled = [],
     sl_disabled = [], sl_masked = [], sl_deferred = [] \<rparr>"

definition place_unit :: "string set \<Rightarrow> service_state_change \<Rightarrow> service_loop \<Rightarrow> service_loop" where
  "place_unit ct_units sc st =
     (case implied_action sc of
        ActEnable \<Rightarrow>
          if ssc_unit sc \<in> ct_units then st\<lparr>sl_deferred := sl_deferred st @ [ssc_unit sc]\<rparr>
          else st\<lparr>sl_enabled := sl_enabled st @ [ssc_unit sc]\<rparr>
      | ActDisable \<Rightarrow> st\<lparr>sl_disabled := sl_disabled st @ [ssc_unit sc]\<rparr>
      | ActMask \<Rightarrow> st\<lparr>sl_masked := sl_masked st @ [ssc_unit sc]\<rparr>)"

definition omission_comment :: "string \<Rightarrow> string \<Rightarrow> string" where
  "omission_comment u owning_package =
     ''# Omitted: '' @ u @ '' (package '' @ quote1 owning_package @ '' not in target image)''"

definition service_step ::
  "(service_state_change \<Rightarrow> presence_decision) \<Rightarrow> string set \<Rightarrow> service_loop \<Rightarrow> service_state_change \<Rightarrow> service_loop" where
  "service_step presence ct_units st sc =
     (if sanitize_shell_value (ssc_unit sc) = None then st
      else case presence sc of
        Omit owning_package \<Rightarrow>
          st\<lparr>sl_comments := sl_comments st @ [omission_comment (ssc_unit sc) owning_package],
             sl_omissions := sl_omissions st @
               [\<lparr> so_unit = ssc_unit sc, so_owning_package = owning_package \<rparr>]\<rparr>
      | Emit advisory_reasons \<Rightarrow>
          place_unit ct_units sc
            (case advisory_reasons of
               None \<Rightarrow> st
             | Some (pkg, reasons) \<Rightarrow>
                 st\<lparr>sl_advisories := sl_advisories st @
                   [\<lparr> sa_unit = ssc_unit sc, sa_owning_package = pkg, sa_reasons = reasons \<rparr>]\<rparr>))"

definition plain_step :: "string set \<Rightarrow> service_loop \<Rightarrow> service_state_change \<Rightarrow> service_loop" where
  "plain_step ct_units st sc =
     (if sanitize_shell_value (ssc_unit sc) = None then st else place_unit ct_units sc st)"

definition action_lines :: "service_loop \<Rightarrow> string list" where
  "action_lines st =
     (if sl_enabled st \<noteq> [] then systemctl_lines ''enable'' (sl_enabled st) else []) @
     (if sl_disabled st \<noteq> [] then systemctl_lines ''disable'' (sl_disabled st) else []) @
     (if sl_masked st \<noteq> [] then systemctl_lines ''mask'' (sl_masked st) else []) @
     (if sl_deferred st \<noteq> []
      then [''# '' @ nat_str (length (sl_deferred st)) @ '' unit(s) deferred to Scheduled Tasks section: '' @
            str_join '', '' (sl_deferred st)]
      else [])"

definition empty_plan :: service_render_plan where
  "empty_plan = \<lparr> srp_lines = [], srp_omissions = [], srp_advisories = [] \<rparr>"

definition included_changes :: "service_section \<Rightarrow> service_state_change list" where
  "included_changes services = filter (\<lambda>sc. is_included (ssc_disposition sc)) (svc_state_changes services)"

definition render_without_rpm :: "service_section \<Rightarrow> string set \<Rightarrow> service_render_plan" where
  "render_without_rpm services ct_units =
     (if included_changes services = [] then empty_plan
      else \<lparr> srp_lines = action_lines (foldl (plain_step ct_units) service_loop_start (included_changes services)),
             srp_omissions = [], srp_advisories = [] \<rparr>)"

definition presence_of ::
  "inspection_snapshot \<Rightarrow> rpm_section \<Rightarrow> service_state_change \<Rightarrow> presence_decision" where
  "presence_of snap rpm sc =
     (if snap_aggregate_meta snap \<noteq> None then Emit None
      else classify_service_presence sc rpm (effective_target_packages rpm)
        (rpm_baseline_package_names rpm = None))"

definition render_service_intent :: "inspection_snapshot \<Rightarrow> service_render_plan" where
  "render_service_intent snap =
     (case snap_services snap of
        None \<Rightarrow> empty_plan
      | Some services \<Rightarrow>
          (case snap_rpm snap of
             None \<Rightarrow> render_without_rpm services (config_tree_units snap)
           | Some rpm \<Rightarrow>
               if included_changes services = [] then empty_plan
               else let st = foldl (service_step (presence_of snap rpm) (config_tree_units snap))
                        service_loop_start (included_changes services)
                    in \<lparr> srp_lines = sl_comments st @ action_lines st,
                         srp_omissions = sl_omissions st, srp_advisories = sl_advisories st \<rparr>))"

end
