(* ===== verification/RenderLines.thy ===== *)
theory RenderLines
  imports ServiceIntent GroupState
begin

text \<open>
  What the renderers of the Containerfile share: the section banner
  (\<open>crates/pipeline/src/render/containerfile.rs\<close>), the escaping of a comment
  (\<open>language_packages.rs\<close>), the render context (\<open>crates/core/src/types/group_render.rs\<close>,
  \<open>verified_upload.rs\<close>), and the notions their properties use: a line without a line feed, and
  a line the build does not execute.
\<close>

section \<open>Sections and comments\<close>

definition section_lines :: "string \<Rightarrow> string list \<Rightarrow> string list" where
  "section_lines header body =
     (if body = [] then [] else (''# === '' @ header @ '' ==='') # body @ [[]])"

text \<open>\<open>s.replace(c, r)\<close> for a character.\<close>

definition replace_char :: "char \<Rightarrow> string \<Rightarrow> string \<Rightarrow> string" where
  "replace_char c r s = concat (map (\<lambda>x. if x = c then r else [x]) s)"

definition sanitize_for_comment :: "string \<Rightarrow> string" where
  "sanitize_for_comment s =
     replace_char (CHR 0x0A) [CHR 0x5C, CHR ''n''] (replace_char (CHR 0x27) [CHR 0x27, CHR 0x27] s)"

section \<open>Fields of an account\<close>

fun json_as_bool :: "json \<Rightarrow> bool option" where
  "json_as_bool (JBool b) = Some b"
| "json_as_bool _ = None"

definition str_field :: "json \<Rightarrow> string \<Rightarrow> string" where
  "str_field v key = (case Option.bind (json_get key v) json_as_str of None \<Rightarrow> [] | Some s \<Rightarrow> s)"

definition included_account :: "json \<Rightarrow> bool" where
  "included_account u =
     (case Option.bind (json_get ''include'' u) json_as_bool of None \<Rightarrow> True | Some b \<Rightarrow> b)"

section \<open>The render context\<close>

record verified_upload =
  vu_canonical :: string
  vu_basename :: staged_name
  vu_uploaded_version :: "string option"

record render_context =
  rc_group_states :: "string \<rightharpoonup> group_render_state"
  rc_verified_uploads :: "string \<rightharpoonup> verified_upload"

definition ctx_is_renderable :: "render_context \<Rightarrow> string \<Rightarrow> bool" where
  "ctx_is_renderable ctx group_name \<longleftrightarrow> rc_group_states ctx group_name = Some Renderable"

section \<open>Lines\<close>

abbreviation nl :: char where
  "nl \<equiv> CHR 0x0A"

definition one_line :: "string \<Rightarrow> bool" where
  "one_line l \<longleftrightarrow> nl \<notin> set l"

text \<open>A line the build does not execute: an empty one or a comment.\<close>

definition inert :: "string \<Rightarrow> bool" where
  "inert l \<longleftrightarrow> one_line l \<and> (l = [] \<or> hd l = CHR ''#'')"

named_theorems line_simps

lemma one_line_append [line_simps]: "one_line (a @ b) \<longleftrightarrow> one_line a \<and> one_line b"
  by (auto simp: one_line_def)

lemma one_line_Cons [line_simps]: "one_line (c # s) \<longleftrightarrow> c \<noteq> nl \<and> one_line s"
  by (auto simp: one_line_def)

lemma one_line_Nil [line_simps]: "one_line []"
  by (simp add: one_line_def)

lemma inert_Nil [line_simps]: "inert []"
  by (simp add: inert_def one_line_def)

lemma inert_Cons [line_simps]: "inert (c # s) \<longleftrightarrow> c = CHR ''#'' \<and> one_line s"
  by (auto simp: inert_def one_line_def)

lemma one_line_quote1 [line_simps]: "one_line (quote1 s) \<longleftrightarrow> one_line s"
  by (simp add: quote1_def line_simps)

lemma one_line_long_dash [line_simps]: "one_line long_dash"
  by (simp add: one_line_def long_dash_def)

lemma one_line_join: "one_line sep \<Longrightarrow> (\<And>x. x \<in> set xs \<Longrightarrow> one_line x) \<Longrightarrow> one_line (str_join sep xs)"
  by (induction sep xs rule: str_join.induct) (auto simp: line_simps)

lemma set_replace_char: "set (replace_char c r s) \<subseteq> (set s - {c}) \<union> set r"
  by (auto simp: replace_char_def)

lemma one_line_sanitized [line_simps]: "one_line (sanitize_for_comment s)"
  using set_replace_char [of nl "[CHR 0x5C, CHR ''n'']"]
  by (fastforce simp: one_line_def sanitize_for_comment_def)

lemma nat_str_digits: "set (nat_str n) \<subseteq> RustStr.digit_char ` {0..<10}"
proof (induction n rule: nat_str.induct)
  case (1 n)
  then show ?case by (subst nat_str.simps) (auto simp: not_less)
qed

lemma one_line_nat_str [line_simps]: "one_line (nat_str n)"
proof -
  have "list_all (\<lambda>d. RustStr.digit_char d \<noteq> nl) [0..<10]" by code_simp
  then have "\<forall>d < 10. RustStr.digit_char d \<noteq> nl" by (simp add: list_all_iff)
  then show ?thesis using nat_str_digits [of n] by (fastforce simp: one_line_def)
qed

text \<open>A value the shell check passes stays on its line.\<close>

lemma one_line_safe: "\<not> shell_unsafe v \<Longrightarrow> one_line v"
proof -
  have "nl \<in> set SHELL_UNSAFE" by code_simp
  then show "\<not> shell_unsafe v \<Longrightarrow> one_line v"
    by (auto simp: shell_unsafe_def one_line_def list_ex_iff)
qed

lemma one_line_path_bytes: "list_all is_allowed_path_byte s \<Longrightarrow> one_line s"
  by (rule one_line_safe) (rule path_bytes_safe)

lemma name_byte_path_byte: "is_allowed_name_byte b \<Longrightarrow> is_allowed_path_byte b"
  by (auto simp: is_allowed_name_byte_def is_allowed_path_byte_def)

lemma set_section_lines:
  "set (section_lines h body) = (if body = [] then {} else {''# === '' @ h @ '' ==='', []} \<union> set body)"
  by (auto simp: section_lines_def)

end
