(* ===== verification/ServiceFacts.thy ===== *)
theory ServiceFacts
  imports RenderLines
begin

text \<open>
  The plan of the services as a reference writes it: three filters over the included changes,
  with no state. The loop of the renderer computes the same plan.
\<close>

section \<open>The reference\<close>

definition presentable :: "service_section \<Rightarrow> service_state_change list" where
  "presentable services =
     filter (\<lambda>sc. is_included (ssc_disposition sc) \<and> \<not> shell_unsafe (ssc_unit sc)) (svc_state_changes services)"

definition omitted_package :: "(service_state_change \<Rightarrow> presence_decision) \<Rightarrow> service_state_change \<Rightarrow> string option" where
  "omitted_package presence sc = (case presence sc of Omit pkg \<Rightarrow> Some pkg | Emit _ \<Rightarrow> None)"

definition units_doing ::
  "(service_state_change \<Rightarrow> bool) \<Rightarrow> service_action \<Rightarrow> service_state_change list \<Rightarrow> string list" where
  "units_doing emitted act scs = map ssc_unit (filter (\<lambda>sc. emitted sc \<and> implied_action sc = act) scs)"

definition omission_of ::
  "(service_state_change \<Rightarrow> presence_decision) \<Rightarrow> service_state_change \<Rightarrow> service_omission option" where
  "omission_of presence sc =
     map_option (\<lambda>pkg. \<lparr> so_unit = ssc_unit sc, so_owning_package = pkg \<rparr>) (omitted_package presence sc)"

definition advisory_of ::
  "(service_state_change \<Rightarrow> presence_decision) \<Rightarrow> service_state_change \<Rightarrow> service_advisory option" where
  "advisory_of presence sc =
     (case presence sc of
        Emit (Some (pkg, reasons)) \<Rightarrow>
          Some \<lparr> sa_unit = ssc_unit sc, sa_owning_package = pkg, sa_reasons = reasons \<rparr>
      | _ \<Rightarrow> None)"

definition reference_loop ::
  "(service_state_change \<Rightarrow> presence_decision) \<Rightarrow> string set \<Rightarrow> service_state_change list \<Rightarrow> service_loop" where
  "reference_loop presence ct_units scs =
     (let emitted = (\<lambda>sc. omitted_package presence sc = None) in
      \<lparr> sl_omissions = List.map_filter (omission_of presence) scs,
        sl_comments = map (\<lambda>o'. omission_comment (so_unit o') (so_owning_package o'))
          (List.map_filter (omission_of presence) scs),
        sl_advisories = List.map_filter (advisory_of presence) scs,
        sl_enabled = filter (\<lambda>u. u \<notin> ct_units) (units_doing emitted ActEnable scs),
        sl_disabled = units_doing emitted ActDisable scs,
        sl_masked = units_doing emitted ActMask scs,
        sl_deferred = filter (\<lambda>u. u \<in> ct_units) (units_doing emitted ActEnable scs) \<rparr>)"

section \<open>The loop\<close>

lemma map_filter_snoc:
  "List.map_filter f (xs @ [x]) = List.map_filter f xs @ (case f x of None \<Rightarrow> [] | Some y \<Rightarrow> [y])"
  by (simp add: map_filter_def split: option.split)

lemma units_doing_snoc:
  "units_doing emitted act (scs @ [sc]) =
     units_doing emitted act scs @ (if emitted sc \<and> implied_action sc = act then [ssc_unit sc] else [])"
  by (simp add: units_doing_def)

lemma unsafe_step: "shell_unsafe (ssc_unit sc) \<Longrightarrow> service_step presence ct st sc = st"
  by (simp add: service_step_def sanitize_None)

lemma reference_step:
  assumes "\<not> shell_unsafe (ssc_unit sc)"
  shows "service_step presence ct (reference_loop presence ct scs) sc = reference_loop presence ct (scs @ [sc])"
proof -
  have "sanitize_shell_value (ssc_unit sc) = Some (ssc_unit sc)"
    using assms by (simp add: sanitize_shell_value_def)
  then show ?thesis
    by (cases "presence sc"; cases "implied_action sc")
      (auto simp: service_step_def reference_loop_def Let_def map_filter_snoc units_doing_snoc place_unit_def
        omission_of_def advisory_of_def omitted_package_def split: option.splits)
qed

lemma service_loop_reference:
  "foldl (service_step presence ct) service_loop_start scs =
     reference_loop presence ct (filter (\<lambda>sc. \<not> shell_unsafe (ssc_unit sc)) scs)"
proof (induction scs rule: rev_induct)
  case Nil
  show ?case
    by (simp add: service_loop_start_def reference_loop_def units_doing_def map_filter_def)
next
  case (snoc sc scs)
  then show ?case
    by (cases "shell_unsafe (ssc_unit sc)") (simp_all add: unsafe_step reference_step)
qed

lemma plain_is_emit: "plain_step ct = service_step (\<lambda>_. Emit None) ct"
  by (simp add: fun_eq_iff plain_step_def service_step_def)

lemma presentable_filter:
  "presentable services = filter (\<lambda>sc. \<not> shell_unsafe (ssc_unit sc)) (included_changes services)"
  by (simp add: presentable_def included_changes_def)

lemma reference_loop_empty:
  "reference_loop presence ct [] = service_loop_start"
  by (simp add: service_loop_start_def reference_loop_def units_doing_def map_filter_def)

lemma action_lines_start: "action_lines service_loop_start = []"
  by (simp add: action_lines_def service_loop_start_def)

definition presence_in :: "inspection_snapshot \<Rightarrow> service_state_change \<Rightarrow> presence_decision" where
  "presence_in snap sc = (case snap_rpm snap of None \<Rightarrow> Emit None | Some rpm \<Rightarrow> presence_of snap rpm sc)"

definition reference_plan :: "inspection_snapshot \<Rightarrow> service_section \<Rightarrow> service_render_plan" where
  "reference_plan snap services =
     (let st = reference_loop (presence_in snap) (config_tree_units snap) (presentable services) in
      \<lparr> srp_lines = sl_comments st @ action_lines st, srp_omissions = sl_omissions st,
        srp_advisories = sl_advisories st \<rparr>)"

lemma emit_all_empty:
  "List.map_filter (omission_of (\<lambda>_. Emit None)) scs = []"
  "List.map_filter (advisory_of (\<lambda>_. Emit None)) scs = []"
  by (simp_all add: map_filter_def omission_of_def advisory_of_def omitted_package_def filter_empty_conv)

lemma render_is_reference:
  assumes "snap_services snap = Some services"
  shows "render_service_intent snap = reference_plan snap services"
proof (cases "snap_rpm snap")
  case None
  have "foldl (plain_step (config_tree_units snap)) service_loop_start (included_changes services) =
      reference_loop (\<lambda>_. Emit None) (config_tree_units snap) (presentable services)"
    using service_loop_reference [of "\<lambda>_. Emit None"] by (simp add: plain_is_emit presentable_filter)
  moreover have "presence_in snap = (\<lambda>_. Emit None)" using None by (simp add: presence_in_def fun_eq_iff)
  moreover have "presentable services = []" if "included_changes services = []"
    using that by (simp add: presentable_filter)
  ultimately show ?thesis
  proof (cases "included_changes services = []")
    case False
    with assms None \<open>presence_in snap = _\<close> \<open>foldl _ _ _ = _\<close> show ?thesis
      by (simp add: render_service_intent_def render_without_rpm_def reference_plan_def Let_def)
        (simp add: reference_loop_def emit_all_empty Let_def)
  qed (use assms None in \<open>simp add: render_service_intent_def render_without_rpm_def reference_plan_def Let_def
      empty_plan_def reference_loop_empty action_lines_start, simp add: service_loop_start_def\<close>)
next
  case (Some rpm)
  have "presence_in snap = presence_of snap rpm" using Some by (simp add: presence_in_def fun_eq_iff)
  moreover have "presentable services = []" if "included_changes services = []"
    using that by (simp add: presentable_filter)
  ultimately show ?thesis
    using assms Some
    by (auto simp: render_service_intent_def reference_plan_def Let_def empty_plan_def presentable_filter
        service_loop_reference reference_loop_empty action_lines_start)
       (simp_all add: service_loop_start_def)
qed

end
