(* ===== verification/PathParts.thy ===== *)
theory PathParts
  imports RustStr
begin

text \<open>
  The components of \<open>std::path::Path\<close> that the renderers use on a path of the host: the parent
  directory and the file name, as the standard library computes them on a Unix path. A trailing
  component that is empty or a single dot does not count.
\<close>

text \<open>The bytes before the body: the root, or a leading dot component.\<close>

definition body_start :: "string \<Rightarrow> nat" where
  "body_start p = (if starts_with p ''/'' then 1 else if p = ''.'' \<or> starts_with p ''./'' then 1 else 0)"

text \<open>The last component of the body, and its length with the separator before it.\<close>

definition back_component :: "string \<Rightarrow> nat \<times> string" where
  "back_component p =
     (let body = drop (body_start p) p;
          comp = rev (takeWhile (\<lambda>c. c \<noteq> CHR ''/'') (rev body))
      in (length comp + (if length comp < length body then 1 else 0), comp))"

lemma back_component_pos:
  assumes "body_start p < length p"
  shows "0 < fst (back_component p)" "fst (back_component p) \<le> length p - body_start p"
proof -
  let ?body = "drop (body_start p) p" and ?t = "takeWhile (\<lambda>c. c \<noteq> CHR ''/'') (rev (drop (body_start p) p))"
  have "length ?t \<le> length ?body" using length_takeWhile_le [of _ "rev ?body"] by simp
  moreover have "?body \<noteq> []" using assms by simp
  ultimately show "0 < fst (back_component p)" "fst (back_component p) \<le> length p - body_start p"
    by (auto simp: back_component_def Let_def)
qed

function trim_back :: "string \<Rightarrow> string" where
  "trim_back p =
     (if body_start p < length p \<and> snd (back_component p) \<in> {[], ''.''}
      then trim_back (take (length p - fst (back_component p)) p) else p)"
  by pat_completeness auto
termination
proof (relation "measure length", simp, simp only: in_measure)
  fix p :: string
  assume "body_start p < length p \<and> snd (back_component p) \<in> {[], ''.''}"
  then have "0 < fst (back_component p)" "0 < length p" using back_component_pos [of p] by auto
  then show "length (take (length p - fst (back_component p)) p) < length p" by simp
qed

declare trim_back.simps [simp del]

definition path_parent :: "string \<Rightarrow> string option" where
  "path_parent p =
     (let q = trim_back p in
      if body_start q < length q then Some (trim_back (take (length q - fst (back_component q)) q))
      else if starts_with q ''/'' then None
      else if q = [] then None
      else Some [])"

definition path_file_name :: "string \<Rightarrow> string option" where
  "path_file_name p =
     (let q = trim_back p in
      if body_start q < length q \<and> snd (back_component q) \<noteq> ''..'' then Some (snd (back_component q)) else None)"

section \<open>Plain files\<close>

text \<open>The parent and the name of a file that is written the usual way.\<close>

definition plain_name :: "string \<Rightarrow> bool" where
  "plain_name n \<longleftrightarrow> n \<noteq> [] \<and> CHR ''/'' \<notin> set n \<and> n \<noteq> ''.'' \<and> n \<noteq> ''..''"

lemma takeWhile_rev_name:
  assumes "CHR ''/'' \<notin> set n"
  shows "takeWhile (\<lambda>c. c \<noteq> CHR ''/'') (rev (d @ CHR ''/'' # n)) = rev n"
proof -
  have "takeWhile (\<lambda>c. c \<noteq> CHR ''/'') (rev n @ CHR ''/'' # rev d) = rev n"
    using assms by (subst takeWhile_append2) auto
  then show ?thesis by simp
qed

lemma back_component_file:
  assumes "CHR ''/'' \<notin> set n" "d \<noteq> []" "starts_with d ''/''"
  shows "back_component (d @ CHR ''/'' # n) = (length n + 1, n)"
proof -
  obtain e where d: "d = CHR ''/'' # e" using assms(2,3) by (cases d) auto
  have "drop (body_start (d @ CHR ''/'' # n)) (d @ CHR ''/'' # n) = e @ CHR ''/'' # n"
    by (simp add: body_start_def d)
  then show ?thesis
    by (simp only: back_component_def Let_def takeWhile_rev_name [OF assms(1)]) simp
qed

lemma parent_of_file:
  assumes "plain_name n" "plain_name m" "starts_with d ''/''"
  shows "path_parent (d @ CHR ''/'' # m @ CHR ''/'' # n) = Some (d @ CHR ''/'' # m)"
    and "path_file_name (d @ CHR ''/'' # m @ CHR ''/'' # n) = Some n"
proof -
  let ?dir = "d @ CHR ''/'' # m"
  have dir: "?dir \<noteq> []" "starts_with ?dir ''/''" using assms(3) by (cases d; simp)+
  have b: "back_component (?dir @ CHR ''/'' # n) = (length n + 1, n)"
    using assms(1) dir by (intro back_component_file) (simp_all add: plain_name_def)
  have e: "back_component ?dir = (length m + 1, m)"
    using back_component_file [OF _ _ assms(3), of m] assms(2,3) by (cases d) (simp_all add: plain_name_def)
  have whole: "trim_back (?dir @ CHR ''/'' # n) = ?dir @ CHR ''/'' # n"
    using assms(1) by (subst trim_back.simps) (simp add: b [simplified] plain_name_def)
  have tdir: "trim_back ?dir = ?dir"
    using assms(2) by (subst trim_back.simps) (simp add: e plain_name_def)
  have start: "body_start (?dir @ CHR ''/'' # n) < length (?dir @ CHR ''/'' # n)"
    by (simp add: body_start_def)
  show "path_parent (d @ CHR ''/'' # m @ CHR ''/'' # n) = Some (d @ CHR ''/'' # m)"
    using whole tdir start b by (simp add: path_parent_def)
  show "path_file_name (d @ CHR ''/'' # m @ CHR ''/'' # n) = Some n"
    using whole start b assms(1) by (simp add: path_file_name_def plain_name_def)
qed

end
