(* ===== verification/VarDirs.thy ===== *)
theory VarDirs
  imports PathParts ServiceIntent RepoEnabling
begin

text \<open>
  The backing of the directories under \<open>/var\<close> at export
  (\<open>crates/pipeline/src/render/var_dirs.rs\<close>): whether the creator the source host had reaches
  the image. A \<open>HashMap\<close> that is only looked up is a map, filled in the order of the code.
\<close>

section \<open>Constants and outcomes\<close>

definition ETC_UNIT_DIR :: string where
  "ETC_UNIT_DIR = ''/etc/systemd/system''"

definition SYSTEM_UNIT_DIRS :: "string list" where
  "SYSTEM_UNIT_DIRS = [''/etc/systemd/system'', ''/usr/lib/systemd/system'']"

definition USR_TMPFILES_PREFIX :: string where
  "USR_TMPFILES_PREFIX = ''/usr/lib/tmpfiles.d/''"

datatype unresolved_reason = UnownedFragment | UnownedUnit | BaseUnknown

fun reason_text :: "unresolved_reason \<Rightarrow> string" where
  "reason_text UnownedFragment = ''no package owns that file''"
| "reason_text UnownedUnit = ''no package owns that unit''"
| "reason_text BaseUnknown = ''the target base package set is unknown''"

datatype effective_backing =
  BackingCarried
| Provision (provision_lost: "string option")
| Unresolved string unresolved_reason

record var_dir_outcome =
  vo_path :: string
  vo_source :: "var_dir_backing option"
  vo_outcome :: effective_backing

datatype carriage = CarriageCarried | CarriageLost | CarriageUnknown

datatype unit_reach = ReachCarried | ReachLost | ReachUnresolved unresolved_reason

section \<open>The evidence\<close>

record evidence =
  ev_config_files :: "string \<rightharpoonup> bool"
  ev_etc_unit_includes :: "string \<rightharpoonup> bool"
  ev_file_owners :: "string \<rightharpoonup> string"
  ev_install_set :: "string set"
  ev_baseline :: "string set option"

definition config_file_map :: "config_file_entry list \<Rightarrow> string \<rightharpoonup> bool" where
  "config_file_map files = foldl (\<lambda>m e. m(cf_path e \<mapsto> is_included (cf_disposition e))) Map.empty files"

definition etc_config_step :: "(string \<rightharpoonup> bool) \<Rightarrow> config_file_entry \<Rightarrow> (string \<rightharpoonup> bool)" where
  "etc_config_step m e =
     (if path_parent (cf_path e) = Some ETC_UNIT_DIR \<and> \<not> is_inventory (cf_disposition e)
      then m(cf_path e \<mapsto> is_included (cf_disposition e)) else m)"

definition etc_drop_in_step :: "(string \<rightharpoonup> bool) \<Rightarrow> systemd_drop_in \<Rightarrow> (string \<rightharpoonup> bool)" where
  "etc_drop_in_step m d =
     (if path_parent (di_path d) = Some ETC_UNIT_DIR
      then m(di_path d \<mapsto> is_included (di_disposition d)) else m)"

definition etc_unit_includes :: "inspection_snapshot \<Rightarrow> string \<rightharpoonup> bool" where
  "etc_unit_includes snap =
     (let from_config = (case snap_config snap of
            None \<Rightarrow> Map.empty | Some c \<Rightarrow> foldl etc_config_step Map.empty (cfg_files c))
      in case snap_services snap of
           None \<Rightarrow> from_config
         | Some s \<Rightarrow> foldl etc_drop_in_step from_config (svc_drop_ins s))"

text \<open>\<open>entry(path).or_insert(owner)\<close>: the first owner stays.\<close>

definition owner_step :: "string \<Rightarrow> (string \<rightharpoonup> string) \<Rightarrow> string \<Rightarrow> (string \<rightharpoonup> string)" where
  "owner_step owner m path = (case m path of None \<Rightarrow> m(path \<mapsto> owner) | Some _ \<Rightarrow> m)"

definition file_owner_map :: "file_ownership_entry list \<Rightarrow> string \<rightharpoonup> string" where
  "file_owner_map entries =
     foldl (\<lambda>m e. foldl (owner_step (fo_package_name e)) m (fo_paths e)) Map.empty entries"

definition is_lost :: "enabling_export \<Rightarrow> bool" where
  "is_lost x = (case x of Lost _ \<Rightarrow> True | _ \<Rightarrow> False)"

definition package_installed :: "rpm_section \<Rightarrow> package_entry \<Rightarrow> bool" where
  "package_installed rpm pkg \<longleftrightarrow>
     is_included (pe_disposition pkg)
     \<and> (is_package_installable pkg \<or> pe_uploaded pkg \<or> pe_repoless_cached pkg)
     \<and> \<not> is_lost (repo_enabling_export rpm pkg)"

definition evidence_from_snapshot :: "inspection_snapshot \<Rightarrow> evidence" where
  "evidence_from_snapshot snap =
     \<lparr> ev_config_files = (case snap_config snap of None \<Rightarrow> Map.empty | Some c \<Rightarrow> config_file_map (cfg_files c)),
       ev_etc_unit_includes = etc_unit_includes snap,
       ev_file_owners = (case snap_rpm snap of None \<Rightarrow> Map.empty
          | Some rpm \<Rightarrow> file_owner_map (rpm_file_ownership rpm)),
       ev_install_set = (case snap_rpm snap of None \<Rightarrow> {}
          | Some rpm \<Rightarrow> set (map pe_name (filter (package_installed rpm) (rpm_packages_added rpm)))),
       ev_baseline = (case snap_rpm snap of None \<Rightarrow> None
          | Some rpm \<Rightarrow> map_option set (rpm_baseline_package_names rpm)) \<rparr>"

definition carriage :: "evidence \<Rightarrow> string \<Rightarrow> carriage" where
  "carriage ev package =
     (if package \<in> ev_install_set ev then CarriageCarried
      else case ev_baseline ev of
          Some base \<Rightarrow> if package \<in> base then CarriageCarried else CarriageLost
        | None \<Rightarrow> CarriageUnknown)"

definition unit_file_reach :: "evidence \<Rightarrow> string \<Rightarrow> unit_reach" where
  "unit_file_reach ev path =
     (case path_parent path of
        None \<Rightarrow> ReachLost
      | Some parent \<Rightarrow>
          if parent \<notin> set SYSTEM_UNIT_DIRS then ReachLost
          else if parent = ETC_UNIT_DIR
          then (if ev_etc_unit_includes ev path = Some True then ReachCarried else ReachLost)
          else (case ev_file_owners ev path of
              Some package \<Rightarrow>
                (case carriage ev package of
                   CarriageCarried \<Rightarrow> ReachCarried
                 | CarriageLost \<Rightarrow> ReachLost
                 | CarriageUnknown \<Rightarrow> ReachUnresolved BaseUnknown)
            | None \<Rightarrow> ReachUnresolved UnownedUnit))"

section \<open>The outcome of a directory\<close>

definition from_carriage :: "carriage \<Rightarrow> string \<Rightarrow> effective_backing" where
  "from_carriage c creator =
     (case c of
        CarriageCarried \<Rightarrow> BackingCarried
      | CarriageLost \<Rightarrow> Provision (Some creator)
      | CarriageUnknown \<Rightarrow> Unresolved creator BaseUnknown)"

definition file_label :: "string \<Rightarrow> string" where
  "file_label path = (case path_file_name path of None \<Rightarrow> path | Some n \<Rightarrow> n)"

definition declaring_unit_label :: "string list \<Rightarrow> string" where
  "declaring_unit_label declared_by =
     str_join '', '' (foldl (\<lambda>names path. if file_label path \<in> set names then names
        else names @ [file_label path]) [] declared_by)"

text \<open>The loop over the declarers: \<open>None\<close> is the early return.\<close>

fun scan_declarers ::
  "evidence \<Rightarrow> unresolved_reason option \<Rightarrow> string list \<Rightarrow> unresolved_reason option option" where
  "scan_declarers ev u [] = Some u"
| "scan_declarers ev u (path # paths) =
     (case unit_file_reach ev path of
        ReachCarried \<Rightarrow> None
      | ReachUnresolved reason \<Rightarrow> scan_declarers ev (if u = None then Some reason else u) paths
      | ReachLost \<Rightarrow> scan_declarers ev u paths)"

definition classify_declarers :: "evidence \<Rightarrow> string list \<Rightarrow> effective_backing" where
  "classify_declarers ev declared_by =
     (case scan_declarers ev None declared_by of
        None \<Rightarrow> BackingCarried
      | Some (Some reason) \<Rightarrow> Unresolved (declaring_unit_label declared_by) reason
      | Some None \<Rightarrow>
          if declared_by = [] then Provision None else Provision (Some (declaring_unit_label declared_by)))"

definition classify_tmpfiles :: "evidence \<Rightarrow> string \<Rightarrow> effective_backing" where
  "classify_tmpfiles ev conf =
     (if starts_with conf RUN_TMPFILES_PREFIX then Provision (Some conf)
      else if starts_with conf USR_TMPFILES_PREFIX
      then (case ev_file_owners ev conf of
          Some package \<Rightarrow> from_carriage (carriage ev package) conf
        | None \<Rightarrow> Unresolved conf UnownedFragment)
      else if ev_config_files ev conf = Some True then BackingCarried
      else Provision (Some conf))"

fun classify_backing :: "evidence \<Rightarrow> var_dir_backing option \<Rightarrow> effective_backing" where
  "classify_backing ev None = Provision None"
| "classify_backing ev (Some Unbacked) = Provision None"
| "classify_backing ev (Some (Tmpfiles conf _)) = classify_tmpfiles ev conf"
| "classify_backing ev (Some (StateDirectory declared_by)) = classify_declarers ev declared_by"
| "classify_backing ev (Some (CacheDirectory declared_by)) = classify_declarers ev declared_by"
| "classify_backing ev (Some (LogsDirectory declared_by)) = classify_declarers ev declared_by"
| "classify_backing ev (Some (RpmOwned package)) = from_carriage (carriage ev package) package"

definition effective_var_backing :: "inspection_snapshot \<Rightarrow> var_dir_outcome list" where
  "effective_var_backing snap =
     (case snap_storage snap of
        None \<Rightarrow> []
      | Some storage \<Rightarrow>
          map (\<lambda>d. \<lparr> vo_path = vd_path d, vo_source = vd_backing d,
               vo_outcome = classify_backing (evidence_from_snapshot snap) (vd_backing d) \<rparr>)
            (sto_var_directories storage))"

section \<open>Facts\<close>

lemma config_file_map_last:
  "config_file_map files path =
     map_option (\<lambda>e. is_included (cf_disposition e)) (List.find (\<lambda>e. cf_path e = path) (rev files))"
  by (induction files rule: rev_induct) (auto simp: config_file_map_def)

lemma owner_step_other: "foldl (owner_step o') m paths path =
    (case m path of Some v \<Rightarrow> Some v | None \<Rightarrow> if path \<in> set paths then Some o' else None)"
  by (induction paths arbitrary: m) (auto simp: owner_step_def split: option.splits)

lemma owner_fold:
  "foldl (\<lambda>m e. foldl (owner_step (fo_package_name e)) m (fo_paths e)) m0 entries path =
     (case m0 path of Some v \<Rightarrow> Some v
      | None \<Rightarrow> map_option fo_package_name (List.find (\<lambda>e. path \<in> set (fo_paths e)) entries))"
  by (induction entries arbitrary: m0) (auto simp: owner_step_other split: option.splits)

text \<open>The owner of a path is the first entry that lists it.\<close>

lemma file_owner_map_first:
  "file_owner_map entries path =
     map_option fo_package_name (List.find (\<lambda>e. path \<in> set (fo_paths e)) entries)"
  by (simp add: file_owner_map_def owner_fold)

lemma scan_declarers_None:
  "scan_declarers ev u paths = None \<longleftrightarrow> (\<exists>p \<in> set paths. unit_file_reach ev p = ReachCarried)"
  by (induction paths arbitrary: u) (auto split: unit_reach.splits)

lemma scan_declarers_Some_None:
  "scan_declarers ev u paths = Some None \<longleftrightarrow> u = None \<and> (\<forall>p \<in> set paths. unit_file_reach ev p = ReachLost)"
  by (induction paths arbitrary: u) (auto split: unit_reach.splits)

end
