(* ===== verification/VarProvision.thy ===== *)
theory VarProvision
  imports RenderLines VarDirs
begin

text \<open>
  The directories under \<open>/var\<close> in the export (\<open>crates/pipeline/src/render/containerfile.rs\<close>,
  \<open>render_tmpfiles_conf\<close> to \<open>var_dir_section_lines\<close>): the records of the \<open>tmpfiles.d\<close> file and the
  section of the Containerfile. A path or a field reaches an active line only as an \<open>ExportPath\<close>
  or an \<open>ExportToken\<close>. The \<open>expect\<close> of \<open>known_token\<close> is the value \<open>None\<close> of an option.
\<close>

section \<open>Accounts\<close>

definition collect_materialized_usernames :: "inspection_snapshot \<Rightarrow> string set" where
  "collect_materialized_usernames snap =
     (case snap_users_groups snap of
        None \<Rightarrow> {}
      | Some ug \<Rightarrow> set (List.map_filter (\<lambda>u. Option.bind (json_get ''name'' u) json_as_str)
          (filter (\<lambda>u. str_field u ''containerfile_strategy'' = ''useradd'' \<and> included_account u)
            (ug_users ug))))"

definition KNOWN_PACKAGE_ACCOUNTS :: "(string \<times> string list) list" where
  "KNOWN_PACKAGE_ACCOUNTS =
     [(''postgresql-server'', [''postgres'']), (''bind'', [''named'']), (''mysql-server'', [''mysql'']),
      (''mariadb-server'', [''mysql'']), (''httpd'', [''apache'']), (''nginx'', [''nginx'']),
      (''redis'', [''redis'']), (''mongodb-server'', [''mongod'']), (''rabbitmq-server'', [''rabbitmq'']),
      (''elasticsearch'', [''elasticsearch'']), (''grafana'', [''grafana'']),
      (''prometheus'', [''prometheus'']), (''tomcat'', [''tomcat'']), (''dovecot'', [''dovecot'']),
      (''postfix'', [''postfix'']), (''chrony'', [''chrony'']), (''openssh-server'', [''sshd'']),
      (''rpcbind'', [''rpc'']), (''nfs-utils'', [''nfsnobody'']), (''haproxy'', [''haproxy'']),
      (''squid'', [''squid'']), (''memcached'', [''memcached''])]"

definition replicated_rpms :: "inspection_snapshot \<Rightarrow> string set" where
  "replicated_rpms snap =
     (case snap_rpm snap of
        None \<Rightarrow> {}
      | Some rpm \<Rightarrow> set (map pe_name (filter (\<lambda>p. is_included (pe_disposition p)) (rpm_packages_added rpm))))"

definition account_step :: "string set \<Rightarrow> (string \<rightharpoonup> string) \<Rightarrow> string \<times> string list \<Rightarrow> (string \<rightharpoonup> string)" where
  "account_step replicated m pa =
     (if fst pa \<in> replicated then foldl (\<lambda>m a. m(a \<mapsto> fst pa)) m (snd pa) else m)"

definition rpm_accounts :: "inspection_snapshot \<Rightarrow> string \<rightharpoonup> string" where
  "rpm_accounts snap = foldl (account_step (replicated_rpms snap)) Map.empty KNOWN_PACKAGE_ACCOUNTS"

section \<open>Ownership\<close>

definition known_token :: "string \<Rightarrow> export_token option" where
  "known_token value = (case export_token_parse value of Inl _ \<Rightarrow> None | Inr t \<Rightarrow> Some t)"

definition numeric_token :: "nat \<Rightarrow> export_token option" where
  "numeric_token i = known_token (nat_str i)"

definition proved_account_name :: "string option \<Rightarrow> string" where
  "proved_account_name name =
     (case name of
        None \<Rightarrow> []
      | Some n \<Rightarrow> (case export_token_parse n of Inr _ \<Rightarrow> n | Inl _ \<Rightarrow> []))"

definition DEFAULT_VAR_DIR_MODE :: string where "DEFAULT_VAR_DIR_MODE = ''0755''"
definition DEFAULT_VAR_DIR_OWNER :: string where "DEFAULT_VAR_DIR_OWNER = ''root''"

definition with_tokens ::
  "export_token option \<Rightarrow> export_token option \<Rightarrow> string \<Rightarrow> (export_token \<times> export_token \<times> string) option" where
  "with_tokens owner grp comment =
     Option.bind owner (\<lambda>o'. map_option (\<lambda>g. (o', g, comment)) grp)"

definition providing_package ::
  "(string \<rightharpoonup> string) \<Rightarrow> string set \<Rightarrow> string \<Rightarrow> string option" where
  "providing_package accounts replicated owner_name =
     (case accounts owner_name of
        Some p \<Rightarrow> Some p
      | None \<Rightarrow> if owner_name \<in> replicated then Some owner_name else None)"

definition resolve_tmpfiles_ownership ::
  "var_directory \<Rightarrow> string set \<Rightarrow> (string \<rightharpoonup> string) \<Rightarrow> string set \<Rightarrow>
    (export_token \<times> export_token \<times> string) option" where
  "resolve_tmpfiles_ownership d materialized_users accounts replicated =
     (let uid = (case vd_owner_uid d of None \<Rightarrow> 0 | Some n \<Rightarrow> n);
          gid = (case vd_owner_gid d of None \<Rightarrow> 0 | Some n \<Rightarrow> n);
          owner_name = proved_account_name (vd_owner_name d);
          group_name = proved_account_name (vd_group_name d)
      in if uid = 0 then with_tokens (known_token DEFAULT_VAR_DIR_OWNER) (known_token DEFAULT_VAR_DIR_OWNER) ''''
         else if owner_name \<noteq> [] \<and> owner_name \<in> materialized_users
         then with_tokens (known_token owner_name)
                (if group_name \<noteq> [] then known_token group_name else numeric_token gid) ''''
         else if owner_name \<noteq> []
         then (case providing_package accounts replicated owner_name of
             Some pkg \<Rightarrow>
               with_tokens (known_token owner_name)
                 (if group_name \<noteq> [] then known_token group_name else known_token owner_name)
                 (''created by package: '' @ pkg)
           | None \<Rightarrow>
               with_tokens (numeric_token uid) (numeric_token gid)
                 (''account '' @ quote1 owner_name @ '' not guaranteed in image''))
         else with_tokens (numeric_token uid) (numeric_token gid) '''')"

section \<open>The lines\<close>

definition lost_creator_comment :: "export_path \<Rightarrow> string \<Rightarrow> string" where
  "lost_creator_comment path creator =
     ''# '' @ path_str path @ '': created on the host by '' @ sanitize_for_comment creator @
     '', which this export does not carry''"

definition mkdir_line :: "export_path \<Rightarrow> string" where
  "mkdir_line path = ''RUN mkdir -p '' @ path_str path"

definition tmpfiles_dir_line :: "export_path \<Rightarrow> export_token \<Rightarrow> export_token \<Rightarrow> export_token \<Rightarrow> string" where
  "tmpfiles_dir_line path mode owner grp =
     ''d '' @ path_str path @ '' '' @ token_str mode @ '' '' @ token_str owner @ '' '' @ token_str grp @ '' -''"

definition REFUSED_PATH_REASON :: string where
  "REFUSED_PATH_REASON = ''its path has characters this export will not write into a build instruction''"

definition REFUSED_MODE_REASON :: string where
  "REFUSED_MODE_REASON = ''its recorded mode is not one this export will write into a tmpfiles.d entry''"

definition refused_field_comment :: "string \<Rightarrow> string \<Rightarrow> string" where
  "refused_field_comment path reason =
     ''# FIXME: create '' @ sanitize_for_comment path @ '' by hand; '' @ reason"

definition unresolved_pair ::
  "export_path \<Rightarrow> string \<Rightarrow> unresolved_reason \<Rightarrow> export_token \<Rightarrow> export_token \<Rightarrow> export_token \<Rightarrow> string list" where
  "unresolved_pair path creator reason mode owner grp =
     [''# FIXME: confirm the base image creates '' @ path_str path @ ''; on the host '' @
        sanitize_for_comment creator @ '' created it and '' @ reason_text reason @
        ''; if the base does not, uncomment the next line'',
      ''#'' @ tmpfiles_dir_line path mode owner grp]"

definition unresolved_fixme_lines ::
  "inspection_snapshot \<Rightarrow> var_directory \<Rightarrow> export_path \<Rightarrow> string \<Rightarrow> unresolved_reason \<Rightarrow> string list option" where
  "unresolved_fixme_lines snap d path creator reason =
     (case vd_mode d of
        Some mode \<Rightarrow>
          (case export_token_parse mode of
             Inl _ \<Rightarrow> Some [refused_field_comment (vd_path d) REFUSED_MODE_REASON]
           | Inr m \<Rightarrow>
               map_option (\<lambda>(owner, grp, _). unresolved_pair path creator reason m owner grp)
                 (resolve_tmpfiles_ownership d (collect_materialized_usernames snap) (rpm_accounts snap)
                   (replicated_rpms snap)))
      | None \<Rightarrow>
          Option.bind (known_token DEFAULT_VAR_DIR_MODE) (\<lambda>m.
            map_option (\<lambda>(owner, grp, _). unresolved_pair path creator reason m owner grp)
              (with_tokens (known_token DEFAULT_VAR_DIR_OWNER) (known_token DEFAULT_VAR_DIR_OWNER) '''')))"

definition comment_if :: "string \<Rightarrow> string list" where
  "comment_if comment = (if comment \<noteq> [] then [''# '' @ comment] else [])"

definition lost_lines :: "export_path \<Rightarrow> string option \<Rightarrow> string list" where
  "lost_lines path lost = (case lost of None \<Rightarrow> [] | Some creator \<Rightarrow> [lost_creator_comment path creator])"

section \<open>The \<open>tmpfiles.d\<close> file\<close>

definition tmpfiles_block :: "inspection_snapshot \<Rightarrow> var_directory \<times> var_dir_outcome \<Rightarrow> string list option" where
  "tmpfiles_block snap d_outcome =
     (let d = fst d_outcome in
      case vo_outcome (snd d_outcome) of
        BackingCarried \<Rightarrow> Some []
      | Provision lost \<Rightarrow>
          (case vd_mode d of
             None \<Rightarrow> Some []
           | Some mode \<Rightarrow>
               (case export_path_parse (vd_path d) of
                  Inl _ \<Rightarrow> Some [refused_field_comment (vd_path d) REFUSED_PATH_REASON]
                | Inr path \<Rightarrow>
                    (case export_token_parse mode of
                       Inl _ \<Rightarrow> Some [refused_field_comment (vd_path d) REFUSED_MODE_REASON]
                     | Inr m \<Rightarrow>
                         map_option (\<lambda>(owner, grp, comment).
                             lost_lines path lost @ comment_if comment @ [tmpfiles_dir_line path m owner grp])
                           (resolve_tmpfiles_ownership d (collect_materialized_usernames snap)
                             (rpm_accounts snap) (replicated_rpms snap)))))
      | Unresolved creator reason \<Rightarrow>
          (case export_path_parse (vd_path d) of
             Inl _ \<Rightarrow> Some [refused_field_comment (vd_path d) REFUSED_PATH_REASON]
           | Inr path \<Rightarrow> unresolved_fixme_lines snap d path creator reason))"

definition tmpfiles_lines :: "inspection_snapshot \<Rightarrow> string list option" where
  "tmpfiles_lines snap =
     (case snap_storage snap of
        None \<Rightarrow> Some []
      | Some storage \<Rightarrow>
          map_option concat
            (map_panics (tmpfiles_block snap) (zip (sto_var_directories storage) (effective_var_backing snap))))"

text \<open>The outer option is a panic; the inner one is the result of the function.\<close>

definition render_tmpfiles_conf :: "inspection_snapshot \<Rightarrow> string option option" where
  "render_tmpfiles_conf snap =
     map_option (\<lambda>lines. if lines = [] then None else Some (str_join [nl] lines @ [nl])) (tmpfiles_lines snap)"

section \<open>The section of the Containerfile\<close>

definition var_dir_block :: "inspection_snapshot \<Rightarrow> var_directory \<times> var_dir_outcome \<Rightarrow> string list option" where
  "var_dir_block snap d_outcome =
     (let d = fst d_outcome in
      case vo_outcome (snd d_outcome) of
        BackingCarried \<Rightarrow> Some []
      | Provision lost \<Rightarrow>
          if vd_mode d = None
          then (case export_path_parse (vd_path d) of
              Inl _ \<Rightarrow> Some [refused_field_comment (vd_path d) REFUSED_PATH_REASON]
            | Inr path \<Rightarrow> Some (lost_lines path lost @ [mkdir_line path]))
          else Some []
      | Unresolved creator reason \<Rightarrow>
          (case export_path_parse (vd_path d) of
             Inl _ \<Rightarrow> Some [refused_field_comment (vd_path d) REFUSED_PATH_REASON]
           | Inr path \<Rightarrow> unresolved_fixme_lines snap d path creator reason))"

definition tmpfiles_copy_lines :: "string list" where
  "tmpfiles_copy_lines =
     [''# /var directories with known ownership/mode provisioned via tmpfiles.d'',
      ''COPY config/usr/lib/tmpfiles.d/inspectah-var.conf /usr/lib/tmpfiles.d/inspectah-var.conf'']"

definition var_dir_section_lines :: "inspection_snapshot \<Rightarrow> bool \<Rightarrow> string list option" where
  "var_dir_section_lines snap tmpfiles_staged =
     (case snap_storage snap of
        None \<Rightarrow> Some []
      | Some storage \<Rightarrow>
          map_option (\<lambda>blocks. section_lines ''/var directory provisioning''
              ((if tmpfiles_staged then tmpfiles_copy_lines else []) @ concat blocks))
            (map_panics (var_dir_block snap) (zip (sto_var_directories storage) (effective_var_backing snap))))"

end
