(* ===== verification/ProvedText.thy ===== *)
theory ProvedText
  imports RenderLines RpmFilename
begin

text \<open>
  The three types whose values the renderers write without quotes: \<open>ExportPath\<close> and \<open>ExportToken\<close>
  (\<open>crates/pipeline/src/render/safety.rs\<close>) and \<open>StagedName\<close> (\<open>crates/core/src/rpm_filename.rs\<close>).
  Each has one constructor that refuses what is not on its allowlist; the locale states what a
  renderer relies on.
\<close>

section \<open>The contract\<close>

locale proved_text =
  fixes parse :: "string \<Rightarrow> 'e + 't"
    and spelled :: "'t \<Rightarrow> string"
  assumes spelled_same: "parse s = Inr t \<Longrightarrow> spelled t = s"
    and only_allowed: "parse s = Inr t \<Longrightarrow> list_all is_allowed_path_byte s"
    and not_empty: "parse s = Inr t \<Longrightarrow> s \<noteq> []"
begin

lemma shell_safe: "parse s = Inr t \<Longrightarrow> \<not> shell_unsafe (spelled t)"
  using path_bytes_safe only_allowed spelled_same by simp

lemma one_line_spelled: "parse s = Inr t \<Longrightarrow> one_line (spelled t)"
  using one_line_path_bytes only_allowed spelled_same by simp

lemma spelled_inj: "parse s = Inr t \<Longrightarrow> parse s' = Inr t \<Longrightarrow> s = s'"
  using spelled_same by metis

lemma reparse: "parse s = Inr t \<Longrightarrow> parse (spelled t) = Inr t"
  by (simp add: spelled_same)

end

section \<open>The three types\<close>

lemma export_token_Inr:
  "export_token_parse v = Inr t \<longleftrightarrow>
     t = ExportToken v \<and> v \<noteq> [] \<and> length v \<le> MAX_EXPORT_TOKEN_LEN \<and> list_all is_allowed_token_byte v"
  using first_refused_None [of is_allowed_token_byte 0 v]
  by (cases "first_refused is_allowed_token_byte 0 v") (auto simp: export_token_parse_def not_less)

lemma export_path_Inr:
  "export_path_parse p = Inr e \<Longrightarrow> e = ExportPath p \<and> list_all is_allowed_path_byte p \<and> starts_with p ''/''"
  using first_refused_None [of is_allowed_path_byte 0 p]
  by (cases "first_refused is_allowed_path_byte 0 p") (auto simp: export_path_parse_def split: if_splits)


interpretation exported_path: proved_text export_path_parse path_str
  by unfold_locales (auto dest!: export_path_Inr)

interpretation exported_token: proved_text export_token_parse token_str
  by unfold_locales (auto simp: export_token_Inr list_all_iff token_path_byte)

interpretation staged: proved_text staged_name_parse as_str
  by unfold_locales
    (use validate_staged_name_iff in
      \<open>auto simp: staged_name_parse_def safe_name_def list_all_iff name_byte_path_byte split: sum.splits\<close>)

text \<open>C27. The export types hold what their allowlists say and nothing else. A path is accepted exactly when
  it is absolute, of at most 4096 bytes, of allowed bytes only, and without a \<open>.\<close> or \<open>..\<close> component;
  a field exactly when it is not empty, of at most 256 bytes and of allowed bytes only. A value
  keeps the text it was made from. Neither, nor a staged file name, has a byte a shell treats
  specially, white space or a line feed, so each stays one word of one instruction.
\<close>

theorem export_types_exact:
  "(\<exists>e. export_path_parse p = Inr e) =
     (starts_with p ''/'' \<and> length p \<le> MAX_EXPORT_PATH_LEN \<and> list_all is_allowed_path_byte p \<and>
      set (split_on (\<lambda>c. c = CHR ''/'') p) \<inter> {''.'', ''..''} = {}) \<and>
   (\<exists>t. export_token_parse v = Inr t) =
     (v \<noteq> [] \<and> length v \<le> MAX_EXPORT_TOKEN_LEN \<and> list_all is_allowed_token_byte v) \<and>
   {e. \<exists>p. export_path_parse p = Inr e \<and> (path_str e, shell_unsafe p, one_line p) \<noteq> (p, False, True)} = {} \<and>
   {t. \<exists>v. export_token_parse v = Inr t \<and> (token_str t, shell_unsafe v, one_line v) \<noteq> (v, False, True)} = {} \<and>
   {n. \<exists>f. staged_name_parse f = Inr n \<and> (as_str n, shell_unsafe f, one_line f) \<noteq> (f, False, True)} = {}"
proof (intro conjI)
  show "(\<exists>e. export_path_parse p = Inr e) =
     (starts_with p ''/'' \<and> length p \<le> MAX_EXPORT_PATH_LEN \<and> list_all is_allowed_path_byte p \<and>
      set (split_on (\<lambda>c. c = CHR ''/'') p) \<inter> {''.'', ''..''} = {})"
    using first_refused_None [of is_allowed_path_byte 0 p]
    by (cases "first_refused is_allowed_path_byte 0 p")
      (auto simp: export_path_parse_def list_ex_iff not_less)
  show "(\<exists>t. export_token_parse v = Inr t) =
     (v \<noteq> [] \<and> length v \<le> MAX_EXPORT_TOKEN_LEN \<and> list_all is_allowed_token_byte v)"
    by (auto simp: export_token_Inr)
qed (use exported_path.shell_safe exported_path.one_line_spelled exported_path.spelled_same
      exported_token.shell_safe exported_token.one_line_spelled exported_token.spelled_same
      staged.shell_safe staged.one_line_spelled staged.spelled_same in \<open>fastforce+\<close>)

end
