(* ===== verification/VarFacts.thy ===== *)
theory VarFacts
  imports VarProvision ProvedText
begin

text \<open>
  When a creator of a directory under \<open>/var\<close> counts as carried, written over the snapshot itself,
  and what the lines of the export can look like: no panic, and nothing on an active line that a
  check has not passed.
\<close>

section \<open>Carried creators\<close>

definition package_carried :: "inspection_snapshot \<Rightarrow> string \<Rightarrow> bool" where
  "package_carried snap package \<longleftrightarrow>
     (\<exists>rpm. snap_rpm snap = Some rpm \<and>
        (package \<in> pe_name ` {p \<in> set (rpm_packages_added rpm). package_installed rpm p} \<or>
         (\<exists>base. rpm_baseline_package_names rpm = Some base \<and> package \<in> set base)))"

text \<open>The operator's decision on a unit file of \<open>/etc\<close>: the last drop-in, else the last config row.\<close>

definition etc_decision :: "inspection_snapshot \<Rightarrow> string \<Rightarrow> bool option" where
  "etc_decision snap path =
     (case List.find (\<lambda>d. di_path d = path) (rev (case snap_services snap of None \<Rightarrow> [] | Some s \<Rightarrow> svc_drop_ins s)) of
        Some d \<Rightarrow> Some (is_included (di_disposition d))
      | None \<Rightarrow>
          map_option (\<lambda>e. is_included (cf_disposition e))
            (List.find (\<lambda>e. cf_path e = path \<and> \<not> is_inventory (cf_disposition e))
              (rev (case snap_config snap of None \<Rightarrow> [] | Some c \<Rightarrow> cfg_files c))))"

definition config_decision :: "inspection_snapshot \<Rightarrow> string \<Rightarrow> bool option" where
  "config_decision snap path =
     map_option (\<lambda>e. is_included (cf_disposition e))
       (List.find (\<lambda>e. cf_path e = path) (rev (case snap_config snap of None \<Rightarrow> [] | Some c \<Rightarrow> cfg_files c)))"

definition path_owner :: "inspection_snapshot \<Rightarrow> string \<Rightarrow> string option" where
  "path_owner snap path =
     map_option fo_package_name
       (List.find (\<lambda>e. path \<in> set (fo_paths e))
         (case snap_rpm snap of None \<Rightarrow> [] | Some rpm \<Rightarrow> rpm_file_ownership rpm))"

definition owner_carried :: "inspection_snapshot \<Rightarrow> string \<Rightarrow> bool" where
  "owner_carried snap path \<longleftrightarrow> (\<exists>package. path_owner snap path = Some package \<and> package_carried snap package)"

definition unit_carried :: "inspection_snapshot \<Rightarrow> string \<Rightarrow> bool" where
  "unit_carried snap path \<longleftrightarrow>
     path_parent path = Some ''/etc/systemd/system'' \<and> etc_decision snap path = Some True \<or>
     path_parent path = Some ''/usr/lib/systemd/system'' \<and> owner_carried snap path"

fun creator_carried :: "inspection_snapshot \<Rightarrow> var_dir_backing option \<Rightarrow> bool" where
  "creator_carried snap (Some (Tmpfiles conf _)) =
     (\<not> starts_with conf RUN_TMPFILES_PREFIX \<and>
      (if starts_with conf USR_TMPFILES_PREFIX then owner_carried snap conf
       else config_decision snap conf = Some True))"
| "creator_carried snap (Some (StateDirectory declared_by)) = list_ex (unit_carried snap) declared_by"
| "creator_carried snap (Some (CacheDirectory declared_by)) = list_ex (unit_carried snap) declared_by"
| "creator_carried snap (Some (LogsDirectory declared_by)) = list_ex (unit_carried snap) declared_by"
| "creator_carried snap (Some (RpmOwned package)) = package_carried snap package"
| "creator_carried snap (Some Unbacked) = False"
| "creator_carried snap None = False"

section \<open>The maps of the evidence\<close>

lemma etc_config_map:
  "foldl etc_config_step m files path =
     (if path_parent path = Some ETC_UNIT_DIR
      then (case List.find (\<lambda>e. cf_path e = path \<and> \<not> is_inventory (cf_disposition e)) (rev files) of
          Some e \<Rightarrow> Some (is_included (cf_disposition e)) | None \<Rightarrow> m path)
      else m path)"
  by (induction files rule: rev_induct) (auto simp: etc_config_step_def)

lemma etc_drop_in_map:
  "foldl etc_drop_in_step m ds path =
     (if path_parent path = Some ETC_UNIT_DIR
      then (case List.find (\<lambda>d. di_path d = path) (rev ds) of
          Some d \<Rightarrow> Some (is_included (di_disposition d)) | None \<Rightarrow> m path)
      else m path)"
  by (induction ds rule: rev_induct) (auto simp: etc_drop_in_step_def)

lemma etc_includes_decision:
  "path_parent path = Some ETC_UNIT_DIR \<Longrightarrow> etc_unit_includes snap path = etc_decision snap path"
  by (auto simp: etc_unit_includes_def Let_def etc_decision_def etc_config_map etc_drop_in_map map_option_case
      split: option.split)

lemma carriage_carried:
  "carriage (evidence_from_snapshot snap) package = CarriageCarried \<longleftrightarrow> package_carried snap package"
  by (auto simp: carriage_def evidence_from_snapshot_def package_carried_def split: option.splits)

lemma owner_evidence: "ev_file_owners (evidence_from_snapshot snap) path = path_owner snap path"
  by (simp add: evidence_from_snapshot_def path_owner_def file_owner_map_first split: option.split)

lemma config_evidence: "ev_config_files (evidence_from_snapshot snap) path = config_decision snap path"
  by (simp add: evidence_from_snapshot_def config_decision_def config_file_map_last split: option.split)

lemma unit_reach_carried:
  "unit_file_reach (evidence_from_snapshot snap) path = ReachCarried \<longleftrightarrow> unit_carried snap path"
proof -
  have etc: "ev_etc_unit_includes (evidence_from_snapshot snap) = etc_unit_includes snap"
    by (simp add: evidence_from_snapshot_def)
  show ?thesis
    unfolding unit_file_reach_def unit_carried_def owner_carried_def owner_evidence etc
      carriage_carried [symmetric] SYSTEM_UNIT_DIRS_def
    using etc_includes_decision [of path snap]
    by (auto simp: ETC_UNIT_DIR_def split: option.splits carriage.splits)
qed

lemma from_carriage_carried: "from_carriage c creator = BackingCarried \<longleftrightarrow> c = CarriageCarried"
  by (simp add: from_carriage_def split: carriage.split)

lemma declarers_carried:
  "classify_declarers (evidence_from_snapshot snap) ds = BackingCarried \<longleftrightarrow> list_ex (unit_carried snap) ds"
proof -
  have "scan_declarers (evidence_from_snapshot snap) None ds = None \<longleftrightarrow> list_ex (unit_carried snap) ds"
    by (simp add: scan_declarers_None unit_reach_carried list_ex_iff)
  then show ?thesis by (auto simp: classify_declarers_def split: option.splits)
qed

lemma backing_carried:
  "classify_backing (evidence_from_snapshot snap) b = BackingCarried \<longleftrightarrow> creator_carried snap b"
  by (induction snap b rule: creator_carried.induct)
    (auto simp: classify_tmpfiles_def owner_evidence config_evidence owner_carried_def from_carriage_carried
      carriage_carried declarers_carried split: option.splits)

section \<open>Tokens\<close>

lemmas one_line_token = exported_token.one_line_spelled

lemmas one_line_path = exported_path.one_line_spelled

lemma known_token_Some: "known_token v = Some t \<longleftrightarrow> export_token_parse v = Inr t"
  by (simp add: known_token_def split: sum.split)

lemma proved_name: "proved_account_name n \<noteq> [] \<Longrightarrow> export_token_parse (proved_account_name n) = Inr (ExportToken (proved_account_name n))"
  by (auto simp: proved_account_name_def export_token_Inr split: option.splits sum.splits)

lemma root_token: "export_token_parse DEFAULT_VAR_DIR_OWNER = Inr (ExportToken DEFAULT_VAR_DIR_OWNER)"
  by code_simp

lemma mode_token: "export_token_parse DEFAULT_VAR_DIR_MODE = Inr (ExportToken DEFAULT_VAR_DIR_MODE)"
  by code_simp

text \<open>The digits of a 32-bit id pass the allowlist.\<close>

lemma length_nat_str: "n < 10 ^ k \<Longrightarrow> 0 < k \<Longrightarrow> length (nat_str n) \<le> k"
proof (induction n arbitrary: k rule: nat_str.induct)
  case (1 n)
  show ?case
  proof (cases "n < 10")
    case False
    with 1(2) have k: "k \<noteq> 1" by auto
    then obtain j where j: "k = Suc j" "0 < j" using 1(3) by (cases k) auto
    have "n div 10 < 10 ^ j" using 1(2) j(1) by (simp add: less_mult_imp_div_less mult.commute)
    from 1(1) [OF False this j(2)] show ?thesis using False j by (subst nat_str.simps) simp
  qed (use 1(3) in \<open>subst nat_str.simps, simp\<close>)
qed

lemma nat_str_nonempty: "nat_str n \<noteq> []"
  by (subst nat_str.simps) simp

lemma nat_str_token: "list_all is_allowed_token_byte (nat_str n)"
proof -
  have "list_all (\<lambda>d. is_allowed_token_byte (RustStr.digit_char d)) [0..<10]" by code_simp
  then have "\<forall>d < 10. is_allowed_token_byte (RustStr.digit_char d)" by (simp add: list_all_iff)
  then show ?thesis using nat_str_digits [of n] by (fastforce simp: list_all_iff)
qed

lemma numeric_token_ok: "n < 2 ^ 32 \<Longrightarrow> numeric_token n = Some (ExportToken (nat_str n))"
proof -
  assume "n < 2 ^ 32"
  then have "n < 10 ^ 10" by simp
  then have "length (nat_str n) \<le> 10" by (rule length_nat_str) simp
  then show ?thesis
    by (simp add: numeric_token_def known_token_Some export_token_Inr nat_str_token nat_str_nonempty
        MAX_EXPORT_TOKEN_LEN_def)
qed

end
