(* ===== verification/ProvisionFacts.thy ===== *)
theory ProvisionFacts
  imports VarFacts
begin

text \<open>
  The lines of the \<open>/var\<close> export: they are produced without a panic, an active one consists of
  values a check has passed, and a directory the export has to make is never left out.
\<close>

section \<open>Ownership\<close>

definition owner_ids_ok :: "var_directory \<Rightarrow> bool" where
  "owner_ids_ok d \<longleftrightarrow>
     pred_option (\<lambda>n. n < 2 ^ 32) (vd_owner_uid d) \<and> pred_option (\<lambda>n. n < 2 ^ 32) (vd_owner_gid d)"

definition proved_token :: "export_token \<Rightarrow> bool" where
  "proved_token t \<longleftrightarrow> export_token_parse (token_str t) = Inr t"

lemma known_token_proved: "known_token v = Some t \<Longrightarrow> proved_token t"
  by (auto simp: known_token_Some proved_token_def export_token_Inr)

lemma known_names:
  "proved_account_name n \<noteq> [] \<Longrightarrow> known_token (proved_account_name n) = Some (ExportToken (proved_account_name n))"
  "known_token DEFAULT_VAR_DIR_OWNER = Some (ExportToken DEFAULT_VAR_DIR_OWNER)"
  "known_token DEFAULT_VAR_DIR_MODE = Some (ExportToken DEFAULT_VAR_DIR_MODE)"
  by (simp_all add: known_token_Some proved_name root_token mode_token)

lemma with_tokens_Some:
  "with_tokens a b c = Some (owner, grp, comment) \<longleftrightarrow> a = Some owner \<and> b = Some grp \<and> comment = c"
  by (cases a; cases b) (auto simp: with_tokens_def)

lemma with_tokens_not_None: "with_tokens a b c \<noteq> None \<longleftrightarrow> a \<noteq> None \<and> b \<noteq> None"
  by (cases a; cases b) (auto simp: with_tokens_def)

lemma resolve_total:
  "owner_ids_ok d \<Longrightarrow> resolve_tmpfiles_ownership d users accounts replicated \<noteq> None"
  by (auto simp: resolve_tmpfiles_ownership_def Let_def with_tokens_not_None known_names numeric_token_ok
      owner_ids_ok_def simp del: not_None_eq split: option.split)

text \<open>A comment names a package of the table or a name that passed the allowlist.\<close>

lemma account_step_values:
  "foldl (\<lambda>m a. m(a \<mapsto> p)) m as v = Some w \<Longrightarrow> w = p \<or> m v = Some w"
proof (induction "as" arbitrary: m)
  case (Cons a as)
  from Cons.IH [of "m(a \<mapsto> p)"] Cons.prems have "w = p \<or> (m(a \<mapsto> p)) v = Some w" by simp
  then show ?case by (auto split: if_splits)
qed simp

lemma account_fold_values:
  "foldl (account_step replicated) m tbl v = Some w \<Longrightarrow> w \<in> fst ` set tbl \<or> m v = Some w"
proof (induction tbl arbitrary: m)
  case (Cons pa tbl)
  from Cons.IH [of "account_step replicated m pa"] Cons.prems
  have "w \<in> fst ` set tbl \<or> account_step replicated m pa v = Some w" by simp
  then show ?case
    using account_step_values [of "fst pa" m "snd pa" v w]
    by (cases "fst pa \<in> replicated") (auto simp: account_step_def)
qed simp

lemma known_packages_one_line: "list_all (\<lambda>pa. one_line (fst pa)) KNOWN_PACKAGE_ACCOUNTS"
  by code_simp

lemma provider_one_line:
  "providing_package (rpm_accounts snap) replicated owner = Some pkg \<Longrightarrow> one_line owner \<Longrightarrow> one_line pkg"
  using known_packages_one_line account_fold_values [of "replicated_rpms snap" Map.empty KNOWN_PACKAGE_ACCOUNTS owner pkg]
  by (auto simp: providing_package_def rpm_accounts_def list_all_iff split: option.splits if_splits)

lemma proved_name_one_line: "one_line (proved_account_name n)"
  by (cases "proved_account_name n = []")
    (auto simp: line_simps dest: one_line_token [OF proved_name])

lemma resolve_proved:
  assumes "resolve_tmpfiles_ownership d users (rpm_accounts snap) replicated = Some (owner, grp, comment)"
  shows "proved_token owner \<and> proved_token grp \<and> one_line comment"
proof -
  have "one_line comment"
    using assms proved_name_one_line [of "vd_owner_name d"]
    by (auto simp: resolve_tmpfiles_ownership_def Let_def with_tokens_Some line_simps
        split: if_splits option.splits dest: provider_one_line)
  moreover have "proved_token owner" "proved_token grp"
    using assms
    by (auto simp: resolve_tmpfiles_ownership_def Let_def with_tokens_Some numeric_token_def
        split: if_splits option.splits dest: known_token_proved)
  ultimately show ?thesis by simp
qed

section \<open>Lines\<close>

text \<open>An active record of \<open>d\<close>: its path and mode, proved, and two proved owners.\<close>

definition dir_record :: "var_directory \<Rightarrow> string \<Rightarrow> bool" where
  "dir_record d l \<longleftrightarrow>
     (\<exists>path mode owner grp.
        export_path_parse (vd_path d) = Inr path \<and> map_option export_token_parse (vd_mode d) = Some (Inr mode) \<and>
        proved_token owner \<and> proved_token grp \<and> l = tmpfiles_dir_line path mode owner grp)"

definition mkdir_for :: "var_directory \<Rightarrow> string \<Rightarrow> bool" where
  "mkdir_for d l \<longleftrightarrow> (\<exists>path. export_path_parse (vd_path d) = Inr path \<and> vd_mode d = None \<and> l = mkdir_line path)"

definition by_hand :: "var_directory \<Rightarrow> string \<Rightarrow> bool" where
  "by_hand d l \<longleftrightarrow> (\<exists>reason \<in> {REFUSED_PATH_REASON, REFUSED_MODE_REASON}. l = refused_field_comment (vd_path d) reason)"

lemma one_line_reasons [line_simps]:
  "one_line REFUSED_PATH_REASON" "one_line REFUSED_MODE_REASON" "one_line (reason_text r)"
  by (cases r; simp add: one_line_def REFUSED_PATH_REASON_def REFUSED_MODE_REASON_def)+

lemma inert_refused: "one_line reason \<Longrightarrow> inert (refused_field_comment p reason)"
  by (simp add: refused_field_comment_def line_simps)

lemma one_line_proved: "proved_token t \<Longrightarrow> one_line (token_str t)"
  by (auto simp: proved_token_def dest: one_line_token)

lemma inert_lost: "export_path_parse p = Inr path \<Longrightarrow> l \<in> set (lost_lines path lost) \<Longrightarrow> inert l"
  by (auto simp: lost_lines_def lost_creator_comment_def line_simps dest: one_line_path split: option.splits)

lemma inert_unresolved_pair:
  assumes "export_path_parse p = Inr path" "proved_token mode" "proved_token owner" "proved_token grp"
    and "l \<in> set (unresolved_pair path creator reason mode owner grp)"
  shows "inert l"
  using assms(5) one_line_path [OF assms(1)] assms(2-4)
  by (auto simp: unresolved_pair_def tmpfiles_dir_line_def line_simps one_line_proved)

lemma unresolved_inert:
  assumes "export_path_parse (vd_path d) = Inr path"
    and "unresolved_fixme_lines snap d path creator reason = Some ls" "l \<in> set ls"
  shows "inert l"
proof (cases "vd_mode d")
  case None
  then obtain m o' g where "ls = unresolved_pair path creator reason m o' g" "proved_token m" "proved_token o'" "proved_token g"
    using assms(2) known_token_proved [OF known_names(2)] known_token_proved [OF known_names(3)]
    by (auto simp: unresolved_fixme_lines_def known_names(2,3) with_tokens_Some)
  then show ?thesis using inert_unresolved_pair [OF assms(1)] assms(3) by blast
next
  case (Some mode)
  show ?thesis
  proof (cases "export_token_parse mode")
    case (Inl e)
    then show ?thesis using assms(2,3) Some by (auto simp: unresolved_fixme_lines_def inert_refused line_simps)
  next
    case (Inr m)
    then obtain o' g c where ls: "ls = unresolved_pair path creator reason m o' g"
      and r: "resolve_tmpfiles_ownership d (collect_materialized_usernames snap) (rpm_accounts snap)
         (replicated_rpms snap) = Some (o', g, c)"
      using assms(2) Some by (auto simp: unresolved_fixme_lines_def)
    have "proved_token m" using Inr by (auto simp: proved_token_def export_token_Inr)
    then show ?thesis
      using ls resolve_proved [OF r] inert_unresolved_pair [OF assms(1)] assms(3) by blast
  qed
qed

lemma unresolved_total:
  "owner_ids_ok d \<Longrightarrow> unresolved_fixme_lines snap d path creator reason \<noteq> None"
  using resolve_total [of d "collect_materialized_usernames snap" "rpm_accounts snap" "replicated_rpms snap"]
  by (auto simp: unresolved_fixme_lines_def known_names(2,3) with_tokens_def split: option.split sum.split)

lemma tmpfiles_block_total: "owner_ids_ok d \<Longrightarrow> tmpfiles_block snap (d, vo) \<noteq> None"
  using resolve_total [of d "collect_materialized_usernames snap" "rpm_accounts snap" "replicated_rpms snap"]
    unresolved_total [of d snap]
  by (auto simp: tmpfiles_block_def Let_def split: effective_backing.split option.split sum.split)

lemma var_dir_block_total: "owner_ids_ok d \<Longrightarrow> var_dir_block snap (d, vo) \<noteq> None"
  using unresolved_total [of d snap]
  by (auto simp: var_dir_block_def Let_def split: effective_backing.split option.split sum.split)

lemma tmpfiles_block_lines:
  assumes "tmpfiles_block snap (d, vo) = Some ls" "l \<in> set ls"
  shows "inert l \<or> dir_record d l"
proof (cases "vo_outcome vo")
  case BackingCarried
  then show ?thesis using assms by (simp add: tmpfiles_block_def)
next
  case (Unresolved creator reason)
  then show ?thesis
    using assms unresolved_inert
    by (auto simp: tmpfiles_block_def inert_refused line_simps split: sum.splits)
next
  case (Provision lost)
  show ?thesis
  proof (cases "export_path_parse (vd_path d)")
    case (Inl e)
    then show ?thesis using assms Provision
      by (auto simp: tmpfiles_block_def inert_refused line_simps split: option.splits)
  next
    case path: (Inr path)
    show ?thesis
    proof (cases "\<exists>m. map_option export_token_parse (vd_mode d) = Some (Inr m)")
      case False
      then show ?thesis using assms Provision path
        by (auto simp: tmpfiles_block_def inert_refused line_simps split: option.splits sum.splits)
    next
      case True
      then obtain mode m where m: "vd_mode d = Some mode" "export_token_parse mode = Inr m" by auto
      then obtain o' g c where ls: "ls = lost_lines path lost @ comment_if c @ [tmpfiles_dir_line path m o' g]"
        and r: "resolve_tmpfiles_ownership d (collect_materialized_usernames snap) (rpm_accounts snap)
           (replicated_rpms snap) = Some (o', g, c)"
        using assms(1) Provision path by (auto simp: tmpfiles_block_def)
      have "inert l" if "l \<in> set (comment_if c)"
        using that resolve_proved [OF r] by (auto simp: comment_if_def line_simps split: if_splits)
      moreover have "dir_record d (tmpfiles_dir_line path m o' g)"
        using path m resolve_proved [OF r] by (auto simp: dir_record_def)
      ultimately show ?thesis using ls assms(2) inert_lost [OF path] by auto
    qed
  qed
qed

lemma var_dir_block_lines:
  assumes "var_dir_block snap (d, vo) = Some ls" "l \<in> set ls"
  shows "inert l \<or> mkdir_for d l"
  using assms unresolved_inert [of d _ snap] inert_lost [of "vd_path d"]
  by (auto simp: var_dir_block_def mkdir_for_def inert_refused line_simps
      split: effective_backing.splits if_splits sum.splits)

text \<open>Between the two files, a directory to provision gets its record, its \<open>mkdir\<close> or an instruction.\<close>

lemma provision_covered:
  assumes "tmpfiles_block snap (d, vo) = Some ts" "var_dir_block snap (d, vo) = Some bs"
    and "vo_outcome vo = Provision lost"
  shows "(\<exists>l \<in> set (ts @ bs). dir_record d l \<or> mkdir_for d l \<or> by_hand d l)"
proof (cases "export_path_parse (vd_path d)")
  case (Inl e)
  then have "refused_field_comment (vd_path d) REFUSED_PATH_REASON \<in> set (ts @ bs)"
    using assms by (auto simp: tmpfiles_block_def var_dir_block_def split: option.splits if_splits)
  then show ?thesis by (auto simp: by_hand_def)
next
  case path: (Inr path)
  show ?thesis
  proof (cases "vd_mode d")
    case None
    then have "mkdir_line path \<in> set bs" using assms(2,3) path by (auto simp: var_dir_block_def)
    then show ?thesis using path None by (auto simp: mkdir_for_def)
  next
    case (Some mode)
    show ?thesis
    proof (cases "export_token_parse mode")
      case (Inl e)
      then have "refused_field_comment (vd_path d) REFUSED_MODE_REASON \<in> set ts"
        using assms(1,3) path Some by (auto simp: tmpfiles_block_def)
      then show ?thesis by (auto simp: by_hand_def)
    next
      case (Inr m)
      then have "\<exists>l \<in> set ts. \<not> inert l"
        using assms(1,3) path Some by (auto simp: tmpfiles_block_def tmpfiles_dir_line_def line_simps)
      then show ?thesis using tmpfiles_block_lines [OF assms(1)] by auto
    qed
  qed
qed

end
