(* ===== verification/Repoless.thy ===== *)
theory Repoless
  imports RenderLines
begin

text \<open>
  The install blocks of packages without a repository
  (\<open>crates/pipeline/src/render/repoless.rs\<close>). The name of an RPM file reaches a build instruction
  only as a \<open>StagedName\<close>.
\<close>

section \<open>The blocks\<close>

datatype emission = Active | Commented

definition install_lines :: "staged_name \<Rightarrow> emission \<Rightarrow> string list" where
  "install_lines name emission =
     (let rpm = as_str name;
          prefix = (case emission of Active \<Rightarrow> '''' | Commented \<Rightarrow> ''# '')
      in [prefix @ ''COPY repoless-packages/'' @ rpm @ '' /tmp/'',
          prefix @ ''RUN dnf localinstall -y /tmp/'' @ rpm @ '' '' @ [CHR 0x5C],
          case emission of
            Active \<Rightarrow> ''    && rm /tmp/'' @ rpm
          | Commented \<Rightarrow> ''#     && rm /tmp/'' @ rpm])"

definition provenance_lines :: "package_entry \<Rightarrow> string \<Rightarrow> string list" where
  "provenance_lines pkg source =
     [''# Repo-less package: '' @ sanitize_for_comment (pe_name pkg) @ '' ('' @ source @
        '', no repository provenance)'',
      ''# WARNING: This package has no upstream repo and no GPG verification.'']"

definition comment_id :: "package_entry \<Rightarrow> string" where
  "comment_id pkg = sanitize_for_comment (pe_name pkg @ ''.'' @ pe_arch pkg)"

definition uploaded_lines :: "package_entry \<Rightarrow> verified_upload \<Rightarrow> string list" where
  "uploaded_lines pkg upload =
     provenance_lines pkg ''uploaded RPM'' @
     [''# It was uploaded in refine. Updates must be managed manually.''] @
     (case vu_uploaded_version upload of
        None \<Rightarrow> []
      | Some v \<Rightarrow>
          [''# uploaded '' @ sanitize_for_comment (pe_name pkg) @ ''-'' @ v @ ''.'' @
             sanitize_for_comment (pe_arch pkg) @ ''; the host had '' @
             sanitize_for_comment (pe_version pkg @ ''-'' @ pe_release pkg)]) @
     install_lines (vu_basename upload) Active"

definition nevra_filename :: "package_entry \<Rightarrow> string" where
  "nevra_filename pkg =
     pe_name pkg @ ''-'' @ pe_version pkg @ ''-'' @ pe_release pkg @ ''.'' @ pe_arch pkg @ ''.rpm''"

definition cached_lines :: "package_entry \<Rightarrow> string list" where
  "cached_lines pkg =
     (case staged_name_parse (nevra_filename pkg) of
        Inl _ \<Rightarrow>
          [''# FIXME: upload the RPM for '' @ comment_id pkg @
             '' in refine; the cached RPM'' @ [CHR 0x27] @ ''s filename is not one this can name in a COPY'']
      | Inr name \<Rightarrow>
          provenance_lines pkg ''cached RPM'' @
          (if is_included (pe_disposition pkg)
           then ''# It was found in the local dnf cache. Updates must be managed manually.'' #
             install_lines name Active
           else (''# Pre-excluded '' @ long_dash @ '' uncomment after verifying provenance:'') #
             install_lines name Commented))"

definition manual_lines :: "package_entry \<Rightarrow> string list" where
  "manual_lines pkg =
     [''# MANUAL: '' @ sanitize_for_comment (pe_name pkg) @ '' (no repo source, RPM not in cache)'',
      ''# Provide the RPM via the refine UI upload, add a repo, or uncomment:'',
      ''# RUN dnf install '' @ sanitize_for_comment (pe_name pkg)]"

definition repoless_block :: "(string \<rightharpoonup> verified_upload) \<Rightarrow> package_entry \<Rightarrow> string list" where
  "repoless_block verified pkg =
     (case verified (pe_name pkg @ ''.'' @ pe_arch pkg) of
        Some upload \<Rightarrow> uploaded_lines pkg upload
      | None \<Rightarrow>
          if pe_uploaded pkg \<and> is_included (pe_disposition pkg)
          then [''# FIXME: upload the RPM for '' @ comment_id pkg @
            '' again in refine; the staged file could not be verified for export'']
          else if pe_repoless_cached pkg then cached_lines pkg
          else manual_lines pkg)"

definition verified_of :: "render_context option \<Rightarrow> string \<rightharpoonup> verified_upload" where
  "verified_of render_ctx = (case render_ctx of None \<Rightarrow> Map.empty | Some c \<Rightarrow> rc_verified_uploads c)"

definition repoless_rpm_lines :: "inspection_snapshot \<Rightarrow> render_context option \<Rightarrow> string list" where
  "repoless_rpm_lines snap render_ctx =
     (case snap_rpm snap of
        None \<Rightarrow> []
      | Some rpm_section \<Rightarrow>
          let repoless = filter (\<lambda>p. pe_repoless_annotation p \<noteq> []) (rpm_packages_added rpm_section) in
          if repoless = [] then []
          else [[], ''# === Repo-less RPM packages ===''] @
            concat (map (repoless_block (verified_of render_ctx)) repoless))"

section \<open>Facts\<close>

lemma staged_name_safe: "staged_name_parse n = Inr s \<Longrightarrow> as_str s = n \<and> safe_name n"
  using validate_staged_name_iff [of n] by (auto simp: staged_name_parse_def split: sum.splits)

text \<open>What a line of the section may be: inert, or a line of an active block of a proved name.\<close>

definition install_or_inert :: "(string \<Rightarrow> bool) \<Rightarrow> string \<Rightarrow> bool" where
  "install_or_inert ok l \<longleftrightarrow> inert l \<or> (\<exists>name. ok (as_str name) \<and> l \<in> set (install_lines name Active))"

lemma inert_provenance: "one_line source \<Longrightarrow> l \<in> set (provenance_lines pkg source) \<Longrightarrow> inert l"
  by (auto simp: provenance_lines_def line_simps)

lemma inert_manual: "l \<in> set (manual_lines pkg) \<Longrightarrow> inert l"
  by (auto simp: manual_lines_def line_simps)

lemma inert_commented:
  "one_line (as_str name) \<Longrightarrow> l \<in> set (install_lines name Commented) \<Longrightarrow> inert l"
  by (auto simp: install_lines_def Let_def line_simps)

end
