(* ===== verification/DnfLines.thy ===== *)
theory DnfLines
  imports RenderLines RepoEnabling
begin

text \<open>
  The \<open>dnf\<close> transactions of the Containerfile and what precedes them
  (\<open>crates/pipeline/src/render/containerfile.rs\<close>): the CRB flags, the GPG keys, the module streams
  and the narration of a repo-enabling package.
\<close>

section \<open>Strings\<close>

definition hex_digit :: "nat \<Rightarrow> char" where
  "hex_digit d = (if d < 10 then char_of (48 + d) else char_of (87 + d))"

definition hex_short :: "nat \<Rightarrow> string" where
  "hex_short n = (if n < 16 then [hex_digit n] else [hex_digit (n div 16), hex_digit (n mod 16)])"

text \<open>
  \<open>format!("{:?}", s)\<close>: exact on ASCII text; a byte of a longer encoding is kept, which is what the
  formatter does with a printable character.
\<close>

definition debug_char :: "char \<Rightarrow> string" where
  "debug_char c =
     (if c = CHR 0x22 then [CHR 0x5C, CHR 0x22]
      else if c = CHR 0x5C then [CHR 0x5C, CHR 0x5C]
      else if c = CHR 0x09 then [CHR 0x5C, CHR ''t'']
      else if c = CHR 0x0D then [CHR 0x5C, CHR ''r'']
      else if c = CHR 0x0A then [CHR 0x5C, CHR ''n'']
      else if c = CHR 0x00 then [CHR 0x5C, CHR ''0'']
      else if (of_char c :: nat) < 32 \<or> (of_char c :: nat) = 127
      then [CHR 0x5C] @ ''u{'' @ hex_short (of_char c) @ ''}''
      else [c])"

definition debug_str :: "string \<Rightarrow> string" where
  "debug_str s = [CHR 0x22] @ concat (map debug_char s) @ [CHR 0x22]"

definition debug_strings :: "string list \<Rightarrow> string" where
  "debug_strings xs = ''['' @ str_join '', '' (map debug_str xs) @ '']''"

text \<open>\<open>s.trim_start_matches('/')\<close> and \<open>s.rsplit_once('/')\<close>.\<close>

definition trim_slashes :: "string \<Rightarrow> string" where
  "trim_slashes s = dropWhile (\<lambda>c. c = CHR ''/'') s"

definition rsplit_slash :: "string \<Rightarrow> (string \<times> string) option" where
  "rsplit_slash s = map_option (\<lambda>(a, b). (rev b, rev a)) (split_once (CHR ''/'') (rev s))"

section \<open>CodeReady Builder\<close>

definition CRB_ID_PREFIX :: string where "CRB_ID_PREFIX = ''codeready-builder-''"
definition CRB_ID_EXCLUDED_INFIXES :: "string list" where "CRB_ID_EXCLUDED_INFIXES = [''-debug-'', ''-source-'']"

definition CRB_BANNER :: string where
  "CRB_BANNER = ''# CRB was enabled on the source host; EPEL packages may depend on it.''"

definition is_crb_section :: "repo_section_def \<Rightarrow> bool" where
  "is_crb_section sec \<longleftrightarrow>
     (let lower = to_ascii_lowercase (repo_id_str (rs_id sec)) in
      rs_enabled sec \<and> starts_with lower CRB_ID_PREFIX
      \<and> \<not> list_ex (str_contains lower) CRB_ID_EXCLUDED_INFIXES
      \<and> sanitize_shell_value (repo_id_str (rs_id sec)) \<noteq> None)"

text \<open>\<open>BTreeSet::insert\<close>: an equal element stays as it is.\<close>

fun repo_set_insert :: "repo_id \<Rightarrow> repo_id list \<Rightarrow> repo_id list" where
  "repo_set_insert i [] = [i]"
| "repo_set_insert i (j # js) =
     (case repo_id_cmp i j of
        Less \<Rightarrow> i # j # js
      | Equal \<Rightarrow> j # js
      | Greater \<Rightarrow> j # repo_set_insert i js)"

definition crb_ids :: "rpm_section \<Rightarrow> repo_id list" where
  "crb_ids rpm =
     foldl (\<lambda>ids sec. if is_crb_section sec then repo_set_insert (rs_id sec) ids else ids) []
       (concat (map (\<lambda>f. parse_repo_sections (rf_content f))
         (filter (\<lambda>f. is_included (rf_disposition f)) (rpm_repo_files rpm))))"

record crb_flags =
  crb_flags_text :: string
  crb_banner_pending :: bool

definition crb_new :: "rpm_section \<Rightarrow> crb_flags" where
  "crb_new rpm =
     \<lparr> crb_flags_text = concat (map (\<lambda>i. '' --enablerepo='' @ repo_id_str i) (crb_ids rpm)),
       crb_banner_pending = (crb_ids rpm \<noteq> []) \<rparr>"

definition crb_banner :: "crb_flags \<Rightarrow> string list \<times> crb_flags" where
  "crb_banner crb =
     (if \<not> crb_banner_pending crb then ([], crb) else ([CRB_BANNER], crb\<lparr>crb_banner_pending := False\<rparr>))"

section \<open>Transactions\<close>

definition backslash :: string where
  "backslash = [CHR 0x5C]"

definition clean_lines :: "string list" where
  "clean_lines =
     [''    && dnf clean all '' @ backslash, ''    && rm -rf '' @ backslash,
      ''        /var/cache/dnf '' @ backslash, ''        /var/lib/dnf/history* '' @ backslash,
      ''        /var/log/dnf* '' @ backslash, ''        /var/log/hawkey.log '' @ backslash,
      ''        /var/log/rhsm'']"

definition dnf_install_lines :: "string list \<Rightarrow> crb_flags \<Rightarrow> string list" where
  "dnf_install_lines names crb =
     (''RUN dnf install -y'' @ crb_flags_text crb @ '' '' @ backslash) #
     map (\<lambda>name. ''    '' @ name @ '' '' @ backslash) names @ clean_lines"

section \<open>GPG keys\<close>

definition STANDARD_GPG_DIR :: string where
  "STANDARD_GPG_DIR = ''etc/pki/rpm-gpg''"

record gpg_state =
  gs_body :: "string list"
  gs_standard :: "repo_file list"
  gs_nonstandard :: "repo_file list"
  gs_root :: "repo_file list"
  gs_dirs :: "string list"

definition gpg_fixme :: "string \<Rightarrow> string \<Rightarrow> string" where
  "gpg_fixme what path =
     ''# FIXME: copy this GPG key in by hand, or exclude it, then rebuild; its path '' @ what @ '': '' @
     html_escape path"

definition gpg_step :: "gpg_state \<Rightarrow> repo_file \<Rightarrow> gpg_state" where
  "gpg_step st key =
     (let path = rf_path key in
      if str_contains path ''..'' \<or> CHR 0x00 \<in> set path
      then st\<lparr>gs_body := gs_body st @ [gpg_fixme ''contains unsafe characters'' path]\<rparr>
      else if sanitize_shell_value path = None
      then st\<lparr>gs_body := gs_body st @ [gpg_fixme ''is unsafe for the shell'' path]\<rparr>
      else (case rsplit_slash (trim_slashes path) of
          Some (dir, _) \<Rightarrow>
            if dir \<noteq> []
            then (if dir = STANDARD_GPG_DIR then st\<lparr>gs_standard := gs_standard st @ [key]\<rparr>
                  else st\<lparr>gs_dirs := sort_dedup (dir # gs_dirs st), gs_nonstandard := gs_nonstandard st @ [key]\<rparr>)
            else st\<lparr>gs_root := gs_root st @ [key], gs_nonstandard := gs_nonstandard st @ [key]\<rparr>
        | None \<Rightarrow> st\<lparr>gs_root := gs_root st @ [key], gs_nonstandard := gs_nonstandard st @ [key]\<rparr>))"

definition gpg_start :: gpg_state where
  "gpg_start = \<lparr> gs_body = [], gs_standard = [], gs_nonstandard = [], gs_root = [], gs_dirs = [] \<rparr>"

definition gpg_dir_line :: "string \<Rightarrow> string" where
  "gpg_dir_line dir =
     (case sanitize_shell_value dir of
        Some safe \<Rightarrow> ''COPY config/'' @ safe @ ''/ /'' @ safe @ ''/''
      | None \<Rightarrow> ''# FIXME: GPG directory path contains unsafe characters: '' @ html_escape dir)"

definition gpg_body :: "repo_file list \<Rightarrow> string list" where
  "gpg_body included_gpg =
     (let st = foldl gpg_step gpg_start included_gpg in
      gs_body st @
      (if gs_standard st \<noteq> []
       then [''COPY config/'' @ STANDARD_GPG_DIR @ ''/ /'' @ STANDARD_GPG_DIR @ ''/''] else []) @
      map gpg_dir_line (gs_dirs st) @
      map (\<lambda>key. ''COPY config/'' @ trim_slashes (rf_path key) @ '' '' @ rf_path key) (gs_root st) @
      map (\<lambda>key. ''RUN rpm --import '' @ rf_path key) (gs_nonstandard st))"

definition gpg_lines :: "rpm_section \<Rightarrow> string list" where
  "gpg_lines rpm =
     (let included_gpg = filter (\<lambda>k. is_included (rf_disposition k)) (rpm_gpg_keys rpm) in
      if included_gpg \<noteq> []
      then section_lines (''GPG Keys ('' @ nat_str (length included_gpg) @ '')'') (gpg_body included_gpg)
      else [])"

section \<open>Module streams\<close>

definition safe_value :: "string \<Rightarrow> bool" where
  "safe_value v \<longleftrightarrow> sanitize_shell_value v \<noteq> None"

definition module_step :: "string list \<times> crb_flags \<Rightarrow> enabled_module_stream \<Rightarrow> string list \<times> crb_flags" where
  "module_step bc ms =
     (let body = fst bc; crb = snd bc in
      if sanitize_shell_value (ms_module_name ms) = None \<or> sanitize_shell_value (ms_stream ms) = None
      then (body @ [''# FIXME: module stream contains unsafe characters, skipped: '' @
              debug_str (ms_module_name ms) @ '':'' @ debug_str (ms_stream ms)], crb)
      else
        let safe_profiles = filter safe_value (ms_profiles ms) in
        if ms_profiles ms \<noteq> [] \<and> length safe_profiles \<noteq> length (ms_profiles ms)
        then (body @ [''# FIXME: module profile contains unsafe characters, skipped: '' @
                debug_strings (ms_profiles ms)], crb)
        else
          let profiles = (if ms_profiles ms = [] then '''' else ''/'' @ str_join '','' safe_profiles);
              bn = crb_banner crb
          in (body @ fst bn @
                [''RUN dnf module enable -y'' @ crb_flags_text (snd bn) @ '' '' @ ms_module_name ms @ '':'' @
                 ms_stream ms @ profiles], snd bn))"

definition enabled_modules :: "rpm_section \<Rightarrow> enabled_module_stream list" where
  "enabled_modules rpm =
     filter (\<lambda>ms. is_included (ms_disposition ms) \<and> \<not> ms_baseline_match ms) (rpm_module_streams rpm)"

definition module_lines :: "rpm_section \<Rightarrow> crb_flags \<Rightarrow> string list \<times> crb_flags" where
  "module_lines rpm crb =
     (if enabled_modules rpm \<noteq> []
      then (let r = foldl module_step ([], crb) (enabled_modules rpm)
            in (section_lines ''Module Streams'' (fst r), snd r))
      else ([], crb))"

section \<open>Narration\<close>

definition RELEASE_PERMALINKS :: "(string \<times> string) list" where
  "RELEASE_PERMALINKS =
     [(''epel-release'', ''https://dl.fedoraproject.org/pub/epel/epel-release-latest-{major}.noarch.rpm'')]"

definition OS_MAJOR_PLACEHOLDER :: string where
  "OS_MAJOR_PLACEHOLDER = ''{major}''"

text \<open>\<open>s.replace(pat, r)\<close> for a pattern that is not empty.\<close>

function replace_all :: "string \<Rightarrow> string \<Rightarrow> string \<Rightarrow> string" where
  "replace_all pat r s =
     (case s of
        [] \<Rightarrow> []
      | c # cs \<Rightarrow>
          if pat \<noteq> [] \<and> starts_with s pat then r @ replace_all pat r (drop (length pat) s)
          else c # replace_all pat r cs)"
  by pat_completeness auto
termination
  by (relation "measure (\<lambda>(pat, r, s). length s)") auto

declare replace_all.simps [simp del]

definition release_permalink :: "inspection_snapshot \<Rightarrow> package_entry \<Rightarrow> (string \<times> string) option" where
  "release_permalink snap pkg =
     Option.bind (List.find (\<lambda>nt. fst nt = pe_name pkg) RELEASE_PERMALINKS) (\<lambda>nt.
     Option.bind (snap_os_release snap) (\<lambda>os.
     let major = hd (split_on (\<lambda>c. c = CHR ''.'') (osr_version_id os)) in
     if sanitize_shell_value major = None \<or> major = [] then None
     else let url = replace_all OS_MAJOR_PLACEHOLDER major (snd nt) in
          map_option (\<lambda>i. (url, hd (split_on (\<lambda>c. c = CHR ''/'') (drop (i + 3) url)))) (str_find ''://'' url)))"

definition NARRATION_WIDTH :: nat where "NARRATION_WIDTH = 80"

definition wrap_step :: "string list \<times> string \<Rightarrow> string \<Rightarrow> string list \<times> string" where
  "wrap_step lc word =
     (let (ls, current) =
        (if length (snd lc) > 1 \<and> length (snd lc) + 1 + length word > NARRATION_WIDTH
         then (fst lc @ [snd lc], ''#'') else lc)
      in (ls, current @ '' '' @ word))"

definition comment_paragraph :: "string \<Rightarrow> string list" where
  "comment_paragraph t =
     (let (ls, current) = foldl wrap_step ([], ''#'') (split_whitespace t)
      in if length current > 1 then ls @ [current] else ls)"

definition repo_enabling_narration ::
  "inspection_snapshot \<Rightarrow> rpm_section \<Rightarrow> package_entry \<Rightarrow> string list" where
  "repo_enabling_narration snap rpm pkg =
     (let permalink = release_permalink snap pkg;
          t = sanitize_for_comment (pe_name pkg) @
            '' was installed outside any repo on the source host; the host'' @ [CHR 0x27] @
            ''s enabled repos served it, and its repo files and key are copied above, so it installs from the '' @
            ''copied definition. The build needs those repo endpoints reachable with any credentials and CA '' @
            ''trust they require.'' @
            (case owned_repo_file_name rpm pkg of
               None \<Rightarrow> ''''
             | Some file \<Rightarrow> '' Installing after the COPY may leave a cosmetic '' @ sanitize_for_comment file @
                 ''.rpmnew.'') @
            (case permalink of
               None \<Rightarrow> ''''
             | Some uh \<Rightarrow> '' Alternative, when '' @ snd uh @ '' is reachable:'')
      in comment_paragraph t @
         (case permalink of None \<Rightarrow> [] | Some uh \<Rightarrow> [''# RUN dnf install -y '' @ fst uh]))"

definition demotion_fixme :: "package_entry \<Rightarrow> serving_loss \<Rightarrow> string" where
  "demotion_fixme pkg loss =
     (let name = sanitize_for_comment (pe_name pkg);
          i = sanitize_for_comment (repo_id_str (sl_id loss));
          tail = name @ '' installs from that repo definition, which this export does not carry''
      in case sl_file loss of
           Some file \<Rightarrow>
             ''# FIXME: include '' @ sanitize_for_comment file @
             '' under Configuration Files, or re-include repo '' @ i @ '', or upload the RPM; '' @ tail
         | None \<Rightarrow> ''# FIXME: re-include repo '' @ i @ '', or upload the RPM; '' @ tail)"

end
