(* ===== verification/PackagesRender.thy ===== *)
theory PackagesRender
  imports DnfLines
begin

text \<open>
  The packages section of the Containerfile (\<open>packages_section_lines\<close> of
  \<open>crates/pipeline/src/render/containerfile.rs\<close>): the base image, the repositories and keys, the
  modules, the groups, the two install transactions, the follow-ups and the version locks. The
  parts are in the order of the function; the CRB banner is the state they share.
\<close>

type_synonym original_includes = "(string \<rightharpoonup> bool) option"

section \<open>Head\<close>

definition from_lines :: "string option \<Rightarrow> string list" where
  "from_lines base =
     [case base of
        Some b \<Rightarrow> ''FROM '' @ b
      | None \<Rightarrow> ''# FROM line omitted '' @ long_dash @
          '' target image could not be determined. Use --base-image to specify.'',
      []]"

definition authority_lines :: "rpm_section \<Rightarrow> string list" where
  "authority_lines rpm =
     (case (rpm_leaf_authority_hosts rpm, rpm_leaf_total_hosts rpm) of
        (Some auth, Some tot) \<Rightarrow>
          if auth < tot
          then [''# Leaf classification: '' @ nat_str auth @ ''/'' @ nat_str tot @ '' hosts (partial authority)'', []]
          else []
      | _ \<Rightarrow> [])"

definition repo_copy_lines :: "rpm_section \<Rightarrow> string list" where
  "repo_copy_lines rpm =
     (let n = length (filter (\<lambda>r. is_included (rf_disposition r) \<and> \<not> rf_is_default_repo r) (rpm_repo_files rpm)) in
      if n > 0 then section_lines (''Custom Repositories ('' @ nat_str n @ '')'')
        [''COPY config/etc/yum.repos.d/ /etc/yum.repos.d/'']
      else [])"

section \<open>Groups\<close>

definition renderable_groups :: "rpm_section \<Rightarrow> render_context option \<Rightarrow> installed_group list" where
  "renderable_groups rpm render_ctx =
     (case (render_ctx, rpm_installed_groups rpm) of
        (Some ctx, Some groups) \<Rightarrow>
          sort_key ig_name (filter (\<lambda>g. ctx_is_renderable ctx (ig_name g)) groups)
      | _ \<Rightarrow> [])"

definition group_member_suppressed :: "rpm_section \<Rightarrow> render_context option \<Rightarrow> string set" where
  "group_member_suppressed rpm render_ctx = set (concat (map ig_members (renderable_groups rpm render_ctx)))"

definition group_lines :: "rpm_section \<Rightarrow> render_context option \<Rightarrow> crb_flags \<Rightarrow> string list \<times> crb_flags" where
  "group_lines rpm render_ctx crb =
     (let renderable = renderable_groups rpm render_ctx in
      if renderable = [] then ([], crb)
      else let bn = crb_banner crb in
        (section_lines (''Package Groups ('' @ nat_str (length renderable) @ '')'')
           (fst bn @ [''RUN dnf group install -y'' @ crb_flags_text (snd bn) @ '' '' @ backslash] @
            map (\<lambda>g. ''    '' @ [CHR 0x22] @ ig_name g @ [CHR 0x22] @ '' '' @ backslash) renderable @ clean_lines),
         snd bn))"

fun degradation_reason_label :: "degradation_reason \<Rightarrow> string" where
  "degradation_reason_label MemberExcluded = ''member excluded''"
| "degradation_reason_label MemberOverridden = ''member overridden''"
| "degradation_reason_label MultilibConflict = ''multilib conflict''"

definition group_provenance :: "render_context \<Rightarrow> installed_group \<Rightarrow> string list" where
  "group_provenance ctx g =
     (case rc_group_states ctx (ig_name g) of
        Some (Degraded reason) \<Rightarrow>
          [''# '' @ [CHR 0x22] @ ig_name g @ [CHR 0x22] @ '' degraded ('' @ degradation_reason_label reason @
           ''): members rendered individually'']
      | _ \<Rightarrow> []) @
     (if ig_optional_installed g \<noteq> []
      then [''# Optional members from '' @ [CHR 0x22] @ ig_name g @ [CHR 0x22]] else [])"

definition provenance_section :: "rpm_section \<Rightarrow> render_context option \<Rightarrow> string list" where
  "provenance_section rpm render_ctx =
     (case (render_ctx, rpm_installed_groups rpm) of
        (Some ctx, Some groups) \<Rightarrow>
          let ls = concat (map (group_provenance ctx) (sort_key ig_name groups)) in
          if ls \<noteq> [] then ls @ [[]] else []
      | _ \<Rightarrow> [])"

section \<open>Which packages install\<close>

definition include_changed :: "original_includes \<Rightarrow> package_entry \<Rightarrow> bool" where
  "include_changed original_includes pkg \<longleftrightarrow>
     (case original_includes of
        None \<Rightarrow> False
      | Some orig \<Rightarrow>
          (case orig (pkg_id pkg) of
             None \<Rightarrow> False
           | Some was_included \<Rightarrow> was_included \<noteq> is_included (pe_disposition pkg)))"

definition passes_leaf_filter :: "rpm_section \<Rightarrow> original_includes \<Rightarrow> package_entry \<Rightarrow> bool" where
  "passes_leaf_filter rpm original_includes pkg \<longleftrightarrow>
     (if pe_locked pkg then True
      else if pe_source_repo pkg = ''anaconda'' \<and> is_included (pe_disposition pkg) then True
      else if include_changed original_includes pkg then True
      else (case rpm_leaf_packages rpm of None \<Rightarrow> True | Some leaf_ids \<Rightarrow> pkg_id pkg \<in> set leaf_ids))"

definition installable_packages :: "rpm_section \<Rightarrow> original_includes \<Rightarrow> package_entry list" where
  "installable_packages rpm original_includes =
     filter (passes_leaf_filter rpm original_includes)
       (filter (\<lambda>pkg. pkg_id pkg \<notin> set_of_option (rpm_baseline_suppressed rpm))
         (filter is_package_installable
           (filter (\<lambda>pkg. is_included (pe_disposition pkg)) (rpm_packages_added rpm))))"

definition install_name_for_package :: "package_entry \<Rightarrow> package_entry list \<Rightarrow> string" where
  "install_name_for_package pkg installable =
     (if length (filter (\<lambda>p. pe_name p = pe_name pkg) installable) > 1 \<and> pe_arch pkg \<noteq> []
      then pkg_id pkg else pe_name pkg)"

record install_split =
  is_names :: "string list"
  is_enabling :: "(package_entry \<times> string) list"
  is_demoted :: "(package_entry \<times> serving_loss) list"

definition split_step ::
  "rpm_section \<Rightarrow> string set \<Rightarrow> package_entry list \<Rightarrow> install_split \<Rightarrow> package_entry \<Rightarrow> install_split" where
  "split_step rpm suppressed installable st pkg =
     (if pe_name pkg \<in> suppressed then st
      else let install_name = install_name_for_package pkg installable in
        if sanitize_shell_value install_name = None then st
        else (case repo_enabling_export rpm pkg of
            NotEnabling \<Rightarrow> st\<lparr>is_names := is_names st @ [install_name]\<rparr>
          | Served \<Rightarrow> st\<lparr>is_enabling := is_enabling st @ [(pkg, install_name)]\<rparr>
          | Lost loss \<Rightarrow> st\<lparr>is_demoted := is_demoted st @ [(pkg, loss)]\<rparr>))"

definition install_split_of ::
  "rpm_section \<Rightarrow> original_includes \<Rightarrow> render_context option \<Rightarrow> install_split" where
  "install_split_of rpm original_includes render_ctx =
     (let installable = installable_packages rpm original_includes in
      foldl (split_step rpm (group_member_suppressed rpm render_ctx) installable)
        \<lparr> is_names = [], is_enabling = [], is_demoted = [] \<rparr> installable)"

section \<open>Transactions\<close>

definition enabling_lines ::
  "inspection_snapshot \<Rightarrow> rpm_section \<Rightarrow> install_split \<Rightarrow> crb_flags \<Rightarrow> string list \<times> crb_flags" where
  "enabling_lines snap rpm st crb =
     (if is_enabling st = [] \<and> is_demoted st = [] then ([], crb)
      else
        let told = concat (map (\<lambda>pn. repo_enabling_narration snap rpm (fst pn)) (is_enabling st)) @
              map (\<lambda>(pkg, loss). demotion_fixme pkg loss) (is_demoted st);
            bn = (if is_enabling st \<noteq> [] then crb_banner crb else ([], crb));
            install = (if is_enabling st \<noteq> []
              then fst bn @ dnf_install_lines (sort (map snd (is_enabling st))) (snd bn) else [])
        in (section_lines
              (''Repo-enabling packages ('' @ nat_str (length (is_enabling st) + length (is_demoted st)) @ '')'')
              (told @ install), snd bn))"

definition package_lines :: "install_split \<Rightarrow> crb_flags \<Rightarrow> string list" where
  "package_lines st crb =
     (if is_names st = [] then []
      else let bn = crb_banner crb in
        section_lines (''Packages ('' @ nat_str (length (is_names st)) @ '')'')
          (fst bn @ dnf_install_lines (sort (is_names st)) (snd bn)))"

definition todo_section :: "rpm_section \<Rightarrow> string list" where
  "todo_section rpm =
     (let todo_lines = List.map_filter manual_follow_up_line (rpm_packages_added rpm) in
      if todo_lines \<noteq> [] then [] # section_lines ''Manual Follow-up Required'' todo_lines else [])"

definition version_lock_lines :: "rpm_section \<Rightarrow> string list" where
  "version_lock_lines rpm =
     (let included_locks = filter (\<lambda>vl. is_included (vl_disposition vl)) (rpm_version_locks rpm);
          safe_locks = filter (\<lambda>vl. safe_value (vl_raw_pattern vl)) included_locks;
          unsafe_locks = filter (\<lambda>vl. \<not> safe_value (vl_raw_pattern vl)) included_locks
      in (if safe_locks \<noteq> []
          then section_lines ''Version Locks''
            ((''RUN dnf install -y python3-dnf-plugin-versionlock && '' @ backslash) #
             map (\<lambda>vl. ''    dnf versionlock add '' @ vl_raw_pattern vl @ '' && '' @ backslash) safe_locks @
             [''    dnf clean all''])
          else []) @
         map (\<lambda>vl. ''# FIXME: version lock pattern contains unsafe characters, skipped: '' @
             debug_str (vl_raw_pattern vl)) unsafe_locks @
         (if unsafe_locks \<noteq> [] then [[]] else []))"

definition packages_section_lines ::
  "inspection_snapshot \<Rightarrow> string option \<Rightarrow> original_includes \<Rightarrow> render_context option \<Rightarrow> string list" where
  "packages_section_lines snap base original_includes render_ctx =
     from_lines base @
     (case snap_rpm snap of
        None \<Rightarrow> []
      | Some rpm \<Rightarrow>
          let ml = module_lines rpm (crb_new rpm);
              gl = group_lines rpm render_ctx (snd ml);
              st = install_split_of rpm original_includes render_ctx;
              el = enabling_lines snap rpm st (snd gl)
          in authority_lines rpm @ repo_copy_lines rpm @ gpg_lines rpm @ fst ml @ fst gl @
             provenance_section rpm render_ctx @ fst el @ package_lines st (snd el) @
             todo_section rpm @ version_lock_lines rpm)"

end
