(* ===== verification/PackageFacts.thy ===== *)
theory PackageFacts
  imports PackagesRender VarDirs
begin

text \<open>
  What the two install transactions hold, without the loop: the packages that are selected, split
  by the export of their repository definition.
\<close>

section \<open>The selection\<close>

text \<open>A package the section decides to install, group or not.\<close>

definition selected :: "rpm_section \<Rightarrow> original_includes \<Rightarrow> package_entry \<Rightarrow> bool" where
  "selected rpm original_includes pkg \<longleftrightarrow>
     is_included (pe_disposition pkg) \<and> is_package_installable pkg \<and>
     pkg_id pkg \<notin> set_of_option (rpm_baseline_suppressed rpm) \<and> passes_leaf_filter rpm original_includes pkg"

lemma installable_selected:
  "installable_packages rpm oi = filter (selected rpm oi) (rpm_packages_added rpm)"
  by (auto simp: installable_packages_def selected_def intro!: filter_cong)

definition written_name :: "rpm_section \<Rightarrow> original_includes \<Rightarrow> package_entry \<Rightarrow> string" where
  "written_name rpm oi pkg = install_name_for_package pkg (installable_packages rpm oi)"

definition by_itself :: "rpm_section \<Rightarrow> original_includes \<Rightarrow> render_context option \<Rightarrow> package_entry \<Rightarrow> bool" where
  "by_itself rpm oi render_ctx pkg \<longleftrightarrow>
     selected rpm oi pkg \<and> pe_name pkg \<notin> group_member_suppressed rpm render_ctx \<and>
     \<not> shell_unsafe (written_name rpm oi pkg)"

definition loss_of :: "rpm_section \<Rightarrow> package_entry \<Rightarrow> (package_entry \<times> serving_loss) option" where
  "loss_of rpm pkg = (case repo_enabling_export rpm pkg of Lost loss \<Rightarrow> Some (pkg, loss) | _ \<Rightarrow> None)"

definition split_reference ::
  "rpm_section \<Rightarrow> (package_entry \<Rightarrow> string) \<Rightarrow> package_entry list \<Rightarrow> install_split" where
  "split_reference rpm name_of pkgs =
     \<lparr> is_names = map name_of (filter (\<lambda>p. repo_enabling_export rpm p = NotEnabling) pkgs),
       is_enabling = map (\<lambda>p. (p, name_of p)) (filter (\<lambda>p. repo_enabling_export rpm p = Served) pkgs),
       is_demoted = List.map_filter (loss_of rpm) pkgs \<rparr>"

lemma split_step_skip:
  "pe_name p \<in> hidden \<or> shell_unsafe (install_name_for_package p inst) \<Longrightarrow> split_step rpm hidden inst st p = st"
  by (auto simp: split_step_def sanitize_None Let_def)

lemma split_step_take:
  assumes "pe_name p \<notin> hidden" "\<not> shell_unsafe (install_name_for_package p inst)"
  shows "split_step rpm hidden inst (split_reference rpm (\<lambda>p. install_name_for_package p inst) pkgs) p =
     split_reference rpm (\<lambda>p. install_name_for_package p inst) (pkgs @ [p])"
  using assms
  by (cases "repo_enabling_export rpm p")
    (simp_all add: split_step_def sanitize_None Let_def split_reference_def loss_of_def map_filter_def)

lemma split_fold:
  "foldl (split_step rpm hidden inst) \<lparr> is_names = [], is_enabling = [], is_demoted = [] \<rparr> pkgs =
     split_reference rpm (\<lambda>p. install_name_for_package p inst)
       (filter (\<lambda>p. pe_name p \<notin> hidden \<and> \<not> shell_unsafe (install_name_for_package p inst)) pkgs)"
proof (induction pkgs rule: rev_induct)
  case Nil
  show ?case by (simp add: split_reference_def map_filter_def)
next
  case (snoc p pkgs)
  then show ?case by (auto simp: split_step_skip split_step_take)
qed

lemma install_split_reference:
  "install_split_of rpm oi render_ctx =
     split_reference rpm (written_name rpm oi) (filter (by_itself rpm oi render_ctx) (rpm_packages_added rpm))"
proof -
  have "filter (\<lambda>p. pe_name p \<notin> group_member_suppressed rpm render_ctx \<and>
       \<not> shell_unsafe (install_name_for_package p (installable_packages rpm oi))) (installable_packages rpm oi) =
     filter (by_itself rpm oi render_ctx) (rpm_packages_added rpm)"
    by (subst (2) installable_selected) (auto simp: by_itself_def written_name_def intro!: filter_cong)
  moreover have "written_name rpm oi = (\<lambda>p. install_name_for_package p (installable_packages rpm oi))"
    by (simp add: fun_eq_iff written_name_def)
  ultimately show ?thesis by (simp add: install_split_of_def Let_def split_fold)
qed

section \<open>The evidence of the \<open>/var\<close> directories\<close>

lemma by_itself_installed:
  "by_itself rpm oi ctx pkg \<Longrightarrow> \<not> is_lost (repo_enabling_export rpm pkg) \<Longrightarrow> package_installed rpm pkg"
  by (simp add: by_itself_def selected_def package_installed_def)

section \<open>The written name\<close>

lemma written_name_cases: "written_name rpm oi pkg \<in> {pe_name pkg, pkg_id pkg}"
  by (simp add: written_name_def install_name_for_package_def)

lemma dnf_operands:
  "set (dnf_install_lines names crb) =
     insert (''RUN dnf install -y'' @ crb_flags_text crb @ '' '' @ backslash)
       ((\<lambda>n. ''    '' @ n @ '' '' @ backslash) ` set names \<union> set clean_lines)"
  by (auto simp: dnf_install_lines_def)

section \<open>The CRB flags\<close>

lemma set_repo_set_insert: "set (repo_set_insert i js) \<subseteq> insert i (set js)"
  by (induction js) (auto split: ordering.split)

lemma crb_fold_set:
  "set (foldl (\<lambda>ids sec. if is_crb_section sec then repo_set_insert (rs_id sec) ids else ids) js secs)
     \<subseteq> set js \<union> rs_id ` {sec \<in> set secs. is_crb_section sec}"
proof (induction secs arbitrary: js)
  case (Cons sec secs)
  let ?js = "if is_crb_section sec then repo_set_insert (rs_id sec) js else js"
  have "set ?js \<subseteq> set js \<union> rs_id ` {s \<in> set (sec # secs). is_crb_section s}"
    using set_repo_set_insert [of "rs_id sec" js] by auto
  moreover have "rs_id ` {s \<in> set secs. is_crb_section s} \<subseteq> rs_id ` {s \<in> set (sec # secs). is_crb_section s}"
    by auto
  ultimately have "set ?js \<union> rs_id ` {s \<in> set secs. is_crb_section s} \<subseteq>
      set js \<union> rs_id ` {s \<in> set (sec # secs). is_crb_section s}" by blast
  with Cons.IH [of ?js] show ?case by (simp only: foldl_Cons)
qed simp

lemma crb_ids_section:
  "i \<in> set (crb_ids rpm) \<Longrightarrow>
     \<exists>f \<in> set (rpm_repo_files rpm). is_included (rf_disposition f) \<and>
       (\<exists>sec \<in> set (parse_repo_sections (rf_content f)). is_crb_section sec \<and> rs_id sec = i)"
  using crb_fold_set [of "[]" "concat (map (\<lambda>f. parse_repo_sections (rf_content f))
         (filter (\<lambda>f. is_included (rf_disposition f)) (rpm_repo_files rpm)))"]
  unfolding crb_ids_def by fastforce

lemma crb_safe: "i \<in> set (crb_ids rpm) \<Longrightarrow> \<not> shell_unsafe (repo_id_str i)"
  by (auto dest!: crb_ids_section simp: is_crb_section_def sanitize_None Let_def)

lemma sorted_repo_set_insert:
  "sorted_wrt (\<lambda>i j. repo_id_cmp i j = Less) js \<Longrightarrow> sorted_wrt (\<lambda>i j. repo_id_cmp i j = Less) (repo_set_insert i js)"
proof (induction js)
  case (Cons j js)
  show ?case
  proof (cases "repo_id_cmp i j")
    case Less
    then show ?thesis using Cons.prems by (auto simp: repo_id_cmp_def cmp_of_def split: if_splits)
  next
    case Greater
    have "repo_id_cmp j k = Less" if "k \<in> set (repo_set_insert i js)" for k
      using that set_repo_set_insert [of i js] Cons.prems Greater
      by (auto simp: repo_id_cmp_def cmp_of_def split: if_splits)
    then show ?thesis using Cons Greater by simp
  qed (use Cons.prems in simp)
qed simp

lemma sorted_crb_ids: "sorted_wrt (\<lambda>i j. repo_id_cmp i j = Less) (crb_ids rpm)"
proof -
  have "sorted_wrt (\<lambda>i j. repo_id_cmp i j = Less)
      (foldl (\<lambda>ids sec. if is_crb_section sec then repo_set_insert (rs_id sec) ids else ids) js secs)"
    if "sorted_wrt (\<lambda>i j. repo_id_cmp i j = Less) js" for js secs
    using that by (induction secs arbitrary: js) (auto intro: sorted_repo_set_insert)
  then show ?thesis by (simp add: crb_ids_def)
qed

end
