(* ===== verification/ExportProperties.thy ===== *)
theory ExportProperties
  imports ServiceFacts ProvisionFacts Repoless PackageFacts
begin

text \<open>
  The properties of the export: the services it enables, the directories it makes, the RPM files
  and the packages it installs.
\<close>

section \<open>Services\<close>


lemma set_map_filter: "y \<in> set (List.map_filter f xs) \<longleftrightarrow> (\<exists>x \<in> set xs. f x = Some y)"
  by (force simp: map_filter_def)

lemma omit_iff:
  "presence_of snap rpm sc = Omit pkg \<longleftrightarrow>
     snap_aggregate_meta snap = None \<and> ssc_owning_package sc = Some pkg \<and>
     pkg \<notin> pe_name ` set (rpm_packages_added rpm) \<and>
     (\<exists>base. rpm_baseline_package_names rpm = Some base \<and> pkg \<notin> set base)"
  by (auto simp: presence_of_def classify_service_presence_def effective_target_packages_def set_of_option_def
      Let_def filter_empty_conv image_iff split: option.splits if_splits)

text \<open>C17. A service is left out of the image only on proof. The plan omits a unit exactly when the snapshot
  is of a single host, the operator included the change, the unit name is safe, its owning package
  is known, no added package has that name (included or not), and the base package set is known and
  does not hold it either. Whatever is uncertain is emitted.
\<close>

theorem service_omitted_on_proof:
  "x \<in> set (srp_omissions (render_service_intent snap)) \<longleftrightarrow>
     (\<exists>services rpm base sc pkg.
        snap_services snap = Some services \<and> snap_rpm snap = Some rpm \<and> snap_aggregate_meta snap = None \<and>
        sc \<in> set (svc_state_changes services) \<and> is_included (ssc_disposition sc) \<and>
        \<not> shell_unsafe (ssc_unit sc) \<and> ssc_owning_package sc = Some pkg \<and>
        pkg \<notin> pe_name ` set (rpm_packages_added rpm) \<and>
        rpm_baseline_package_names rpm = Some base \<and> pkg \<notin> set base \<and>
        x = \<lparr> so_unit = ssc_unit sc, so_owning_package = pkg \<rparr>)"
proof (cases "snap_services snap")
  case None
  then show ?thesis by (simp add: render_service_intent_def empty_plan_def)
next
  case (Some services)
  have omitted: "omission_of (presence_in snap) sc = Some x \<longleftrightarrow>
      (\<exists>rpm pkg. snap_rpm snap = Some rpm \<and> presence_of snap rpm sc = Omit pkg \<and>
        x = \<lparr> so_unit = ssc_unit sc, so_owning_package = pkg \<rparr>)" for sc
    by (auto simp: omission_of_def omitted_package_def presence_in_def split: option.splits presence_decision.splits)
  show ?thesis
    unfolding render_is_reference [OF Some] reference_plan_def Let_def reference_loop_def
    using Some by (auto simp: set_map_filter omitted omit_iff presentable_def)
qed

section \<open>Directories under \<open>/var\<close>\<close>

text \<open>C23. A directory counts as made by the image only on proof. For every directory of the storage
  section, in order, the outcome is \<open>Carried\<close> exactly when its creator reaches the image: a
  \<open>tmpfiles.d\<close> fragment of \<open>/etc\<close> whose last config entry is included, a fragment of \<open>/usr\<close> whose first
  recorded owner is carried, a unit file directly in a system unit directory that the operator's
  decision or its package carries, or a carried package. A package is carried when the export
  installs it or the known base set holds it. A fragment under \<open>/run\<close> proves nothing.
\<close>

theorem var_dir_carried_on_proof:
  "map (\<lambda>x. (vo_path x, vo_outcome x = BackingCarried)) (effective_var_backing snap) =
     (case snap_storage snap of
        None \<Rightarrow> []
      | Some storage \<Rightarrow> map (\<lambda>d. (vd_path d, creator_carried snap (vd_backing d))) (sto_var_directories storage))"
  by (simp add: effective_var_backing_def backing_carried split: option.split)

lemma zip_blocks:
  assumes "snap_storage snap = Some storage" "x \<in> set (zip (sto_var_directories storage) (effective_var_backing snap))"
  shows "fst x \<in> set (sto_var_directories storage) \<and>
     snd x = \<lparr> vo_path = vd_path (fst x), vo_source = vd_backing (fst x),
       vo_outcome = classify_backing (evidence_from_snapshot snap) (vd_backing (fst x)) \<rparr>"
proof -
  have "x \<in> (\<lambda>d. (d, \<lparr> vo_path = vd_path d, vo_source = vd_backing d,
       vo_outcome = classify_backing (evidence_from_snapshot snap) (vd_backing d) \<rparr>)) ` set (sto_var_directories storage)"
    using assms by (simp add: effective_var_backing_def zip_map2 zip_same_conv_map)
  then show ?thesis by auto
qed

definition var_ids_ok :: "inspection_snapshot \<Rightarrow> bool" where
  "var_ids_ok snap \<longleftrightarrow>
     (case snap_storage snap of None \<Rightarrow> True | Some storage \<Rightarrow> list_all owner_ids_ok (sto_var_directories storage))"

lemma map_panics_total: "(\<And>x. x \<in> set xs \<Longrightarrow> f x \<noteq> None) \<Longrightarrow> map_panics f xs = Some (map (the \<circ> f) xs)"
  by (simp add: map_panics_Some_iff)

lemma var_dirs_of:
  assumes "snap_storage snap = Some storage" "var_ids_ok snap"
    and "x \<in> set (zip (sto_var_directories storage) (effective_var_backing snap))"
  shows "owner_ids_ok (fst x)"
  using zip_blocks [OF assms(1,3)] assms(1,2) by (auto simp: var_ids_ok_def list_all_iff)

definition var_directories_of :: "inspection_snapshot \<Rightarrow> var_directory list" where
  "var_directories_of snap =
     (case snap_storage snap of None \<Rightarrow> [] | Some storage \<Rightarrow> sto_var_directories storage)"

lemma tmpfiles_lines_total:
  assumes "var_ids_ok snap"
  shows "\<exists>ls. tmpfiles_lines snap = Some ls \<and> (\<forall>l \<in> set ls. inert l \<or> (\<exists>d \<in> set (var_directories_of snap). dir_record d l))"
proof (cases "snap_storage snap")
  case None
  then show ?thesis by (simp add: tmpfiles_lines_def)
next
  case (Some storage)
  let ?zs = "zip (sto_var_directories storage) (effective_var_backing snap)"
  have total: "tmpfiles_block snap x \<noteq> None" if "x \<in> set ?zs" for x
    using var_dirs_of [OF Some assms that] tmpfiles_block_total [of "fst x" snap "snd x"] by simp
  have "inert l \<or> (\<exists>d \<in> set (var_directories_of snap). dir_record d l)"
    if x: "x \<in> set ?zs" and l: "l \<in> set (the (tmpfiles_block snap x))" for x l
  proof -
    obtain ls where "tmpfiles_block snap (fst x, snd x) = Some ls" using total [OF x] by auto
    then have "inert l \<or> dir_record (fst x) l" using tmpfiles_block_lines l by fastforce
    then show ?thesis using zip_blocks [OF Some x] Some by (auto simp: var_directories_of_def)
  qed
  then show ?thesis using Some map_panics_total [of ?zs "tmpfiles_block snap"] total
    by (auto simp: tmpfiles_lines_def)
qed

lemma var_section_total:
  assumes "var_ids_ok snap"
  shows "\<exists>ls. var_dir_section_lines snap staged = Some ls \<and>
     (\<forall>l \<in> set ls. inert l \<or> l \<in> set tmpfiles_copy_lines \<or> (\<exists>d \<in> set (var_directories_of snap). mkdir_for d l))"
proof (cases "snap_storage snap")
  case None
  then show ?thesis by (simp add: var_dir_section_lines_def)
next
  case (Some storage)
  let ?zs = "zip (sto_var_directories storage) (effective_var_backing snap)"
  have total: "var_dir_block snap x \<noteq> None" if "x \<in> set ?zs" for x
    using var_dirs_of [OF Some assms that] var_dir_block_total [of "fst x" snap "snd x"] by simp
  have "inert l \<or> (\<exists>d \<in> set (var_directories_of snap). mkdir_for d l)"
    if x: "x \<in> set ?zs" and l: "l \<in> set (the (var_dir_block snap x))" for x l
  proof -
    obtain ls where "var_dir_block snap (fst x, snd x) = Some ls" using total [OF x] by auto
    then have "inert l \<or> mkdir_for (fst x) l" using var_dir_block_lines l by fastforce
    then show ?thesis using zip_blocks [OF Some x] Some by (auto simp: var_directories_of_def)
  qed
  moreover have "inert (''# === '' @ ''/var directory provisioning'' @ '' ==='')" by (simp add: line_simps)
  ultimately show ?thesis using Some map_panics_total [of ?zs "var_dir_block snap"] total
    by (auto simp: var_dir_section_lines_def set_section_lines line_simps)
qed


definition hostile_dir :: var_directory where
  "hostile_dir = \<lparr> vd_path = ''/var/lib/app'', vd_backing = None, vd_mode = Some ''0750'',
     vd_owner_name = Some (''app'' @ [nl] @ ''R /''), vd_group_name = Some ''app'', vd_owner_uid = Some 1001,
     vd_owner_gid = Some 1001 \<rparr>"

definition bare_storage :: "var_directory list \<Rightarrow> storage_section" where
  "bare_storage ds = \<lparr> sto_fstab_entries = [], sto_mount_points = [], sto_lvm_info = [],
     sto_var_directories = ds, sto_credential_refs = [], sto_unbacked_var_advisory = None \<rparr>"

definition var_snap :: "var_directory list \<Rightarrow> inspection_snapshot" where
  "var_snap ds = snapshot_new\<lparr>snap_storage := Some (bare_storage ds)\<rparr>"


lemma block_of:
  assumes "map_panics f xs = Some ys" "x \<in> set xs"
  shows "\<exists>y. f x = Some y \<and> set y \<subseteq> set (concat ys)"
proof -
  from assms have "f x \<noteq> None" "the (f x) \<in> set ys" by (auto simp: map_panics_Some_iff)
  then show ?thesis by auto
qed

lemma section_lines_body: "set body \<subseteq> set (section_lines h body)"
  by (auto simp: section_lines_def)

text \<open>C19. No directory the image needs is forgotten. Take any directory at an index of the storage section
  whose outcome is \<open>Provision\<close>, with the two files produced. Then the \<open>tmpfiles.d\<close> file has its \<open>d\<close>
  record, or the Containerfile section has its \<open>RUN mkdir -p\<close>, or one of them has the instruction to
  create it by hand.
\<close>

theorem provisioned_never_dropped:
  assumes "snap_storage snap = Some storage" "i < length (sto_var_directories storage)"
    and "vo_outcome (effective_var_backing snap ! i) = Provision lost"
    and "tmpfiles_lines snap = Some conf" "var_dir_section_lines snap staged = Some body"
  shows "\<exists>l \<in> set (conf @ body).
     dir_record (sto_var_directories storage ! i) l \<or> mkdir_for (sto_var_directories storage ! i) l \<or>
     by_hand (sto_var_directories storage ! i) l"
proof -
  let ?zs = "zip (sto_var_directories storage) (effective_var_backing snap)"
  let ?d = "sto_var_directories storage ! i" and ?v = "effective_var_backing snap ! i"
  have z: "(?d, ?v) \<in> set ?zs"
    using assms(1,2) by (auto simp: set_zip effective_var_backing_def)
  obtain blocks where blocks: "map_panics (tmpfiles_block snap) ?zs = Some blocks" "conf = concat blocks"
    using assms(1,4) by (auto simp: tmpfiles_lines_def)
  obtain blocks' where blocks': "map_panics (var_dir_block snap) ?zs = Some blocks'"
      "set (concat blocks') \<subseteq> set body"
    using assms(1,5) section_lines_body [of "(if staged then tmpfiles_copy_lines else []) @ concat _"]
    by (auto simp only: var_dir_section_lines_def option.case map_option_eq_Some set_append)
  obtain ts where ts: "tmpfiles_block snap (?d, ?v) = Some ts" "set ts \<subseteq> set conf"
    using block_of [OF blocks(1) z] blocks(2) by auto
  obtain bs where bs: "var_dir_block snap (?d, ?v) = Some bs" "set bs \<subseteq> set body"
    using block_of [OF blocks'(1) z] blocks'(2) by auto
  from provision_covered [OF ts(1) bs(1) assms(3)] ts(2) bs(2) show ?thesis by auto
qed


theorem provisioned_never_dropped_witness:
  "\<exists>conf body. tmpfiles_lines (var_snap [hostile_dir]) = Some conf \<and>
     var_dir_section_lines (var_snap [hostile_dir]) True = Some body \<and>
     (\<exists>l \<in> set (conf @ body). dir_record hostile_dir l \<or> mkdir_for hostile_dir l \<or> by_hand hostile_dir l)"
proof -
  let ?snap = "var_snap [hostile_dir]"
  have s: "snap_storage ?snap = Some (bare_storage [hostile_dir])" "0 < length (sto_var_directories (bare_storage [hostile_dir]))"
    by (simp_all add: var_snap_def bare_storage_def)
  have p: "vo_outcome (effective_var_backing ?snap ! 0) = Provision None"
    by (simp add: effective_var_backing_def var_snap_def bare_storage_def hostile_dir_def)
  have "var_ids_ok ?snap"
    by (simp add: var_ids_ok_def var_snap_def bare_storage_def hostile_dir_def owner_ids_ok_def)
  then obtain conf body where "tmpfiles_lines ?snap = Some conf" "var_dir_section_lines ?snap True = Some body"
    using tmpfiles_lines_total var_section_total by metis
  then show ?thesis
    using provisioned_never_dropped [OF s p] by (simp add: bare_storage_def)
qed

section \<open>RPM files and packages\<close>

text \<open>The verified uploads hold what the export proves before it renders.\<close>

definition uploads_ok :: "render_context option \<Rightarrow> bool" where
  "uploads_ok render_ctx \<longleftrightarrow>
     (\<forall>k u. verified_of render_ctx k = Some u \<longrightarrow>
        safe_name (as_str (vu_basename u)) \<and> pred_option one_line (vu_uploaded_version u))"

lemma safe_name_one_line: "safe_name n \<Longrightarrow> one_line n"
  by (rule one_line_path_bytes) (auto simp: safe_name_def list_all_iff name_byte_path_byte)

lemma cached_lines_kinds:
  assumes "l \<in> set (cached_lines pkg)"
  shows "inert l \<or> (is_included (pe_disposition pkg) \<and> safe_name (nevra_filename pkg) \<and>
     l \<in> set (install_lines (StagedName (nevra_filename pkg)) Active))"
proof (cases "staged_name_parse (nevra_filename pkg)")
  case (Inl e)
  then show ?thesis using assms by (auto simp: cached_lines_def comment_id_def line_simps)
next
  case (Inr name)
  then have name: "name = StagedName (nevra_filename pkg)" "safe_name (nevra_filename pkg)"
    using staged_name_safe [OF Inr] by (cases name, simp_all)
  have p: "one_line ''cached RPM''" by (simp add: line_simps)
  show ?thesis
    using assms Inr name inert_provenance [OF p] inert_commented [of name l] safe_name_one_line [OF name(2)]
    by (auto simp: cached_lines_def line_simps split: if_splits)
qed

definition upload_install :: "render_context option \<Rightarrow> package_entry \<Rightarrow> string \<Rightarrow> bool" where
  "upload_install render_ctx pkg l \<longleftrightarrow>
     (\<exists>u. verified_of render_ctx (pe_name pkg @ ''.'' @ pe_arch pkg) = Some u \<and>
        l \<in> set (install_lines (vu_basename u) Active))"

definition cached_install :: "package_entry \<Rightarrow> string \<Rightarrow> bool" where
  "cached_install pkg l \<longleftrightarrow>
     is_included (pe_disposition pkg) \<and> pe_repoless_cached pkg \<and> \<not> pe_uploaded pkg \<and>
     safe_name (nevra_filename pkg) \<and> l \<in> set (install_lines (StagedName (nevra_filename pkg)) Active)"

lemma repoless_block_kinds:
  assumes "uploads_ok render_ctx" "l \<in> set (repoless_block (verified_of render_ctx) pkg)"
  shows "inert l \<or> upload_install render_ctx pkg l \<or> cached_install pkg l"
proof (cases "verified_of render_ctx (pe_name pkg @ ''.'' @ pe_arch pkg)")
  case (Some u)
  have p: "one_line ''uploaded RPM''" by (simp add: line_simps)
  from assms(1) Some have "pred_option one_line (vu_uploaded_version u)" by (auto simp: uploads_ok_def)
  then show ?thesis
    using assms(2) Some inert_provenance [OF p]
    by (cases "vu_uploaded_version u")
      (auto simp: repoless_block_def uploaded_lines_def upload_install_def line_simps)
next
  case None
  then show ?thesis
    using assms(2) cached_lines_kinds inert_manual
    by (fastforce simp: repoless_block_def cached_install_def comment_id_def line_simps split: if_splits)
qed

text \<open>C21. A build never runs an install of an RPM file nothing proved. Let the verified uploads of the
  context hold safe basenames and one-line versions. Then every line of the section of packages
  without a repository is one line that is empty or a comment, or it belongs to the active block of
  a package of the snapshot: of its verified upload, or of its cached file, and the latter only when
  the package is included, claims no upload, and the file name its fields spell passes the
  allowlist. What the scanned host writes in name, version, release or architecture cannot start an
  instruction.
\<close>

theorem repoless_install_proved:
  assumes "uploads_ok render_ctx" "l \<in> set (repoless_rpm_lines snap render_ctx)"
  shows "inert l \<or>
     (\<exists>rpm pkg. snap_rpm snap = Some rpm \<and> pkg \<in> set (rpm_packages_added rpm) \<and>
        pe_repoless_annotation pkg \<noteq> [] \<and> (upload_install render_ctx pkg l \<or> cached_install pkg l))"
proof (cases "snap_rpm snap")
  case (Some rpm)
  have "inert []" "inert ''# === Repo-less RPM packages ===''" by (simp_all add: line_simps)
  then show ?thesis
    using assms(2) Some repoless_block_kinds [OF assms(1)]
    by (auto simp: repoless_rpm_lines_def Let_def split: if_splits)
qed (use assms in \<open>simp add: repoless_rpm_lines_def\<close>)

definition cached_package :: package_entry where
  "cached_package = \<lparr> pe_name = ''a'', pe_epoch = ''0'', pe_version = ''1'', pe_release = ''1'',
     pe_arch = ''noarch'', pe_state = PkgLocalInstall, pe_disposition = Actionable True, pe_locked = False,
     pe_acknowledged = False, pe_source_repo = [], pe_repo_attribution = Unrecorded,
     pe_repo_enabling_from = [], pe_repoless_annotation = ''orphaned'', pe_repoless_cached = True,
     pe_uploaded = False, pe_cache_path = None, pe_uploaded_version = None, pe_aggregate = None \<rparr>"

definition cached_rpm :: rpm_section where
  "cached_rpm = \<lparr> rpm_packages_added = [cached_package], rpm_base_image_only = [], rpm_rpm_va = [],
     rpm_repo_files = [], rpm_gpg_keys = [], rpm_dnf_history_removed = [], rpm_version_changes = [],
     rpm_leaf_packages = None, rpm_auto_packages = None, rpm_leaf_dep_tree = JNull,
     rpm_module_streams = [], rpm_version_locks = [], rpm_module_stream_conflicts = [],
     rpm_baseline_module_streams = None, rpm_versionlock_command_output = None,
     rpm_multiarch_packages = [], rpm_duplicate_packages = [], rpm_ostree_overrides = [],
     rpm_ostree_removals = [], rpm_base_image = None, rpm_baseline_suppressed = None,
     rpm_baseline_package_names = None, rpm_leaf_authority_hosts = None, rpm_leaf_total_hosts = None,
     rpm_file_ownership = [], rpm_installed_groups = None \<rparr>"

lemma cached_block:
  "repoless_block Map.empty cached_package = provenance_lines cached_package ''cached RPM'' @
     ''# It was found in the local dnf cache. Updates must be managed manually.'' #
     install_lines (StagedName ''a-1-1.noarch.rpm'') Active"
  by code_simp

theorem repoless_install_proved_witness:
  "inert ''COPY repoless-packages/a-1-1.noarch.rpm /tmp/'' \<or>
     (\<exists>rpm pkg. snap_rpm (snapshot_new\<lparr>snap_rpm := Some cached_rpm\<rparr>) = Some rpm \<and>
        pkg \<in> set (rpm_packages_added rpm) \<and> pe_repoless_annotation pkg \<noteq> [] \<and>
        (upload_install None pkg ''COPY repoless-packages/a-1-1.noarch.rpm /tmp/'' \<or>
         cached_install pkg ''COPY repoless-packages/a-1-1.noarch.rpm /tmp/''))"
proof (rule repoless_install_proved [where render_ctx = None])
  show "uploads_ok None" by (simp add: uploads_ok_def verified_of_def)
  have "pe_repoless_annotation cached_package \<noteq> []" by (simp add: cached_package_def)
  then show "''COPY repoless-packages/a-1-1.noarch.rpm /tmp/''
      \<in> set (repoless_rpm_lines (snapshot_new\<lparr>snap_rpm := Some cached_rpm\<rparr>) None)"
    by (simp add: repoless_rpm_lines_def cached_rpm_def verified_of_def cached_block install_lines_def Let_def)
qed


end
