(* ===== verification/UserRender.thy ===== *)
theory UserRender
  imports RenderLines
begin

text \<open>
  The renderers of users and groups (\<open>crates/pipeline/src/render/users.rs\<close>): the kickstart, the
  blueprint and the Containerfile fragment. A user is the JSON object of the snapshot. The number
  \<open>v.as_f64() as u32\<close> of a literal is a parameter of the definitions (\<open>u32_of\<close>): \<open>serde_json\<close> reads the
  literal as a float, which the cast brings into the range of 32 bits.
\<close>

section \<open>Fields\<close>

fun json_num_u32 :: "(string \<Rightarrow> nat) \<Rightarrow> json \<Rightarrow> nat" where
  "json_num_u32 u32_of (JNum literal) = u32_of literal"
| "json_num_u32 u32_of _ = 0"

definition uid_field :: "(string \<Rightarrow> nat) \<Rightarrow> json \<Rightarrow> string \<Rightarrow> nat" where
  "uid_field u32_of v key = (case json_get key v of None \<Rightarrow> 0 | Some x \<Rightarrow> json_num_u32 u32_of x)"

definition string_array :: "json \<Rightarrow> string \<Rightarrow> string list" where
  "string_array v key =
     (case Option.bind (json_get key v) json_as_array of
        None \<Rightarrow> []
      | Some arr \<Rightarrow> List.map_filter json_as_str arr)"

definition supp_groups :: "json \<Rightarrow> string list" where
  "supp_groups v = string_array v ''supplementary_groups''"

definition ssh_keys :: "json \<Rightarrow> string list" where
  "ssh_keys v = string_array v ''ssh_keys''"

definition custom_groups :: "inspection_snapshot \<Rightarrow> json list" where
  "custom_groups snap =
     (case snap_users_groups snap of
        None \<Rightarrow> []
      | Some ug \<Rightarrow> filter (\<lambda>g. str_field g ''source'' = ''custom'' \<and> included_account g) (ug_groups ug))"

definition included_users :: "inspection_snapshot \<Rightarrow> json list" where
  "included_users snap =
     (case snap_users_groups snap of None \<Rightarrow> [] | Some ug \<Rightarrow> filter included_account (ug_users ug))"

definition named :: "json list \<Rightarrow> json list" where
  "named vs = filter (\<lambda>v. str_field v ''name'' \<noteq> []) vs"

definition opt :: "bool \<Rightarrow> string \<Rightarrow> string" where
  "opt b s = (if b then s else [])"

definition dquote :: "string \<Rightarrow> string" where
  "dquote s = [CHR 0x22] @ s @ [CHR 0x22]"

section \<open>Kickstart\<close>

definition kickstart_group :: "(string \<Rightarrow> nat) \<Rightarrow> json \<Rightarrow> string" where
  "kickstart_group u32_of g =
     (let name = str_field g ''name''; gid = uid_field u32_of g ''gid'' in
      ''group --name='' @ name @ opt (gid > 0) ('' --gid='' @ nat_str gid))"

definition kickstart_user :: "(string \<Rightarrow> nat) \<Rightarrow> json \<Rightarrow> string list" where
  "kickstart_user u32_of u =
     (let name = str_field u ''name''; uid = uid_field u32_of u ''uid''; gid = uid_field u32_of u ''gid'';
          groups_list = supp_groups u; shell = str_field u ''shell''; home = str_field u ''home'';
          pw = str_field u ''password_hash''
      in (''user --name='' @ name @
          opt (uid > 0) ('' --uid='' @ nat_str uid) @
          opt (gid > 0) ('' --gid='' @ nat_str gid) @
          opt (shell \<noteq> []) ('' --shell='' @ shell) @
          opt (home \<noteq> []) ('' --homedir='' @ home) @
          opt (groups_list \<noteq> []) ('' --groups='' @ str_join '','' groups_list) @
          opt (pw \<noteq> []) ('' --iscrypted --password='' @ pw)) #
         map (\<lambda>key. ''sshkey --username='' @ name @ '' '' @ dquote key) (ssh_keys u))"

definition users_kickstart :: "(string \<Rightarrow> nat) \<Rightarrow> inspection_snapshot \<Rightarrow> string" where
  "users_kickstart u32_of snap =
     (if custom_groups snap = [] \<and> included_users snap = [] then []
      else str_join [nl]
        (map (kickstart_group u32_of) (named (custom_groups snap)) @
         concat (map (kickstart_user u32_of) (named (included_users snap)))))"

section \<open>Blueprint\<close>

definition opt_line :: "bool \<Rightarrow> string \<Rightarrow> string list" where
  "opt_line b s = (if b then [s] else [])"

definition blueprint_group :: "(string \<Rightarrow> nat) \<Rightarrow> json \<Rightarrow> string list" where
  "blueprint_group u32_of g =
     (let gid = uid_field u32_of g ''gid'' in
      [''[[customizations.group]]'', ''name = '' @ dquote (str_field g ''name'')] @
      opt_line (gid > 0) (''gid = '' @ nat_str gid) @ [[]])"

definition blueprint_user :: "(string \<Rightarrow> nat) \<Rightarrow> json \<Rightarrow> string list" where
  "blueprint_user u32_of u =
     (let uid = uid_field u32_of u ''uid''; gid = uid_field u32_of u ''gid'';
          groups_list = supp_groups u; home = str_field u ''home''; shell = str_field u ''shell'';
          pw = str_field u ''password_hash''; keys = ssh_keys u
      in [''[[customizations.user]]'', ''name = '' @ dquote (str_field u ''name'')] @
         opt_line (uid > 0) (''uid = '' @ nat_str uid) @
         opt_line (gid > 0) (''gid = '' @ nat_str gid) @
         opt_line (home \<noteq> []) (''home = '' @ dquote home) @
         opt_line (shell \<noteq> []) (''shell = '' @ dquote shell) @
         opt_line (groups_list \<noteq> []) (''groups = ['' @ str_join '', '' (map dquote groups_list) @ '']'') @
         opt_line (pw \<noteq> []) (''password = '' @ dquote pw) @
         (case keys of
            [] \<Rightarrow> []
          | first_key # others \<Rightarrow>
              [''key = '' @ dquote first_key] @
              opt_line (others \<noteq> []) (''# NOTE: '' @ nat_str (length keys - 1) @
                '' additional SSH key(s) cannot be expressed in blueprint TOML (single key only)'')) @
         [[]])"

definition render_blueprint_toml :: "(string \<Rightarrow> nat) \<Rightarrow> inspection_snapshot \<Rightarrow> string" where
  "render_blueprint_toml u32_of snap =
     (if custom_groups snap = [] \<and> included_users snap = [] then []
      else str_join [nl]
        (concat (map (blueprint_group u32_of) (named (custom_groups snap))) @
         concat (map (blueprint_user u32_of) (named (included_users snap)))))"

section \<open>Containerfile\<close>

definition useradd_users :: "inspection_snapshot \<Rightarrow> json list" where
  "useradd_users snap =
     filter (\<lambda>u. str_field u ''containerfile_strategy'' = ''useradd'') (included_users snap)"

definition safe_name_field :: "json \<Rightarrow> bool" where
  "safe_name_field v \<longleftrightarrow> sanitize_shell_value (str_field v ''name'') \<noteq> None"

definition needed_group :: "(string \<Rightarrow> nat) \<Rightarrow> json list \<Rightarrow> json \<Rightarrow> bool" where
  "needed_group u32_of users g \<longleftrightarrow>
     (let gid = uid_field u32_of g ''gid'' in
      gid > 0 \<and> list_ex (\<lambda>u. uid_field u32_of u ''gid'' = gid) users \<or>
      list_ex (\<lambda>u. str_field g ''name'' \<in> set (supp_groups u)) users)"

definition groupadd_line :: "(string \<Rightarrow> nat) \<Rightarrow> json \<Rightarrow> string" where
  "groupadd_line u32_of g =
     (let gid = uid_field u32_of g ''gid'' in
      ''RUN groupadd '' @ opt (gid > 0) (''-g '' @ nat_str gid @ '' '') @ str_field g ''name'')"

definition useradd_line :: "(string \<Rightarrow> nat) \<Rightarrow> json \<Rightarrow> string" where
  "useradd_line u32_of u =
     (let uid = uid_field u32_of u ''uid''; gid = uid_field u32_of u ''gid'';
          groups_list = supp_groups u; home = str_field u ''home''; shell = str_field u ''shell''
      in ''RUN useradd -m'' @ opt (uid > 0) ('' -u '' @ nat_str uid) @ opt (gid > 0) ('' -g '' @ nat_str gid) @
         opt (groups_list \<noteq> []) ('' -G '' @ str_join '','' groups_list) @
         opt (shell \<noteq> []) ('' -s '' @ shell) @ opt (home \<noteq> []) ('' -d '' @ home) @ '' '' @ str_field u ''name'')"

definition chpasswd_lines :: "json list \<Rightarrow> string list" where
  "chpasswd_lines users =
     (let pw_users = filter (\<lambda>u. str_field u ''password_hash'' \<noteq> []) users;
          entries = map (\<lambda>u. str_field u ''name'' @ '':'' @ str_field u ''password_hash'')
            (filter safe_name_field pw_users)
      in if pw_users = [] then []
         else [''# WARNING: Embedding password hashes in a Containerfile is a security risk.'',
               ''# Consider using a secrets manager or deploy-time provisioning instead.''] @
           opt_line (entries \<noteq> [])
             (''RUN echo '' @ [CHR 0x27] @ str_join [CHR 0x5C, CHR ''n''] entries @ [CHR 0x27] @ '' | chpasswd -e''))"

definition ssh_key_lines :: "(string \<Rightarrow> nat) \<Rightarrow> json \<Rightarrow> string list" where
  "ssh_key_lines u32_of u =
     (let name = str_field u ''name''; uid = uid_field u32_of u ''uid''; gid = uid_field u32_of u ''gid'';
          home = (if str_field u ''home'' = [] then ''/home/'' @ name else str_field u ''home'');
          ownership = name @ '':'' @ nat_str (if gid > 0 then gid else uid)
      in [''RUN install -d -m 700 -o '' @ name @ '' -g '' @ nat_str gid @ '' '' @ home @ ''/.ssh'',
          ''COPY users/home/'' @ name @ ''/.ssh/authorized_keys '' @ home @ ''/.ssh/authorized_keys'',
          ''RUN chown '' @ ownership @ '' '' @ home @ ''/.ssh/authorized_keys && chmod 600 '' @ home @
            ''/.ssh/authorized_keys''])"

definition users_body :: "(string \<Rightarrow> nat) \<Rightarrow> inspection_snapshot \<Rightarrow> string list" where
  "users_body u32_of snap =
     (let users = useradd_users snap in
      map (groupadd_line u32_of)
        (filter (\<lambda>g. str_field g ''name'' \<noteq> [] \<and> safe_name_field g \<and> needed_group u32_of users g)
          (custom_groups snap)) @
      map (useradd_line u32_of) (filter (\<lambda>u. str_field u ''name'' \<noteq> [] \<and> safe_name_field u) users) @
      chpasswd_lines users @
      concat (map (ssh_key_lines u32_of) (filter (\<lambda>u. ssh_keys u \<noteq> [] \<and> safe_name_field u) users)))"

definition render_containerfile_users :: "(string \<Rightarrow> nat) \<Rightarrow> inspection_snapshot \<Rightarrow> string list" where
  "render_containerfile_users u32_of snap =
     (if useradd_users snap = [] then [] else section_lines ''Users and Groups'' (users_body u32_of snap))"

text \<open>The files \<open>stage_ssh_keys\<close> writes, in order, with their contents; the writes themselves are I/O.\<close>

definition staged_key_files :: "inspection_snapshot \<Rightarrow> (string \<times> string) list" where
  "staged_key_files snap =
     map (\<lambda>u. (''users/home/'' @ str_field u ''name'' @ ''/.ssh/authorized_keys'',
         str_join [nl] (ssh_keys u) @ [nl]))
       (filter (\<lambda>u. ssh_keys u \<noteq> []) (named (included_users snap)))"

section \<open>Facts\<close>

text \<open>Every \<open>COPY\<close> of keys names a file that is staged, unless the name is empty.\<close>

lemma copied_keys_staged:
  assumes "u \<in> set (useradd_users snap)" "ssh_keys u \<noteq> []" "str_field u ''name'' \<noteq> []"
  shows "\<exists>content. (''users/home/'' @ str_field u ''name'' @ ''/.ssh/authorized_keys'', content) \<in> set (staged_key_files snap)"
  using assms by (auto simp: staged_key_files_def useradd_users_def named_def)

end
