(* ===== verification/ExportFindings.thy ===== *)
theory ExportFindings
  imports PackageFacts Repoless UserRender
begin

text \<open>
  Runs of the renderers where a value of the scanned host reaches an active line although the
  renderers mean to write only what they checked: a comment that a line feed ends, and operands
  nothing checks.
\<close>

section \<open>Comments a line feed ends\<close>

definition hostile_key :: repo_file where
  "hostile_key = \<lparr> rf_path = ''/k'' @ [nl] @ ''RUN id'', rf_content = [], rf_is_default_repo = False,
     rf_disposition = fk_included, rf_locked = False, rf_aggregate = None \<rparr>"

text \<open>\<open>html_escape\<close> keeps the line feed of the path it was refused for.\<close>

lemma gpg_key_comment_breaks:
  "gpg_body [hostile_key] =
     [''# FIXME: copy this GPG key in by hand, or exclude it, then rebuild; its path is unsafe for the shell: /k'' @
      [nl] @ ''RUN id'']"
  by code_simp

lemma html_escape_line_feed: "html_escape (a @ nl # b) = html_escape a @ nl # html_escape b"
  by (simp add: html_escape_def html_char_def)

text \<open>The owning package of an omitted service is written as it is.\<close>

lemma omission_comment_breaks:
  assumes "ssc_unit sc = ''a.service''" "presence sc = Omit (''p'' @ [nl] @ ''RUN id #'')"
  shows "sl_comments (service_step presence ct service_loop_start sc) =
     [''# Omitted: a.service (package '' @ [CHR 0x27] @ ''p'' @ [nl] @ ''RUN id #'' @ [CHR 0x27] @
      '' not in target image)'']"
proof -
  have "sanitize_shell_value ''a.service'' = Some ''a.service''" by code_simp
  with assms show ?thesis
    by (simp add: service_step_def service_loop_start_def omission_comment_def quote1_def)
qed

section \<open>Operands nothing checks\<close>

definition hostile_user :: json where
  "hostile_user = JObj [(''name'', JStr ''u''), (''password_hash'', JStr ([CHR 0x27] @ '';id;'' @ [CHR 0x27])),
     (''shell'', JStr ''/bin/sh;id'')]"

lemma useradd_operands_unchecked:
  "useradd_line (\<lambda>_. 0) hostile_user = ''RUN useradd -m -s /bin/sh;id u'' \<and>
   chpasswd_lines [hostile_user] ! 2 =
     ''RUN echo '' @ [CHR 0x27] @ ''u:'' @ [CHR 0x27] @ '';id;'' @ [CHR 0x27, CHR 0x27] @ '' | chpasswd -e''"
  by code_simp

definition two_users :: "json list" where
  "two_users = [JObj [(''name'', JStr ''a''), (''password_hash'', JStr ''x'')],
     JObj [(''name'', JStr ''b''), (''password_hash'', JStr ''y'')]]"

text \<open>
  The entries are joined by a backslash and the letter n, which \<open>echo\<close> of the base's shell does not
  turn into a line feed: \<open>chpasswd\<close> reads one entry.
\<close>

lemma chpasswd_entries_joined:
  "chpasswd_lines two_users ! 2 =
     ''RUN echo '' @ [CHR 0x27] @ ''a:x'' @ [CHR 0x5C] @ ''nb:y'' @ [CHR 0x27] @ '' | chpasswd -e''"
  by code_simp

lemma group_name_unchecked:
  assumes "renderable_groups rpm ctx = [\<lparr> ig_name = ''g$(id)'', ig_members = m, ig_optional_installed = oi \<rparr>]"
  shows "''    '' @ [CHR 0x22] @ ''g$(id)'' @ [CHR 0x22] @ '' '' @ backslash \<in> set (fst (group_lines rpm ctx crb))"
  using assms by (simp add: group_lines_def Let_def set_section_lines)

text \<open>A package whose name is not safe is dropped from both transactions, and no line says so.\<close>

lemma unsafe_package_dropped:
  "shell_unsafe (install_name_for_package pkg inst) \<Longrightarrow> split_step rpm hidden inst st pkg = st"
  by (rule split_step_skip) simp

end
