(* ===== verification/FcontextRender.thy ===== *)
theory FcontextRender
  imports DnfLines FcontextMerge
begin

text \<open>
  The SELinux file contexts of the Containerfile (\<open>crates/pipeline/src/render/selinux.rs\<close>): the checks
  on operands, the one list of equivalences with what becomes of each, and the two command forms.
\<close>

section \<open>Operand checks\<close>

definition DEFAULT_USER :: string where "DEFAULT_USER = ''system_u''"
definition DEFAULT_LEVEL :: string where "DEFAULT_LEVEL = ''s0''"

definition VAR_SYMLINKED_TOPLEVELS :: "(string \<times> string) list" where
  "VAR_SYMLINKED_TOPLEVELS = [(''/srv'', ''/var/srv'')]"

text \<open>
  The encodings of the control characters beyond ASCII (U+0080 to U+009F); \<open>is_unquotable\<close> as the
  predicate of \<open>contains\<close>.
\<close>

definition has_unquotable :: "string \<Rightarrow> bool" where
  "has_unquotable s \<longleftrightarrow>
     list_ex (\<lambda>c. c = CHR 0x27 \<or> (of_char c :: nat) < 32 \<or> (of_char c :: nat) = 127) s
     \<or> list_ex (\<lambda>n. str_contains s [CHR 0xC2, char_of n]) [128..<160]"

definition EQUIVALENCE_FORBIDDEN :: "char list" where
  "EQUIVALENCE_FORBIDDEN = [CHR ''*'', CHR ''?'', CHR ''['', CHR '']'', CHR ''('', CHR '')'', CHR ''|'', CHR 0x5C]"

definition NOT_ABSOLUTE :: string where "NOT_ABSOLUTE = ''it is not an absolute path''"
definition UNQUOTABLE_BYTE :: string where "UNQUOTABLE_BYTE = ''it carries an apostrophe or a control character''"
definition HAS_WHITESPACE :: string where "HAS_WHITESPACE = ''it carries whitespace''"
definition REGEX_CHARACTER :: string where
  "REGEX_CHARACTER = ''it carries a regex character, and -e takes a literal path''"
definition NOT_BARE_TOKEN :: string where "NOT_BARE_TOKEN = ''it is not a bare token''"
definition UNPARSED_LINE :: string where "UNPARSED_LINE = ''the collector could not place this line''"

definition spec_fault :: "string \<Rightarrow> string option" where
  "spec_fault spec =
     (if \<not> starts_with spec ''/'' then Some NOT_ABSOLUTE
      else if has_unquotable spec then Some UNQUOTABLE_BYTE
      else if has_whitespace spec then Some HAS_WHITESPACE
      else None)"

definition equivalence_operand_fault :: "string \<Rightarrow> string option" where
  "equivalence_operand_fault operand =
     (if \<not> starts_with operand ''/'' then Some NOT_ABSOLUTE
      else if has_unquotable operand then Some UNQUOTABLE_BYTE
      else if has_whitespace operand then Some HAS_WHITESPACE
      else if list_ex (\<lambda>c. c \<in> set EQUIVALENCE_FORBIDDEN) operand then Some REGEX_CHARACTER
      else None)"

definition is_bare_char :: "char \<Rightarrow> bool" where
  "is_bare_char c \<longleftrightarrow> is_ascii_alphanumeric c \<or> c \<in> {CHR ''_'', CHR ''.'', CHR '':'', CHR ''-''}"

definition bare_token_fault :: "string \<Rightarrow> string option" where
  "bare_token_fault token = (if token \<noteq> [] \<and> list_all is_bare_char token then None else Some NOT_BARE_TOKEN)"

text \<open>A fault: the field, its value and the reason.\<close>

type_synonym operand_fault = "string \<times> string \<times> string"

definition fault :: "string \<Rightarrow> string \<Rightarrow> string option \<Rightarrow> operand_fault list" where
  "fault field value reason = (case reason of None \<Rightarrow> [] | Some r \<Rightarrow> [(field, value, r)])"

definition level_shown :: "selinux_context \<Rightarrow> string option" where
  "level_shown ctx = (case sc_level ctx of None \<Rightarrow> None | Some l \<Rightarrow> if l \<noteq> DEFAULT_LEVEL then Some l else None)"

fun rule_faults :: "fcontext_rule \<Rightarrow> operand_fault list" where
  "rule_faults (Label spec _ ctx _ _) =
     fault ''spec'' spec (spec_fault spec) @
     fault ''type'' (sc_type ctx) (bare_token_fault (sc_type ctx)) @
     (if sc_user ctx \<noteq> DEFAULT_USER then fault ''user'' (sc_user ctx) (bare_token_fault (sc_user ctx)) else []) @
     (case level_shown ctx of None \<Rightarrow> [] | Some l \<Rightarrow> fault ''level'' l (bare_token_fault l))"
| "rule_faults (Unlabel spec _ _ _) = fault ''spec'' spec (spec_fault spec)"
| "rule_faults (Equivalence subject labeled_like _ _) =
     fault ''subject'' subject (equivalence_operand_fault subject) @
     fault ''labeled_like'' labeled_like (equivalence_operand_fault labeled_like)"
| "rule_faults (Unparsed raw) = fault ''raw'' raw (Some UNPARSED_LINE)"

definition is_renderable :: "fcontext_rule \<Rightarrow> bool" where
  "is_renderable rule \<longleftrightarrow> rule_faults rule = []"

section \<open>Rules\<close>

definition rule_included :: "fcontext_rule \<Rightarrow> bool" where
  "rule_included rule \<longleftrightarrow> (case fcontext_disposition rule of None \<Rightarrow> False | Some d \<Rightarrow> is_included d)"

fun equivalence_pair :: "fcontext_rule \<Rightarrow> (string \<times> string) option" where
  "equivalence_pair (Equivalence subject labeled_like _ _) = Some (subject, labeled_like)"
| "equivalence_pair _ = None"

definition subject_of :: "fcontext_rule \<Rightarrow> string option" where
  "subject_of rule = map_option fst (equivalence_pair rule)"

fun is_label :: "fcontext_rule \<Rightarrow> bool" where
  "is_label (Label _ _ _ _ _) = True"
| "is_label (Unlabel _ _ _ _) = True"
| "is_label _ = False"

record replay_rule =
  rr_spec :: string
  rr_file_type :: fcontext_file_type
  rr_context :: "selinux_context option"

fun replay_of :: "fcontext_rule \<Rightarrow> replay_rule option" where
  "replay_of (Label spec ft ctx _ _) = Some \<lparr> rr_spec = spec, rr_file_type = ft, rr_context = Some ctx \<rparr>"
| "replay_of (Unlabel spec ft _ _) = Some \<lparr> rr_spec = spec, rr_file_type = ft, rr_context = None \<rparr>"
| "replay_of _ = None"

definition begins_with_toplevel :: "string \<Rightarrow> string \<Rightarrow> bool" where
  "begins_with_toplevel spec toplevel \<longleftrightarrow>
     (case strip_prefix toplevel spec of
        None \<Rightarrow> False
      | Some rest \<Rightarrow> rest = [] \<or> starts_with rest ''/'' \<or> starts_with rest ''('')"

definition var_symlink_target :: "string \<Rightarrow> string option" where
  "var_symlink_target spec = map_option snd (List.find (\<lambda>lt. begins_with_toplevel spec (fst lt)) VAR_SYMLINKED_TOPLEVELS)"

definition triggers_synthesis :: "fcontext_rule \<Rightarrow> string \<Rightarrow> bool" where
  "triggers_synthesis rule link \<longleftrightarrow>
     (case replay_of rule of
        None \<Rightarrow> False
      | Some rp \<Rightarrow> rule_included rule \<and> is_renderable rule \<and> begins_with_toplevel (rr_spec rp) link)"

section \<open>Causes\<close>

definition symlink_fact :: "string \<Rightarrow> string \<Rightarrow> string" where
  "symlink_fact link target =
     link @ '' is a symlink to '' @ target @ '' on this base and the policy has no '' @ target @
     '' alias''"

definition unneeded_cause :: "string \<Rightarrow> string \<Rightarrow> string" where
  "unneeded_cause link target =
     ''nothing is left needing it, because every included '' @ link @
     '' rule is itself refused, so the block replays none of them and adds no '' @ target @
     '' equivalence''"

fun rule_identity :: "fcontext_rule \<Rightarrow> string" where
  "rule_identity (Label spec _ ctx _ _) =
     ''the rule labels '' @ debug_str spec @ '' as type '' @ debug_str (sc_type ctx)"
| "rule_identity (Unlabel spec _ _ _) = ''the rule unlabels '' @ debug_str spec"
| "rule_identity (Equivalence subject labeled_like _ _) =
     ''the rule maps '' @ debug_str subject @ '' to '' @ debug_str labeled_like"
| "rule_identity (Unparsed raw) = ''the collected line was '' @ debug_str raw"


definition fault_text :: "operand_fault \<Rightarrow> string" where
  "fault_text f = (case f of (field, value, reason) \<Rightarrow> debug_str value @ '' ('' @ field @ '': '' @ reason @ '')'')"

definition unrenderable_cause :: "fcontext_rule \<Rightarrow> string" where
  "unrenderable_cause rule =
     (case rule of
        Unparsed raw \<Rightarrow> debug_str raw @ '' ('' @ UNPARSED_LINE @ '')''
      | _ \<Rightarrow> str_join '', '' (map fault_text (rule_faults rule)) @ ''; '' @ rule_identity rule)"

definition is_synthesized_pair :: "fcontext_rule \<Rightarrow> bool" where
  "is_synthesized_pair rule \<longleftrightarrow>
     (case equivalence_pair rule of
        None \<Rightarrow> False
      | Some pair \<Rightarrow> list_ex (\<lambda>(link, target). pair = (target, link)) VAR_SYMLINKED_TOPLEVELS)"

definition conflict_pair :: "fcontext_rule \<Rightarrow> string option" where
  "conflict_pair rule =
     map_option (\<lambda>(subject, labeled_like).
         debug_str subject @ '' = '' @ debug_str labeled_like @
         (if is_synthesized_pair rule then '' (inspectah adds this one itself)'' else ''''))
       (equivalence_pair rule)"

definition conflict_cause :: "fcontext_rule list \<Rightarrow> string" where
  "conflict_cause rows =
     ''these equivalences conflict: '' @ str_join '' and '' (List.map_filter conflict_pair rows) @ ''; '' @
     (if list_ex is_synthesized_pair rows then ''exclude the other and rebuild''
      else ''keep one and exclude the other, then rebuild'')"

definition collision_cause :: "string \<Rightarrow> string \<Rightarrow> string \<Rightarrow> string" where
  "collision_cause spec subject rewritten =
     debug_str spec @ '' sits under '' @ debug_str subject @ '', which this block adds as an equivalence, and semanage refuses a file context under an '' @
     ''equivalence subject; label '' @ debug_str rewritten @ '' instead, which reaches the same files through that equivalence, or exclude the equivalence, '' @
     ''then rebuild''"


section \<open>The equivalences\<close>

datatype equivalence_origin =
  Collected
| Synthesized string
| Conflict "fcontext_rule list"

record equivalence =
  eq_rule :: fcontext_rule
  eq_origin :: equivalence_origin
  eq_not_emitted :: "string option"

definition rows_of :: "equivalence \<Rightarrow> fcontext_rule list" where
  "rows_of entry = (case eq_origin entry of Conflict rows \<Rightarrow> rows | _ \<Rightarrow> [eq_rule entry])"

text \<open>\<open>position\<close>: the index of the first element that satisfies the predicate.\<close>

fun find_pos :: "('a \<Rightarrow> bool) \<Rightarrow> 'a list \<Rightarrow> nat option" where
  "find_pos p [] = None"
| "find_pos p (x # xs) = (if p x then Some 0 else map_option Suc (find_pos p xs))"

definition entry_of :: "equivalence list \<Rightarrow> (fcontext_rule \<Rightarrow> bool) \<Rightarrow> nat option" where
  "entry_of entries p = find_pos (\<lambda>entry. list_ex p (rows_of entry)) entries"

definition absorb :: "fcontext_rule \<Rightarrow> equivalence \<Rightarrow> equivalence" where
  "absorb incoming entry =
     (case eq_origin entry of
        Conflict rows \<Rightarrow>
          if incoming \<in> set rows then entry else entry\<lparr>eq_origin := Conflict (rows @ [incoming])\<rparr>
      | _ \<Rightarrow>
          if eq_rule entry = incoming \<or> equivalence_pair (eq_rule entry) = equivalence_pair incoming then entry
          else entry\<lparr>eq_origin := Conflict [eq_rule entry, incoming]\<rparr>)"

definition settle_entry :: "equivalence \<Rightarrow> equivalence" where
  "settle_entry entry =
     entry\<lparr>eq_not_emitted :=
       (case eq_origin entry of
          Conflict rows \<Rightarrow> Some (conflict_cause rows)
        | _ \<Rightarrow> if \<not> is_renderable (eq_rule entry) then Some (unrenderable_cause (eq_rule entry))
               else eq_not_emitted entry)\<rparr>"

definition absorb_or_push :: "(equivalence \<Rightarrow> bool) \<Rightarrow> fcontext_rule \<Rightarrow> equivalence \<Rightarrow> equivalence list \<Rightarrow> equivalence list" where
  "absorb_or_push p incoming fresh entries =
     (case find_pos p entries of
        Some idx \<Rightarrow> entries[idx := absorb incoming (entries ! idx)]
      | None \<Rightarrow> entries @ [fresh])"

definition claims :: "string \<Rightarrow> equivalence \<Rightarrow> bool" where
  "claims subject entry \<longleftrightarrow> subject_of (eq_rule entry) = Some subject"

definition collect_step :: "equivalence list \<Rightarrow> fcontext_rule \<Rightarrow> equivalence list" where
  "collect_step entries rule =
     (case equivalence_pair rule of
        None \<Rightarrow> entries
      | Some (subject, _) \<Rightarrow>
          absorb_or_push (claims subject) rule
            \<lparr> eq_rule = rule, eq_origin = Collected, eq_not_emitted = None \<rparr> entries)"

definition emitted_pairs :: "equivalence list \<Rightarrow> (string \<times> string) list" where
  "emitted_pairs equivalences =
     List.map_filter (\<lambda>entry. equivalence_pair (eq_rule entry))
       (filter (\<lambda>entry. eq_not_emitted entry = None) equivalences)"

definition collision :: "equivalence list \<Rightarrow> fcontext_rule \<Rightarrow> string option" where
  "collision equivalences rule =
     (if \<not> is_renderable rule then Some (unrenderable_cause rule)
      else case replay_of rule of
          None \<Rightarrow> None
        | Some rp \<Rightarrow>
            map_option (\<lambda>(subject, labeled_like).
                collision_cause (rr_spec rp) subject (labeled_like @ drop (length subject) (rr_spec rp)))
              (List.find (\<lambda>(subject, _). begins_with_toplevel (rr_spec rp) subject) (emitted_pairs equivalences)))"

definition synthesize :: "fcontext_rule list \<Rightarrow> equivalence list \<Rightarrow> string \<times> string \<Rightarrow> equivalence list" where
  "synthesize rules entries lt =
     (let link = fst lt; target = snd lt;
          synthesized = Equivalence target link fk_included None;
          triggers = filter (\<lambda>r. triggers_synthesis r link) rules
      in case find_pos (\<lambda>e. equivalence_pair (eq_rule e) = Some (link, target)) entries of
           Some idx \<Rightarrow> entries[idx := absorb synthesized (entries ! idx)]
         | None \<Rightarrow>
             if triggers = [] then entries
             else absorb_or_push (claims target) synthesized
               \<lparr> eq_rule = synthesized, eq_origin = Synthesized (symlink_fact link target),
                 eq_not_emitted =
                   (if list_ex (\<lambda>r. collision entries r = None) triggers then None
                    else Some (unneeded_cause link target)) \<rparr> entries)"

definition collected_entries :: "fcontext_rule list \<Rightarrow> equivalence list" where
  "collected_entries rules = map settle_entry (foldl collect_step [] (filter rule_included rules))"

definition equivalences_of :: "fcontext_rule list \<Rightarrow> equivalence list" where
  "equivalences_of rules =
     map settle_entry (foldl (synthesize rules) (collected_entries rules) VAR_SYMLINKED_TOPLEVELS)"

definition selinux_equivalences :: "inspection_snapshot \<Rightarrow> equivalence list" where
  "selinux_equivalences snap =
     (case snap_selinux snap of None \<Rightarrow> [] | Some sel \<Rightarrow> equivalences_of (sel_fcontext_rules sel))"

section \<open>The two command forms\<close>

definition RULE1_GUARD_LINES :: "string list" where
  "RULE1_GUARD_LINES =
     [''    eqs='' @ [CHR 0x22] @ ''$(semanage fcontext -l -C)'' @ [CHR 0x22] @ '' || { printf '' @
     [CHR 0x27] @ ''FIXME: could not list the target file contexts before replaying the rule for %s; fix semanage '' @
     ''in the base, or exclude this rule, then rebuild'' @ [CHR 0x5C] @ ''n'' @ [CHR 0x27] @ '' '' @
     [CHR 0x22] @ ''$spec'' @ [CHR 0x22] @ '' >&2; exit 1; }; '' @ [CHR 0x5C],
      ''    if printf '' @ [CHR 0x27] @ ''%s'' @ [CHR 0x5C] @ ''n'' @ [CHR 0x27] @ '' '' @ [CHR 0x22] @
     ''$eqs'' @ [CHR 0x22] @ '' | awk '' @ [CHR 0x27] @ ''$2 == '' @ [CHR 0x22] @ ''='' @ [CHR 0x22] @
     '' { print $1 }'' @ [CHR 0x27] @ '' | grep -qxF -- '' @ [CHR 0x22] @ ''$spec'' @ [CHR 0x22] @
     ''; then '' @ [CHR 0x5C],
      ''      printf '' @ [CHR 0x27] @ ''FIXME: skipped the file context rule for %s; the target maps that path as an equivalence, '' @
     ''which semanage fcontext -d would delete instead of a label; delete it with semanage fcontext '' @
     ''-d -e <its target> %s, or exclude this rule, then rebuild'' @ [CHR 0x5C] @ ''n'' @ [CHR 0x27] @
     '' '' @ [CHR 0x22] @ ''$spec'' @ [CHR 0x22] @ '' '' @ [CHR 0x22] @ ''$spec'' @ [CHR 0x22] @
     '' >&2; '' @ [CHR 0x5C]]"

definition rule1_lines :: "string \<Rightarrow> string \<Rightarrow> string \<Rightarrow> string list" where
  "rule1_lines spec delete_args add_modify_args =
     [''RUN spec='' @ quote1 spec @ ''; '' @ [CHR 0x5C]] @ RULE1_GUARD_LINES @
     [''    else semanage fcontext -d'' @ delete_args @ '' '' @ [CHR 0x22] @ ''$spec'' @ [CHR 0x22] @
     '' 2>/dev/null || true; '' @ [CHR 0x5C]] @
     str_lines (''      semanage fcontext -a '' @ add_modify_args @ '' '' @ [CHR 0x22] @ ''$spec'' @ [CHR 0x22] @
     '' '' @ [CHR 0x5C] @ [nl] @
     ''      || semanage fcontext -m '' @ add_modify_args @ '' '' @ [CHR 0x22] @ ''$spec'' @ [CHR 0x22] @
     ''; fi'')"

definition rule2_lines :: "string \<Rightarrow> string \<Rightarrow> string list" where
  "rule2_lines subject labeled_like =
     [''RUN eqs='' @ [CHR 0x22] @ ''$(semanage fcontext -l -C)'' @ [CHR 0x22] @ '' || { printf '' @
     [CHR 0x27] @ ''FIXME: could not list the target file contexts before adding the equivalence for %s; fix '' @
     ''semanage in the base, or exclude this rule, then rebuild'' @ [CHR 0x5C] @ ''n'' @ [CHR 0x27] @
     '' '' @ quote1 subject @ '' >&2; exit 1; }; '' @ [CHR 0x5C],
      ''    eq='' @ [CHR 0x22] @ ''$(printf '' @ [CHR 0x27] @ ''%s'' @ [CHR 0x5C] @ ''n'' @ [CHR 0x27] @
     '' '' @ [CHR 0x22] @ ''$eqs'' @ [CHR 0x22] @ '' | awk -v s='' @ quote1 subject @ '' '' @ [CHR 0x27] @
     ''$2 == '' @ [CHR 0x22] @ ''='' @ [CHR 0x22] @ '' && $1 == s { print $3 }'' @ [CHR 0x27] @ '')'' @
     [CHR 0x22] @ ''; '' @ [CHR 0x5C],
      ''    if [ -z '' @ [CHR 0x22] @ ''$eq'' @ [CHR 0x22] @ '' ]; then semanage fcontext -a -e '' @
     quote1 labeled_like @ '' '' @ quote1 subject @ ''; '' @ [CHR 0x5C],
      ''    elif [ '' @ [CHR 0x22] @ ''$eq'' @ [CHR 0x22] @ '' != '' @ quote1 labeled_like @
     '' ]; then printf '' @ [CHR 0x27] @ ''FIXME: %s is already equivalent to %s on the target, not %s; delete that equivalence with '' @
     ''semanage fcontext -d -e %s %s, or exclude this rule, then rebuild'' @ [CHR 0x5C] @ ''n'' @
     [CHR 0x27] @ '' '' @ quote1 subject @ '' '' @ [CHR 0x22] @ ''$eq'' @ [CHR 0x22] @ '' '' @
     quote1 labeled_like @ '' '' @ [CHR 0x22] @ ''$eq'' @ [CHR 0x22] @ '' '' @ quote1 subject @
     '' >&2; exit 1; fi'']"


definition file_flag :: "fcontext_file_type \<Rightarrow> string list" where
  "file_flag ft = (case semanage_flag ft of None \<Rightarrow> [] | Some f \<Rightarrow> [''-f '' @ [f]])"

definition rule1_delete :: "fcontext_file_type \<Rightarrow> string" where
  "rule1_delete ft = concat (map (\<lambda>f. '' '' @ f) (file_flag ft))"

definition rule1_add_modify :: "fcontext_file_type \<Rightarrow> selinux_context option \<Rightarrow> string" where
  "rule1_add_modify ft context =
     str_join '' '' (file_flag ft @
       (case context of
          Some ctx \<Rightarrow>
            (case level_shown ctx of None \<Rightarrow> [] | Some level \<Rightarrow> [''-r '' @ level]) @
            (if sc_user ctx \<noteq> DEFAULT_USER then [''-s '' @ sc_user ctx] else []) @
            [''-t '' @ sc_type ctx]
        | None \<Rightarrow> [''-t '' @ quote1 ''<<none>>'']))"

definition replay_lines :: "replay_rule \<Rightarrow> string list" where
  "replay_lines r =
     rule1_lines (rr_spec r) (rule1_delete (rr_file_type r)) (rule1_add_modify (rr_file_type r) (rr_context r))"

section \<open>Comments\<close>

definition count_paragraph :: "nat \<Rightarrow> string list" where
  "count_paragraph n =
     [''# SELinux file contexts ('' @ nat_str n @ '' custom '' @ (if n = 1 then ''rule'' else ''rules'') @
     ''). Labels for image content are computed'',
      ''# when bootc pulls the image, from the image'' @ [CHR 0x27] @
     ''s own policy under /etc/selinux, so'',
      ''# a rule only needs to be in the policy store: no restorecon at build time. Each'',
      ''# rule below is either a command or a FIXME saying why it could not be one. Data'',
      ''# you restore into /var (/var/srv included) keeps the labels it arrived with;'',
      ''# run restorecon -R on it before starting the services that use it.'']"

definition replay_paragraph :: "string list" where
  "replay_paragraph =
     [''# Each rule removes its own key from the local store if present, then adds it, or'',
      ''# modifies it when the target policy defines the key; the rules end the local'',
      ''# list in the order the source host held them. A rule whose path the target'',
      ''# already maps as an equivalence is skipped with a FIXME in the build output,'',
      ''# because deleting its key would delete that equivalence.'']"

definition symlink_paragraph :: "string \<Rightarrow> string \<Rightarrow> string list" where
  "symlink_paragraph link target =
     [''# '' @ symlink_fact link target @ '';'',
      ''# this makes every '' @ link @ '' rule, stock and custom, apply to the real path. The'',
      ''# equivalence is added when absent and left alone when identical; a different'',
      ''# target mapping stops the build with an instruction.'']"

definition FIXME_INSTRUCTION :: "string" where
  "FIXME_INSTRUCTION =
     ''# FIXME: add this file context by hand with: RUN semanage fcontext -a -t <type> '' @ [CHR 0x27] @
     ''<spec>'' @ [CHR 0x27] @ '' || semanage fcontext -m -t <type> '' @ [CHR 0x27] @ ''<spec>'' @
     [CHR 0x27] @ '' (labels apply when bootc pulls the image; no restorecon needed)''"

definition FIXME_CAUSE_PREFIX :: "string" where
  "FIXME_CAUSE_PREFIX =
     ''#   the collected rule could not be rendered: ''"

definition SEMANAGE_LIST_NOTE :: "string" where
  "SEMANAGE_LIST_NOTE =
     ''# NOTE: rule order comes from a sorted listing, not insertion order; if two expressions '' @
     ''overlap, reorder so the intended winner is last.''"

definition INSTALL_PRECONDITION :: "string list" where
  "INSTALL_PRECONDITION =
     [''# The file context and port rules below need semanage, which this base does not'',
      ''# carry; policycoreutils-python-utils provides it.'',
      ''RUN dnf install -y policycoreutils-python-utils '' @ [CHR 0x5C]] @ clean_lines"


definition fixme_lines :: "string \<Rightarrow> string list" where
  "fixme_lines cause = [FIXME_INSTRUCTION, FIXME_CAUSE_PREFIX @ cause]"

section \<open>The rendering\<close>

record fcontext_rendering =
  fr_preamble :: "string list"
  fr_rules :: "string list"
  fr_emits_command :: bool

text \<open>The loop carries the lines, the flag and the entries already emitted.\<close>

record fc_loop =
  fl_rules :: "string list"
  fl_emits :: bool
  fl_emitted :: "bool list"

definition entry_lines :: "equivalence \<Rightarrow> string list" where
  "entry_lines entry =
     (case eq_not_emitted entry of
        Some cause \<Rightarrow> fixme_lines cause
      | None \<Rightarrow>
          (case equivalence_pair (eq_rule entry) of
             None \<Rightarrow> []
           | Some (subject, labeled_like) \<Rightarrow>
               (case eq_origin entry of Synthesized _ \<Rightarrow> symlink_paragraph labeled_like subject | _ \<Rightarrow> []) @
               rule2_lines subject labeled_like))"

definition entry_emits :: "equivalence \<Rightarrow> bool" where
  "entry_emits entry \<longleftrightarrow> eq_not_emitted entry = None \<and> equivalence_pair (eq_rule entry) \<noteq> None"

definition emit_equivalence :: "equivalence list \<Rightarrow> nat \<Rightarrow> fc_loop \<Rightarrow> fc_loop" where
  "emit_equivalence equivalences idx st =
     (if fl_emitted st ! idx then st
      else \<lparr> fl_rules = fl_rules st @ entry_lines (equivalences ! idx),
             fl_emits = (fl_emits st \<or> entry_emits (equivalences ! idx)),
             fl_emitted = (fl_emitted st)[idx := True] \<rparr>)"

definition emit_at :: "equivalence list \<Rightarrow> nat option \<Rightarrow> fc_loop \<Rightarrow> fc_loop" where
  "emit_at equivalences i st = (case i of None \<Rightarrow> st | Some idx \<Rightarrow> emit_equivalence equivalences idx st)"

definition synthesis_entry :: "equivalence list \<Rightarrow> string \<Rightarrow> nat option" where
  "synthesis_entry equivalences spec =
     Option.bind (var_symlink_target spec) (\<lambda>target. entry_of equivalences (\<lambda>row. subject_of row = Some target))"

definition push_rules :: "string list \<Rightarrow> fc_loop \<Rightarrow> fc_loop" where
  "push_rules ls st = st\<lparr>fl_rules := fl_rules st @ ls\<rparr>"

fun is_unparsed :: "fcontext_rule \<Rightarrow> bool" where
  "is_unparsed (Unparsed _) = True"
| "is_unparsed _ = False"

definition fcontext_step :: "equivalence list \<Rightarrow> fc_loop \<Rightarrow> fcontext_rule \<Rightarrow> fc_loop" where
  "fcontext_step equivalences st rule =
     (if is_unparsed rule then push_rules (fixme_lines (unrenderable_cause rule)) st
      else if \<not> rule_included rule then st
      else case replay_of rule of
          None \<Rightarrow> emit_at equivalences (entry_of equivalences (\<lambda>row. row = rule)) st
        | Some rp \<Rightarrow>
            (case collision equivalences rule of
               Some cause \<Rightarrow> push_rules (fixme_lines cause) st
             | None \<Rightarrow>
                 let st' = emit_at equivalences (synthesis_entry equivalences (rr_spec rp)) st
                 in (push_rules (replay_lines rp) st')\<lparr>fl_emits := True\<rparr>))"

definition fc_start :: "equivalence list \<Rightarrow> fc_loop" where
  "fc_start equivalences = \<lparr> fl_rules = [], fl_emits = False, fl_emitted = replicate (length equivalences) False \<rparr>"

definition renders_as_replay :: "equivalence list \<Rightarrow> fcontext_rule \<Rightarrow> bool" where
  "renders_as_replay equivalences rule \<longleftrightarrow> is_label rule \<and> collision equivalences rule = None"

definition render_fcontext_rules :: "inspection_snapshot \<Rightarrow> fcontext_rendering" where
  "render_fcontext_rules snap =
     (case snap_selinux snap of
        None \<Rightarrow> \<lparr> fr_preamble = [], fr_rules = [], fr_emits_command = False \<rparr>
      | Some sel \<Rightarrow>
          let rules = sel_fcontext_rules sel;
              equivalences = selinux_equivalences snap;
              decisions = length (filter rule_included rules);
              any_replay = list_ex (\<lambda>r. rule_included r \<and> renders_as_replay equivalences r) rules;
              st = foldl (fcontext_step equivalences) (fc_start equivalences) rules
          in \<lparr> fr_preamble =
                 (if any_replay \<and> sel_fcontext_source sel = SemanageList then [SEMANAGE_LIST_NOTE] else []) @
                 (if decisions > 0 then count_paragraph decisions else []),
               fr_rules = (if any_replay then replay_paragraph else []) @ fl_rules st,
               fr_emits_command = fl_emits st \<rparr>)"

section \<open>The report rows\<close>

datatype build_action = Emits string | Skips string

record fcontext_summary =
  su_rule :: fcontext_rule
  su_origin :: "equivalence_origin option"
  su_action :: build_action

definition DUPLICATE_EQUIVALENCE :: string where
  "DUPLICATE_EQUIVALENCE = ''an identical equivalence is listed above; the block adds it once''"

definition int_str :: "int \<Rightarrow> string" where
  "int_str i = (if i < 0 then [CHR 0x2D] @ nat_str (nat (- i)) else nat_str (nat i))"

definition exclusion_cause :: "fcontext_rule \<Rightarrow> string" where
  "exclusion_cause rule =
     (case fcontext_aggregate rule of
        None \<Rightarrow> ''excluded from the export''
      | Some p \<Rightarrow>
          let total = int_str (ap_total p); shown = str_join '', '' (ap_hosts p) in
          (case ap_aggregate_count p of
             None \<Rightarrow>
               ''this rule is on '' @ int_str (ap_count p) @ '' of '' @ total @ '' hosts ('' @ shown @
     ''); excluded from the export, include it explicitly to ship it''
           | Some key_count \<Rightarrow>
               let dissenting = filter (\<lambda>host. host \<notin> set (ap_hosts p))
                 (case ap_aggregate_hosts p of None \<Rightarrow> [] | Some hs \<Rightarrow> hs)
               in int_str key_count @ '' of '' @ total @
     '' hosts define this rule and disagree on its content; the content shown is the one carried by '' @
     shown @ ''; it differs on '' @ str_join '', '' dissenting @
     ''; excluded from the export, include it explicitly to ship the content shown''))"


definition skipped :: "fcontext_rule \<Rightarrow> equivalence_origin option \<Rightarrow> string \<Rightarrow> fcontext_summary" where
  "skipped rule origin cause = \<lparr> su_rule = rule, su_origin = origin, su_action = Skips cause \<rparr>"

text \<open>The \<open>expect\<close> on the pair of an entry is the value \<open>None\<close>.\<close>

definition equivalence_row :: "fcontext_rule \<Rightarrow> equivalence \<Rightarrow> bool \<Rightarrow> fcontext_summary option" where
  "equivalence_row rule entry already_shown =
     (case eq_not_emitted entry of
        Some cause \<Rightarrow> Some (skipped rule (Some (eq_origin entry)) cause)
      | None \<Rightarrow>
          if already_shown then Some (skipped rule (Some (eq_origin entry)) DUPLICATE_EQUIVALENCE)
          else map_option (\<lambda>(subject, labeled_like).
              \<lparr> su_rule = rule, su_origin = Some (eq_origin entry),
                su_action = Emits (str_join [nl] (rule2_lines subject labeled_like)) \<rparr>)
            (equivalence_pair (eq_rule entry)))"

type_synonym summary_loop = "fcontext_summary list \<times> bool list"

definition push_row :: "fcontext_summary option \<Rightarrow> nat \<Rightarrow> summary_loop \<Rightarrow> summary_loop option" where
  "push_row row idx st = map_option (\<lambda>r. (fst st @ [r], (snd st)[idx := True])) row"

definition summary_step :: "equivalence list \<Rightarrow> summary_loop \<Rightarrow> fcontext_rule \<Rightarrow> summary_loop option" where
  "summary_step equivalences st rule =
     (if is_unparsed rule then Some (fst st @ [skipped rule None (unrenderable_cause rule)], snd st)
      else if \<not> rule_included rule then Some (fst st @ [skipped rule None (exclusion_cause rule)], snd st)
      else case replay_of rule of
          None \<Rightarrow>
            (case entry_of equivalences (\<lambda>row. row = rule) of
               None \<Rightarrow> Some st
             | Some idx \<Rightarrow> push_row (equivalence_row rule (equivalences ! idx) (snd st ! idx)) idx st)
        | Some rp \<Rightarrow>
            (case collision equivalences rule of
               Some cause \<Rightarrow> Some (fst st @ [skipped rule None cause], snd st)
             | None \<Rightarrow>
                 map_option (\<lambda>st'.
                   (fst st' @ [\<lparr> su_rule = rule, su_origin = None,
                      su_action = Emits (str_join [nl] (replay_lines rp)) \<rparr>], snd st'))
                   (case synthesis_entry equivalences (rr_spec rp) of
                      None \<Rightarrow> Some st
                    | Some idx \<Rightarrow>
                        if snd st ! idx then Some st
                        else push_row (equivalence_row (eq_rule (equivalences ! idx)) (equivalences ! idx) False) idx st)))"

fun run_panics :: "('s \<Rightarrow> 'a \<Rightarrow> 's option) \<Rightarrow> 's \<Rightarrow> 'a list \<Rightarrow> 's option" where
  "run_panics f st [] = Some st"
| "run_panics f st (x # xs) = (case f st x of None \<Rightarrow> None | Some st' \<Rightarrow> run_panics f st' xs)"

definition unshown_rows :: "equivalence list \<Rightarrow> bool list \<Rightarrow> fcontext_summary list option" where
  "unshown_rows equivalences shown =
     map_panics (\<lambda>entry. equivalence_row (eq_rule entry) entry False)
       (map fst (filter (\<lambda>(_, s). \<not> s) (zip equivalences shown)))"

definition fcontext_summaries :: "inspection_snapshot \<Rightarrow> fcontext_summary list option" where
  "fcontext_summaries snap =
     (case snap_selinux snap of
        None \<Rightarrow> Some []
      | Some sel \<Rightarrow>
          let equivalences = selinux_equivalences snap in
          (case run_panics (summary_step equivalences) ([], replicate (length equivalences) False)
              (sel_fcontext_rules sel) of
             None \<Rightarrow> None
           | Some (rows, shown) \<Rightarrow> map_option (\<lambda>ls. rows @ ls) (unshown_rows equivalences shown)))"

definition summary_command :: "fcontext_summary \<Rightarrow> string option" where
  "summary_command row = (case su_action row of Emits command \<Rightarrow> Some command | Skips _ \<Rightarrow> None)"

definition file_type_suffix :: "fcontext_file_type \<Rightarrow> string" where
  "file_type_suffix ft = (case semanage_flag ft of None \<Rightarrow> '''' | Some f \<Rightarrow> '' (-f '' @ [f] @ '')'')"

fun summary_label :: "fcontext_rule \<Rightarrow> string" where
  "summary_label (Label spec ft ctx _ _) = spec @ file_type_suffix ft @ '' -> '' @ sc_type ctx"
| "summary_label (Unlabel spec ft _ _) = spec @ file_type_suffix ft @ '' -> <<none>>''"
| "summary_label (Equivalence subject labeled_like _ _) = subject @ '' = '' @ labeled_like"
| "summary_label (Unparsed raw) = raw"

definition summary_disposition :: "fcontext_summary \<Rightarrow> string" where
  "summary_disposition row =
     str_join ''; ''
       ((case su_origin row of Some (Synthesized reason) \<Rightarrow> [''synthesized by inspectah: '' @ reason] | _ \<Rightarrow> []) @
        [case su_action row of Emits _ \<Rightarrow> ''applied'' | Skips cause \<Rightarrow> ''not applied: '' @ cause])"

end
