(* ===== verification/FcontextFacts.thy ===== *)
theory FcontextFacts
  imports FcontextRender
begin

text \<open>
  The reports and the build read one list of equivalences, but walk the rules in two loops. The
  facts here relate the loops: the entries a run reaches, and the commands it writes.
\<close>

section \<open>Positions\<close>

lemma find_pos_Some:
  "find_pos p xs = Some i \<longleftrightarrow> i < length xs \<and> p (xs ! i) \<and> (\<forall>j < i. \<not> p (xs ! j))"
proof (induction xs arbitrary: i)
  case (Cons x xs)
  show ?case
  proof (cases "p x")
    case True
    then show ?thesis by (cases i) auto
  next
    case False
    then show ?thesis using Cons.IH by (cases i) (auto simp: less_Suc_eq_0_disj)
  qed
qed simp

lemma find_pos_None: "find_pos p xs = None \<longleftrightarrow> (\<forall>x \<in> set xs. \<not> p x)"
  by (induction xs) auto

section \<open>Entries\<close>

text \<open>Every row of an entry claims the subject of the entry, and no two entries claim one subject.\<close>

definition entry_ok :: "equivalence \<Rightarrow> bool" where
  "entry_ok e \<longleftrightarrow> eq_rule e \<in> set (rows_of e) \<and> (\<exists>s. \<forall>r \<in> set (rows_of e). subject_of r = Some s)"

definition entries_ok :: "equivalence list \<Rightarrow> bool" where
  "entries_ok es \<longleftrightarrow> distinct (map (\<lambda>e. subject_of (eq_rule e)) es) \<and> (\<forall>e \<in> set es. entry_ok e)"

lemma absorb_rule [simp]: "eq_rule (absorb r e) = eq_rule e"
  by (simp add: absorb_def split: equivalence_origin.split)

lemma absorb_entry_ok: "entry_ok e \<Longrightarrow> subject_of (eq_rule e) = Some s \<Longrightarrow> subject_of r = Some s \<Longrightarrow> entry_ok (absorb r e)"
  by (cases "eq_origin e") (auto simp: entry_ok_def absorb_def rows_of_def)

lemma absorb_or_push_ok:
  assumes "entries_ok es" "subject_of r = Some s" "entry_ok fresh" "eq_rule fresh = r"
  shows "entries_ok (absorb_or_push (claims s) r fresh es)"
proof (cases "find_pos (claims s) es")
  case None
  then show ?thesis
    using assms find_pos_None [of "claims s" es] by (auto simp: absorb_or_push_def entries_ok_def claims_def)
next
  case (Some i)
  then have i: "i < length es" "subject_of (eq_rule (es ! i)) = Some s"
    by (auto simp: find_pos_Some claims_def)
  have "map (\<lambda>e. subject_of (eq_rule e)) (es[i := absorb r (es ! i)]) = map (\<lambda>e. subject_of (eq_rule e)) es"
    using i(1) by (simp add: map_update list_update_same_conv)
  moreover have "entry_ok (absorb r (es ! i))"
    using assms(1,2) i absorb_entry_ok [of "es ! i" s r] by (auto simp: entries_ok_def)
  ultimately show ?thesis
    using assms(1) Some set_update_subset_insert [of es i "absorb r (es ! i)"]
    by (auto simp: absorb_or_push_def entries_ok_def)
qed

lemma collect_step_ok: "entries_ok es \<Longrightarrow> entries_ok (collect_step es rule)"
proof -
  assume ok: "entries_ok es"
  show ?thesis
  proof (cases "equivalence_pair rule")
    case (Some sl)
    have "entries_ok (absorb_or_push (claims (fst sl)) rule
        \<lparr> eq_rule = rule, eq_origin = Collected, eq_not_emitted = None \<rparr> es)"
      by (rule absorb_or_push_ok [OF ok]) (simp_all add: subject_of_def Some entry_ok_def rows_of_def)
    then show ?thesis using Some by (cases sl) (simp add: collect_step_def)
  qed (use ok in \<open>simp add: collect_step_def\<close>)
qed

lemma collect_ok: "entries_ok es \<Longrightarrow> entries_ok (foldl collect_step es rules)"
  by (induction rules arbitrary: es) (auto intro: collect_step_ok)

lemma settle_fields [simp]: "eq_rule (settle_entry e) = eq_rule e" "eq_origin (settle_entry e) = eq_origin e"
  by (simp_all add: settle_entry_def)

lemma settle_rows [simp]: "rows_of (settle_entry e) = rows_of e"
  by (simp add: rows_of_def split: equivalence_origin.split)

lemma settle_ok: "entries_ok es \<Longrightarrow> entries_ok (map settle_entry es)"
  by (simp add: entries_ok_def entry_ok_def comp_def)

lemma settle_twice [simp]: "settle_entry (settle_entry e) = settle_entry e"
  by (simp add: settle_entry_def split: equivalence_origin.split)

lemma collected_entries_ok: "entries_ok (collected_entries rules)"
  unfolding collected_entries_def by (intro settle_ok collect_ok) (simp add: entries_ok_def)

text \<open>Where an entry comes from.\<close>

lemma collect_step_rules:
  "e \<in> set (collect_step es rule) \<Longrightarrow> eq_rule e = rule \<or> eq_rule e \<in> eq_rule ` set es"
proof -
  have "e \<in> set (es[i := absorb rule (es ! i)]) \<Longrightarrow> eq_rule e \<in> eq_rule ` set es"
    if "i < length es" for i
    using that set_update_subset_insert [of es i "absorb rule (es ! i)"] by fastforce
  then show "e \<in> set (collect_step es rule) \<Longrightarrow> eq_rule e = rule \<or> eq_rule e \<in> eq_rule ` set es"
    by (auto simp: collect_step_def absorb_or_push_def find_pos_Some split: option.splits)
qed

lemma collect_rules:
  "e \<in> set (foldl collect_step es rules) \<Longrightarrow> eq_rule e \<in> set rules \<or> eq_rule e \<in> eq_rule ` set es"
proof (induction rules arbitrary: es)
  case (Cons r rules)
  then show ?case using collect_step_rules by fastforce
qed auto

lemma collected_rules: "e \<in> set (collected_entries rules) \<Longrightarrow> eq_rule e \<in> set rules \<and> rule_included (eq_rule e)"
  using collect_rules [of _ "[]" "filter rule_included rules"] by (auto simp: collected_entries_def)

section \<open>The synthesis\<close>

text \<open>No included rule inverts the layout of the base.\<close>

definition no_inversion :: "fcontext_rule list \<Rightarrow> bool" where
  "no_inversion rules \<longleftrightarrow>
     list_all (\<lambda>r. rule_included r \<longrightarrow> equivalence_pair r \<notin> Some ` set VAR_SYMLINKED_TOPLEVELS) rules"

definition synth_rule :: fcontext_rule where
  "synth_rule = Equivalence ''/var/srv'' ''/srv'' fk_included None"

definition synth_entry :: "fcontext_rule list \<Rightarrow> equivalence" where
  "synth_entry rules =
     \<lparr> eq_rule = synth_rule, eq_origin = Synthesized (symlink_fact ''/srv'' ''/var/srv''),
       eq_not_emitted =
         (if list_ex (\<lambda>r. collision (collected_entries rules) r = None)
             (filter (\<lambda>r. triggers_synthesis r ''/srv'') rules) then None
          else Some (unneeded_cause ''/srv'' ''/var/srv'')) \<rparr>"

definition with_synthesis :: "fcontext_rule list \<Rightarrow> equivalence list" where
  "with_synthesis rules =
     (if filter (\<lambda>r. triggers_synthesis r ''/srv'') rules = [] then collected_entries rules
      else absorb_or_push (claims ''/var/srv'') synth_rule (synth_entry rules) (collected_entries rules))"

lemma equivalences_no_inversion:
  assumes "no_inversion rules"
  shows "equivalences_of rules = map settle_entry (with_synthesis rules)"
proof -
  have "find_pos (\<lambda>e. equivalence_pair (eq_rule e) = Some (''/srv'', ''/var/srv'')) (collected_entries rules) = None"
    using assms collected_rules
    by (fastforce simp: find_pos_None no_inversion_def list_all_iff VAR_SYMLINKED_TOPLEVELS_def)
  then show ?thesis
    by (simp add: equivalences_of_def VAR_SYMLINKED_TOPLEVELS_def synthesize_def with_synthesis_def Let_def
        synth_rule_def synth_entry_def)
qed

lemma synth_entry_ok: "entry_ok (synth_entry rules)"
  by (simp add: entry_ok_def synth_entry_def rows_of_def synth_rule_def subject_of_def)

lemma with_synthesis_ok: "entries_ok (with_synthesis rules)"
proof -
  have "entries_ok (absorb_or_push (claims ''/var/srv'') synth_rule (synth_entry rules) (collected_entries rules))"
    by (rule absorb_or_push_ok [OF collected_entries_ok _ synth_entry_ok])
      (simp_all add: synth_rule_def synth_entry_def subject_of_def)
  then show ?thesis by (simp add: with_synthesis_def collected_entries_ok)
qed

lemma equivalences_ok: "no_inversion rules \<Longrightarrow> entries_ok (equivalences_of rules)"
  by (simp add: equivalences_no_inversion settle_ok with_synthesis_ok)

text \<open>The one entry that speaks for a subject.\<close>

lemma entry_of_row:
  assumes "entries_ok es" "i < length es" "r \<in> set (rows_of (es ! i))"
    and "p r" "\<And>x. p x \<Longrightarrow> subject_of x = subject_of r"
  shows "entry_of es p = Some i"
proof -
  have ok: "entry_ok (es ! j)" if "j < length es" for j using assms(1) that by (auto simp: entries_ok_def)
  have "\<not> list_ex p (rows_of (es ! j))" if j: "j < i" for j
  proof
    assume "list_ex p (rows_of (es ! j))"
    then obtain x where "x \<in> set (rows_of (es ! j))" "p x" by (auto simp: list_ex_iff)
    moreover obtain s where "\<forall>r \<in> set (rows_of (es ! j)). subject_of r = Some s" "eq_rule (es ! j) \<in> set (rows_of (es ! j))"
      using ok [of j] assms(2) j by (auto simp: entry_ok_def)
    moreover obtain s' where "\<forall>r \<in> set (rows_of (es ! i)). subject_of r = Some s'" "eq_rule (es ! i) \<in> set (rows_of (es ! i))"
      using ok [of i] assms(2) by (auto simp: entry_ok_def)
    ultimately have "subject_of (eq_rule (es ! j)) = subject_of (eq_rule (es ! i))"
      using assms(3) assms(5) [of x] by metis
    moreover have "j < length es" "j \<noteq> i" using j assms(2) by auto
    ultimately show False
      using assms(1,2) by (auto simp: entries_ok_def distinct_conv_nth)
  qed
  moreover have "list_ex p (rows_of (es ! i))" using assms(3,4) by (auto simp: list_ex_iff)
  ultimately show ?thesis using assms(2) by (auto simp: entry_of_def find_pos_Some)
qed

end
