(* ===== verification/FcontextReports.thy ===== *)
theory FcontextReports
  imports FcontextFacts
begin

text \<open>
  The commands of the build and the commands of the reports: the relation of the two loops, and
  which entries a run reaches.
\<close>

section \<open>Command lines\<close>

definition is_comment :: "string \<Rightarrow> bool" where
  "is_comment l \<longleftrightarrow> starts_with l ''#''"

definition commands_of :: "string list \<Rightarrow> string list" where
  "commands_of ls = filter (\<lambda>l. \<not> is_comment l) ls"

definition command_lines :: "string \<Rightarrow> string list" where
  "command_lines s = split_on (\<lambda>c. c = nl) s"

definition report_lines :: "fcontext_summary list \<Rightarrow> string list" where
  "report_lines rows = concat (map command_lines (List.map_filter summary_command rows))"

lemma is_comment_simps [simp]: "is_comment (c # s) \<longleftrightarrow> c = CHR ''#''" "\<not> is_comment []"
  by (simp_all add: is_comment_def)

lemma split_one_line: "one_line l \<Longrightarrow> split_on (\<lambda>c. c = nl) l = [l]"
  by (induction l) (auto simp: line_simps)

lemma split_join_line: "one_line l \<Longrightarrow> split_on (\<lambda>c. c = nl) (l @ nl # s) = l # split_on (\<lambda>c. c = nl) s"
  by (induction l) (auto simp: line_simps)

lemma command_lines_join: "list_all one_line ls \<Longrightarrow> ls \<noteq> [] \<Longrightarrow> command_lines (str_join [nl] ls) = ls"
  unfolding command_lines_def
  by (induction ls rule: induct_list012) (simp_all add: split_one_line split_join_line)

lemma commands_of_simps [simp]:
  "commands_of [] = []"
  "commands_of (l # ls) = (if is_comment l then commands_of ls else l # commands_of ls)"
  "commands_of (ls @ ms) = commands_of ls @ commands_of ms"
  by (simp_all add: commands_of_def)

lemma commands_of_fixme [simp]: "commands_of (fixme_lines cause) = []"
  by (simp add: fixme_lines_def FIXME_INSTRUCTION_def FIXME_CAUSE_PREFIX_def)

lemma commands_of_paragraph [simp]: "commands_of (symlink_paragraph link target) = []"
  by (simp add: symlink_paragraph_def)

lemma commands_of_intro [simp]: "commands_of replay_paragraph = []"
  by (simp add: replay_paragraph_def)

text \<open>The operands that pass their check stay on one line.\<close>

lemma unquotable_one_line: "\<not> has_unquotable s \<Longrightarrow> one_line s"
proof -
  have "(of_char nl :: nat) < 32" by simp
  then show "\<not> has_unquotable s \<Longrightarrow> one_line s"
    unfolding has_unquotable_def one_line_def list_ex_iff by blast
qed

lemma bare_token_one_line: "bare_token_fault t = None \<Longrightarrow> one_line t"
proof -
  have "\<not> is_bare_char nl" by code_simp
  then show "bare_token_fault t = None \<Longrightarrow> one_line t"
    by (auto simp: bare_token_fault_def one_line_def list_all_iff split: if_splits)
qed

lemma fault_Nil: "fault f v r = [] \<longleftrightarrow> r = None"
  by (simp add: fault_def split: option.split)

lemma spec_fault_one_line: "spec_fault s = None \<Longrightarrow> one_line s"
  by (auto simp: spec_fault_def intro: unquotable_one_line split: if_splits)

lemma operand_fault_one_line: "equivalence_operand_fault s = None \<Longrightarrow> one_line s"
  by (auto simp: equivalence_operand_fault_def intro: unquotable_one_line split: if_splits)

lemma file_flag_one_line: "list_all one_line (file_flag ft)"
  by (cases ft) (simp_all add: file_flag_def line_simps)

lemma one_line_words: "list_all one_line ls \<Longrightarrow> one_line (str_join '' '' ls)"
  by (rule one_line_join) (simp_all add: line_simps list_all_iff)

lemma delete_one_line: "one_line (rule1_delete ft)"
  by (cases ft) (simp_all add: rule1_delete_def file_flag_def line_simps)

lemma add_modify_one_line:
  assumes "is_renderable rule" "replay_of rule = Some rp"
  shows "one_line (rule1_add_modify (rr_file_type rp) (rr_context rp))" "one_line (rr_spec rp)"
proof -
  have "list_all one_line (file_flag ft @ (case c of
      Some ctx \<Rightarrow> (case level_shown ctx of None \<Rightarrow> [] | Some level \<Rightarrow> [''-r '' @ level]) @
        (if sc_user ctx \<noteq> DEFAULT_USER then [''-s '' @ sc_user ctx] else []) @ [''-t '' @ sc_type ctx]
    | None \<Rightarrow> [''-t '' @ quote1 ''<<none>>'']))"
    if "rr_file_type rp = ft" "rr_context rp = c" for ft c
    using assms that file_flag_one_line [of ft]
    by (cases rule) (auto simp: is_renderable_def fault_Nil line_simps
        dest: bare_token_one_line split: option.splits if_splits)
  then show "one_line (rule1_add_modify (rr_file_type rp) (rr_context rp))"
    unfolding rule1_add_modify_def by (intro one_line_words) blast
  show "one_line (rr_spec rp)"
    using assms by (cases rule) (auto simp: is_renderable_def fault_Nil dest: spec_fault_one_line)
qed

lemma str_lines_pair:
  assumes "one_line a" "one_line b" "b \<noteq> []" "a \<noteq> []" "last a \<noteq> CHR 0x0D"
  shows "str_lines (a @ nl # b) = [a, b]"
proof -
  have lf: "lines_from acc (a @ nl # s) = strip_cr (rev acc @ a) # lines_from [] s" if "one_line a" for acc a s
    using that by (induction a arbitrary: acc) (simp_all add: line_simps)
  have l1: "lines_from acc b = (if acc @ b = [] then [] else [rev acc @ b])" if "one_line b" for acc b
    using that by (induction b arbitrary: acc) (simp_all add: line_simps)
  show ?thesis
    using assms by (simp add: str_lines_def lf [OF assms(1)] l1 [OF assms(2)] strip_cr_def)
qed

definition command_block :: "string list \<Rightarrow> bool" where
  "command_block ls \<longleftrightarrow> ls \<noteq> [] \<and> list_all one_line ls \<and> commands_of ls = ls"

lemma command_block_lines: "command_block ls \<Longrightarrow> command_lines (str_join [nl] ls) = ls"
  by (simp add: command_block_def command_lines_join)

lemma guard_block: "list_all one_line RULE1_GUARD_LINES \<and> commands_of RULE1_GUARD_LINES = RULE1_GUARD_LINES"
  by (simp add: RULE1_GUARD_LINES_def line_simps)

lemma rule1_block:
  assumes "one_line spec" "one_line delete" "one_line args"
  shows "command_block (rule1_lines spec delete args)"
proof -
  let ?a = "''      semanage fcontext -a '' @ args @ '' '' @ [CHR 0x22] @ ''$spec'' @ [CHR 0x22] @ '' '' @ [CHR 0x5C]"
  let ?b = "''      || semanage fcontext -m '' @ args @ '' '' @ [CHR 0x22] @ ''$spec'' @ [CHR 0x22] @ ''; fi''"
  have lines: "str_lines (?a @ nl # ?b) = [?a, ?b]"
    using assms(3) by (intro str_lines_pair) (simp_all add: line_simps)
  have "rule1_lines spec delete args =
      [''RUN spec='' @ quote1 spec @ ''; '' @ [CHR 0x5C]] @ RULE1_GUARD_LINES @
      [''    else semanage fcontext -d'' @ delete @ '' '' @ [CHR 0x22] @ ''$spec'' @ [CHR 0x22] @
       '' 2>/dev/null || true; '' @ [CHR 0x5C]] @ [?a, ?b]"
    using lines by (simp add: rule1_lines_def)
  then show ?thesis
    using assms guard_block by (simp add: command_block_def line_simps)
qed

lemma rule2_block: "one_line subject \<Longrightarrow> one_line like \<Longrightarrow> command_block (rule2_lines subject like)"
  by (simp add: command_block_def rule2_lines_def line_simps)

lemma replay_block: "is_renderable rule \<Longrightarrow> replay_of rule = Some rp \<Longrightarrow> command_block (replay_lines rp)"
  unfolding replay_lines_def by (intro rule1_block add_modify_one_line delete_one_line)

section \<open>The relation of the loops\<close>

definition settled :: "equivalence list \<Rightarrow> bool" where
  "settled es \<longleftrightarrow> (\<forall>e \<in> set es. settle_entry e = e)"

lemma emitted_entry:
  assumes "settle_entry e = e" "entry_ok e" "eq_not_emitted e = None"
  shows "\<exists>s l. equivalence_pair (eq_rule e) = Some (s, l) \<and> command_block (rule2_lines s l)"
proof -
  have "eq_not_emitted (settle_entry e) = None" using assms(1,3) by simp
  then have "is_renderable (eq_rule e)"
    by (auto simp: settle_entry_def split: equivalence_origin.splits if_splits)
  moreover obtain s where "subject_of (eq_rule e) = Some s" using assms(2) by (auto simp: entry_ok_def)
  ultimately show ?thesis
    by (cases "eq_rule e")
      (auto simp: subject_of_def is_renderable_def fault_Nil intro!: rule2_block dest: operand_fault_one_line)
qed

definition agree :: "fc_loop \<Rightarrow> summary_loop \<Rightarrow> bool" where
  "agree st rs \<longleftrightarrow> snd rs = fl_emitted st \<and> commands_of (fl_rules st) = report_lines (fst rs) \<and>
     (fl_emits st \<longleftrightarrow> List.map_filter summary_command (fst rs) \<noteq> [])"

lemma report_lines_snoc [simp]:
  "report_lines (rows @ [r]) =
     report_lines rows @ (case summary_command r of None \<Rightarrow> [] | Some c \<Rightarrow> command_lines c)"
  by (simp add: report_lines_def map_filter_def split: option.split)

lemma map_filter_snoc_Nil:
  "List.map_filter summary_command (rows @ [r]) = [] \<longleftrightarrow>
     List.map_filter summary_command rows = [] \<and> summary_command r = None"
  by (simp add: map_filter_def split: option.split)

lemma skipped_command [simp]: "summary_command (skipped rule origin cause) = None"
  by (simp add: skipped_def summary_command_def)

lemma agree_skip:
  "agree st rs \<Longrightarrow> agree (push_rules (fixme_lines c) st) (fst rs @ [skipped rule origin cause], snd rs)"
  "agree st rs \<Longrightarrow> agree st (fst rs @ [skipped rule origin cause], snd rs)"
  by (simp_all add: agree_def push_rules_def map_filter_snoc_Nil)

lemma agree_emit:
  assumes "agree st rs" "entry_ok e" "settle_entry e = e" "equivalences ! i = e" "\<not> fl_emitted st ! i"
  shows "\<exists>row. equivalence_row rule e (snd rs ! i) = Some row \<and>
     agree (emit_equivalence equivalences i st) (fst rs @ [row], (snd rs)[i := True])"
proof (cases "eq_not_emitted e")
  case None
  then obtain s l where p: "equivalence_pair (eq_rule e) = Some (s, l)" "command_block (rule2_lines s l)"
    using emitted_entry assms(2,3) by blast
  have "\<not> snd rs ! i" using assms(1,5) by (simp add: agree_def)
  then show ?thesis
    using assms p None
    by (auto simp: equivalence_row_def agree_def emit_equivalence_def entry_lines_def entry_emits_def
        map_filter_snoc_Nil summary_command_def command_block_lines command_block_def
        split: equivalence_origin.split)
next
  case (Some c)
  then show ?thesis
    using assms by (auto simp: equivalence_row_def agree_def emit_equivalence_def entry_lines_def entry_emits_def
        map_filter_snoc_Nil)
qed

lemma agree_again:
  assumes "agree st rs" "entry_ok e" "settle_entry e = e" "equivalences ! i = e" "fl_emitted st ! i" "i < length (fl_emitted st)"
  shows "\<exists>row. equivalence_row rule e (snd rs ! i) = Some row \<and>
     agree (emit_equivalence equivalences i st) (fst rs @ [row], (snd rs)[i := True])"
proof -
  have shown: "snd rs ! i" "(snd rs)[i := True] = snd rs"
    using assms(1,5,6) by (auto simp: agree_def list_update_same_conv)
  then show ?thesis
    using assms(1,5) by (cases "eq_not_emitted e")
      (auto simp: equivalence_row_def emit_equivalence_def intro: agree_skip(2))
qed

lemma agree_row:
  assumes "agree st rs" "entries_ok es" "settled es" "i < length es" "length (fl_emitted st) = length es"
  shows "\<exists>row. equivalence_row rule (es ! i) (snd rs ! i) = Some row \<and>
     agree (emit_equivalence es i st) (fst rs @ [row], (snd rs)[i := True])"
proof -
  have "entry_ok (es ! i)" "settle_entry (es ! i) = es ! i"
    using assms(2-4) by (auto simp: entries_ok_def settled_def)
  then show ?thesis using agree_emit agree_again assms(1,4,5) by metis
qed

lemma emit_length [simp]: "length (fl_emitted (emit_equivalence es i st)) = length (fl_emitted st)"
  by (simp add: emit_equivalence_def)

lemma step_length [simp]: "length (fl_emitted (fcontext_step es st rule)) = length (fl_emitted st)"
  by (simp add: fcontext_step_def push_rules_def emit_at_def Let_def split: option.split)

lemma entry_of_bound: "entry_of es p = Some i \<Longrightarrow> i < length es"
  by (simp add: entry_of_def find_pos_Some)

lemma synthesis_bound: "synthesis_entry es spec = Some i \<Longrightarrow> i < length es"
  by (auto simp: synthesis_entry_def dest: entry_of_bound split: Option.bind_splits)

lemma unparsed_no_replay: "replay_of rule = Some rp \<Longrightarrow> \<not> is_unparsed rule"
  by (cases rule) auto

lemma agree_synthesis:
  assumes "agree st rs" "entries_ok es" "settled es" "length (fl_emitted st) = length es"
  shows "\<exists>rs'. (case synthesis_entry es spec of
          None \<Rightarrow> Some rs
        | Some idx \<Rightarrow>
            if snd rs ! idx then Some rs
            else push_row (equivalence_row (eq_rule (es ! idx)) (es ! idx) False) idx rs) = Some rs' \<and>
     agree (emit_at es (synthesis_entry es spec) st) rs'"
proof (cases "synthesis_entry es spec")
  case None
  then show ?thesis using assms(1) by (simp add: emit_at_def)
next
  case (Some i)
  show ?thesis
  proof (cases "fl_emitted st ! i")
    case True
    then show ?thesis using Some assms(1) by (simp add: emit_at_def emit_equivalence_def agree_def)
  next
    case False
    then show ?thesis
      using agree_row [OF assms(1-3) synthesis_bound [OF Some] assms(4), of "eq_rule (es ! i)"] Some assms(1)
      by (auto simp: emit_at_def push_row_def agree_def)
  qed
qed

lemma agree_replay:
  assumes "agree st rs" "command_block (replay_lines rp)"
  shows "agree ((push_rules (replay_lines rp) st)\<lparr>fl_emits := True\<rparr>)
     (fst rs @ [\<lparr> su_rule = rule, su_origin = None, su_action = Emits (str_join [nl] (replay_lines rp)) \<rparr>], snd rs)"
  using assms by (simp add: agree_def push_rules_def map_filter_snoc_Nil summary_command_def command_block_lines)
    (simp add: command_block_def)

lemma agree_step:
  assumes "agree st rs" "entries_ok es" "settled es" "length (fl_emitted st) = length es"
  shows "\<exists>rs'. summary_step es rs rule = Some rs' \<and> agree (fcontext_step es st rule) rs'"
proof (cases "is_unparsed rule \<or> \<not> rule_included rule")
  case True
  then show ?thesis
    using assms(1) agree_skip by (auto simp: summary_step_def fcontext_step_def)
next
  case False
  show ?thesis
  proof (cases "replay_of rule")
    case None
    show ?thesis
    proof (cases "entry_of es (\<lambda>row. row = rule)")
      case (Some i)
      then show ?thesis
        using agree_row [OF assms(1-3) entry_of_bound [OF Some] assms(4), of rule] False None
        by (auto simp: summary_step_def fcontext_step_def emit_at_def push_row_def)
    qed (use False None assms(1) in \<open>simp add: summary_step_def fcontext_step_def emit_at_def\<close>)
  next
    case rp: (Some rp)
    show ?thesis
    proof (cases "collision es rule")
      case (Some cause)
      then show ?thesis
        using assms(1) agree_skip(1) False rp by (simp add: summary_step_def fcontext_step_def)
    next
      case None
      then have "is_renderable rule" by (auto simp: collision_def split: if_splits)
      then have block: "command_block (replay_lines rp)" using replay_block rp by blast
      obtain rs' where "agree (emit_at es (synthesis_entry es (rr_spec rp)) st) rs'"
        "(case synthesis_entry es (rr_spec rp) of
            None \<Rightarrow> Some rs
          | Some idx \<Rightarrow>
              if snd rs ! idx then Some rs
              else push_row (equivalence_row (eq_rule (es ! idx)) (es ! idx) False) idx rs) = Some rs'"
        using agree_synthesis [OF assms] by blast
      then show ?thesis
        using agree_replay [OF _ block, of _ rs' rule] None rp False
        by (auto simp: summary_step_def fcontext_step_def Let_def)
    qed
  qed
qed

lemma agree_run:
  assumes "agree st rs" "entries_ok es" "settled es" "length (fl_emitted st) = length es"
  shows "\<exists>rs'. run_panics (summary_step es) rs rules = Some rs' \<and> agree (foldl (fcontext_step es) st rules) rs'"
  using assms
proof (induction rules arbitrary: st rs)
  case (Cons rule rules)
  obtain rs1 where s: "summary_step es rs rule = Some rs1" "agree (fcontext_step es st rule) rs1"
    using agree_step [OF Cons.prems] by blast
  have "length (fl_emitted (fcontext_step es st rule)) = length es" using Cons.prems(4) by simp
  from Cons.IH [OF s(2) Cons.prems(2,3) this] s(1) show ?case by simp
qed simp

section \<open>The entries a run reaches\<close>

definition reaches :: "equivalence list \<Rightarrow> fcontext_rule \<Rightarrow> nat \<Rightarrow> bool" where
  "reaches es rule i \<longleftrightarrow> rule_included rule \<and>
     (case replay_of rule of
        None \<Rightarrow> \<not> is_unparsed rule \<and> entry_of es (\<lambda>row. row = rule) = Some i
      | Some rp \<Rightarrow> collision es rule = None \<and> synthesis_entry es (rr_spec rp) = Some i)"

lemma emit_keeps: "fl_emitted st ! i \<Longrightarrow> fl_emitted (emit_equivalence es j st) ! i"
  by (cases "i = j"; cases "j < length (fl_emitted st)") (auto simp: emit_equivalence_def nth_list_update)

lemma step_keeps: "fl_emitted st ! i \<Longrightarrow> fl_emitted (fcontext_step es st rule) ! i"
  by (auto simp: fcontext_step_def push_rules_def emit_at_def Let_def emit_keeps split: option.split)

lemma run_keeps: "fl_emitted st ! i \<Longrightarrow> fl_emitted (foldl (fcontext_step es) st rules) ! i"
  by (induction rules arbitrary: st) (auto intro: step_keeps)

lemma emit_reaches: "i < length (fl_emitted st) \<Longrightarrow> fl_emitted (emit_equivalence es i st) ! i"
  by (simp add: emit_equivalence_def)

lemma step_reaches:
  assumes "reaches es rule i" "i < length (fl_emitted st)"
  shows "fl_emitted (fcontext_step es st rule) ! i"
  using assms emit_reaches [of i st es] unparsed_no_replay [of rule]
  by (auto simp: reaches_def fcontext_step_def push_rules_def emit_at_def Let_def split: option.splits)

lemma run_reaches:
  assumes "rule \<in> set rules" "reaches es rule i" "i < length (fl_emitted st)"
  shows "fl_emitted (foldl (fcontext_step es) st rules) ! i"
  using assms(1,3)
proof (induction rules arbitrary: st)
  case (Cons r rules)
  show ?case
  proof (cases "r = rule")
    case True
    then show ?thesis using step_reaches [OF assms(2) Cons.prems(2)] run_keeps by simp
  next
    case False
    then show ?thesis using Cons by simp
  qed
qed simp

end
