(* ===== verification/FcontextProperties.thy ===== *)
theory FcontextProperties
  imports FcontextReports
begin

text \<open>
  The build and the reports say the same about the file contexts, and the one layout where they do
  not.
\<close>

section \<open>Every emitted entry is reached\<close>

lemma equivalence_no_replay: "equivalence_pair r = Some sl \<Longrightarrow> replay_of r = None \<and> \<not> is_unparsed r"
  by (cases r) auto

lemma own_rule_reaches:
  assumes "entries_ok es" "i < length es" "rule_included (eq_rule (es ! i))"
  shows "reaches es (eq_rule (es ! i)) i"
proof -
  have ok: "entry_ok (es ! i)" using assms(1,2) by (auto simp: entries_ok_def)
  then obtain sl where "equivalence_pair (eq_rule (es ! i)) = Some sl"
    by (auto simp: entry_ok_def subject_of_def)
  moreover have "entry_of es (\<lambda>row. row = eq_rule (es ! i)) = Some i"
    using entry_of_row [OF assms(1,2), of "eq_rule (es ! i)" "\<lambda>row. row = eq_rule (es ! i)"] ok
    by (simp add: entry_ok_def)
  ultimately show ?thesis
    using assms(3) by (auto simp: reaches_def dest: equivalence_no_replay)
qed

lemma with_synthesis_entries:
  assumes "e \<in> set (with_synthesis rules)"
  shows "eq_rule e \<in> set rules \<and> rule_included (eq_rule e) \<or>
     e = synth_entry rules \<and> with_synthesis rules = collected_entries rules @ [synth_entry rules] \<and>
     filter (\<lambda>r. triggers_synthesis r ''/srv'') rules \<noteq> []"
proof (cases "find_pos (claims ''/var/srv'') (collected_entries rules)")
  case None
  then show ?thesis
    using assms collected_rules by (auto simp: with_synthesis_def absorb_or_push_def split: if_splits)
next
  case (Some i)
  then have i: "i < length (collected_entries rules)" by (simp add: find_pos_Some)
  let ?a = "absorb synth_rule (collected_entries rules ! i)"
  have "eq_rule e \<in> eq_rule ` set (collected_entries rules)"
    using assms Some i set_update_subset_insert [of "collected_entries rules" i ?a]
    by (auto simp: with_synthesis_def absorb_or_push_def split: if_splits)
  then show ?thesis using collected_rules by auto
qed

lemma begins_one_root: "begins_with_toplevel spec ''/srv'' \<Longrightarrow> \<not> begins_with_toplevel spec ''/var/srv''"
  by (auto simp: begins_with_toplevel_def strip_prefix_Some split: option.splits)

lemma emitted_pairs_snoc:
  "emitted_pairs (es @ [e]) = emitted_pairs es @
     (if eq_not_emitted e = None then (case equivalence_pair (eq_rule e) of None \<Rightarrow> [] | Some p \<Rightarrow> [p]) else [])"
  by (simp add: emitted_pairs_def map_filter_def split: option.split)

lemma collected_settled: "map settle_entry (collected_entries rules) = collected_entries rules"
  by (simp add: collected_entries_def comp_def)

lemma find_snoc: "List.find p (xs @ [x]) = (case List.find p xs of None \<Rightarrow> if p x then Some x else None | Some y \<Rightarrow> Some y)"
  by (induction xs) auto

lemma collision_with_synthesis:
  assumes "collision (collected_entries rules) r = None" "triggers_synthesis r ''/srv''"
    and "equivalence_pair (eq_rule e) = Some (''/var/srv'', ''/srv'')"
  shows "collision (collected_entries rules @ [e]) r = None"
proof -
  obtain rp where "replay_of r = Some rp" "begins_with_toplevel (rr_spec rp) ''/srv''"
    using assms(2) by (auto simp: triggers_synthesis_def split: option.splits)
  then show ?thesis
    using assms(1,3) begins_one_root [of "rr_spec rp"]
    by (auto simp: collision_def emitted_pairs_snoc find_snoc split: option.splits if_splits)
qed

lemma synth_settled:
  "settle_entry (synth_entry rules) = synth_entry rules"
proof -
  have "is_renderable synth_rule" by code_simp
  then show ?thesis by (simp add: settle_entry_def synth_entry_def)
qed

lemma synthesis_reached:
  assumes "no_inversion rules" "with_synthesis rules = collected_entries rules @ [synth_entry rules]"
    and "eq_not_emitted (synth_entry rules) = None"
  shows "\<exists>rule \<in> set rules. reaches (equivalences_of rules) rule (length (collected_entries rules))"
proof -
  let ?es = "equivalences_of rules" and ?n = "length (collected_entries rules)"
  have es: "?es = collected_entries rules @ [synth_entry rules]"
    by (simp add: equivalences_no_inversion [OF assms(1)] assms(2) collected_settled synth_settled)
  obtain r where r: "r \<in> set rules" "triggers_synthesis r ''/srv''" "collision (collected_entries rules) r = None"
    using assms(3) by (auto simp: synth_entry_def list_ex_iff split: if_splits)
  then have c: "collision ?es r = None"
    unfolding es by (intro collision_with_synthesis) (simp_all add: synth_entry_def synth_rule_def)
  obtain rp where rp: "replay_of r = Some rp" "rule_included r" "begins_with_toplevel (rr_spec rp) ''/srv''"
    using r(2) by (auto simp: triggers_synthesis_def split: option.splits)
  have "entry_of ?es (\<lambda>row. subject_of row = Some ''/var/srv'') = Some ?n"
    by (rule entry_of_row [OF equivalences_ok [OF assms(1)], where r = synth_rule])
      (simp_all add: es rows_of_def synth_entry_def synth_rule_def subject_of_def)
  moreover have "var_symlink_target (rr_spec rp) = Some ''/var/srv''"
    using rp(3) by (simp add: var_symlink_target_def VAR_SYMLINKED_TOPLEVELS_def)
  ultimately have "reaches ?es r ?n"
    using rp c by (simp add: reaches_def synthesis_entry_def)
  then show ?thesis using r(1) by blast
qed

lemma emitted_reached:
  assumes "no_inversion rules" "i < length (equivalences_of rules)"
    and "eq_not_emitted (equivalences_of rules ! i) = None"
  shows "\<exists>rule \<in> set rules. reaches (equivalences_of rules) rule i"
proof -
  let ?ws = "with_synthesis rules"
  have es: "equivalences_of rules = map settle_entry ?ws" by (rule equivalences_no_inversion [OF assms(1)])
  have i: "i < length ?ws" "equivalences_of rules ! i = settle_entry (?ws ! i)" using assms(2) by (simp_all add: es)
  from with_synthesis_entries [of "?ws ! i" rules] i(1) consider
    (own) "eq_rule (?ws ! i) \<in> set rules" "rule_included (eq_rule (?ws ! i))"
  | (synth) "?ws ! i = synth_entry rules" "?ws = collected_entries rules @ [synth_entry rules]" by auto
  then show ?thesis
  proof cases
    case own
    then show ?thesis
      using own_rule_reaches [OF equivalences_ok [OF assms(1)] assms(2)] i(2) by auto
  next
    case synth
    have "eq_not_emitted (synth_entry rules) = None" using assms(3) i(2) synth(1) by (simp add: synth_settled)
    then have "\<exists>rule \<in> set rules. reaches (equivalences_of rules) rule (length (collected_entries rules))"
      using synthesis_reached assms(1) synth(2) by blast
    moreover have "i = length (collected_entries rules)"
    proof (rule ccontr)
      assume "i \<noteq> length (collected_entries rules)"
      then have "i < length (collected_entries rules)" using i(1) synth(2) by simp
      moreover have "?ws ! length (collected_entries rules) = synth_entry rules" using synth(2) by simp
      moreover have "length (collected_entries rules) < length ?ws" using synth(2) by simp
      ultimately show False
        using with_synthesis_ok [of rules] synth(1) i(1)
          nth_eq_iff_index_eq [of "map (\<lambda>e. subject_of (eq_rule e)) ?ws" i "length (collected_entries rules)"]
        by (simp add: entries_ok_def)
    qed
    ultimately show ?thesis by simp
  qed
qed

section \<open>Agreement\<close>

lemma refused_rows:
  assumes "\<And>e. e \<in> set es \<Longrightarrow> eq_not_emitted e \<noteq> None"
  shows "\<exists>rows. map_panics (\<lambda>entry. equivalence_row (eq_rule entry) entry False) es = Some rows \<and>
     List.map_filter summary_command rows = []"
  using assms
proof (induction es)
  case (Cons e es)
  then obtain c where "eq_not_emitted e = Some c" by fastforce
  then show ?case using Cons by (fastforce simp: equivalence_row_def map_filter_def)
qed (simp add: map_filter_def)

text \<open>C18. The reports say what the build does. Take any snapshot in which no included rule maps \<open>/srv\<close> to
  \<open>/var/srv\<close>, the inverse of the base's own layout. Then the rows of the reports are produced
  without a panic, and the command lines of the Containerfile's file context block, its comments
  left out, are exactly the lines of the commands the reports list, in the same order. Nothing is
  reported as applied that the build does not run, and nothing runs that is not reported. The tool
  \<open>semanage\<close> is asked for exactly when there is such a command.
\<close>

theorem fcontext_reports_agree:
  assumes "snap_selinux snap = Some sel" "no_inversion (sel_fcontext_rules sel)"
  shows "\<exists>rows. fcontext_summaries snap = Some rows \<and>
     commands_of (fr_rules (render_fcontext_rules snap)) = report_lines rows \<and>
     (fr_emits_command (render_fcontext_rules snap) \<longleftrightarrow> List.map_filter summary_command rows \<noteq> [])"
proof -
  let ?rules = "sel_fcontext_rules sel"
  let ?es = "equivalences_of ?rules"
  let ?st = "foldl (fcontext_step ?es) (fc_start ?es) ?rules"
  have es: "selinux_equivalences snap = ?es" using assms(1) by (simp add: selinux_equivalences_def)
  have ok: "entries_ok ?es" using assms(2) by (rule equivalences_ok)
  have settled: "settled ?es" by (auto simp: settled_def equivalences_of_def)
  have start: "agree (fc_start ?es) ([], replicate (length ?es) False)" "length (fl_emitted (fc_start ?es)) = length ?es"
    by (simp_all add: agree_def fc_start_def report_lines_def map_filter_def)
  from agree_run [OF start(1) ok settled start(2), of ?rules] obtain rows shown where
    run: "run_panics (summary_step ?es) ([], replicate (length ?es) False) ?rules = Some (rows, shown)"
      "agree ?st (rows, shown)" by fastforce
  have len: "length (fl_emitted st) = length (fl_emitted (foldl (fcontext_step ?es) st rs))" for st rs
    by (induction rs arbitrary: st) simp_all
  have refused: "eq_not_emitted e \<noteq> None" if e: "e \<in> set (map fst (filter (\<lambda>(_, s). \<not> s) (zip ?es shown)))" for e
  proof -
    obtain i where i: "i < length ?es" "e = ?es ! i" "\<not> shown ! i"
      using e by (auto simp: in_set_zip)
    then have "\<not> fl_emitted ?st ! i" using run(2) by (simp add: agree_def)
    then have "\<not> (\<exists>rule \<in> set ?rules. reaches ?es rule i)"
      using run_reaches [of _ ?rules ?es i "fc_start ?es"] i(1) start(2) by auto
    then show ?thesis using emitted_reached [OF assms(2) i(1)] i(2) by auto
  qed
  from refused_rows [of "map fst (filter (\<lambda>(_, s). \<not> s) (zip ?es shown))"] refused obtain more where
    more: "unshown_rows ?es shown = Some more" "List.map_filter summary_command more = []"
    unfolding unshown_rows_def by blast
  have "fcontext_summaries snap = Some (rows @ more)"
    using assms(1) run(1) more(1) by (simp add: fcontext_summaries_def es Let_def)
  moreover have "report_lines (rows @ more) = report_lines rows"
    "List.map_filter summary_command (rows @ more) = List.map_filter summary_command rows"
    using more(2) by (simp_all add: report_lines_def map_filter_def)
  ultimately show ?thesis
    using run(2) assms(1) by (simp add: render_fcontext_rules_def es Let_def agree_def)
qed

definition srv_label :: fcontext_rule where
  "srv_label = Label ''/srv/www(/.*)?'' FcAll
     \<lparr> sc_user = ''system_u'', sc_role = ''object_r'', sc_type = ''httpd_sys_content_t'', sc_level = Some ''s0'' \<rparr>
     fk_included None"

definition fc_section :: "fcontext_rule list \<Rightarrow> selinux_section" where
  "fc_section rules = \<lparr> sel_mode = ''enforcing'', sel_custom_modules = [],
     sel_boolean_overrides = [], sel_fcontext_rules = rules, sel_fcontext_source = PolicyStore,
     sel_fips_mode = False, sel_port_labels = [] \<rparr>"

definition fc_snap :: "fcontext_rule list \<Rightarrow> inspection_snapshot" where
  "fc_snap rules = snapshot_new\<lparr>snap_selinux := Some (fc_section rules)\<rparr>"

lemma fc_snap_section [simp]: "snap_selinux (fc_snap rules) = Some (fc_section rules)"
  by (simp add: fc_snap_def)

lemma fc_section_rules [simp]: "sel_fcontext_rules (fc_section rules) = rules"
  by (simp add: fc_section_def)

lemma srv_label_no_inversion: "no_inversion [srv_label]"
  by (simp add: no_inversion_def srv_label_def VAR_SYMLINKED_TOPLEVELS_def)

theorem fcontext_reports_agree_witness:
  "\<exists>rows. fcontext_summaries (fc_snap [srv_label]) = Some rows \<and>
     commands_of (fr_rules (render_fcontext_rules (fc_snap [srv_label]))) = report_lines rows \<and>
     (fr_emits_command (render_fcontext_rules (fc_snap [srv_label])) \<longleftrightarrow>
        List.map_filter summary_command rows \<noteq> [])"
  by (rule fcontext_reports_agree [where sel = "fc_section [srv_label]"])
    (simp_all add: srv_label_no_inversion)

section \<open>An inverted row\<close>

text \<open>
  With the inverse row and the row the renderer would add itself, the second is folded into the
  conflict of the first and never emitted, while the reports list its command as applied.
\<close>

definition srv_to_var :: fcontext_rule where
  "srv_to_var = Equivalence ''/srv'' ''/var/srv'' fk_included None"

definition var_to_srv :: fcontext_rule where
  "var_to_srv = Equivalence ''/var/srv'' ''/srv'' fk_included None"

lemma inverted_renderable: "is_renderable srv_to_var"
  by code_simp

lemma inverted_renderable2: "is_renderable var_to_srv"
  by code_simp

lemma srv_to_var_facts [simp]:
  "rule_included srv_to_var" "equivalence_pair srv_to_var = Some (''/srv'', ''/var/srv'')"
  "subject_of srv_to_var = Some ''/srv''" "replay_of srv_to_var = None" "\<not> is_unparsed srv_to_var"
  by (simp_all add: srv_to_var_def rule_included_def fk_included_def subject_of_def)

lemma var_to_srv_facts [simp]:
  "rule_included var_to_srv" "equivalence_pair var_to_srv = Some (''/var/srv'', ''/srv'')"
  "subject_of var_to_srv = Some ''/var/srv''" "replay_of var_to_srv = None" "\<not> is_unparsed var_to_srv"
  "Equivalence ''/var/srv'' ''/srv'' fk_included None = var_to_srv" "srv_to_var \<noteq> var_to_srv" "var_to_srv \<noteq> srv_to_var"
  by (simp_all add: var_to_srv_def srv_to_var_def rule_included_def fk_included_def subject_of_def)

lemma inverted_equivalences:
  "equivalences_of [srv_to_var, var_to_srv] =
     [\<lparr> eq_rule = srv_to_var, eq_origin = Conflict [srv_to_var, var_to_srv],
        eq_not_emitted = Some (conflict_cause [srv_to_var, var_to_srv]) \<rparr>,
      \<lparr> eq_rule = var_to_srv, eq_origin = Collected, eq_not_emitted = None \<rparr>]"
  using inverted_renderable inverted_renderable2
  by (simp add: equivalences_of_def collected_entries_def collect_step_def synthesize_def settle_entry_def
      VAR_SYMLINKED_TOPLEVELS_def absorb_or_push_def claims_def absorb_def)

lemma inverted_not_run:
  "snap_selinux snap = Some (fc_section [srv_to_var, var_to_srv]) \<Longrightarrow>
     fr_emits_command (render_fcontext_rules snap) = False"
  by (simp add: render_fcontext_rules_def selinux_equivalences_def inverted_equivalences Let_def fc_start_def
      fcontext_step_def entry_of_def rows_of_def emit_at_def push_rules_def emit_equivalence_def entry_emits_def)

lemma inverted_reported:
  "snap_selinux snap = Some (fc_section [srv_to_var, var_to_srv]) \<Longrightarrow>
     map_option (List.map_filter summary_command) (fcontext_summaries snap) =
       Some [str_join [nl] (rule2_lines ''/var/srv'' ''/srv'')]"
  by (simp add: fcontext_summaries_def selinux_equivalences_def inverted_equivalences Let_def
      summary_step_def entry_of_def rows_of_def push_row_def equivalence_row_def unshown_rows_def
      skipped_def summary_command_def map_filter_def)

end
