(* ===== verification/LanguageRender.thy ===== *)
theory LanguageRender
  imports DnfLines PathParts Normalize
begin

text \<open>
  The language environments of the Containerfile (\<open>crates/pipeline/src/render/language_packages.rs\<close>):
  the pip, npm and gem blocks. The short hash of a path (\<open>env_hash\<close>, SHA-256 in hex) is a parameter.
  \<open>quote1\<close> writes the single quotes of the source.
\<close>

section \<open>Environments\<close>

text \<open>The detection methods of an item are in \<^theory_text>\<open>Normalize\<close>, which shares them.\<close>

definition rsplit_dot :: "string \<Rightarrow> (string \<times> string) option" where
  "rsplit_dot s = map_option (\<lambda>(a, b). (rev b, rev a)) (split_once (CHR ''.'') (rev s))"

definition collect_rpm_names :: "inspection_snapshot \<Rightarrow> string list" where
  "collect_rpm_names snap =
     (case snap_rpm snap of
        None \<Rightarrow> []
      | Some rpm \<Rightarrow>
          map (\<lambda>p. case rsplit_dot (pe_name p) of None \<Rightarrow> pe_name p | Some (name, _) \<Rightarrow> name)
            (rpm_packages_added rpm))"

definition has_runtime :: "string list \<Rightarrow> string \<Rightarrow> bool" where
  "has_runtime rpm_names runtime \<longleftrightarrow> runtime \<in> set rpm_names"

definition pinned_package_list :: "non_rpm_item \<Rightarrow> string" where
  "pinned_package_list item =
     sanitize_for_comment (str_join '' '' (map
       (\<lambda>p. if lp_version p = [] then lp_name p else lp_name p @ ''=='' @ lp_version p) (nri_packages item)))"

definition UNSAFE_SHELL_CHARS :: "char list" where
  "UNSAFE_SHELL_CHARS = [CHR 0x27, CHR 0x0A, CHR '';'', CHR ''$'', CHR 0x60, CHR ''|'', CHR ''&'']"

definition contains_unsafe_chars :: "string \<Rightarrow> bool" where
  "contains_unsafe_chars s \<longleftrightarrow> list_ex (\<lambda>c. c \<in> set UNSAFE_SHELL_CHARS) s"

definition absolute_path :: "string \<Rightarrow> string" where
  "absolute_path stored_path = ''/'' @ trim_slashes stored_path"

definition runtime_warning :: "string list \<Rightarrow> string \<Rightarrow> string list" where
  "runtime_warning rpm_names runtime =
     (if \<not> has_runtime rpm_names runtime \<and> rpm_names \<noteq> []
      then [''# WARNING: '' @ runtime @ '' not found in RPM package list '' @ long_dash @ '' add it before this section'']
      else [])"

definition env_section :: "(non_rpm_item \<Rightarrow> string list) \<Rightarrow> string \<Rightarrow> non_rpm_item list \<Rightarrow> string list \<Rightarrow> string list" where
  "env_section render runtime items rpm_names =
     runtime_warning rpm_names runtime @ concat (map (\<lambda>item. [] # render item) items)"

definition HIGH_CONFIDENCE :: string where "HIGH_CONFIDENCE = ''high''"
definition MEDIUM_CONFIDENCE :: string where "MEDIUM_CONFIDENCE = ''medium''"

definition is_low :: "non_rpm_item \<Rightarrow> bool" where
  "is_low item \<longleftrightarrow> nri_confidence item \<noteq> HIGH_CONFIDENCE \<and> nri_confidence item \<noteq> MEDIUM_CONFIDENCE"

definition effective_confidence :: "non_rpm_item \<Rightarrow> string" where
  "effective_confidence item =
     (if \<not> is_included (nri_disposition item) then MEDIUM_CONFIDENCE else nri_confidence item)"

definition unsafe_path_line :: "string \<Rightarrow> string" where
  "unsafe_path_line path = ''# WARNING: path contains unsafe characters, skipping: '' @ sanitize_for_comment path"

definition low_line :: "string \<Rightarrow> string \<Rightarrow> string" where
  "low_line tool path = ''# '' @ tool @ '' packages: '' @ path @ '' (low confidence '' @ long_dash @ '' review required)''"

definition uncomment_line :: string where
  "uncomment_line = ''# Uncomment after verifying package list is complete:''"

section \<open>pip\<close>

definition c_extension_lines :: "non_rpm_item \<Rightarrow> string list" where
  "c_extension_lines item =
     (if nri_has_c_extensions item
      then [''# WARNING: This environment contains packages with C extensions that may need'',
            ''# native compilation toolchains (gcc, python3-devel).'']
      else [])"

definition venv_flags :: "non_rpm_item \<Rightarrow> string" where
  "venv_flags item = (if nri_system_site_packages item then ''--system-site-packages '' else '''')"

definition venv_lines :: "(string \<Rightarrow> string) \<Rightarrow> non_rpm_item \<Rightarrow> string list" where
  "venv_lines env_hash item =
     (let abs_path = absolute_path (nri_path item);
          venv_name = (case path_file_name abs_path of None \<Rightarrow> ''venv'' | Some n \<Rightarrow> n);
          req = quote1 (''/tmp/'' @ venv_name @ ''-requirements.txt'');
          fidelity = (if nri_rpm_filtered item then ''from requirements.txt, RPM-filtered''
            else ''from requirements.txt'')
      in [''# pip packages: '' @ abs_path @ '' ('' @ fidelity @ '')'',
          ''COPY language-packages/pip/'' @ env_hash (nri_path item) @ ''/requirements.txt '' @ req,
          ''RUN python3 -m venv '' @ venv_flags item @ quote1 abs_path @ '' '' @ backslash,
          ''    && '' @ quote1 abs_path @ ''/bin/pip install -r '' @ req @ '' '' @ backslash,
          ''    && rm '' @ req])"

definition venv_comment_lines :: "non_rpm_item \<Rightarrow> string list" where
  "venv_comment_lines item =
     (let abs_path = absolute_path (nri_path item); pkgs = pinned_package_list item in
      [''# pip packages: '' @ abs_path @ '' (detected via dist-info '' @ long_dash @ '' transitive deps may differ)'',
       uncomment_line,
       ''# RUN python3 -m venv '' @ venv_flags item @ quote1 abs_path @ '' '' @ backslash,
       ''#     && '' @ quote1 abs_path @ ''/bin/pip install '' @ (if pkgs = [] then ''<packages>'' else pkgs)])"

definition system_pip_lines :: "non_rpm_item \<Rightarrow> string list" where
  "system_pip_lines item =
     (let pkgs = pinned_package_list item;
          fidelity = (if nri_rpm_filtered item then ''detected via pip list, RPM-filtered''
            else ''detected via pip list'')
      in [''# pip packages: system ('' @ fidelity @ '')'', uncomment_line,
          ''# RUN pip install '' @ (if pkgs = [] then ''<packages>'' else pkgs)])"

definition render_pip_item :: "(string \<Rightarrow> string) \<Rightarrow> non_rpm_item \<Rightarrow> string list" where
  "render_pip_item env_hash item =
     (if is_low item then [low_line ''pip'' (nri_path item)]
      else
        let is_venv = (nri_method item = ''python venv'');
            has_requirements = (nri_manifest_files item ''requirements.txt'' \<noteq> None);
            abs_path = absolute_path (nri_path item)
        in c_extension_lines item @
           (if contains_unsafe_chars abs_path then [unsafe_path_line abs_path]
            else if is_venv \<and> has_requirements \<and> effective_confidence item = HIGH_CONFIDENCE
            then venv_lines env_hash item
            else if is_venv then venv_comment_lines item
            else system_pip_lines item))"

section \<open>npm\<close>

definition render_npm_item :: "(string \<Rightarrow> string) \<Rightarrow> non_rpm_item \<Rightarrow> string list" where
  "render_npm_item env_hash item =
     (let project_path = absolute_path (nri_path item); hash = env_hash (nri_path item) in
      if is_low item then [low_line ''npm'' project_path]
      else if contains_unsafe_chars project_path then [unsafe_path_line project_path]
      else
        let body =
          [''COPY language-packages/npm/'' @ hash @ ''/package.json '' @ quote1 project_path @ ''/package.json'',
           ''COPY language-packages/npm/'' @ hash @ ''/package-lock.json '' @ quote1 project_path @
             ''/package-lock.json'',
           ''RUN cd '' @ quote1 project_path @ '' && npm ci --production'']
        in if effective_confidence item = HIGH_CONFIDENCE
           then (''# npm packages: '' @ project_path @ '' (from package-lock.json)'') # body
           else [''# npm packages: '' @ project_path @ '' (detected via package-lock.json)'', uncomment_line] @
             map (\<lambda>l. ''# '' @ l) body)"

definition npm_operand :: "language_package \<Rightarrow> string option" where
  "npm_operand p =
     (if contains_unsafe_chars (lp_name p) \<or> contains_unsafe_chars (lp_version p) then None
      else if lp_pinned p \<and> lp_version p \<noteq> [] then Some (lp_name p @ ''@'' @ lp_version p)
      else Some (lp_name p))"

definition render_npm_global_item :: "non_rpm_item \<Rightarrow> string list" where
  "render_npm_global_item item =
     (let prefix = sanitize_for_comment (absolute_path (nri_path item));
          method_label = (if nri_confidence item = HIGH_CONFIDENCE then ''detected via npm list -g''
            else ''detected via directory walk'');
          operands = List.map_filter npm_operand (nri_packages item);
          rejected_count = length (nri_packages item) - length operands;
          pkg_list = str_join '' '' operands;
          title = ''# npm global packages: '' @ prefix @ '' ('' @ method_label @ '')''
      in (if rejected_count > 0
          then [''# WARNING: '' @ nat_str rejected_count @
            '' package(s) skipped due to unsafe characters in name/version''] else []) @
         (if effective_confidence item = HIGH_CONFIDENCE
          then [title] @
            (if nri_has_c_extensions item
             then [''# WARNING: environment contains native addons '' @ long_dash @
               '' build tools (gcc, node-gyp) may be needed''] else []) @
            [''RUN npm install -g '' @ pkg_list]
          else [title, ''# RUN npm install -g '' @ pkg_list]))"

section \<open>gem\<close>

definition render_gem_item :: "(string \<Rightarrow> string) \<Rightarrow> non_rpm_item \<Rightarrow> string list" where
  "render_gem_item env_hash item =
     (let project_path = absolute_path (nri_path item); hash = env_hash (nri_path item) in
      if is_low item then [low_line ''gem'' project_path]
      else if contains_unsafe_chars project_path then [unsafe_path_line project_path]
      else
        let body =
          [''COPY language-packages/gem/'' @ hash @ ''/Gemfile '' @ quote1 project_path @ ''/Gemfile'',
           ''COPY language-packages/gem/'' @ hash @ ''/Gemfile.lock '' @ quote1 project_path @ ''/Gemfile.lock'',
           ''RUN cd '' @ quote1 project_path @ '' && bundle config set --local deployment '' @ quote1 ''true'' @
             '' && bundle install'']
        in if effective_confidence item = HIGH_CONFIDENCE
           then (''# gem packages: '' @ project_path @ '' (from Gemfile.lock)'') # body
           else [''# gem packages: '' @ project_path @ '' (detected via Gemfile.lock)'', uncomment_line] @
             map (\<lambda>l. ''# '' @ l) body)"

section \<open>The section\<close>

definition section_if :: "non_rpm_item list \<Rightarrow> string list \<Rightarrow> string list" where
  "section_if items ls = (if items \<noteq> [] then ls else [])"

definition language_package_lines :: "(string \<Rightarrow> string) \<Rightarrow> inspection_snapshot \<Rightarrow> string list" where
  "language_package_lines env_hash snap =
     (case snap_non_rpm_software snap of
        None \<Rightarrow> []
      | Some nrs \<Rightarrow>
          let rpm_names = collect_rpm_names snap;
              pip_items = filter is_pip_env (nrs_items nrs);
              npm_items = filter is_npm_env (nrs_items nrs);
              npm_global_items = filter is_npm_global_env (nrs_items nrs);
              gem_items = filter is_gem_env (nrs_items nrs)
          in section_if pip_items (env_section (render_pip_item env_hash) ''python3'' pip_items rpm_names) @
             section_if npm_items (env_section (render_npm_item env_hash) ''nodejs'' npm_items rpm_names) @
             section_if npm_global_items
               (env_section render_npm_global_item ''nodejs'' npm_global_items rpm_names) @
             section_if gem_items (env_section (render_gem_item env_hash) ''rubygems'' gem_items rpm_names))"

section \<open>Facts\<close>

lemma safe_chars_one_line: "\<not> contains_unsafe_chars s \<Longrightarrow> one_line s"
proof -
  have "nl \<in> set UNSAFE_SHELL_CHARS" by code_simp
  then show "\<not> contains_unsafe_chars s \<Longrightarrow> one_line s"
    by (auto simp: contains_unsafe_chars_def one_line_def list_ex_iff)
qed

lemma unsafe_absolute: "contains_unsafe_chars (absolute_path p) \<longleftrightarrow> contains_unsafe_chars p"
proof -
  have "CHR ''/'' \<notin> set UNSAFE_SHELL_CHARS" by code_simp
  moreover have "set p \<subseteq> insert (CHR ''/'') (set (trim_slashes p))"
    using set_takeWhileD [of _ "\<lambda>c. c = CHR ''/''" p] takeWhile_dropWhile_id [of "\<lambda>c. c = CHR ''/''" p]
    unfolding trim_slashes_def by (metis UnE insertI1 insertI2 set_append subsetI)
  moreover have "set (trim_slashes p) \<subseteq> set p"
    by (simp add: trim_slashes_def set_dropWhileD subsetI)
  ultimately show ?thesis by (auto simp: contains_unsafe_chars_def absolute_path_def list_ex_iff)
qed

text \<open>A venv whose last component is odd keeps the quotes closed all the same.\<close>

lemma quoted_closed: "\<not> contains_unsafe_chars s \<Longrightarrow> CHR 0x27 \<notin> set s"
proof -
  have "CHR 0x27 \<in> set UNSAFE_SHELL_CHARS" by code_simp
  then show "\<not> contains_unsafe_chars s \<Longrightarrow> CHR 0x27 \<notin> set s"
    by (auto simp: contains_unsafe_chars_def list_ex_iff)
qed

end
