(* ===== verification/UnmanagedRender.thy ===== *)
theory UnmanagedRender
  imports RenderLines PathParts DnfLines
begin

text \<open>
  The unmanaged files of the Containerfile (\<open>crates/pipeline/src/render/unmanaged.rs\<close>): one block
  per parent directory, in the order of a \<open>BTreeMap\<close>, and the comment on what belongs to \<open>/var\<close>.
\<close>

definition shell_escape :: "string \<Rightarrow> string" where
  "shell_escape s = quote1 (replace_char (CHR 0x27) [CHR 0x27, CHR 0x5C, CHR 0x27, CHR 0x27] s)"

definition VAR_BACKED_SCAN_ROOT :: string where
  "VAR_BACKED_SCAN_ROOT = ''srv''"

datatype unmanaged_destination = DestImage | DestVarSrv

text \<open>\<open>Path::starts_with\<close> of one plain component, on a path with no leading slash: its first component.\<close>

definition destination_of :: "string \<Rightarrow> unmanaged_destination" where
  "destination_of path =
     (if hd (split_on (\<lambda>c. c = CHR ''/'') (trim_slashes path)) = VAR_BACKED_SCAN_ROOT then DestVarSrv
      else DestImage)"

definition unmanaged_items :: "inspection_snapshot \<Rightarrow> unmanaged_file list" where
  "unmanaged_items snap = (case snap_unmanaged_files snap of None \<Rightarrow> [] | Some s \<Rightarrow> ufs_items s)"

definition included_var_srv_paths :: "inspection_snapshot \<Rightarrow> string list" where
  "included_var_srv_paths snap =
     map uf_path (filter (\<lambda>f. is_included (uf_disposition f) \<and> destination_of (uf_path f) = DestVarSrv)
       (unmanaged_items snap))"

definition var_srv_comment_lines :: "string list \<Rightarrow> string list" where
  "var_srv_comment_lines paths =
     [''#'',
      ''# Not copied: /srv is a symlink to var/srv on bootc images, so content'',
      ''# there is machine-local data that belongs to the /var lifecycle, not'',
      ''# image content. A COPY would land in /var/srv once, on first boot, and'',
      ''# no later image update would change it. Carry it with your /var'',
      ''# strategy: restore it into /var/srv after deployment, or give it its'',
      ''# own mount. The files are in this export under unmanaged/srv/.''] @
     map (\<lambda>p. ''#   '' @ p) paths"

definition parent_key :: "unmanaged_file \<Rightarrow> string" where
  "parent_key f = (case path_parent (uf_path f) of None \<Rightarrow> ''/'' | Some p \<Rightarrow> p)"

definition copy_lines :: "string \<Rightarrow> unmanaged_file list \<Rightarrow> string list" where
  "copy_lines rel_dir regular =
     (if length regular > 1 then [''COPY unmanaged/'' @ rel_dir @ ''/ /'' @ rel_dir @ ''/'']
      else map (\<lambda>f. ''COPY unmanaged/'' @ trim_slashes (uf_path f) @ '' '' @ uf_path f) regular)"

definition symlink_line :: "unmanaged_file \<Rightarrow> string" where
  "symlink_line f =
     (if uf_link_target f = []
      then ''# SYMLINK: '' @ uf_path f @ '' -> unknown (recreate manually)''
      else ''RUN ln -sf '' @ shell_escape (uf_link_target f) @ '' '' @ shell_escape (uf_path f))"

definition dir_block :: "string \<times> unmanaged_file list \<Rightarrow> string list" where
  "dir_block df =
     copy_lines (trim_slashes (fst df)) (filter (\<lambda>f. uf_file_type f \<noteq> FtSymlink) (snd df)) @
     map symlink_line (filter (\<lambda>f. uf_file_type f = FtSymlink) (snd df))"

text \<open>\<open>entry(parent).or_default().push(file)\<close> on a \<open>BTreeMap\<close>.\<close>

definition btree_push :: "(string \<times> unmanaged_file list) list \<Rightarrow> unmanaged_file \<Rightarrow> (string \<times> unmanaged_file list) list" where
  "btree_push kvs f =
     btree_insert (parent_key f) ((case map_of kvs (parent_key f) of None \<Rightarrow> [] | Some fs \<Rightarrow> fs) @ [f]) kvs"

definition image_groups :: "unmanaged_file list \<Rightarrow> (string \<times> unmanaged_file list) list" where
  "image_groups included = foldl btree_push [] (filter (\<lambda>f. destination_of (uf_path f) = DestImage) included)"

definition unmanaged_file_lines :: "inspection_snapshot \<Rightarrow> string list" where
  "unmanaged_file_lines snap =
     (let included = filter (\<lambda>f. is_included (uf_disposition f)) (unmanaged_items snap) in
      if included = [] then []
      else
        [[], ''# === Unmanaged files (no package manager provenance) ==='',
         ''# These files were copied directly from the source host. They have'',
         ''# no upstream update path and must be manually maintained.''] @
        concat (map dir_block (image_groups included)) @
        (if included_var_srv_paths snap \<noteq> [] then var_srv_comment_lines (included_var_srv_paths snap) else []))"

section \<open>The groups\<close>

lemma groups_fold:
  "map_of (foldl btree_push kvs fs) d =
     (let gs = filter (\<lambda>f. parent_key f = d) fs in
      if gs = [] then map_of kvs d else Some ((case map_of kvs d of None \<Rightarrow> [] | Some xs \<Rightarrow> xs) @ gs))"
proof (induction fs arbitrary: kvs)
  case (Cons f fs)
  show ?case
    unfolding foldl_Cons Cons.IH by (auto simp: btree_push_def map_of_btree_insert Let_def)
qed simp

lemma groups_sorted: "btree_ok kvs \<Longrightarrow> btree_ok (foldl btree_push kvs fs)"
  by (induction fs arbitrary: kvs) (simp_all add: btree_push_def btree_insert_ok)

text \<open>Every file of the image is in the group of its parent, and in no other.\<close>

lemma image_groups_entry:
  "(d, gs) \<in> set (image_groups fs) \<longleftrightarrow>
     gs = filter (\<lambda>f. parent_key f = d) (filter (\<lambda>f. destination_of (uf_path f) = DestImage) fs) \<and> gs \<noteq> []"
proof -
  have "distinct (map fst (image_groups fs))"
    using groups_sorted [of "[]" "filter (\<lambda>f. destination_of (uf_path f) = DestImage) fs"]
    by (simp add: image_groups_def strict_sorted_iff)
  then have "(d, gs) \<in> set (image_groups fs) \<longleftrightarrow> map_of (image_groups fs) d = Some gs"
    by (simp add: map_of_eq_Some_iff)
  then show ?thesis
    unfolding image_groups_def groups_fold Let_def by auto
qed

text \<open>A quoted operand stays quoted: the quotes of the escaped text are balanced.\<close>

fun sh_quoted :: "bool \<Rightarrow> string \<Rightarrow> bool" where
  "sh_quoted inside [] = inside"
| "sh_quoted True (c # s) = sh_quoted (c \<noteq> CHR 0x27) s"
| "sh_quoted False (c # s) = (if c = CHR 0x27 then sh_quoted True s else if c = CHR 0x5C then
     (case s of [] \<Rightarrow> False | _ # t \<Rightarrow> sh_quoted False t) else False)"

lemma escaped_quoted:
  "sh_quoted True (replace_char (CHR 0x27) [CHR 0x27, CHR 0x5C, CHR 0x27, CHR 0x27] s)"
  by (induction s) (auto simp: replace_char_def)

end
