(* ===== verification/SoftwareProperties.thy ===== *)
theory SoftwareProperties
  imports LanguageRender UnmanagedRender
begin

text \<open>
  What the export does with software no package manager delivered: the language environments it
  reinstalls and the unmanaged files it copies.
\<close>

section \<open>Language environments\<close>

lemma one_line_backslash [line_simps]: "one_line backslash"
  by (simp add: one_line_def backslash_def)

lemma one_line_sub: "set s \<subseteq> set t \<Longrightarrow> one_line t \<Longrightarrow> one_line s"
  by (auto simp: one_line_def)

lemma one_line_absolute: "one_line (absolute_path p) \<longleftrightarrow> one_line p"
proof -
  have "nl \<in> set (absolute_path p) \<longleftrightarrow> nl \<in> set p"
  proof -
    have "set p \<subseteq> insert (CHR ''/'') (set (trim_slashes p))"
      using set_takeWhileD [of _ "\<lambda>c. c = CHR ''/''" p] takeWhile_dropWhile_id [of "\<lambda>c. c = CHR ''/''" p]
      unfolding trim_slashes_def by (metis UnE insertI1 insertI2 set_append subsetI)
    moreover have "set (trim_slashes p) \<subseteq> set p"
      by (simp add: trim_slashes_def set_dropWhileD subsetI)
    ultimately show ?thesis by (auto simp: absolute_path_def)
  qed
  then show ?thesis by (simp add: one_line_def)
qed

lemma inert_commented_list: "(\<And>x. x \<in> set xs \<Longrightarrow> one_line x) \<Longrightarrow> l \<in> set (map (\<lambda>l. ''# '' @ l) xs) \<Longrightarrow> inert l"
  by (auto simp: line_simps)

definition build_ready :: "non_rpm_item \<Rightarrow> bool" where
  "build_ready item \<longleftrightarrow> is_included (nri_disposition item) \<and> nri_confidence item = HIGH_CONFIDENCE"

lemma effective_high: "effective_confidence item = HIGH_CONFIDENCE \<longleftrightarrow> build_ready item"
  by (auto simp: effective_confidence_def build_ready_def HIGH_CONFIDENCE_def MEDIUM_CONFIDENCE_def)

lemma c_extension_inert: "l \<in> set (c_extension_lines item) \<Longrightarrow> inert l"
  by (auto simp: c_extension_lines_def line_simps split: if_splits)

lemma venv_comment_inert:
  "one_line (absolute_path (nri_path item)) \<Longrightarrow> l \<in> set (venv_comment_lines item) \<Longrightarrow> inert l"
  by (auto simp: venv_comment_lines_def Let_def line_simps pinned_package_list_def uncomment_line_def venv_flags_def)

lemma system_pip_inert: "l \<in> set (system_pip_lines item) \<Longrightarrow> inert l"
  by (auto simp: system_pip_lines_def Let_def line_simps pinned_package_list_def uncomment_line_def)

definition low_path_ok :: "non_rpm_item \<Rightarrow> bool" where
  "low_path_ok item \<longleftrightarrow> is_low item \<longrightarrow> one_line (nri_path item)"

lemma set_trim_back: "set (trim_back p) \<subseteq> set p"
proof (induction p rule: trim_back.induct)
  case (1 p)
  show ?case
  proof (cases "body_start p < length p \<and> snd (back_component p) \<in> {[], ''.''}")
    case True
    then have "set (trim_back p) \<subseteq> set (take (length p - fst (back_component p)) p)"
      using 1 by (subst trim_back.simps) simp
    then show ?thesis using set_take_subset by fastforce
  next
    case False
    then show ?thesis by (subst trim_back.simps) auto
  qed
qed

lemma set_back_component: "set (snd (back_component p)) \<subseteq> set p"
proof -
  have "set (takeWhile f (rev (drop n p))) \<subseteq> set p" for f n
    using set_takeWhileD [of _ f "rev (drop n p)"] in_set_dropD [of _ n p] by auto
  then show ?thesis by (simp add: back_component_def Let_def)
qed

lemma one_line_file_name: "path_file_name p = Some n \<Longrightarrow> one_line p \<Longrightarrow> one_line n"
  using set_back_component [of "trim_back p"] set_trim_back [of p]
  by (fastforce simp: path_file_name_def Let_def one_line_def split: if_splits)

lemma venv_lines_one_line:
  assumes "one_line (absolute_path (nri_path item))" "one_line (env_hash (nri_path item))"
    and "l \<in> set (venv_lines env_hash item)"
  shows "one_line l"
  using assms one_line_file_name [of "absolute_path (nri_path item)"]
  by (auto simp: venv_lines_def Let_def line_simps venv_flags_def split: option.splits)

text \<open>A line of an environment: inert, or one line of an environment that is ready to build.\<close>

definition env_line_ok :: "non_rpm_item \<Rightarrow> string \<Rightarrow> bool" where
  "env_line_ok item l \<longleftrightarrow> inert l \<or> (build_ready item \<and> one_line l)"

lemma env_inert: "inert l \<Longrightarrow> env_line_ok item l"
  by (simp add: env_line_ok_def)

lemma unsafe_path_inert: "inert (unsafe_path_line p)"
  by (simp add: unsafe_path_line_def line_simps)

lemma low_line_inert: "one_line tool \<Longrightarrow> one_line p \<Longrightarrow> inert (low_line tool p)"
  by (simp add: low_line_def line_simps)

lemma pip_lines_cases:
  assumes "l \<in> set (render_pip_item env_hash item)" "\<not> is_low item"
  shows "l \<in> set (c_extension_lines item) \<or> l = unsafe_path_line (absolute_path (nri_path item)) \<or>
      \<not> contains_unsafe_chars (absolute_path (nri_path item)) \<and>
        (build_ready item \<and> l \<in> set (venv_lines env_hash item) \<or> l \<in> set (venv_comment_lines item) \<or>
         l \<in> set (system_pip_lines item))"
  using assms unfolding render_pip_item_def Let_def effective_high
  by (simp only: if_False set_append Un_iff) (auto split: if_splits)

lemma pip_ok:
  assumes "one_line (env_hash (nri_path item))" "low_path_ok item" "l \<in> set (render_pip_item env_hash item)"
  shows "env_line_ok item l"
proof (cases "is_low item")
  case True
  then have "l = low_line ''pip'' (nri_path item)" "one_line (nri_path item)"
    using assms by (simp_all add: render_pip_item_def low_path_ok_def)
  then show ?thesis using low_line_inert [of "''pip''"] by (simp add: env_inert line_simps)
next
  case False
  from pip_lines_cases [OF assms(3) False] show ?thesis
    using c_extension_inert venv_comment_inert system_pip_inert venv_lines_one_line [of item env_hash] assms(1)
      unsafe_path_inert safe_chars_one_line [of "absolute_path (nri_path item)"]
    unfolding env_line_ok_def by metis
qed

lemma npm_ok:
  assumes "one_line (env_hash (nri_path item))" "low_path_ok item" "l \<in> set (render_npm_item env_hash item)"
  shows "env_line_ok item l"
  using assms safe_chars_one_line [of "absolute_path (nri_path item)"]
  by (auto simp: render_npm_item_def Let_def effective_high env_line_ok_def low_line_def low_path_ok_def
      unsafe_path_line_def uncomment_line_def one_line_absolute line_simps split: if_splits)

lemma gem_ok:
  assumes "one_line (env_hash (nri_path item))" "low_path_ok item" "l \<in> set (render_gem_item env_hash item)"
  shows "env_line_ok item l"
  using assms safe_chars_one_line [of "absolute_path (nri_path item)"]
  by (auto simp: render_gem_item_def Let_def effective_high env_line_ok_def low_line_def low_path_ok_def
      unsafe_path_line_def uncomment_line_def one_line_absolute line_simps split: if_splits)

lemma npm_operand_one_line: "npm_operand p = Some q \<Longrightarrow> one_line q"
  using safe_chars_one_line by (auto simp: npm_operand_def line_simps split: if_splits)

lemma npm_global_ok: "l \<in> set (render_npm_global_item item) \<Longrightarrow> env_line_ok item l"
proof -
  have "one_line (str_join '' '' (List.map_filter npm_operand ps))" for ps
    by (rule one_line_join) (auto simp: map_filter_def npm_operand_one_line line_simps)
  then show "l \<in> set (render_npm_global_item item) \<Longrightarrow> env_line_ok item l"
    by (auto simp: render_npm_global_item_def Let_def effective_high env_line_ok_def line_simps split: if_splits)
qed

lemma env_section_ok:
  assumes "\<And>item l. item \<in> set items \<Longrightarrow> l \<in> set (render item) \<Longrightarrow> env_line_ok item l" "one_line runtime"
    and "l \<in> set (env_section render runtime items names)"
  shows "inert l \<or> (\<exists>item \<in> set items. build_ready item \<and> one_line l)"
  using assms by (fastforce simp: env_section_def runtime_warning_def env_line_ok_def line_simps split: if_splits)


definition global_tool :: non_rpm_item where
  "global_tool = \<lparr> nri_path = ''usr/local'', nri_name = ''npm'', nri_method = ''npm global'', nri_confidence = ''high'',
     nri_disposition = Actionable True, nri_locked = False, nri_acknowledged = False, nri_lang = ''js'',
     nri_static = False, nri_version = [], nri_shared_libs = [], nri_system_site_packages = False,
     nri_packages = [\<lparr> lp_name = ''pm2'', lp_version = ''5.3'', lp_pinned = True \<rparr>,
       \<lparr> lp_name = ''a'' @ [nl] @ ''RUN id'', lp_version = ''1'', lp_pinned = True \<rparr>],
     nri_has_c_extensions = False, nri_git_remote = [], nri_git_commit = [], nri_git_branch = [],
     nri_manifest_files = Map.empty, nri_rpm_filtered = False, nri_files = None, nri_content = [],
     nri_aggregate = None, nri_review_status = [], nri_notes = [] \<rparr>"

definition tool_software :: non_rpm_software_section where
  "tool_software = \<lparr> nrs_items = [global_tool], nrs_env_files = [] \<rparr>"

lemma global_tool_lines:
  "''RUN npm install -g pm2@5.3'' \<in> set (render_npm_global_item global_tool)"
  by code_simp


section \<open>Unmanaged files\<close>


definition kept_file :: unmanaged_file where
  "kept_file = \<lparr> uf_path = ''/opt/f'', uf_size = 1, uf_file_type = FtOther,
     uf_provenance = \<lparr> ps_file_type = FtOther, ps_last_modified = 0, ps_uid = 0, ps_gid = 0,
       ps_permissions = [], ps_mutable = False, ps_writable_mount = False, ps_service_working_dir = False \<rparr>,
     uf_disposition = Actionable True, uf_locked = False, uf_acknowledged = False, uf_under_var = False,
     uf_link_target = [], uf_aggregate = None, uf_content_hash = [], uf_variant_selection = Only \<rparr>"

definition kept_snap :: inspection_snapshot where
  "kept_snap = snapshot_new\<lparr>snap_unmanaged_files := Some \<lparr> ufs_items = [kept_file],
     ufs_usr_entries = [], ufs_total_size = 1, ufs_total_count = 1 \<rparr>\<rparr>"

lemma kept_destination: "destination_of (uf_path kept_file) = DestImage"
  by code_simp


section \<open>Values nothing checks\<close>

text \<open>The advisory line of a low confidence environment writes the path as it is.\<close>

lemma low_confidence_path_breaks:
  assumes "nri_path item = ''x'' @ [nl] @ ''RUN id #''" "is_low item"
  shows "render_pip_item env_hash item =
     [''# pip packages: x'' @ [nl] @ ''RUN id # (low confidence '' @ long_dash @ '' review required)'']"
  using assms by (simp add: render_pip_item_def low_line_def)

text \<open>The unquoted operands of a global npm install may redirect, or split.\<close>

lemma npm_operand_redirects:
  "npm_operand \<lparr> lp_name = ''a >/etc/passwd'', lp_version = ''1'', lp_pinned = True \<rparr> = Some ''a >/etc/passwd@1''"
  by code_simp

text \<open>Quoting keeps a line feed, and a line feed ends a Dockerfile instruction.\<close>

lemma symlink_target_breaks:
  assumes "uf_link_target f = ''t'' @ [nl] @ ''RUN id''" "uf_path f = ''/opt/l''"
  shows "symlink_line f = ''RUN ln -sf '' @ [CHR 0x27] @ ''t'' @ [nl] @ ''RUN id'' @ [CHR 0x27] @ '' '' @ quote1 ''/opt/l''"
proof -
  have "replace_char (CHR 0x27) r (''t'' @ [nl] @ ''RUN id'') = ''t'' @ [nl] @ ''RUN id''"
    "replace_char (CHR 0x27) r ''/opt/l'' = ''/opt/l''" for r
    by (simp_all add: replace_char_def)
  with assms show ?thesis by (simp add: symlink_line_def shell_escape_def quote1_def)
qed

end
