(* ===== verification/ManifestScrub.thy ===== *)
theory ManifestScrub
  imports Redaction LanguageRender
begin

text \<open>
  The staging of language manifests and the scrubbing of the credentials in their URLs
  (\<open>crates/pipeline/src/render/language_packages.rs\<close>, second half). A byte range of the source is
  a pair of positions; stepping by bytes visits the same white space as stepping by characters,
  since no continuation byte starts an encoding of one.
\<close>

section \<open>URLs\<close>

definition AUTHORITY_TERMINATORS :: "char list" where
  "AUTHORITY_TERMINATORS = [CHR ''/'', CHR ''?'', CHR ''#'']"

text \<open>\<open>s.rfind('@')\<close>\<close>

fun rfind_at :: "string \<Rightarrow> nat option" where
  "rfind_at [] = None"
| "rfind_at (c # cs) =
     (case rfind_at cs of Some i \<Rightarrow> Some (Suc i) | None \<Rightarrow> if c = CHR ''@'' then Some 0 else None)"

definition authority_end :: "string \<Rightarrow> nat" where
  "authority_end rest = length (takeWhile (\<lambda>c. c \<notin> set AUTHORITY_TERMINATORS) rest)"

definition scrub_url_auth :: "string \<Rightarrow> string" where
  "scrub_url_auth url =
     (case str_find ''://'' url of
        None \<Rightarrow> url
      | Some scheme_end \<Rightarrow>
          let rest = drop (scheme_end + 3) url in
          (case rfind_at (take (authority_end rest) rest) of
             None \<Rightarrow> url
           | Some at_pos \<Rightarrow> take scheme_end url @ ''://REDACTED@'' @ drop (at_pos + 1) rest))"

section \<open>Lines\<close>

datatype line_outcome = NotMine | Rewritten string | Unlocatable string

record unscrubbed_line =
  ul_line :: "32 word"
  ul_key :: string

record scrub_outcome =
  so_content :: string
  so_unscrubbed :: "unscrubbed_line list"

fun outcome_text :: "string \<Rightarrow> line_outcome \<Rightarrow> string" where
  "outcome_text line (Rewritten new_line) = new_line"
| "outcome_text line _ = line"

fun outcome_report :: "nat \<Rightarrow> line_outcome \<Rightarrow> unscrubbed_line list" where
  "outcome_report idx (Unlocatable key) = [\<lparr> ul_line = word_of_nat idx + 1, ul_key = key \<rparr>]"
| "outcome_report idx _ = []"

definition scrub_lines :: "string \<Rightarrow> (string \<Rightarrow> line_outcome) \<Rightarrow> scrub_outcome" where
  "scrub_lines content scrub =
     (let ls = str_lines content in
      \<lparr> so_content = str_join [nl] (map (\<lambda>l. outcome_text l (scrub l)) ls) @
          (if ends_with content [nl] then [nl] else []),
        so_unscrubbed = concat (map (\<lambda>(idx, l). outcome_report idx (scrub l)) (enumerate 0 ls)) \<rparr>)"

definition replace_span :: "string \<Rightarrow> nat \<times> nat \<Rightarrow> string \<Rightarrow> string" where
  "replace_span line span new = take (fst span) line @ new @ drop (snd span) line"

definition span_text :: "string \<Rightarrow> nat \<times> nat \<Rightarrow> string" where
  "span_text line span = take (snd span - fst span) (drop (fst span) line)"

definition scrub_span :: "string \<Rightarrow> nat \<times> nat \<Rightarrow> string" where
  "scrub_span line span = replace_span line span (scrub_url_auth (span_text line span))"

definition PIP_INDEX_DIRECTIVES :: "string list" where
  "PIP_INDEX_DIRECTIVES = [''--extra-index-url'', ''--index-url'', ''-i'']"

definition scrub_requirements_line :: "string \<Rightarrow> line_outcome" where
  "scrub_requirements_line line =
     (let trimmed = trim_start line; indent = take (length line - length trimmed) line in
      case List.find (starts_with trimmed) PIP_INDEX_DIRECTIVES of
        None \<Rightarrow> NotMine
      | Some directive \<Rightarrow>
          (case value_span_after_key trimmed (length directive) OptionArgument of
             Some span \<Rightarrow> Rewritten (indent @ scrub_span trimmed span)
           | None \<Rightarrow> Unlocatable directive))"

definition JSON_REGISTRY_KEY :: string where
  "JSON_REGISTRY_KEY = [CHR 0x22] @ ''registry'' @ [CHR 0x22]"

definition JSON_RESOLVED_KEY :: string where
  "JSON_RESOLVED_KEY = [CHR 0x22] @ ''resolved'' @ [CHR 0x22]"

definition scrub_json_line :: "string \<Rightarrow> string \<Rightarrow> line_outcome" where
  "scrub_json_line key line =
     (case str_find key line of
        None \<Rightarrow> NotMine
      | Some key_pos \<Rightarrow>
          (case value_span_after_key line (key_pos + length key) JsonMember of
             Some span \<Rightarrow> Rewritten (scrub_span line span)
           | None \<Rightarrow> Unlocatable key))"

definition GEMFILE_SOURCE_KEY :: string where
  "GEMFILE_SOURCE_KEY = ''source''"

definition scrub_gemfile_line :: "string \<Rightarrow> line_outcome" where
  "scrub_gemfile_line line =
     (let trimmed = trim_start line; indent = take (length line - length trimmed) line in
      if \<not> starts_with trimmed GEMFILE_SOURCE_KEY then NotMine
      else let after = drop (length GEMFILE_SOURCE_KEY) trimmed in
        if \<not> (strip_one ws_encodings after \<noteq> None \<or> starts_with after [CHR 0x22] \<or> starts_with after [CHR 0x27])
        then NotMine
        else (case value_span_after_key trimmed (length GEMFILE_SOURCE_KEY) QuotedArgument of
             Some span \<Rightarrow> Rewritten (indent @ scrub_span trimmed span)
           | None \<Rightarrow> Unlocatable GEMFILE_SOURCE_KEY))"

section \<open>Lock files\<close>

definition url_delimiter :: "string \<Rightarrow> nat option" where
  "url_delimiter rest =
     (case rest of
        [] \<Rightarrow> None
      | c # _ \<Rightarrow>
          if c = CHR 0x22 \<or> c = CHR 0x27 then Some 1
          else map_option (\<lambda>r. length rest - length r) (strip_one ws_encodings rest))"

lemma url_delimiter_pos: "url_delimiter rest = Some k \<Longrightarrow> 0 < k \<and> k \<le> length rest"
  using strip_one_shorter by (fastforce simp: url_delimiter_def split: list.splits if_splits)

definition url_token :: "string \<Rightarrow> nat \<Rightarrow> nat \<Rightarrow> (nat \<times> nat) list" where
  "url_token line start i =
     (if start < i \<and> str_contains (take (i - start) (drop start line)) ''://'' then [(start, i)] else [])"

function spans_from :: "string \<Rightarrow> nat \<Rightarrow> nat \<Rightarrow> (nat \<times> nat) list" where
  "spans_from line start i =
     (if i \<ge> length line then url_token line start (length line)
      else case url_delimiter (drop i line) of
          Some k \<Rightarrow> url_token line start i @ spans_from line (i + k) (i + k)
        | None \<Rightarrow> spans_from line start (Suc i))"
  by pat_completeness auto
termination
  by (relation "measure (\<lambda>(line, start, i). length line - i)") (auto dest!: url_delimiter_pos)

declare spans_from.simps [simp del]

definition url_spans :: "string \<Rightarrow> (nat \<times> nat) list" where
  "url_spans line = spans_from line 0 0"

definition scrub_gemfile_lock_line :: "string \<Rightarrow> line_outcome" where
  "scrub_gemfile_lock_line line =
     (let spans = url_spans line in
      if spans = [] then NotMine
      else Rewritten (foldl (\<lambda>out span. replace_span out span (scrub_url_auth (span_text line span))) line (rev spans)))"

section \<open>Files\<close>

definition scrub_manifest_auth :: "string \<Rightarrow> string \<Rightarrow> scrub_outcome" where
  "scrub_manifest_auth filename content =
     (if filename = ''requirements.txt'' then scrub_lines content scrub_requirements_line
      else if filename = ''package.json'' then scrub_lines content (scrub_json_line JSON_REGISTRY_KEY)
      else if filename = ''package-lock.json'' then scrub_lines content (scrub_json_line JSON_RESOLVED_KEY)
      else if filename = ''Gemfile'' then scrub_lines content scrub_gemfile_line
      else if filename = ''Gemfile.lock'' then scrub_lines content scrub_gemfile_lock_line
      else \<lparr> so_content = content, so_unscrubbed = [] \<rparr>)"

fun redaction_active :: "redaction_state option \<Rightarrow> bool" where
  "redaction_active (Some (FullyRedacted _ _)) = True"
| "redaction_active (Some (PartiallyRedacted _ _ _ _)) = True"
| "redaction_active (Some (SensitiveRetained _ _ _ _)) = True"
| "redaction_active _ = False"

definition is_redaction_active :: "inspection_snapshot \<Rightarrow> bool" where
  "is_redaction_active snap = redaction_active (snap_redaction_state snap)"

text \<open>The ecosystem directory of an item, by its method.\<close>

definition manifest_ecosystem :: "non_rpm_item \<Rightarrow> string option" where
  "manifest_ecosystem item =
     (if nri_method item = ''python venv'' \<or> nri_method item = ''pip dist-info'' then Some ''pip''
      else if nri_method item = ''npm lockfile'' then Some ''npm''
      else if nri_method item = ''gem lockfile'' then Some ''gem''
      else None)"

definition staged_content :: "bool \<Rightarrow> string \<Rightarrow> string \<Rightarrow> string" where
  "staged_content redact filename content =
     (if redact then so_content (scrub_manifest_auth filename content) else content)"

text \<open>
  What \<open>write_language_package_manifests\<close> writes: the directory of an item and the file of each
  name, in the order of the items. A failing \<open>create_dir_all\<close> or \<open>write\<close> is an error of the file
  system and not modelled.
\<close>

definition staged_manifests ::
  "(string \<Rightarrow> string) \<Rightarrow> inspection_snapshot \<Rightarrow> (string \<times> (string \<rightharpoonup> string)) list" where
  "staged_manifests env_hash snap =
     (case snap_non_rpm_software snap of
        None \<Rightarrow> []
      | Some nrs \<Rightarrow>
          List.map_filter (\<lambda>item.
              if \<not> is_included (nri_disposition item) \<or> nri_manifest_files item = Map.empty then None
              else map_option (\<lambda>ecosystem.
                  (''language-packages/'' @ ecosystem @ ''/'' @ env_hash (nri_path item),
                   \<lambda>filename. map_option (staged_content (is_redaction_active snap) filename)
                     (nri_manifest_files item filename)))
                (manifest_ecosystem item))
            (nrs_items nrs))"

end
