(* ===== verification/ManifestProperties.thy ===== *)
theory ManifestProperties
  imports ManifestScrub
begin

text \<open>
  What scrubbing does to a manifest: no user information of a located URL survives, and the lock
  file scrubber, which rewrites spans from the last to the first, is one pass over the tokens.
\<close>

section \<open>URLs\<close>

lemma starts_with_take: "starts_with s p \<longleftrightarrow> take (length p) s = p"
  by (induction s p rule: starts_with.induct) auto

lemma str_find_le: "str_find p s = Some e \<Longrightarrow> e + length p \<le> length s"
  by (induction s arbitrary: e) (auto dest: starts_with_length split: if_splits)

lemma str_find_prefix:
  "str_find p s = Some e \<Longrightarrow> take (e + length p) s' = take (e + length p) s \<Longrightarrow> str_find p s' = Some e"
proof (induction s arbitrary: s' e)
  case Nil
  then show ?case by (cases s') (auto split: if_splits)
next
  case (Cons c cs)
  show ?case
  proof (cases "starts_with (c # cs) p")
    case True
    then have "take (length p) s' = p" using Cons.prems by (simp add: starts_with_take)
    then have "starts_with s' p" by (simp add: starts_with_take)
    then show ?thesis using True Cons.prems by (cases s') auto
  next
    case False
    then obtain e' where e: "e = Suc e'" "str_find p cs = Some e'" using Cons.prems by auto
    have "s' \<noteq> []" using Cons.prems(2) e by auto
    then obtain cs' where s: "s' = c # cs'" "take (e' + length p) cs' = take (e' + length p) cs"
      using Cons.prems(2) e by (cases s') auto
    have "take (length p) s' = take (length p) (take (e + length p) s')" by simp
    also have "\<dots> = take (length p) (c # cs)" unfolding Cons.prems(2) by simp
    finally have "\<not> starts_with s' p" using False by (simp add: starts_with_take)
    then show ?thesis using s Cons.IH [OF e(2) s(2)] e by simp
  qed
qed

lemma rfind_at_None: "rfind_at s = None \<longleftrightarrow> CHR ''@'' \<notin> set s"
  by (induction s) (auto split: option.splits)

lemma rfind_at_Some:
  "rfind_at s = Some p \<Longrightarrow> p < length s \<and> s ! p = CHR ''@'' \<and> CHR ''@'' \<notin> set (drop (Suc p) s)"
  by (induction s arbitrary: p) (auto simp: rfind_at_None split: option.splits if_splits)

lemma rfind_at_append: "CHR ''@'' \<notin> set b \<Longrightarrow> rfind_at (a @ CHR ''@'' # b) = Some (length a)"
proof (induction a)
  case Nil
  then have "rfind_at b = None" by (simp add: rfind_at_None)
  then show ?case by simp
qed simp

definition not_terminator :: "char \<Rightarrow> bool" where
  "not_terminator c \<longleftrightarrow> c \<notin> set AUTHORITY_TERMINATORS"

lemma authority_take: "take (authority_end r) r = takeWhile not_terminator r"
  unfolding authority_end_def not_terminator_def by (metis takeWhile_eq_take)

text \<open>The parts of a URL: its scheme, its user information, and the rest.\<close>

definition url_parts :: "string \<Rightarrow> (string \<times> string option \<times> string) option" where
  "url_parts url =
     (case str_find ''://'' url of
        None \<Rightarrow> None
      | Some e \<Rightarrow>
          let rest = drop (e + 3) url in
          Some (case rfind_at (takeWhile not_terminator rest) of
              None \<Rightarrow> (take e url, None, rest)
            | Some p \<Rightarrow> (take e url, Some (take p rest), drop (Suc p) rest)))"

lemma url_parts_known:
  assumes "str_find ''://'' (scheme @ ''://'' @ t) = Some (length scheme)"
    and "list_all not_terminator user" "CHR ''@'' \<notin> set (takeWhile not_terminator rest)"
    and "t = user @ CHR ''@'' # rest"
  shows "url_parts (scheme @ ''://'' @ t) = Some (scheme, Some user, rest)"
    "scrub_url_auth (scheme @ ''://'' @ t) = scheme @ ''://REDACTED@'' @ rest"
proof -
  have "not_terminator (CHR ''@'')" by code_simp
  then have auth: "takeWhile not_terminator t = user @ CHR ''@'' # takeWhile not_terminator rest"
    using assms(2,4) by (simp add: takeWhile_append2 list_all_iff)
  then have p: "rfind_at (takeWhile not_terminator t) = Some (length user)"
    using assms(3) by (simp add: rfind_at_append)
  show "url_parts (scheme @ ''://'' @ t) = Some (scheme, Some user, rest)"
    using assms(1,4) p by (simp add: url_parts_def)
  show "scrub_url_auth (scheme @ ''://'' @ t) = scheme @ ''://REDACTED@'' @ rest"
    using assms(1,4) p by (simp add: scrub_url_auth_def authority_take)
qed

lemma split_at_user:
  assumes "rfind_at (takeWhile not_terminator rest) = Some p"
  shows "rest = take p rest @ CHR ''@'' # drop (Suc p) rest" "list_all not_terminator (take p rest)"
    "CHR ''@'' \<notin> set (takeWhile not_terminator (drop (Suc p) rest))"
proof -
  let ?a = "takeWhile not_terminator rest"
  have p: "p < length ?a" "?a ! p = CHR ''@''" "CHR ''@'' \<notin> set (drop (Suc p) ?a)"
    using rfind_at_Some [OF assms] by auto
  then have len: "p < length rest" "rest ! p = CHR ''@''"
    using length_takeWhile_le [of not_terminator rest] takeWhile_nth [OF p(1)] by simp_all
  then show "rest = take p rest @ CHR ''@'' # drop (Suc p) rest" by (metis id_take_nth_drop)
  have pre: "take (Suc p) rest = take (Suc p) ?a"
    using p(1) by (metis Suc_leI takeWhile_eq_take min.absorb2 take_take min.commute)
  then have pre': "\<forall>c \<in> set (take (Suc p) rest). not_terminator c"
    by (metis in_set_takeD set_takeWhileD)
  then show "list_all not_terminator (take p rest)"
    unfolding list_all_iff using set_take_subset_set_take [of p "Suc p" rest] by auto
  have "?a = take (Suc p) rest @ takeWhile not_terminator (drop (Suc p) rest)"
    using pre' takeWhile_append2 [of "take (Suc p) rest" not_terminator "drop (Suc p) rest"] by simp
  then have "drop (Suc p) ?a = takeWhile not_terminator (drop (Suc p) rest)"
    using len(1) by (metis append_eq_conv_conj length_take min.absorb2 Suc_leI)
  then show "CHR ''@'' \<notin> set (takeWhile not_terminator (drop (Suc p) rest))" using p(3) by simp
qed

lemma scrub_unmatched:
  "url_parts url = None \<or> (\<exists>s r. url_parts url = Some (s, None, r)) \<Longrightarrow> scrub_url_auth url = url"
  by (auto simp: url_parts_def scrub_url_auth_def authority_take Let_def split: option.splits)

text \<open>C25. Scrubbing a URL replaces its user information and nothing else. For every text: when it has no
  scheme or no user information it is unchanged, and otherwise the result has the same scheme, the
  user information \<open>REDACTED\<close> and the same rest. In particular no part of a password survives, also
  when the password has an \<open>@\<close>, and an \<open>@\<close> of the path or the query is not taken for one.
\<close>

theorem url_auth_replaced:
  "url_parts (scrub_url_auth url) =
     map_option (\<lambda>(scheme, user, rest). (scheme, map_option (\<lambda>_. ''REDACTED'') user, rest)) (url_parts url)"
proof (cases "url_parts url")
  case None
  then show ?thesis using scrub_unmatched by simp
next
  case (Some spr)
  then obtain scheme user rest where u: "url_parts url = Some (scheme, user, rest)" by (cases spr) auto
  show ?thesis
  proof (cases user)
    case None
    then show ?thesis using u scrub_unmatched by auto
  next
    case (Some pw)
    obtain e p where e: "str_find ''://'' url = Some e" "scheme = take e url"
      "rfind_at (takeWhile not_terminator (drop (e + 3) url)) = Some p" "rest = drop (Suc p) (drop (e + 3) url)"
      using u Some by (auto simp: url_parts_def Let_def split: option.splits)
    have len: "e + 3 \<le> length url" using str_find_le [OF e(1)] by simp
    have new: "scrub_url_auth url = scheme @ ''://'' @ ''REDACTED'' @ CHR ''@'' # rest"
      using e by (simp add: scrub_url_auth_def authority_take)
    have "starts_with (drop e url) ''://''"
      using e(1) by (induction url arbitrary: e) (auto split: if_splits)
    then have "take (e + 3) url = scheme @ ''://''"
      unfolding take_add e(2) by (simp add: starts_with_take numeral_3_eq_3)
    then have "take (e + 3) (scheme @ ''://'' @ t) = take (e + 3) url" for t
      using len e(2) by simp
    then have "take (e + length ''://'') (scheme @ ''://'' @ t) = take (e + length ''://'') url" for t
      by (simp add: numeral_3_eq_3)
    then have "str_find ''://'' (scheme @ ''://'' @ ''REDACTED'' @ CHR ''@'' # rest) = Some e"
      by (rule str_find_prefix [OF e(1)])
    moreover have "length scheme = e" using e(2) len by simp
    moreover have "list_all not_terminator ''REDACTED''" by code_simp
    moreover have "CHR ''@'' \<notin> set (takeWhile not_terminator rest)"
      using split_at_user(3) [OF e(3)] e(4) by simp
    ultimately have "url_parts (scheme @ ''://'' @ ''REDACTED'' @ CHR ''@'' # rest) = Some (scheme, Some ''REDACTED'', rest)"
      by (intro url_parts_known(1)) simp_all
    then show ?thesis using u Some new by simp
  qed
qed

section \<open>Lock files\<close>

text \<open>The tokens of a line between white space and quotes, each scrubbed, in one pass.\<close>

function scrub_tokens :: "string \<Rightarrow> string \<Rightarrow> string" where
  "scrub_tokens token rest =
     (case rest of
        [] \<Rightarrow> scrub_url_auth token
      | c # cs \<Rightarrow>
          (case url_delimiter rest of
             Some k \<Rightarrow> scrub_url_auth token @ take k rest @ scrub_tokens [] (drop k rest)
           | None \<Rightarrow> scrub_tokens (token @ [c]) cs))"
  by pat_completeness auto
termination
  by (relation "measure (\<lambda>(_, rest). length rest)") (auto dest!: url_delimiter_pos)

declare scrub_tokens.simps [simp del]

lemma scrub_no_scheme: "\<not> str_contains token ''://'' \<Longrightarrow> scrub_url_auth token = token"
  by (simp add: scrub_url_auth_def str_contains_def split: option.splits)

definition replace_token :: "string \<Rightarrow> string \<Rightarrow> nat \<times> nat \<Rightarrow> string" where
  "replace_token line out span = replace_span out span (scrub_url_auth (span_text line span))"

lemma replace_url_token:
  assumes "start \<le> i" "i \<le> length line"
  shows "foldl (replace_token line) (take i line @ t) (url_token line start i) =
     take start line @ scrub_url_auth (take (i - start) (drop start line)) @ t"
proof (cases "start < i \<and> str_contains (take (i - start) (drop start line)) ''://''")
  case True
  then show ?thesis
    using assms by (simp add: url_token_def replace_token_def replace_span_def span_text_def)
next
  case False
  have "scrub_url_auth [] = []" by code_simp
  then have "scrub_url_auth (take (i - start) (drop start line)) = take (i - start) (drop start line)"
    using False scrub_no_scheme assms(1) by (cases "start = i") auto
  moreover have "take i line = take start line @ take (i - start) (drop start line)"
    using assms(1) by (simp flip: take_add)
  moreover have "url_token line start i = []" using False unfolding url_token_def by (rule if_not_P)
  ultimately show ?thesis by simp
qed

lemma replace_spans:
  "start \<le> i \<Longrightarrow> i \<le> length line \<Longrightarrow>
     foldl (replace_token line) line (rev (spans_from line start i)) =
       take start line @ scrub_tokens (take (i - start) (drop start line)) (drop i line)"
proof (induction line start i rule: spans_from.induct)
  case (1 line start i)
  show ?case
  proof (cases "i = length line")
    case True
    have "foldl (replace_token line) line (rev (url_token line start i)) =
        foldl (replace_token line) (take i line @ []) (url_token line start i)"
      using True by (simp add: url_token_def)
    then show ?thesis
      using 1(3) True replace_url_token [of start i line "[]"]
      by (subst spans_from.simps, subst scrub_tokens.simps) simp
  next
    case False
    then have i: "i < length line" using 1(4) by simp
    then obtain c cs where rest: "drop i line = c # cs" "drop (Suc i) line = cs" "line ! i = c"
      by (metis Cons_nth_drop_Suc)
    show ?thesis
    proof (cases "url_delimiter (drop i line)")
      case None
      have "take (Suc i - start) (drop start line) = take (i - start) (drop start line) @ [c]"
        using 1(3) i rest(3) by (simp add: Suc_diff_le take_Suc_conv_app_nth)
      then show ?thesis
        using 1(1) [OF _ None] None 1(3) i rest
        by (subst spans_from.simps, subst scrub_tokens.simps) simp
    next
      case (Some k)
      have k: "i + k \<le> length line" using url_delimiter_pos [OF Some] i by (simp only: length_drop) linarith
      have "foldl (replace_token line) line (rev (spans_from line (i + k) (i + k))) =
          take (i + k) line @ scrub_tokens [] (drop (i + k) line)"
        using 1(2) [OF _ Some] i k by simp
      moreover have "take (i + k) line @ t = take i line @ take k (drop i line) @ t" for t
        by (simp add: take_add)
      moreover have "rev (url_token line start i) = url_token line start i"
        by (simp add: url_token_def)
      ultimately have "foldl (replace_token line) line (rev (spans_from line start i)) =
          take start line @ scrub_url_auth (take (i - start) (drop start line)) @
            take k (drop i line) @ scrub_tokens [] (drop (i + k) line)"
        using i Some by (subst spans_from.simps) (simp add: replace_url_token [OF 1(3)])
      then show ?thesis
        using Some rest(1) drop_drop [of k i line]
        by (subst scrub_tokens.simps) (simp add: add.commute)
    qed
  qed
qed

text \<open>C26. The scrubber of lock file lines finds the spans of all URLs first and then rewrites them from the
  last to the first. The result is what one pass over the line gives: every token between white
  space and quotes is scrubbed, and everything else stays. So a line with two credentialed URLs
  loses both credentials.
\<close>

theorem lock_line_tokens:
  "outcome_text line (scrub_gemfile_lock_line line) = scrub_tokens [] line"
proof -
  have "foldl (\<lambda>out span. replace_span out span (scrub_url_auth (span_text line span))) line (rev (url_spans line)) =
      scrub_tokens [] line"
    using replace_spans [of 0 0 line]
    by (simp add: url_spans_def replace_token_def [abs_def])
  then show ?thesis by (auto simp: scrub_gemfile_lock_line_def Let_def)
qed

section \<open>Index lines\<close>

text \<open>A line \<open>indent directive separator URL\<close>, with the URL of printable characters.\<close>

definition index_prefix :: "string \<Rightarrow> bool" where
  "index_prefix pre \<longleftrightarrow>
     (\<exists>indent directive sep gap. pre = indent @ directive @ sep # gap \<and> list_all is_blank indent \<and>
        directive \<in> set PIP_INDEX_DIRECTIVES \<and> (sep = CHR ''='' \<or> is_blank sep) \<and> list_all is_blank gap)"

lemma find_whitespace_graph: "list_all is_graph u \<Longrightarrow> find_whitespace u = None"
  by (induction u) (simp_all add: strip_one_graph)

lemma directive_found:
  "directive \<in> set PIP_INDEX_DIRECTIVES \<Longrightarrow>
     List.find (starts_with (directive @ t)) PIP_INDEX_DIRECTIVES = Some directive"
  by (auto simp: PIP_INDEX_DIRECTIVES_def starts_with_take)

lemma directive_graph:
  assumes "directive \<in> set PIP_INDEX_DIRECTIVES"
  shows "is_graph (hd directive)" "directive \<noteq> []"
proof -
  have "list_all (\<lambda>d. d \<noteq> [] \<and> is_graph (hd d)) PIP_INDEX_DIRECTIVES" by code_simp
  then show "is_graph (hd directive)" "directive \<noteq> []" using assms by (auto simp: list_all_iff)
qed

lemma option_span:
  assumes "sep = CHR ''='' \<or> is_blank sep" "list_all is_blank gap" "list_all is_graph u" "u \<noteq> []"
  shows "value_span_after_key (key @ sep # gap @ u) (length key) OptionArgument =
     Some (length key + 1 + length gap, length (key @ sep # gap @ u))"
proof -
  have "solid u" using assms(3,4) by (simp add: solid_def list_all_iff)
  then have "leading_whitespace (gap @ u) = length gap" by (rule trim_blanks_solid(3) [OF assms(2)])
  moreover have "option_separator (sep # gap @ u) = Some 1"
    using assms(1) by (auto simp: option_separator_def strip_one_blank)
  moreover have "\<not> (128 \<le> (of_char sep :: nat) \<and> (of_char sep :: nat) \<le> 191)"
    using assms(1) by (auto simp: is_blank_def)
  ultimately show ?thesis
    using assms(4) find_whitespace_graph [OF assms(3)]
    by (simp add: is_char_boundary_def del: not_le)
qed

lemma scrub_index_line:
  assumes "index_prefix pre" "list_all is_graph u" "u \<noteq> []"
  shows "scrub_requirements_line (pre @ u) = Rewritten (pre @ scrub_url_auth u)"
proof -
  obtain indent directive sep gap where
    pre: "pre = indent @ directive @ sep # gap" "list_all is_blank indent"
      "directive \<in> set PIP_INDEX_DIRECTIVES" "sep = CHR ''='' \<or> is_blank sep" "list_all is_blank gap"
    using assms(1) by (auto simp: index_prefix_def)
  let ?t = "directive @ sep # gap @ u"
  have "solid ?t" using directive_graph [OF pre(3)] assms(2,3) by (simp add: solid_def list_all_iff)
  then have trim: "trim_start (indent @ ?t) = ?t"
    unfolding trim_start_def by (rule trim_blanks_solid(1) [OF pre(2)])
  show ?thesis
    using directive_found [OF pre(3)] option_span [OF pre(4,5) assms(2,3)]
    by (simp add: pre(1) scrub_requirements_line_def trim scrub_span_def replace_span_def span_text_def
        del: value_span_after_key.simps)
qed

text \<open>A URL with user information: printable, no \<open>:\<close> in the scheme, and the last \<open>@\<close> of the authority.\<close>

definition user_url :: "string \<Rightarrow> string \<Rightarrow> string \<Rightarrow> bool" where
  "user_url scheme user rest \<longleftrightarrow>
     list_all is_graph (scheme @ user @ rest) \<and> CHR '':'' \<notin> set scheme \<and> list_all not_terminator user \<and>
     CHR ''@'' \<notin> set (takeWhile not_terminator rest)"

definition same_but_user :: "string \<Rightarrow> string \<Rightarrow> bool" where
  "same_but_user l1 l2 \<longleftrightarrow> l1 = l2 \<or>
     (\<exists>pre scheme rest u1 u2. index_prefix pre \<and> user_url scheme u1 rest \<and> user_url scheme u2 rest \<and>
        l1 = pre @ scheme @ ''://'' @ u1 @ CHR ''@'' # rest \<and> l2 = pre @ scheme @ ''://'' @ u2 @ CHR ''@'' # rest)"

lemma find_scheme: "CHR '':'' \<notin> set scheme \<Longrightarrow> str_find ''://'' (scheme @ ''://'' @ t) = Some (length scheme)"
  by (induction scheme) auto

lemma scrub_credential_line:
  assumes "index_prefix pre" "user_url scheme user rest"
  shows "scrub_requirements_line (pre @ scheme @ ''://'' @ user @ CHR ''@'' # rest) =
     Rewritten (pre @ scheme @ ''://REDACTED@'' @ rest)"
proof -
  have "list_all is_graph ''://''" "is_graph (CHR ''@'')" by code_simp+
  then have "list_all is_graph (scheme @ ''://'' @ user @ CHR ''@'' # rest)"
    using assms(2) by (simp add: user_url_def)
  then have "scrub_requirements_line (pre @ scheme @ ''://'' @ user @ CHR ''@'' # rest) =
      Rewritten (pre @ scrub_url_auth (scheme @ ''://'' @ user @ CHR ''@'' # rest))"
    by (intro scrub_index_line [OF assms(1)]) simp_all
  moreover have "scrub_url_auth (scheme @ ''://'' @ user @ CHR ''@'' # rest) = scheme @ ''://REDACTED@'' @ rest"
    using assms(2) url_parts_known(2) [OF find_scheme, of scheme user rest "user @ CHR ''@'' # rest"]
    by (simp add: user_url_def)
  ultimately show ?thesis by simp
qed

lemma same_but_user_outcome:
  assumes "same_but_user l1 l2"
  shows "outcome_text l1 (scrub_requirements_line l1) = outcome_text l2 (scrub_requirements_line l2) \<and>
     outcome_report n (scrub_requirements_line l1) = outcome_report n (scrub_requirements_line l2)"
proof -
  from assms consider "l1 = l2" | pre scheme rest u1 u2 where
    "index_prefix pre" "user_url scheme u1 rest" "user_url scheme u2 rest"
    "l1 = pre @ scheme @ ''://'' @ u1 @ CHR ''@'' # rest" "l2 = pre @ scheme @ ''://'' @ u2 @ CHR ''@'' # rest"
    unfolding same_but_user_def by blast
  then show ?thesis
    by cases (simp_all only: scrub_credential_line outcome_text.simps outcome_report.simps refl simp_thms)
qed



end
