(* ===== verification/Spec2Isabelle.thy ===== *)
theory Spec2Isabelle
  imports TypeProperties AdapterProperties MergeOutcome RefineProperties ReviewProperties ReviewFindings TextProperties
    ExportProperties ExportFindings FcontextProperties SoftwareProperties ManifestProperties
begin

text \<open>
  A verification development for inspectah, a tool that inspects RPM hosts and turns what it
  finds into a bootable container image. It covers the core crate (\<open>src/crates/core\<close>), that is
  the data model of a snapshot and the merge of the snapshots of several hosts into one
  aggregate, the session of the refine crate (\<open>src/crates/refine\<close>), in which a user decides
  what of a snapshot goes into the image, and the renderers of the pipeline crate
  (\<open>src/crates/pipeline/src/render\<close>), which write the export: the Containerfile and what it copies.

  \<^bold>\<open>The parts of the program.\<close> The collectors inspect one host and write an
  \<open>InspectionSnapshot\<close> (\<open>snapshot.rs\<close>): one optional section per subsystem, each a list of
  findings with a decision (\<open>types/finding.rs\<close>). \<open>merge_snapshots\<close> (\<open>aggregate/mod.rs\<close>)
  validates a list of snapshots (\<open>aggregate/validate.rs\<close>), sorts the hosts by name, and merges
  section by section (\<open>aggregate/merge.rs\<close>). Every section adapter calls the generic engine
  \<open>merge_items\<close>, which groups the items of all hosts by identity and content, counts the hosts
  and excludes what not every host has. A \<open>RefineSession\<close> (\<open>refine/src/session.rs\<close>) keeps the
  original snapshot and a timeline of operations with a cursor; \<open>project_snapshot\<close> replays the
  active operations on the original, materialises the variants
  (\<open>refine/src/aggregate/variant_ops.rs\<close>), clamps every locked item and demotes the packages
  whose repository the export dropped (\<open>pipeline/src/render/repo_enabling.rs\<close>). An operation is
  validated against the original, the projection and the repository index
  (\<open>refine/src/repo_index.rs\<close>), refused or passed over when it changes nothing, and recorded.
  The export renders the projected snapshot section by section (\<open>render/containerfile.rs\<close>), each
  section reading the decisions and a render context with the groups and the verified uploads;
  what it splices into instructions comes from the scanned host and is proved or refused first
  (\<open>render/safety.rs\<close>).

  \<^bold>\<open>The theories.\<close>
  \<^item> \<open>Prelude\<close>: panics, integer casts, hash maps with an iteration order, sorting and counting;
    \<open>RustStr\<close>: the \<open>str\<close> functions; \<open>JsonValue\<close>: \<open>serde_json::Value\<close>.
  \<^item> \<open>Findings\<close>, \<open>Repo\<close>, \<open>PackageTypes\<close>, \<open>SystemTypes\<close>, \<open>SnapshotTypes\<close>: the types of
    \<open>types/\<close> and \<open>snapshot.rs\<close>, with their operations (zones, tiers, the \<open>.repo\<close> parser).
  \<^item> \<open>Baseline\<close>: base image resolution and image references (\<open>baseline.rs\<close>).
  \<^item> \<open>MergeEngine\<close>: \<open>merge_items\<close> over a record of the trait's functions; \<open>MergeContract\<close>: the
    locale \<open>mergeable\<close> of the laws an implementation of the trait keeps, and what the engine
    guarantees under them; \<open>MergeVariants\<close>: the locale of the kinds with a variant selection.
  \<^item> \<open>Mergeable\<close>: the 22 implementations of the trait, each an interpretation of the contract.
  \<^item> \<open>DedupHelpers\<close>, \<open>FcontextMerge\<close>, \<open>JsonMerge\<close>, \<open>RpmMerge\<close>, \<open>SectionMerge\<close>: the section
    adapters; \<open>Validate\<close>, \<open>MergeSnapshots\<close>: validation and the orchestrator;
    \<open>MergeGuarantees\<close>, \<open>MergeOutcome\<close>: no panics, independence of the order, what the result is.
  \<^item> \<open>RefineTypes\<close>: items, operations, timeline entries and errors of a session; \<open>RepoIndex\<close>: maps
    keyed by \<open>RepoId\<close> and the provenance of a repository; \<open>GroupState\<close>: the rendering state of
    a group; \<open>VariantOps\<close> and \<open>VariantFacts\<close>: the variants of a path, with the locale
    \<open>text_pool_laws\<close> interpreted on configuration files, drop-ins and quadlets;
    \<open>RepoEnabling\<close>: the export-time proof of a repo-enabling package; \<open>Projection\<close>:
    \<open>project_snapshot\<close>; \<open>Session\<close>: the mutating operations.
  \<^item> \<open>SessionFacts\<close>: what the clamp guarantees, the step relation \<open>session_step\<close> and its invariant;
    \<open>ReplayFacts\<close>: what every operation leaves alone, packages, users, repo files and variants.
  \<^item> \<open>Triage\<close>, \<open>Classify\<close>, \<open>Normalize\<close>: the triage tags (\<open>refine/src/types.rs\<close>,
    \<open>aggregate/classify.rs\<close>), the classification (\<open>classify.rs\<close>) and the defaults and locks
    (\<open>normalize.rs\<close>); \<open>SessionNew\<close>: the constructor of a session, its mode and its view;
    \<open>ReviewState\<close>: pending changes, viewed ids, repo groups, the decision projection, and saving
    and resuming (\<open>autosave.rs\<close>, \<open>tarball.rs\<close>).
  \<^item> \<open>DefaultFacts\<close>: the default of a package as one table (\<open>package_rule\<close>) and the proof that the
    classification and the normalisation compute it; \<open>LockFacts\<close>: that no operation, variant or
    later step takes a lock away; \<open>PendingFacts\<close>: the changes a session without operations
    reports; \<open>ResumeFacts\<close>: when the constructor is idempotent.
  \<^item> \<open>RpmFilename\<close> and \<open>Redaction\<close>: \<open>rpm_filename.rs\<close> and \<open>redaction.rs\<close> of the core.
  \<^item> \<open>ExportSafety\<close> (\<open>render/safety.rs\<close>), \<open>RenderLines\<close>, \<open>PathParts\<close> (\<open>std::path\<close>): what a line
    and a path are; \<open>ProvedText\<close>: the locale \<open>proved_text\<close> of a type with one refusing constructor,
    interpreted on exported paths, exported fields and staged file names.
  \<^item> \<open>ServiceIntent\<close> and \<open>ServiceFacts\<close> (\<open>service_intent.rs\<close>): the plan of the services and its
    reference; \<open>VarDirs\<close>, \<open>VarProvision\<close>, \<open>VarFacts\<close>, \<open>ProvisionFacts\<close> (\<open>var_dirs.rs\<close>,
    \<open>containerfile.rs\<close>): what the export says of each directory under \<open>/var\<close>.
  \<^item> \<open>DnfLines\<close>, \<open>PackagesRender\<close>, \<open>PackageFacts\<close>, \<open>Repoless\<close> (\<open>containerfile.rs\<close>,
    \<open>repoless.rs\<close>): the package section; \<open>UserRender\<close> (\<open>users.rs\<close>); \<open>LanguageRender\<close> and
    \<open>ManifestScrub\<close> (\<open>language_packages.rs\<close>); \<open>UnmanagedRender\<close> (\<open>unmanaged.rs\<close>);
    \<open>FcontextRender\<close>, \<open>FcontextFacts\<close>, \<open>FcontextReports\<close> (\<open>selinux.rs\<close>): the file contexts in the
    build and in the reports.
  \<^item> \<open>ExportProperties\<close>, \<open>FcontextProperties\<close>, \<open>SoftwareProperties\<close>, \<open>ManifestProperties\<close>: the
    properties of the renderers; \<open>ExportFindings\<close>: values that reach a line unchecked.
  \<^item> \<open>EngineProperties\<close> and \<open>AdapterProperties\<close> state the properties of the merge engine and its
    adapters, this theory those of the merge as a whole, \<open>TypeProperties\<close> and \<open>TextProperties\<close>
    those of the core's types and texts, \<open>RefineProperties\<close> those of the operations of a session
    and \<open>ReviewProperties\<close> those of a session from its constructor on, each with an example;
    \<open>ReviewFindings\<close> holds runs whose outcome is not what the code means to do.

  \<^bold>\<open>Conventions.\<close> A struct is a record whose fields carry a prefix (\<open>pe_\<close> for \<open>PackageEntry\<close>),
  an enum a datatype. A panic (an index out of range, an \<open>unwrap\<close> of \<open>None\<close>) is \<open>None\<close> of
  \<open>'a panics\<close>, and every function that may panic returns one. A \<open>HashMap\<close> is an association
  list in insertion order, read through a permutation of its keys that the environment supplies
  (\<open>env_order\<close>): what holds for every legal environment holds for every iteration order. A
  \<open>HashSet\<close> that is only sorted or asked for membership is a list. Strings are UTF-8 bytes;
  \<open>to_lowercase\<close> folds ASCII letters only. \<open>i32\<close> and \<open>u32\<close> values are integers written through
  casts with their wrap-around; \<open>u64\<close> sizes are words.

  \<^bold>\<open>Parameters.\<close> Of the libraries the code calls, the SHA-256 digest, the JSON serializer and
  the clock are parameters; nothing is assumed of them but that they are functions
  (\<open>same_functions\<close> compares two environments by them). The derived \<open>Debug\<close> text of an item in
  an error message is a parameter too, and so are parsing and printing of JSON and the decoding
  of a user decision. The state of a session keeps of the cached view the counts per
  repository, which the operations read back; the view itself (\<open>refined_view_of\<close>) is a function
  of the state, and the one place where it writes its decisions back to the packages
  (\<open>sync_classified\<close>) restores those of the projection. No loop of the model needs fuel: each is
  a fold over a list.

  \<^bold>\<open>The renderers.\<close> A renderer returns the list of its lines. A line is inert when it is empty or
  a comment and holds no line feed; a property that a value of the scanned host cannot become an
  instruction says that every line is inert or one of the lines that were proved. The short hash
  of a path and the cast of a JSON number to \<open>u32\<close> are parameters. The text of \<open>{:?}\<close> is exact on
  ASCII.

  \<^bold>\<open>Not modelled.\<close> Serialization attributes and the text of \<open>Display\<close> implementations; the
  collectors, the other sections of the Containerfile, the reports, the configuration tree, the
  redaction engine, the command line and the web server. Of the refine crate: the line diff of two
  variants, which a third-party crate computes, the reference projection, uploaded RPMs, the file
  I/O of autosave and of tarballs, and the export.
\<close>

section \<open>The merge as a whole\<close>

lemma merged_hostnames_distinct:
  assumes "legal_env E" "avr_errors (validate_snapshots E snaps) = []"
  shows "distinct (map extract_hostname snaps)"
  using validate_ok_iff [OF assms(1), of snaps] assms(2) by blast

lemma merge_succeeds:
  assumes "legal_env E" "hashes_consistent snaps" "avr_errors (validate_snapshots E snaps) = []"
  obtains merged where "merge_snapshots E now snaps label ov = Some (Inr (merged, avr_warnings (validate_snapshots E snaps)))"
proof -
  obtain r where "merge_snapshots E now snaps label ov = Some r"
    using merge_snapshots_total_aux [OF assms(1,2), of now label ov] by blast
  moreover from this have "\<not> isl r" using assms(3) by (auto simp: merge_snapshots_def Let_def)
  ultimately show thesis using that merge_snapshots_Inr [of E now snaps label ov]
    by (cases r) (auto simp: isl_def)
qed

text \<open>Two hosts with a kernel section each.\<close>

definition demo_snapshots :: "inspection_snapshot list" where
  "demo_snapshots = [demo_snapshot ''h2'', demo_snapshot ''h1'']"

lemma demo_snapshots_valid: "legal_env E \<Longrightarrow> avr_errors (validate_snapshots E demo_snapshots) = []"
  unfolding demo_snapshots_def
  by (subst validate_ok_iff, assumption)
    (auto simp: demo_snapshot_def snapshot_new_def extract_hostname_def extract_meta_string_def less_Suc_eq
      extract_architecture_def extract_os_major_version_def is_empty_snapshot_def)

lemma demo_snapshots_hashes: "hashes_consistent demo_snapshots"
  by (simp add: hashes_consistent_def demo_snapshots_def demo_snapshot_def snapshot_new_def)

text \<open>C6. A merge that succeeds is a function of the set of snapshots: neither the order in which
  the snapshots are given nor the iteration order of the hash maps changes the merged snapshot
  or the warnings.\<close>

theorem merge_snapshots_deterministic:
  assumes "legal_env E" "legal_env E'" "same_functions E E'" "mset snaps = mset snaps'"
    and "merge_snapshots E now snaps label ov = Some (Inr result)"
    and "merge_snapshots E' now snaps' label ov = Some (Inr result')"
  shows "result = result'"
proof -
  obtain merged w merged' w' where r: "result = (merged, w)" "result' = (merged', w')" by fastforce
  note inr = assms(5,6) [unfolded r merge_snapshots_Inr]
  have "sorted_hosts snaps = sorted_hosts snaps'"
    using merged_hostnames_distinct [OF assms(1)] inr(1) by (intro sorted_hosts_perm assms(4)) blast
  then have "merged = merged'"
    using inr merge_sorted_order [OF assms(1-3)] by simp
  then show ?thesis using inr warnings_perm [OF assms(1,2,4)] by (simp add: r)
qed

theorem merge_snapshots_deterministic_witness:
  "\<exists>result. merge_snapshots demo_env ''now'' demo_snapshots None None = Some (Inr result)
    \<and> merge_snapshots (demo_env\<lparr>env_order := rev\<rparr>) ''now'' (rev demo_snapshots) None None = Some (Inr result)"
proof -
  let ?E = "demo_env\<lparr>env_order := rev\<rparr>"
  have legal: "legal_env ?E" "same_functions demo_env ?E"
    by (simp_all add: legal_env_def demo_env_def same_functions_def)
  have perm: "mset demo_snapshots = mset (rev demo_snapshots)" by simp
  obtain m where m: "merge_snapshots demo_env ''now'' demo_snapshots None None
      = Some (Inr (m, avr_warnings (validate_snapshots demo_env demo_snapshots)))"
    by (rule merge_succeeds [OF demo_env_legal demo_snapshots_hashes demo_snapshots_valid [OF demo_env_legal]])
  have "hashes_consistent (rev demo_snapshots)" "avr_errors (validate_snapshots ?E (rev demo_snapshots)) = []"
    using demo_snapshots_hashes validate_ok_iff [OF legal(1), of "rev demo_snapshots"]
    by (simp_all add: hashes_consistent_def demo_snapshots_def demo_snapshot_def snapshot_new_def extract_hostname_def
        extract_meta_string_def less_Suc_eq extract_architecture_def extract_os_major_version_def is_empty_snapshot_def)
  then obtain m' where m': "merge_snapshots ?E ''now'' (rev demo_snapshots) None None
      = Some (Inr (m', avr_warnings (validate_snapshots ?E (rev demo_snapshots))))"
    by (rule merge_succeeds [OF legal(1)])
  show ?thesis
    using merge_snapshots_deterministic [OF demo_env_legal legal perm m m'] m m' by auto
qed

text \<open>C7. When every path has content hashes on all hosts or on none, the merge does not panic:
  it either reports the errors of the validation, or returns a merged snapshot with its
  warnings.\<close>

theorem merge_snapshots_total:
  assumes "legal_env E" "hashes_consistent snaps"
  shows "\<exists>r. merge_snapshots E now snaps label ov = Some r
    \<and> (case r of Inl errors \<Rightarrow> errors = avr_errors (validate_snapshots E snaps) \<and> errors \<noteq> []
       | Inr (merged, warnings) \<Rightarrow> avr_errors (validate_snapshots E snaps) = []
           \<and> warnings = avr_warnings (validate_snapshots E snaps))"
  using merge_snapshots_total_aux [OF assms, of now label ov]
  by (auto simp: merge_snapshots_def Let_def split: if_splits)

theorem merge_snapshots_total_witness:
  "\<exists>merged. merge_snapshots demo_env ''now'' demo_snapshots None None
     = Some (Inr (merged, avr_warnings (validate_snapshots demo_env demo_snapshots)))"
proof -
  obtain r where "merge_snapshots demo_env ''now'' demo_snapshots None None = Some r"
    "case r of Inl errors \<Rightarrow> errors = avr_errors (validate_snapshots demo_env demo_snapshots) \<and> errors \<noteq> []
       | Inr (merged, warnings) \<Rightarrow> avr_errors (validate_snapshots demo_env demo_snapshots) = []
           \<and> warnings = avr_warnings (validate_snapshots demo_env demo_snapshots)"
    using merge_snapshots_total [OF demo_env_legal demo_snapshots_hashes, of "''now''" None None] by blast
  then show ?thesis using demo_snapshots_valid [OF demo_env_legal] by (cases r) auto
qed

lemma present_merged:
  assumes "merge_sorted E now snaps hn label ov = Some merged" "(name, present) \<in> set section_checkers"
  shows "present merged \<longleftrightarrow> (\<exists>s \<in> set snaps. present s)"
proof -
  note fields = merge_sorted_fields [OF assms(1)]
  obtain r where "merge_rpm_sections E (map snap_rpm snaps) (length snaps) hn
      (find_baseline_host_idx snaps (snap_target_image merged)) = Some r" "snap_rpm merged = map_option fst r"
    using fields(6) by blast
  then have rpm: "snap_rpm merged \<noteq> None \<longleftrightarrow> (\<exists>s \<in> set snaps. snap_rpm s \<noteq> None)"
    using rpm_result(1) by (simp only: all_none_map map_option_is_None) simp
  note present = config_present [OF fields(7)] service_present [OF fields(8)] network_present [OF fields(9)]
    storage_present [OF fields(10)] scheduled_present [OF fields(11)] container_present [OF fields(12)]
    nonrpm_present [OF fields(13)] unmanaged_file_present [OF fields(14)] kernelboot_present [OF fields(15)]
    selinux_present [OF fields(16)] usersgroups_present [of E "map snap_users_groups snaps", folded fields(17)]
  from assms(2) show ?thesis
    unfolding section_checkers_def list.set
    by (elim insertE emptyE Pair_inject; hypsubst)
      (simp_all only: not_not simp_thms rpm present all_none_map)
qed

text \<open>The merged snapshot records the hosts in sorted order, each once, and their number. For
  every one of the twelve sections, the section is present in the result exactly when some host
  has it, and then the recorded host count is the number of hosts that have it.\<close>

theorem merged_hosts_and_sections:
  assumes "legal_env E" "merge_snapshots E now snaps label ov = Some (Inr (merged, warnings))"
  shows "\<exists>meta. snap_aggregate_meta merged = Some meta
    \<and> am_host_count meta = length snaps \<and> am_hostnames meta = sort (map extract_hostname snaps)
    \<and> distinct (am_hostnames meta)
    \<and> (\<forall>(name, present) \<in> set section_checkers.
         am_section_host_counts meta name = (if present merged then Some (length (filter present snaps)) else None)
         \<and> (present merged \<longleftrightarrow> (\<exists>s \<in> set snaps. present s)))"
proof -
  let ?ms = "map snd (sorted_hosts snaps)" and ?hn = "map fst (sorted_hosts snaps)"
  have ok: "avr_errors (validate_snapshots E snaps) = []"
    and run: "merge_sorted E now ?ms ?hn label ov = Some merged"
    using assms(2) unfolding merge_snapshots_Inr by blast+
  have ms: "mset ?ms = mset snaps" by (rule sorted_hosts_simps(3))
  have "mset ?hn = mset (map extract_hostname snaps)"
    using ms by (simp only: sorted_hosts_simps(4) mset_map)
  then have hn: "?hn = sort (map extract_hostname snaps)"
    using sorted_hosts_simps(2) by (metis properties_for_sort)
  have counts: "compute_section_host_counts ?ms name = (if present merged then Some (length (filter present snaps)) else None)
      \<and> (present merged \<longleftrightarrow> (\<exists>s \<in> set snaps. present s))"
    if c: "(name, present) \<in> set section_checkers" for name present
  proof -
    have "mset (filter present ?ms) = mset (filter present snaps)" using ms by (simp only: mset_filter)
    then have "length (filter present ?ms) = length (filter present snaps)" by (metis size_mset)
    then show ?thesis
      using section_host_count [OF c, of ?ms] present_merged [OF run c] unfolding mset_eq_setD [OF ms] by simp
  qed
  have dist: "distinct (sort (map extract_hostname snaps))"
    using merged_hostnames_distinct [OF assms(1) ok] by simp
  show ?thesis
    unfolding merge_sorted_fields(5) [OF run] hn
    by (intro exI conjI, rule refl) (use counts dist in \<open>auto simp: sorted_hosts_simps(1)\<close>)
qed

text \<open>The merge of the two example hosts.\<close>

lemma demo_merge:
  obtains merged warnings where "merge_snapshots demo_env ''now'' demo_snapshots None None = Some (Inr (merged, warnings))"
  by (rule merge_succeeds [OF demo_env_legal demo_snapshots_hashes demo_snapshots_valid [OF demo_env_legal]])

theorem merged_hosts_and_sections_witness:
  "\<exists>merged warnings meta. merge_snapshots demo_env ''now'' demo_snapshots None None = Some (Inr (merged, warnings))
     \<and> snap_aggregate_meta merged = Some meta \<and> am_hostnames meta = [''h1'', ''h2'']"
proof -
  obtain merged warnings where m: "merge_snapshots demo_env ''now'' demo_snapshots None None = Some (Inr (merged, warnings))"
    by (rule demo_merge)
  have "sort (map extract_hostname demo_snapshots) = [''h1'', ''h2'']"
    by (simp add: demo_snapshots_def demo_snapshot_def snapshot_new_def extract_hostname_def extract_meta_string_def)
  then show ?thesis using merged_hosts_and_sections [OF demo_env_legal m] m by auto
qed

text \<open>The baseline of the merged snapshot and the baseline fields of its RPM section come
  from one host: the first, in the order of host names, whose target image is the selected
  one and that has baseline data. Without such a host they are all absent.\<close>

theorem baseline_from_one_host:
  assumes "merge_snapshots E now snaps label ov = Some (Inr (merged, warnings))"
  shows "\<exists>idx. let hosts = map snd (sorted_hosts snaps) in
    snap_baseline merged = Option.bind idx (\<lambda>i. snap_baseline (hosts ! i))
    \<and> (\<forall>rpm. snap_rpm merged = Some rpm \<longrightarrow>
         rpm_base_image rpm = Option.bind idx (\<lambda>i. Option.bind (snap_rpm (hosts ! i)) rpm_base_image)
         \<and> rpm_baseline_package_names rpm = Option.bind idx (\<lambda>i. Option.bind (snap_rpm (hosts ! i)) rpm_baseline_package_names)
         \<and> rpm_baseline_module_streams rpm = Option.bind idx (\<lambda>i. Option.bind (snap_rpm (hosts ! i)) rpm_baseline_module_streams))
    \<and> (\<forall>i. idx = Some i \<longleftrightarrow> i < length hosts
         \<and> (\<exists>ti. snap_target_image merged = Some ti \<and> has_baseline_for (ti_image_ref ti) (hosts ! i)
              \<and> (\<forall>j < i. \<not> has_baseline_for (ti_image_ref ti) (hosts ! j))))"
proof -
  let ?ms = "map snd (sorted_hosts snaps)" and ?hn = "map fst (sorted_hosts snaps)"
  have run: "merge_sorted E now ?ms ?hn label ov = Some merged"
    using assms unfolding merge_snapshots_Inr by blast
  note fields = merge_sorted_fields [OF run]
  let ?idx = "find_baseline_host_idx ?ms (snap_target_image merged)"
  have idx: "?idx = Some i \<longleftrightarrow> i < length ?ms \<and> (\<exists>ti. snap_target_image merged = Some ti
      \<and> has_baseline_for (ti_image_ref ti) (?ms ! i) \<and> (\<forall>j < i. \<not> has_baseline_for (ti_image_ref ti) (?ms ! j)))" for i
    unfolding find_baseline_host_idx_def bind_eq_Some_conv position_Some by blast
  obtain r where r: "merge_rpm_sections E (map snap_rpm ?ms) (length ?ms) ?hn ?idx = Some r"
    "snap_rpm merged = map_option fst r" using fields(6) by blast
  have bho: "Option.bind ?idx (\<lambda>i. baseline_host_option (map snap_rpm ?ms) i f)
      = Option.bind ?idx (\<lambda>i. Option.bind (snap_rpm (?ms ! i)) f)" for f :: "rpm_section \<Rightarrow> 'x option"
  proof (cases ?idx)
    case (Some a)
    then have "a < length ?ms" using idx [of a] by blast
    then show ?thesis unfolding Some by (simp add: baseline_host_option_def)
  qed simp
  have "rpm_base_image rpm = Option.bind ?idx (\<lambda>i. Option.bind (snap_rpm (?ms ! i)) rpm_base_image)
         \<and> rpm_baseline_package_names rpm = Option.bind ?idx (\<lambda>i. Option.bind (snap_rpm (?ms ! i)) rpm_baseline_package_names)
         \<and> rpm_baseline_module_streams rpm = Option.bind ?idx (\<lambda>i. Option.bind (snap_rpm (?ms ! i)) rpm_baseline_module_streams)"
    if rpm: "snap_rpm merged = Some rpm" for rpm
  proof -
    obtain conflicts where "r = Some (rpm, conflicts)" using r(2) rpm by (cases r) auto
    from rpm_result(2) [OF r(1) this] show ?thesis unfolding bho by blast
  qed
  then show ?thesis
    unfolding Let_def using fields(2) idx by (intro exI [of _ ?idx] conjI allI impI) (simp_all only: select_baseline_position)
qed

theorem baseline_from_one_host_witness:
  "\<exists>merged warnings. merge_snapshots demo_env ''now'' demo_snapshots None None = Some (Inr (merged, warnings))
     \<and> (\<exists>idx. snap_baseline merged = Option.bind idx (\<lambda>i. snap_baseline (map snd (sorted_hosts demo_snapshots) ! i)))"
proof -
  obtain merged warnings where m: "merge_snapshots demo_env ''now'' demo_snapshots None None = Some (Inr (merged, warnings))"
    by (rule demo_merge)
  then show ?thesis using baseline_from_one_host [OF m] unfolding Let_def by blast
qed

text \<open>Without an override, the target image of the merge is one that a host has, with that
  host's strategy; no image is named by more hosts, and of those named by as many it is the
  alphabetically first. The baseline is provisional exactly when the hosts name different
  images. An override is taken as it is and is never provisional.\<close>

theorem target_image_majority:
  assumes "legal_env E"
  shows "select_target_image E snaps (Some r) = (Some \<lparr> ti_image_ref = r, ti_strategy = CliOverride \<rparr>, False)
    \<and> (case select_target_image E snaps None of
         (None, provisional) \<Rightarrow> image_refs snaps = [] \<and> \<not> provisional
       | (Some ti, provisional) \<Rightarrow>
           (\<exists>s \<in> set snaps. snap_target_image s = Some ti)
           \<and> (\<forall>r \<in> set (image_refs snaps). count_list (image_refs snaps) r < count_list (image_refs snaps) (ti_image_ref ti)
                \<or> count_list (image_refs snaps) r = count_list (image_refs snaps) (ti_image_ref ti) \<and> ti_image_ref ti \<le> r)
           \<and> (provisional \<longleftrightarrow> (\<exists>r \<in> set (image_refs snaps). r \<noteq> ti_image_ref ti)))"
proof -
  obtain t provisional where sel: "select_target_image E snaps None = (t, provisional)" by fastforce
  show ?thesis
  proof (cases t)
    case None
    then have "image_refs snaps = []" using select_target_image_none [OF assms, of snaps] sel by simp
    moreover have "\<not> provisional"
      using sel None by (cases "rank_images E snaps") (auto simp: select_target_image_def Let_def)
    ultimately show ?thesis unfolding sel None by (simp add: select_target_image_def)
  next
    case (Some ti)
    show ?thesis
      using select_target_image_choice [OF assms sel [unfolded Some]]
      unfolding sel Some by (simp add: select_target_image_def)
  qed
qed

definition demo_imaged :: "string \<Rightarrow> inspection_snapshot" where
  "demo_imaged r = snapshot_new\<lparr> snap_target_image := Some \<lparr> ti_image_ref = r, ti_strategy = UniversalBlue \<rparr> \<rparr>"

theorem target_image_majority_witness:
  "\<exists>ti. fst (select_target_image demo_env [demo_imaged ''b'', demo_imaged ''a'', demo_imaged ''b''] None) = Some ti
     \<and> ti_image_ref ti = ''b''"
proof -
  let ?ss = "[demo_imaged ''b'', demo_imaged ''a'', demo_imaged ''b'']"
  have refs: "image_refs ?ss = [''b'', ''a'', ''b'']"
    by (simp add: image_refs_def demo_imaged_def snapshot_new_def List.map_filter_simps)
  obtain t provisional where sel: "select_target_image demo_env ?ss None = (t, provisional)" by fastforce
  obtain ti where t: "t = Some ti"
    using target_image_majority [OF demo_env_legal, of ?ss "[]"] refs by (cases t) (auto simp: sel)
  have "\<forall>r \<in> set [''b'', ''a'', ''b'']. count_list [''b'', ''a'', ''b''] r < count_list [''b'', ''a'', ''b''] (ti_image_ref ti)
      \<or> count_list [''b'', ''a'', ''b''] r = count_list [''b'', ''a'', ''b''] (ti_image_ref ti) \<and> ti_image_ref ti \<le> r"
    using target_image_majority [OF demo_env_legal, of ?ss "[]"] unfolding sel t refs by simp
  then have "ti_image_ref ti = ''b''" by (auto split: if_splits)
  then show ?thesis using sel t by simp
qed

text \<open>The merged completeness is \<open>Incomplete\<close> exactly when some host is, and otherwise
  \<open>Partial\<close> exactly when some host is. It names, once each, every inspector that failed or was
  degraded on some host (on the partial hosts as well when some host is incomplete).\<close>

theorem completeness_is_union:
  "case merge_completeness snaps of
     Complete \<Rightarrow> \<forall>s \<in> set snaps. snap_completeness s = Complete
   | Partial degraded _ \<Rightarrow> \<not> (\<exists>s \<in> set snaps. is_incomplete (snap_completeness s))
       \<and> (\<exists>s \<in> set snaps. is_partial (snap_completeness s))
       \<and> distinct degraded \<and> set degraded = (\<Union>s \<in> set snaps. degraded_of (snap_completeness s))
   | Incomplete failed degraded _ \<Rightarrow> (\<exists>s \<in> set snaps. is_incomplete (snap_completeness s))
       \<and> distinct failed \<and> set failed = (\<Union>s \<in> set snaps. failed_of (snap_completeness s))
       \<and> distinct degraded \<and> set degraded = (\<Union>s \<in> set snaps. degraded_of (snap_completeness s))"
proof -
  note fold = completeness_fold [of completeness_init "map snap_completeness snaps"]
  have comp: "c = Complete" if "\<not> is_incomplete c" "\<not> is_partial c" for c
    using that by (cases c) (simp_all add: is_incomplete_def is_partial_def)
  show ?thesis
    using fold comp unfolding merge_completeness_def Let_def by (auto simp: completeness_init_def)
qed

theorem completeness_is_union_witness:
  "\<exists>failed degraded r. merge_completeness [snapshot_new\<lparr>snap_completeness := Incomplete [InsRpm] [] ''x''\<rparr>,
       snapshot_new\<lparr>snap_completeness := Partial [InsConfig] ''y''\<rparr>] = Incomplete failed degraded r
     \<and> set failed = {InsRpm} \<and> set degraded = {InsConfig}"
proof -
  let ?ss = "[snapshot_new\<lparr>snap_completeness := Incomplete [InsRpm] [] ''x''\<rparr>,
       snapshot_new\<lparr>snap_completeness := Partial [InsConfig] ''y''\<rparr>]"
  show ?thesis
    using completeness_is_union [of ?ss]
    by (cases "merge_completeness ?ss") (simp_all add: is_incomplete_def failed_of_def degraded_of_def)
qed

text \<open>The merged subscription is that of one host with complete subscription data, if there is
  one: the host whose certificates expire last (a known expiry goes before an unknown one),
  and of those with the same expiry the one with the least host name.\<close>

theorem subscription_latest_expiry:
  "case merge_subscription snaps of
     None \<Rightarrow> subscription_candidates snaps = []
   | Some sub \<Rightarrow> \<exists>s \<in> set snaps. snap_subscription s = Some sub \<and> \<not> sub_incomplete sub
       \<and> (\<forall>t \<in> set (subscription_candidates snaps). subscription_beats s t)"
proof (cases "max_by subscription_cmp (subscription_candidates snaps)")
  case None
  then show ?thesis by (auto simp: merge_subscription_def max_by_def split: list.splits)
next
  case (Some s)
  note best = max_by_beats [OF Some]
  then obtain sub where "s \<in> set snaps" "snap_subscription s = Some sub" "\<not> sub_incomplete sub"
    by (auto simp: subscription_candidates_def split: option.splits)
  then show ?thesis using best(2) Some by (auto simp: merge_subscription_def)
qed

definition demo_subscribed :: "int \<Rightarrow> inspection_snapshot" where
  "demo_subscribed expiry = snapshot_new\<lparr> snap_subscription := Some \<lparr> sub_entitlement_certs = [],
     sub_ca_certs = [], sub_config_files = [], sub_earliest_expiry = Some expiry, sub_incomplete = False,
     sub_org_id = None, sub_system_uuid = None, sub_rhsm_server = None, sub_source_hostname = None \<rparr> \<rparr>"

theorem subscription_latest_expiry_witness:
  "\<exists>sub. merge_subscription [demo_subscribed 1, demo_subscribed 5] = Some sub \<and> sub_earliest_expiry sub = Some 5"
proof -
  let ?ss = "[demo_subscribed 1, demo_subscribed 5]"
  have cand: "subscription_candidates ?ss = ?ss"
    by (simp add: subscription_candidates_def demo_subscribed_def)
  then obtain sub s where sub: "merge_subscription ?ss = Some sub" "s \<in> set ?ss" "snap_subscription s = Some sub"
    "\<forall>t \<in> set ?ss. subscription_beats s t"
    using subscription_latest_expiry [of ?ss] unfolding cand by (auto split: option.splits)
  then have "subscription_beats s (demo_subscribed 5)" by simp
  then have "s = demo_subscribed 5" using sub(2) by (auto simp: subscription_beats_def demo_subscribed_def)
  then show ?thesis using sub(1,3) by (auto simp: demo_subscribed_def)
qed

end
